(* ===== verification/Go_Base.thy ===== *)
theory Go_Base
  imports Main "HOL-Library.Char_ord" "HOL-Library.List_Lexorder" "HOL-Library.Sublist"
    "HOL-Library.Multiset"
begin

text \<open>
  The prelude of the development: the parts of Go and of its standard library that the
  components share.
  \<^item> Errors. Every \<^verbatim>\<open>error\<close> of the program is a value of \<open>goerr\<close>:
    \<open>Errorf f args\<close> is \<^verbatim>\<open>errors.New(f)\<close> or \<^verbatim>\<open>fmt.Errorf(f, args...)\<close>, \<open>Wrapf f args e\<close> is an
    \<^verbatim>\<open>fmt.Errorf\<close> whose last argument is wrapped by \<^verbatim>\<open>%w\<close>, and the sentinels are constructors. A
    function that returns \<^verbatim>\<open>(T, error)\<close> has the type \<open>goerr + T\<close>.
  \<^item> Sequences of checks (\<open>first_err\<close>), loops with early return over a list (\<open>checks\<close>,
    \<open>foldE\<close>).
  \<^item> Strings as byte lists: \<^verbatim>\<open>strings.TrimSpace\<close>, \<^verbatim>\<open>strings.Fields\<close>, \<^verbatim>\<open>strings.Split\<close>,
    \<^verbatim>\<open>strings.Join\<close>, \<^verbatim>\<open>strings.Contains\<close>, \<^verbatim>\<open>strconv.Itoa\<close>, \<^verbatim>\<open>strconv.Quote\<close>, \<^verbatim>\<open>%08x\<close>.
  \<^item> \<^verbatim>\<open>sort.Slice\<close> with the source's comparator (\<open>sort_slice\<close>) and what it returns.
\<close>

named_theorems go_eval \<open>equations that evaluate the model on concrete inputs\<close>
named_theorems go_split \<open>case analysis of the error combinators\<close>

section \<open>Errors and results\<close>

datatype goerr =
    Errorf string "string list"
  | Wrapf string "string list" goerr
  | Joined goerr goerr
  | ErrNoRows
  | ErrNotExist
  | ApplyExecutionError goerr
  | External string
  | Sentinel string

type_synonym 'a result = "goerr + 'a"

abbreviation Err :: "goerr \<Rightarrow> 'a result" where "Err e \<equiv> Inl e"
abbreviation Ok :: "'a \<Rightarrow> 'a result" where "Ok x \<equiv> Inr x"

text \<open>\<^verbatim>\<open>errors.Is(err, sentinel)\<close>: the chain of wrapped errors is searched.\<close>

fun errors_is :: "goerr \<Rightarrow> goerr \<Rightarrow> bool" where
  "errors_is (Wrapf f as e) t = (Wrapf f as e = t \<or> errors_is e t)"
| "errors_is (Joined a b) t = (Joined a b = t \<or> errors_is a t \<or> errors_is b t)"
| "errors_is (ApplyExecutionError e) t = (ApplyExecutionError e = t \<or> errors_is e t)"
| "errors_is e t = (e = t)"

fun bindE :: "'a result \<Rightarrow> ('a \<Rightarrow> 'b result) \<Rightarrow> 'b result" where
  "bindE (Inl e) f = Inl e"
| "bindE (Inr x) f = f x"

lemma bindE_eq_Ok [go_split]: "bindE m f = Inr y \<longleftrightarrow> (\<exists>x. m = Inr x \<and> f x = Inr y)"
  by (cases m) auto

lemma bindE_eq_Err: "bindE m f = Inl e \<longleftrightarrow> m = Inl e \<or> (\<exists>x. m = Inr x \<and> f x = Inl e)"
  by (cases m) auto

text \<open>A sequence of \<^verbatim>\<open>if cond { return err }\<close> statements: the first error wins.\<close>

definition refuse :: "bool \<Rightarrow> goerr \<Rightarrow> goerr option" where
  "refuse b e = (if b then Some e else None)"

lemma refuse_None [simp]: "refuse b e = None \<longleftrightarrow> \<not> b"
  by (simp add: refuse_def)

lemma refuse_simps [simp]: "refuse True e = Some e" "refuse False e = None"
  by (simp_all add: refuse_def)

fun first_err :: "goerr option list \<Rightarrow> goerr option" where
  "first_err [] = None"
| "first_err (None # es) = first_err es"
| "first_err (Some e # es) = Some e"

lemma first_err_None [simp]: "first_err es = None \<longleftrightarrow> (\<forall>e \<in> set es. e = None)"
  by (induction es rule: first_err.induct) auto

text \<open>A loop that returns the error of the first element it refuses.\<close>

fun checks :: "('a \<Rightarrow> goerr option) \<Rightarrow> 'a list \<Rightarrow> goerr option" where
  "checks f [] = None"
| "checks f (x # xs) = (case f x of Some e \<Rightarrow> Some e | None \<Rightarrow> checks f xs)"

lemma checks_None [simp]: "checks f xs = None \<longleftrightarrow> (\<forall>x \<in> set xs. f x = None)"
  by (induction xs) (auto split: option.splits)

text \<open>A loop with an accumulator and early return.\<close>

fun foldE :: "('s \<Rightarrow> 'a \<Rightarrow> 's result) \<Rightarrow> 's \<Rightarrow> 'a list \<Rightarrow> 's result" where
  "foldE f s [] = Inr s"
| "foldE f s (x # xs) = (case f s x of Inl e \<Rightarrow> Inl e | Inr s' \<Rightarrow> foldE f s' xs)"

lemma foldE_Cons_Ok: "foldE f s (x # xs) = Inr t \<longleftrightarrow> (\<exists>s'. f s x = Inr s' \<and> foldE f s' xs = Inr t)"
  by (auto split: sum.splits)

lemma foldE_invariant:
  assumes "foldE f s xs = Inr t" and "I s"
    and "\<And>s x s'. x \<in> set xs \<Longrightarrow> I s \<Longrightarrow> f s x = Inr s' \<Longrightarrow> I s'"
  shows "I t"
  using assms
proof (induction xs arbitrary: s)
  case (Cons x xs)
  from Cons.prems(1) obtain s' where s': "f s x = Inr s'" "foldE f s' xs = Inr t"
    by (auto split: sum.splits)
  with Cons.prems(2,3) have "I s'" by (meson list.set_intros(1))
  with s' Cons.IH Cons.prems(3) show ?case by (meson list.set_intros(2))
qed simp

lemma foldE_each: "foldE f s xs = Inr t \<Longrightarrow> x \<in> set xs \<Longrightarrow> \<exists>u u'. f u x = Inr u'"
  by (induction xs arbitrary: s) (auto split: sum.splits)

text \<open>A loop that collects keys and refuses one it has seen: the keys of the list are distinct.\<close>

lemma foldE_keys:
  assumes "foldE f s xs = Inr t"
    and "\<And>u x u'. f u x = Inr u' \<Longrightarrow> keys u' = key x # keys u \<and> key x \<notin> set (keys u)"
  shows "keys t = rev (map key xs) @ keys s \<and> distinct (map key xs) \<and> (\<forall>x \<in> set xs. key x \<notin> set (keys s))"
  using assms(1)
proof (induction xs arbitrary: s)
  case (Cons x xs)
  then obtain s' where s': "f s x = Inr s'" "foldE f s' xs = Inr t" by (auto split: sum.splits)
  from assms(2) [OF s'(1)] Cons.IH [OF s'(2)] show ?case by auto
qed simp

definition err_of :: "'a result \<Rightarrow> goerr option" where
  "err_of r = (case r of Inl e \<Rightarrow> Some e | Inr _ \<Rightarrow> None)"

lemma err_of_None [simp]: "err_of r = None \<longleftrightarrow> (\<exists>x. r = Inr x)"
  by (simp add: err_of_def split: sum.splits)

lemma err_of_simps [simp]: "err_of (Inl e) = Some e" "err_of (Inr x) = None"
  by (simp_all add: err_of_def)

section \<open>Bytes and strings\<close>

definition byte :: "char \<Rightarrow> nat" where
  "byte c = of_char c"

definition is_digit :: "char \<Rightarrow> bool" where
  "is_digit c \<longleftrightarrow> 48 \<le> byte c \<and> byte c \<le> 57"

definition is_lower :: "char \<Rightarrow> bool" where
  "is_lower c \<longleftrightarrow> 97 \<le> byte c \<and> byte c \<le> 122"

definition is_upper :: "char \<Rightarrow> bool" where
  "is_upper c \<longleftrightarrow> 65 \<le> byte c \<and> byte c \<le> 90"

definition is_letter :: "char \<Rightarrow> bool" where
  "is_letter c \<longleftrightarrow> is_lower c \<or> is_upper c"

definition is_alnum :: "char \<Rightarrow> bool" where
  "is_alnum c \<longleftrightarrow> is_letter c \<or> is_digit c"

definition digit_val :: "char \<Rightarrow> nat" where
  "digit_val c = byte c - 48"

lemmas char_class_defs [go_eval] =
  byte_def is_digit_def is_lower_def is_upper_def is_letter_def is_alnum_def digit_val_def

abbreviation NL :: string where "NL \<equiv> [CHR 0x0A]"
abbreviation dquote :: string where "dquote \<equiv> [CHR 0x22]"

text \<open>\<^verbatim>\<open>strings.Contains\<close>, \<^verbatim>\<open>strings.HasPrefix\<close>, \<^verbatim>\<open>strings.HasSuffix\<close>, \<^verbatim>\<open>strings.ContainsAny\<close>.\<close>

definition has_prefix :: "string \<Rightarrow> string \<Rightarrow> bool" where
  "has_prefix s p = prefix p s"

definition has_suffix :: "string \<Rightarrow> string \<Rightarrow> bool" where
  "has_suffix s p = prefix (rev p) (rev s)"

fun contains_str :: "string \<Rightarrow> string \<Rightarrow> bool" where
  "contains_str [] p = (p = [])"
| "contains_str (c # s) p = (prefix p (c # s) \<or> contains_str s p)"

definition contains_any :: "string \<Rightarrow> string \<Rightarrow> bool" where
  "contains_any s chars = list_ex (\<lambda>c. c \<in> set chars) s"

lemmas string_test_defs [go_eval] = has_prefix_def has_suffix_def contains_any_def

lemma contains_any_iff: "contains_any s cs \<longleftrightarrow> (\<exists>c \<in> set s. c \<in> set cs)"
  by (simp add: contains_any_def list_ex_iff)

lemma contains_str_iff_sublist: "contains_str s p \<longleftrightarrow> sublist p s"
  by (induction s) (auto simp: sublist_Cons_right)

text \<open>\<^verbatim>\<open>strings.Split(s, string(sep))\<close> for a one-byte separator, and \<^verbatim>\<open>strings.Join\<close>.\<close>

fun split_on :: "char \<Rightarrow> string \<Rightarrow> string list" where
  "split_on sep [] = [[]]"
| "split_on sep (c # s) =
     (if c = sep then [] # split_on sep s
      else (case split_on sep s of [] \<Rightarrow> [[c]] | w # ws \<Rightarrow> (c # w) # ws))"

lemma split_on_nonempty [simp]: "split_on sep s \<noteq> []"
  by (cases s) (auto split: list.splits)

lemma split_on_none: "sep \<notin> set a \<Longrightarrow> split_on sep a = [a]"
  by (induction a) auto

fun join_str :: "string \<Rightarrow> string list \<Rightarrow> string" where
  "join_str sep [] = []"
| "join_str sep [w] = w"
| "join_str sep (w # v # ws) = w @ sep @ join_str sep (v # ws)"

lemma join_split: "join_str [sep] (split_on sep s) = s"
proof (induction s)
  case Nil
  then show ?case by simp
next
  case (Cons c s)
  obtain w ws where w: "split_on sep s = w # ws" by (cases "split_on sep s") auto
  with Cons show ?case by (cases ws) auto
qed

text \<open>
  The UTF-8 encodings of the characters \<^verbatim>\<open>unicode.IsSpace\<close> accepts. Each starts with a byte that
  no multi-byte character continues with, so a byte-wise search finds exactly the runes.
\<close>

definition space_seqs :: "string list" where
  "space_seqs =
    [[CHR 0x20], [CHR 0x09], [CHR 0x0A], [CHR 0x0B], [CHR 0x0C], [CHR 0x0D],
     [CHR 0xC2, CHR 0x85], [CHR 0xC2, CHR 0xA0], [CHR 0xE1, CHR 0x9A, CHR 0x80],
     [CHR 0xE2, CHR 0x80, CHR 0x80], [CHR 0xE2, CHR 0x80, CHR 0x81],
     [CHR 0xE2, CHR 0x80, CHR 0x82], [CHR 0xE2, CHR 0x80, CHR 0x83],
     [CHR 0xE2, CHR 0x80, CHR 0x84], [CHR 0xE2, CHR 0x80, CHR 0x85],
     [CHR 0xE2, CHR 0x80, CHR 0x86], [CHR 0xE2, CHR 0x80, CHR 0x87],
     [CHR 0xE2, CHR 0x80, CHR 0x88], [CHR 0xE2, CHR 0x80, CHR 0x89],
     [CHR 0xE2, CHR 0x80, CHR 0x8A], [CHR 0xE2, CHR 0x80, CHR 0xA8],
     [CHR 0xE2, CHR 0x80, CHR 0xA9], [CHR 0xE2, CHR 0x80, CHR 0xAF],
     [CHR 0xE2, CHR 0x81, CHR 0x9F], [CHR 0xE3, CHR 0x80, CHR 0x80]]"

text \<open>The length of the white-space character at the head of a string, 0 if there is none.\<close>

definition space_len_in :: "string list \<Rightarrow> string \<Rightarrow> nat" where
  "space_len_in seqs s = (case find (\<lambda>q. prefix q s) seqs of None \<Rightarrow> 0 | Some q \<Rightarrow> length q)"

abbreviation space_len :: "string \<Rightarrow> nat" where
  "space_len \<equiv> space_len_in space_seqs"

lemma space_len_le: "space_len_in seqs s \<le> length s"
  by (auto simp: space_len_in_def find_Some_iff prefix_length_le split: option.splits)

function trim_left :: "string list \<Rightarrow> string \<Rightarrow> string" where
  "trim_left seqs s =
     (if space_len_in seqs s = 0 then s else trim_left seqs (drop (space_len_in seqs s) s))"
  by pat_completeness auto
termination
proof (relation "measure (\<lambda>(seqs, s). length s)")
  fix seqs :: "string list" and s
  assume "space_len_in seqs s \<noteq> 0"
  then show "((seqs, drop (space_len_in seqs s) s), (seqs, s)) \<in> measure (\<lambda>(seqs, s). length s)"
    using space_len_le [of seqs s] by auto
qed simp

declare trim_left.simps [simp del]

definition trim_space :: "string \<Rightarrow> string" where
  "trim_space s = rev (trim_left (map rev space_seqs) (rev (trim_left space_seqs s)))"

text \<open>\<^verbatim>\<open>strings.Fields\<close>: the maximal runs without white space.\<close>

function fields_aux :: "string \<Rightarrow> string \<Rightarrow> string list" where
  "fields_aux acc s =
     (case s of [] \<Rightarrow> (if acc = [] then [] else [rev acc])
      | c # cs \<Rightarrow>
         (if space_len s = 0 then fields_aux (c # acc) cs
          else (if acc = [] then [] else [rev acc]) @ fields_aux [] (drop (space_len s) s)))"
  by pat_completeness auto
termination
proof (relation "measure (\<lambda>(acc, s). length s)")
  fix acc s c cs
  assume "s = c # cs" and "space_len s \<noteq> 0"
  then show "(([], drop (space_len s) s), (acc, s)) \<in> measure (\<lambda>(acc, s). length s)"
    using space_len_le [of space_seqs s] by auto
qed auto

declare fields_aux.simps [simp del]

definition fields :: "string \<Rightarrow> string list" where
  "fields s = fields_aux [] s"

section \<open>Numbers in strings\<close>

definition digit_char :: "nat \<Rightarrow> char" where
  "digit_char d = ''0123456789abcdef'' ! d"

fun itoa :: "nat \<Rightarrow> string" where
  "itoa n = (if n < 10 then [digit_char n] else itoa (n div 10) @ [digit_char (n mod 10)])"

declare itoa.simps [simp del]

definition itoa_int :: "int \<Rightarrow> string" where
  "itoa_int i = (if i < 0 then CHR ''-'' # itoa (nat (- i)) else itoa (nat i))"

fun hex_str :: "nat \<Rightarrow> string" where
  "hex_str n = (if n < 16 then [digit_char n] else hex_str (n div 16) @ [digit_char (n mod 16)])"

declare hex_str.simps [simp del]

text \<open>\<^verbatim>\<open>%08x\<close> and \<^verbatim>\<open>%020d\<close>: left-padded with zeros.\<close>

definition pad_zero :: "nat \<Rightarrow> string \<Rightarrow> string" where
  "pad_zero w s = replicate (w - length s) (CHR ''0'') @ s"

text \<open>The value of a non-empty decimal number; \<open>None\<close> for anything else.\<close>

fun dec_digits :: "nat \<Rightarrow> string \<Rightarrow> nat option" where
  "dec_digits acc [] = Some acc"
| "dec_digits acc (c # cs) = (if is_digit c then dec_digits (10 * acc + digit_val c) cs else None)"

definition dec_value :: "string \<Rightarrow> nat option" where
  "dec_value s = (if s = [] then None else dec_digits 0 s)"

definition hex_val :: "char \<Rightarrow> nat option" where
  "hex_val c =
     (if is_digit c then Some (byte c - 48)
      else if 97 \<le> byte c \<and> byte c \<le> 102 then Some (byte c - 87)
      else if 65 \<le> byte c \<and> byte c \<le> 70 then Some (byte c - 55)
      else None)"

lemmas number_defs [go_eval] = digit_char_def itoa_int_def pad_zero_def dec_value_def hex_val_def

lemma digit_char_table:
  "d < 10 \<Longrightarrow> is_digit (digit_char d) \<and> digit_val (digit_char d) = d"
proof -
  assume "d < 10"
  then have "d \<in> {0, 1, 2, 3, 4, 5, 6, 7, 8, 9}" by auto
  then show ?thesis by (auto simp: digit_char_def char_class_defs)
qed

lemma digit_char_is_digit [simp]: "d < 10 \<Longrightarrow> is_digit (digit_char d)"
  and digit_val_digit_char [simp]: "d < 10 \<Longrightarrow> digit_val (digit_char d) = d"
  using digit_char_table by auto

lemma itoa_nonempty [simp]: "itoa n \<noteq> []"
  by (subst itoa.simps) simp

lemma itoa_digits: "\<forall>c \<in> set (itoa n). is_digit c"
proof (induction n rule: itoa.induct)
  case (1 n)
  then show ?case by (cases "n < 10") (subst itoa.simps, simp)+
qed

lemma dec_digits_append: "dec_digits acc (xs @ ys) =
    (case dec_digits acc xs of None \<Rightarrow> None | Some v \<Rightarrow> dec_digits v ys)"
  by (induction xs arbitrary: acc) auto

lemma dec_digits_itoa: "dec_digits 0 (itoa n) = Some n"
proof (induction n rule: itoa.induct)
  case (1 n)
  show ?case
  proof (cases "n < 10")
    case True
    then show ?thesis by (subst itoa.simps) simp
  next
    case False
    then show ?thesis using 1 by (subst itoa.simps) (simp add: dec_digits_append)
  qed
qed

lemma dec_value_itoa [simp]: "dec_value (itoa n) = Some n"
  by (simp add: dec_value_def dec_digits_itoa)

lemma itoa_inj: "itoa m = itoa n \<longleftrightarrow> m = n"
  using dec_value_itoa by (metis option.inject)

text \<open>
  \<^verbatim>\<open>strconv.Quote\<close> on the bytes below 0x80. The program quotes names that the configuration
  validator restricts to ASCII letters, digits and a few marks; a byte above 0x7F is kept as it is.
\<close>

definition quote_char :: "char \<Rightarrow> string" where
  "quote_char c =
     (let b = byte c in
      if b = 34 then [CHR 0x5C, CHR 0x22]
      else if b = 92 then [CHR 0x5C, CHR 0x5C]
      else if b = 7 then [CHR 0x5C, CHR ''a''] else if b = 8 then [CHR 0x5C, CHR ''b'']
      else if b = 9 then [CHR 0x5C, CHR ''t''] else if b = 10 then [CHR 0x5C, CHR ''n'']
      else if b = 11 then [CHR 0x5C, CHR ''v''] else if b = 12 then [CHR 0x5C, CHR ''f'']
      else if b = 13 then [CHR 0x5C, CHR ''r'']
      else if b < 32 \<or> b = 127 then [CHR 0x5C, CHR ''x'', digit_char (b div 16), digit_char (b mod 16)]
      else [c])"

definition quote :: "string \<Rightarrow> string" where
  "quote s = dquote @ concat (map quote_char s) @ dquote"

definition plain_char :: "char \<Rightarrow> bool" where
  "plain_char c \<longleftrightarrow> 32 \<le> byte c \<and> byte c < 127 \<and> byte c \<noteq> 34 \<and> byte c \<noteq> 92"

lemma quote_char_plain: "plain_char c \<Longrightarrow> quote_char c = [c]"
  by (simp add: plain_char_def quote_char_def Let_def)

lemma quote_plain: "list_all plain_char s \<Longrightarrow> quote s = dquote @ s @ dquote"
proof -
  assume "list_all plain_char s"
  then have "concat (map quote_char s) = s"
    by (induction s) (auto simp: quote_char_plain)
  then show ?thesis by (simp add: quote_def)
qed

text \<open>A name regular expression \<^verbatim>\<open>^[first][rest]{0,n}$\<close>.\<close>

definition name_match :: "(char \<Rightarrow> bool) \<Rightarrow> (char \<Rightarrow> bool) \<Rightarrow> nat \<Rightarrow> string \<Rightarrow> bool" where
  "name_match hd_ok tl_ok n s =
     (case s of [] \<Rightarrow> False | c # cs \<Rightarrow> hd_ok c \<and> list_all tl_ok cs \<and> length cs \<le> n)"

definition one_of :: "string \<Rightarrow> char \<Rightarrow> bool" where
  "one_of cs c = (c \<in> set cs)"

lemmas name_match_defs [go_eval] = name_match_def one_of_def

section \<open>Sorting\<close>

text \<open>
  \<^verbatim>\<open>sort.Slice(xs, less)\<close>. Go's sort moves each element left past the elements it is less than
  (that is the algorithm it uses up to twelve elements); for a strict order without ties every
  sorting algorithm returns the same list, see \<open>sort_slice_unique\<close>.
\<close>

fun ins_rev :: "('a \<Rightarrow> 'a \<Rightarrow> bool) \<Rightarrow> 'a \<Rightarrow> 'a list \<Rightarrow> 'a list" where
  "ins_rev lt x [] = [x]"
| "ins_rev lt x (y # ys) = (if lt x y then y # ins_rev lt x ys else x # y # ys)"

definition sort_slice :: "('a \<Rightarrow> 'a \<Rightarrow> bool) \<Rightarrow> 'a list \<Rightarrow> 'a list" where
  "sort_slice lt xs = rev (foldl (\<lambda>acc x. ins_rev lt x acc) [] xs)"

lemma mset_ins_rev [simp]: "mset (ins_rev lt x ys) = add_mset x (mset ys)"
  by (induction ys) auto

lemma mset_foldl_ins: "mset (foldl (\<lambda>acc x. ins_rev lt x acc) acc xs) = mset acc + mset xs"
  by (induction xs arbitrary: acc) auto

lemma mset_sort_slice [simp]: "mset (sort_slice lt xs) = mset xs"
  by (simp add: sort_slice_def mset_foldl_ins)

lemma set_sort_slice [simp]: "set (sort_slice lt xs) = set xs"
  using mset_sort_slice by (metis set_mset_mset)

lemma length_sort_slice [simp]: "length (sort_slice lt xs) = length xs"
  using mset_sort_slice by (metis size_mset)

lemma distinct_sort_slice [simp]: "distinct (sort_slice lt xs) = distinct xs"
  using mset_sort_slice by (metis mset_eq_imp_distinct_iff)

text \<open>The comparators of the program are strict weak orders: \<open>lt\<close> is asymmetric and its
  complement is transitive.\<close>

lemma ins_rev_cong:
  "(\<And>y. y \<in> set ys \<Longrightarrow> lt x y = lt' x y) \<Longrightarrow> ins_rev lt x ys = ins_rev lt' x ys"
  by (induction ys) auto

lemma sort_slice_cong:
  assumes "\<And>x y. x \<in> set xs \<Longrightarrow> y \<in> set xs \<Longrightarrow> lt x y = lt' x y"
  shows "sort_slice lt xs = sort_slice lt' xs"
proof -
  have "set acc \<subseteq> A \<Longrightarrow> set xs \<subseteq> A \<Longrightarrow> (\<And>x y. x \<in> A \<Longrightarrow> y \<in> A \<Longrightarrow> lt x y = lt' x y) \<Longrightarrow>
    foldl (\<lambda>acc x. ins_rev lt x acc) acc xs = foldl (\<lambda>acc x. ins_rev lt' x acc) acc xs" for acc A
  proof (induction xs arbitrary: acc)
    case (Cons x xs)
    have "ins_rev lt x acc = ins_rev lt' x acc" using Cons.prems by (intro ins_rev_cong) auto
    moreover have "set (ins_rev lt' x acc) \<subseteq> A"
      using Cons.prems mset_ins_rev [of lt' x acc] by (metis (no_types, lifting) insert_subset list.simps(15)
          set_mset_add_mset_insert set_mset_mset)
    ultimately show ?case using Cons by simp
  qed simp
  from this [of "[]" "set xs"] assms show ?thesis by (simp add: sort_slice_def)
qed

definition weak_order :: "('a \<Rightarrow> 'a \<Rightarrow> bool) \<Rightarrow> bool" where
  "weak_order lt \<longleftrightarrow> (\<forall>a b. lt a b \<longrightarrow> \<not> lt b a) \<and>
     (\<forall>a b c. \<not> lt b a \<longrightarrow> \<not> lt c b \<longrightarrow> \<not> lt c a)"

lemma weak_order_key: "weak_order (\<lambda>a b. (key a :: 'k::linorder) < key b)"
  by (auto simp: weak_order_def)

lemma set_ins_rev: "set (ins_rev lt x ys) = insert x (set ys)"
  using mset_ins_rev by (metis set_mset_add_mset_insert set_mset_mset)

lemma sorted_ins_rev:
  assumes wo: "weak_order lt"
  shows "sorted_wrt (\<lambda>a b. \<not> lt a b) ys \<Longrightarrow> sorted_wrt (\<lambda>a b. \<not> lt a b) (ins_rev lt x ys)"
proof (induction ys)
  case (Cons y ys)
  have trans: "\<not> lt a b \<Longrightarrow> \<not> lt b c \<Longrightarrow> \<not> lt a c" for a b c
    using wo unfolding weak_order_def by blast
  show ?case
  proof (cases "lt x y")
    case True
    then have "\<not> lt y x" using wo unfolding weak_order_def by blast
    with True Cons show ?thesis by (auto simp: set_ins_rev)
  next
    case False
    with Cons.prems trans show ?thesis by auto
  qed
qed simp

lemma sorted_foldl_ins:
  assumes "weak_order lt"
  shows "sorted_wrt (\<lambda>a b. \<not> lt a b) acc \<Longrightarrow>
    sorted_wrt (\<lambda>a b. \<not> lt a b) (foldl (\<lambda>acc x. ins_rev lt x acc) acc xs)"
  by (induction xs arbitrary: acc) (auto intro: sorted_ins_rev [OF assms])

lemma sorted_sort_slice: "weak_order lt \<Longrightarrow> sorted_wrt (\<lambda>a b. \<not> lt b a) (sort_slice lt xs)"
  by (simp add: sort_slice_def sorted_wrt_rev sorted_foldl_ins)

text \<open>Without ties the sorted order is the only one: any correct sort returns it.\<close>

lemma sort_slice_unique:
  assumes "weak_order lt" and "mset ys = mset xs" and "sorted_wrt (\<lambda>a b. \<not> lt b a) ys"
    and tot: "\<And>a b. a \<in> set xs \<Longrightarrow> b \<in> set xs \<Longrightarrow> \<not> lt a b \<Longrightarrow> \<not> lt b a \<Longrightarrow> a = b"
  shows "ys = sort_slice lt xs"
proof -
  have "zs = ys" if "mset zs = mset ys" "sorted_wrt (\<lambda>a b. \<not> lt b a) zs"
    "sorted_wrt (\<lambda>a b. \<not> lt b a) ys" "set ys \<subseteq> set xs" for ys zs
    using that
  proof (induction ys arbitrary: zs)
    case (Cons y ys)
    then obtain z zs' where zs: "zs = z # zs'" by (cases zs) auto
    have sets: "set (z # zs') = set (y # ys)" using Cons.prems(1) zs by (metis set_mset_mset)
    have "z = y"
    proof (rule ccontr)
      assume "z \<noteq> y"
      with sets have "z \<in> set ys" "y \<in> set zs'" by auto
      with Cons.prems zs have "\<not> lt z y" "\<not> lt y z" by auto
      moreover have "z \<in> set xs" "y \<in> set xs" using Cons.prems(4) \<open>z \<in> set ys\<close> by auto
      ultimately show False using tot \<open>z \<noteq> y\<close> by blast
    qed
    with Cons zs show ?case by auto
  qed simp
  then show ?thesis
    using assms sorted_sort_slice mset_sort_slice by (metis order_refl set_mset_mset)
qed

lemma sort_slice_linorder: "sort_slice (<) xs = sort (xs :: 'a::linorder list)"
proof -
  have "weak_order ((<) :: 'a \<Rightarrow> 'a \<Rightarrow> bool)" by (auto simp: weak_order_def)
  moreover have "sorted_wrt (\<lambda>a b. \<not> b < a) (sort xs)"
    using sorted_sort [of xs] by (simp add: not_less)
  ultimately show ?thesis
    by (intro sort_slice_unique [symmetric]) auto
qed

text \<open>\<^verbatim>\<open>uniqueStrings\<close> and its like: the first of each run of equal neighbours.\<close>

lemma set_remdups_adj_sort [simp]: "set (remdups_adj (sort xs)) = set xs"
  by simp

lemmas string_eval = trim_space_def trim_left.simps space_len_in_def space_seqs_def fields_def fields_aux.simps
  itoa.simps hex_str.simps

end
