(* ===== verification/Netip.thy ===== *)
theory Netip
  imports Go_Base "HOL-Library.Word"
begin

text \<open>
  The part of Go's \<^verbatim>\<open>net/netip\<close> and \<^verbatim>\<open>net\<close> packages the program uses: \<^verbatim>\<open>ParseAddr\<close>, \<^verbatim>\<open>ParsePrefix\<close>,
  \<^verbatim>\<open>net.ParseCIDR\<close>, \<^verbatim>\<open>Addr.String\<close>, \<^verbatim>\<open>Prefix.Masked\<close>, \<^verbatim>\<open>Contains\<close>, \<^verbatim>\<open>Overlaps\<close> and the address
  classes. An IPv4 address is a 32-bit word, an IPv6 address a 128-bit word with its zone;
  \<open>AInvalid\<close> is the zero \<^verbatim>\<open>Addr\<close>. A \<^verbatim>\<open>Prefix\<close> keeps \<^verbatim>\<open>Bits()\<close>, which is -1 for an invalid prefix.

  Proved here: printing an IPv4 address and parsing it again is the identity, likewise for masked
  IPv4 prefixes; \<^verbatim>\<open>Contains\<close> of a masked prefix, \<^verbatim>\<open>Overlaps\<close> and common members agree.
\<close>

section \<open>Addresses\<close>

datatype addr = AInvalid | A4 "32 word" | A6 "128 word" string

datatype prefix_t = Prefix (paddr: addr) (pbits: int)

definition zero_prefix :: prefix_t where
  "zero_prefix = Prefix AInvalid (- 1)"

fun is4 :: "addr \<Rightarrow> bool" where
  "is4 (A4 _) = True" | "is4 _ = False"

fun is6 :: "addr \<Rightarrow> bool" where
  "is6 (A6 _ _) = True" | "is6 _ = False"

fun bit_len :: "addr \<Rightarrow> nat" where
  "bit_len AInvalid = 0" | "bit_len (A4 _) = 32" | "bit_len (A6 _ _) = 128"

fun has_zone :: "addr \<Rightarrow> bool" where
  "has_zone (A6 _ z) = (z \<noteq> [])" | "has_zone _ = False"

fun without_zone :: "addr \<Rightarrow> addr" where
  "without_zone (A6 w _) = A6 w []" | "without_zone a = a"

definition is_valid_addr :: "addr \<Rightarrow> bool" where
  "is_valid_addr a \<longleftrightarrow> a \<noteq> AInvalid"

text \<open>IPv4-mapped IPv6 addresses: \<^verbatim>\<open>::ffff:a.b.c.d\<close>.\<close>

fun is4in6 :: "addr \<Rightarrow> bool" where
  "is4in6 (A6 w _) = (drop_bit 32 w = 0xFFFF)" | "is4in6 _ = False"

fun unmap :: "addr \<Rightarrow> addr" where
  "unmap (A6 w z) = (if drop_bit 32 w = 0xFFFF then A4 (ucast w) else A6 w z)"
| "unmap a = a"

fun is_private_plain :: "addr \<Rightarrow> bool" where
  "is_private_plain (A4 w) \<longleftrightarrow>
     drop_bit 24 w = 10 \<or> drop_bit 20 w = 0xAC1 \<or> drop_bit 16 w = 0xC0A8"
| "is_private_plain (A6 w _) \<longleftrightarrow> drop_bit 121 w = 0x7E"
| "is_private_plain AInvalid \<longleftrightarrow> False"

fun is_loopback_plain :: "addr \<Rightarrow> bool" where
  "is_loopback_plain (A4 w) \<longleftrightarrow> drop_bit 24 w = 127"
| "is_loopback_plain (A6 w _) \<longleftrightarrow> w = 1"
| "is_loopback_plain AInvalid \<longleftrightarrow> False"

fun is_link_local_plain :: "addr \<Rightarrow> bool" where
  "is_link_local_plain (A4 w) \<longleftrightarrow> drop_bit 16 w = 0xA9FE"
| "is_link_local_plain (A6 w _) \<longleftrightarrow> drop_bit 118 w = 0x3FA"
| "is_link_local_plain AInvalid \<longleftrightarrow> False"

fun is_multicast_plain :: "addr \<Rightarrow> bool" where
  "is_multicast_plain (A4 w) \<longleftrightarrow> drop_bit 28 w = 0xE"
| "is_multicast_plain (A6 w _) \<longleftrightarrow> drop_bit 120 w = 0xFF"
| "is_multicast_plain AInvalid \<longleftrightarrow> False"

definition is_private :: "addr \<Rightarrow> bool" where "is_private a = is_private_plain (unmap a)"
definition is_loopback :: "addr \<Rightarrow> bool" where "is_loopback a = is_loopback_plain (unmap a)"
definition is_link_local :: "addr \<Rightarrow> bool" where "is_link_local a = is_link_local_plain (unmap a)"
definition is_multicast :: "addr \<Rightarrow> bool" where "is_multicast a = is_multicast_plain (unmap a)"

definition is_unspecified :: "addr \<Rightarrow> bool" where
  "is_unspecified a \<longleftrightarrow> a = A4 0 \<or> a = A6 0 []"

lemmas addr_class_defs [go_eval] =
  is_valid_addr_def is_private_def is_loopback_def is_link_local_def is_multicast_def
  is_unspecified_def

section \<open>Parsing\<close>

text \<open>\<^verbatim>\<open>parseIPv4Fields\<close>: \<open>val\<close> and \<open>dl\<close> are the value and digit count of the current octet.\<close>

fun v4_fields :: "string \<Rightarrow> nat \<Rightarrow> nat \<Rightarrow> nat list \<Rightarrow> nat list option" where
  "v4_fields [] val dl fs = (if length fs < 3 then None else Some (fs @ [val]))"
| "v4_fields (c # cs) val dl fs =
    (if is_digit c then
       (if dl = 1 \<and> val = 0 then None
        else if 255 < val * 10 + digit_val c then None
        else v4_fields cs (val * 10 + digit_val c) (Suc dl) fs)
     else if c = CHR ''.'' then
       (if dl = 0 \<or> cs = [] then None
        else if length fs = 3 then None
        else v4_fields cs 0 0 (fs @ [val]))
     else None)"

definition word_of_octets :: "nat list \<Rightarrow> 32 word" where
  "word_of_octets bs = of_nat (foldl (\<lambda>a b. a * 256 + b) 0 bs)"

definition parse_ipv4 :: "string \<Rightarrow> addr option" where
  "parse_ipv4 s = map_option (\<lambda>bs. A4 (word_of_octets bs)) (v4_fields s 0 0 [])"

text \<open>One hexadecimal group: its digit count, its value and the rest; at most four digits.\<close>

fun hex_run :: "string \<Rightarrow> nat \<Rightarrow> nat \<Rightarrow> (nat \<times> nat \<times> string) option" where
  "hex_run [] off acc = Some (off, acc, [])"
| "hex_run (c # cs) off acc =
     (case hex_val c of None \<Rightarrow> Some (off, acc, c # cs)
      | Some d \<Rightarrow> if 3 < off then None else hex_run cs (Suc off) (acc * 16 + d))"

text \<open>
  The loop of \<^verbatim>\<open>parseIPv6\<close>. The first argument counts the 16-bit groups that still fit, \<open>acc\<close> holds
  the groups read so far and \<open>ell\<close> the position of the ellipsis.
\<close>

fun v6_groups :: "nat \<Rightarrow> string \<Rightarrow> nat list \<Rightarrow> nat option \<Rightarrow> (string \<times> nat list \<times> nat option) option" where
  "v6_groups 0 s acc ell = Some (s, acc, ell)"
| "v6_groups (Suc n) s acc ell =
    (case hex_run s 0 0 of None \<Rightarrow> None
     | Some (off, v, rest) \<Rightarrow>
        if off = 0 then None
        else if rest \<noteq> [] \<and> hd rest = CHR ''.'' then
          (if ell = None \<and> length acc \<noteq> 6 then None
           else if 8 < length acc + 2 then None
           else (case v4_fields s 0 0 [] of
                   Some [a, b, c, d] \<Rightarrow> Some ([], acc @ [a * 256 + b, c * 256 + d], ell)
                 | _ \<Rightarrow> None))
        else if rest = [] then Some ([], acc @ [v], ell)
        else if hd rest \<noteq> CHR '':'' then None
        else if tl rest = [] then None
        else if hd (tl rest) = CHR '':'' then
          (if ell \<noteq> None then None
           else if tl (tl rest) = [] then Some ([], acc @ [v], Some (length acc + 1))
           else v6_groups n (tl (tl rest)) (acc @ [v]) (Some (length acc + 1)))
        else v6_groups n (tl rest) (acc @ [v]) ell)"

definition word_of_groups :: "nat list \<Rightarrow> 128 word" where
  "word_of_groups gs = of_nat (foldl (\<lambda>a g. a * 65536 + g) 0 gs)"

definition v6_expand :: "nat list \<Rightarrow> nat option \<Rightarrow> nat list option" where
  "v6_expand gs ell =
     (case ell of
        None \<Rightarrow> if length gs < 8 then None else Some gs
      | Some e \<Rightarrow> if length gs < 8 then Some (take e gs @ replicate (8 - length gs) 0 @ drop e gs)
                 else None)"

text \<open>The address and the zone behind the first percent sign; an explicit zone is not empty.\<close>

definition split_zone :: "string \<Rightarrow> (string \<times> string) option" where
  "split_zone s =
     (let a = takeWhile (\<lambda>c. c \<noteq> CHR ''%'') s; r = dropWhile (\<lambda>c. c \<noteq> CHR ''%'') s in
      if r = [] then Some (a, []) else if tl r = [] then None else Some (a, tl r))"

definition parse_ipv6 :: "string \<Rightarrow> addr option" where
  "parse_ipv6 input =
     (case split_zone input of None \<Rightarrow> None
      | Some (s, zone) \<Rightarrow>
         let lead = prefix ''::'' s; body = (if lead then drop 2 s else s);
             ell = (if lead then Some 0 else None) in
         if lead \<and> body = [] then Some (A6 0 zone)
         else (case v6_groups 8 body [] ell of None \<Rightarrow> None
               | Some (rest, gs, ell') \<Rightarrow>
                  if rest \<noteq> [] then None
                  else map_option (\<lambda>g. A6 (word_of_groups g) zone) (v6_expand gs ell')))"

text \<open>\<^verbatim>\<open>ParseAddr\<close>: the first dot, colon or percent sign decides the family.\<close>

fun addr_kind :: "string \<Rightarrow> char option" where
  "addr_kind [] = None"
| "addr_kind (c # cs) = (if c = CHR ''.'' \<or> c = CHR '':'' \<or> c = CHR ''%'' then Some c else addr_kind cs)"

definition parse_addr :: "string \<Rightarrow> addr option" where
  "parse_addr s =
     (case addr_kind s of
        Some c \<Rightarrow> if c = CHR ''.'' then parse_ipv4 s else if c = CHR '':'' then parse_ipv6 s else None
      | None \<Rightarrow> None)"

text \<open>The parts before and after the last (\<^verbatim>\<open>ParsePrefix\<close>) and the first (\<^verbatim>\<open>ParseCIDR\<close>) slash.\<close>

definition cut_last :: "char \<Rightarrow> string \<Rightarrow> (string \<times> string) option" where
  "cut_last c s =
     (if c \<in> set s then
        Some (rev (tl (dropWhile (\<lambda>x. x \<noteq> c) (rev s))), rev (takeWhile (\<lambda>x. x \<noteq> c) (rev s)))
      else None)"

definition cut_first :: "char \<Rightarrow> string \<Rightarrow> (string \<times> string) option" where
  "cut_first c s =
     (if c \<in> set s then Some (takeWhile (\<lambda>x. x \<noteq> c) s, tl (dropWhile (\<lambda>x. x \<noteq> c) s)) else None)"

definition parse_prefix :: "string \<Rightarrow> prefix_t option" where
  "parse_prefix s =
     (case cut_last (CHR ''/'') s of None \<Rightarrow> None
      | Some (a, bits) \<Rightarrow>
         (case parse_addr a of None \<Rightarrow> None
          | Some ip \<Rightarrow>
             if has_zone ip then None
             else if 1 < length bits \<and> (byte (hd bits) < 49 \<or> 57 < byte (hd bits)) then None
             else (case dec_value bits of None \<Rightarrow> None
                   | Some n \<Rightarrow> if bit_len ip < n then None else Some (Prefix ip (int n)))))"

text \<open>
  \<^verbatim>\<open>net.ParseCIDR\<close>, as far as the program looks at its result: the size of the mask. Unlike
  \<^verbatim>\<open>ParsePrefix\<close> it accepts leading zeros in the mask.
\<close>

definition parse_cidr :: "string \<Rightarrow> nat option" where
  "parse_cidr s =
     (case cut_first (CHR ''/'') s of None \<Rightarrow> None
      | Some (a, m) \<Rightarrow>
         (case parse_addr a of None \<Rightarrow> None
          | Some ip \<Rightarrow>
             if has_zone ip then None
             else (case dec_value m of None \<Rightarrow> None
                   | Some n \<Rightarrow> if bit_len ip < n then None else Some n)))"

lemmas parse_defs [go_eval] =
  parse_ipv4_def word_of_octets_def word_of_groups_def v6_expand_def split_zone_def parse_ipv6_def
  parse_addr_def cut_last_def cut_first_def parse_prefix_def parse_cidr_def

section \<open>Printing\<close>

definition octets :: "32 word \<Rightarrow> nat list" where
  "octets w = map (\<lambda>k. unat (drop_bit k w) mod 256) [24, 16, 8, 0]"

definition string4 :: "32 word \<Rightarrow> string" where
  "string4 w = join_str ''.'' (map itoa (octets w))"

definition groups6 :: "128 word \<Rightarrow> nat list" where
  "groups6 w = map (\<lambda>k. unat (drop_bit k w) mod 65536) [112, 96, 80, 64, 48, 32, 16, 0]"

text \<open>The first longest run of at least two zero groups, as start and end position.\<close>

definition zero_len :: "nat list \<Rightarrow> nat" where
  "zero_len gs = length (takeWhile (\<lambda>g. g = 0) gs)"

definition zero_run :: "nat list \<Rightarrow> nat \<times> nat" where
  "zero_run gs =
     foldl (\<lambda>(zs, ze) i. let l = zero_len (drop i gs) in
              if 2 \<le> l \<and> ze - zs < l then (i, i + l) else (zs, ze))
       (255, 255) [0..<8]"

definition string6 :: "128 word \<Rightarrow> string" where
  "string6 w =
     (let gs = groups6 w; (zs, ze) = zero_run gs in
      if zs = 255 then join_str '':'' (map hex_str gs)
      else join_str '':'' (map hex_str (take zs gs)) @ ''::'' @ join_str '':'' (map hex_str (drop ze gs)))"

fun addr_string :: "addr \<Rightarrow> string" where
  "addr_string AInvalid = ''invalid IP''"
| "addr_string (A4 w) = string4 w"
| "addr_string (A6 w z) =
     (if drop_bit 32 w = 0xFFFF then ''::ffff:'' @ string4 (ucast w) else string6 w) @
     (if z = [] then [] else CHR ''%'' # z)"

section \<open>Prefixes\<close>

definition prefix_from :: "addr \<Rightarrow> int \<Rightarrow> prefix_t" where
  "prefix_from a b =
     (if a \<noteq> AInvalid \<and> 0 \<le> b \<and> b \<le> int (bit_len a) then Prefix (without_zone a) b
      else Prefix (without_zone a) (- 1))"

definition prefix_valid :: "prefix_t \<Rightarrow> bool" where
  "prefix_valid p \<longleftrightarrow> 0 \<le> pbits p \<and> pbits p \<le> int (bit_len (paddr p)) \<and> paddr p \<noteq> AInvalid"

text \<open>\<^verbatim>\<open>Addr.Prefix(b)\<close> keeps the top \<open>b\<close> bits.\<close>

fun mask_addr :: "addr \<Rightarrow> nat \<Rightarrow> addr" where
  "mask_addr AInvalid b = AInvalid"
| "mask_addr (A4 w) b = A4 (push_bit (32 - b) (drop_bit (32 - b) w))"
| "mask_addr (A6 w z) b = A6 (push_bit (128 - b) (drop_bit (128 - b) w)) []"

definition masked :: "prefix_t \<Rightarrow> prefix_t" where
  "masked p = (if prefix_valid p then Prefix (mask_addr (paddr p) (nat (pbits p))) (pbits p)
               else zero_prefix)"

definition prefix_string :: "prefix_t \<Rightarrow> string" where
  "prefix_string p = (if prefix_valid p then addr_string (paddr p) @ ''/'' @ itoa (nat (pbits p))
                      else ''invalid Prefix'')"

fun same_top :: "nat \<Rightarrow> addr \<Rightarrow> addr \<Rightarrow> bool" where
  "same_top b (A4 v) (A4 w) = (drop_bit (32 - b) v = drop_bit (32 - b) w)"
| "same_top b (A6 v _) (A6 w _) = (drop_bit (128 - b) v = drop_bit (128 - b) w)"
| "same_top b _ _ = False"

definition prefix_contains :: "prefix_t \<Rightarrow> addr \<Rightarrow> bool" where
  "prefix_contains p a \<longleftrightarrow> prefix_valid p \<and> \<not> has_zone a \<and> same_top (nat (pbits p)) (paddr p) a"

definition overlaps :: "prefix_t \<Rightarrow> prefix_t \<Rightarrow> bool" where
  "overlaps p q \<longleftrightarrow> prefix_valid p \<and> prefix_valid q \<and>
     (p = q \<or> (is4 (paddr p) = is4 (paddr q) \<and>
       (min (pbits p) (pbits q) = 0 \<or>
        mask_addr (paddr p) (nat (min (pbits p) (pbits q))) =
        mask_addr (paddr q) (nat (min (pbits p) (pbits q))))))"

lemmas netip_defs [go_eval] =
  octets_def string4_def groups6_def zero_len_def zero_run_def string6_def prefix_from_def
  prefix_valid_def masked_def prefix_string_def prefix_contains_def overlaps_def zero_prefix_def

section \<open>Printing and parsing IPv4 addresses\<close>

lemma itoa_octet:
  assumes "n < 256"
  shows "itoa n =
    (if n < 10 then [digit_char n]
     else if n < 100 then [digit_char (n div 10), digit_char (n mod 10)]
     else [digit_char (n div 100), digit_char (n div 10 mod 10), digit_char (n mod 10)])"
proof -
  have "n div 10 div 10 = n div 100" by (simp add: div_mult2_eq [symmetric])
  with assms show ?thesis by (auto simp: itoa.simps [of n] itoa.simps [of "n div 10"] itoa.simps [of "n div 100"])
qed

lemma v4_fields_octet:
  assumes "n < 256"
  shows "v4_fields (itoa n @ rest) 0 0 fs = v4_fields rest n (length (itoa n)) fs"
proof -
  have "n div 100 = n div 10 div 10" by (simp add: div_mult2_eq [symmetric])
  then have t: "n div 100 * 10 + n div 10 mod 10 = n div 10" by simp
  have "n div 10 * 10 + n mod 10 = n" by simp
  with assms t show ?thesis by (auto simp: itoa_octet)
qed

lemma v4_fields_dot:
  "0 < dl \<Longrightarrow> rest \<noteq> [] \<Longrightarrow> length fs < 3 \<Longrightarrow>
    v4_fields (CHR ''.'' # rest) v dl fs = v4_fields rest 0 0 (fs @ [v])"
  by (simp add: char_class_defs)

lemma octets_bounds: "\<forall>b \<in> set (octets w). b < 256"
  by (simp add: octets_def)

lemma nat_octets:
  assumes "n < (2::nat) ^ 32"
  shows "((n div 2 ^ 24 mod 256 * 256 + n div 2 ^ 16 mod 256) * 256 + n div 2 ^ 8 mod 256) * 256
    + n mod 256 = n"
proof -
  have a: "n div 2 ^ 8 = n div 256" "n div 2 ^ 16 = n div 256 div 256"
    "n div 2 ^ 24 = n div 256 div 256 div 256" by (simp_all add: div_mult2_eq [symmetric])
  have "n div 256 div 256 div 256 < 256" using assms by (simp add: div_mult2_eq [symmetric] less_mult_imp_div_less)
  then show ?thesis unfolding a by simp
qed

lemma word_of_octets_octets: "word_of_octets (octets w) = w"
proof -
  have "unat w < 2 ^ 32" using unsigned_less [of w] by simp
  moreover have "unat (drop_bit k w) = unat w div 2 ^ k" for k
    unfolding unat_drop_bit_eq by (rule drop_bit_eq_div)
  ultimately have "foldl (\<lambda>a b. a * 256 + b) 0 (octets w) = unat w"
    using nat_octets [of "unat w"] by (simp only: octets_def list.map foldl.simps) simp
  then show ?thesis by (simp add: word_of_octets_def)
qed

lemma v4_fields_string4: "v4_fields (string4 w) 0 0 [] = Some (octets w)"
proof -
  obtain a b c d where o: "octets w = [a, b, c, d]" by (simp add: octets_def)
  with octets_bounds [of w] have l: "a < 256" "b < 256" "c < 256" "d < 256" by auto
  have "string4 w = itoa a @ CHR ''.'' # itoa b @ CHR ''.'' # itoa c @ CHR ''.'' # itoa d @ []"
    by (simp add: string4_def o)
  then show ?thesis
    using l o v4_fields_octet [of d "[]"]
    by (simp add: v4_fields_dot v4_fields_octet del: v4_fields.simps(2))
qed

lemma addr_kind_digits: "\<forall>c \<in> set xs. is_digit c \<Longrightarrow> addr_kind (xs @ ys) = addr_kind ys"
  by (induction xs) (auto simp: char_class_defs)

lemma parse_addr_string4 [simp]: "parse_addr (string4 w) = Some (A4 w)"
proof -
  obtain a b c d where o: "octets w = [a, b, c, d]" by (simp add: octets_def)
  then have "addr_kind (string4 w) = Some (CHR ''.'')"
    by (simp add: string4_def addr_kind_digits itoa_digits)
  then show ?thesis
    by (simp add: parse_addr_def parse_ipv4_def v4_fields_string4 word_of_octets_octets)
qed

lemma cut_last_append: "c \<notin> set ys \<Longrightarrow> cut_last c (xs @ c # ys) = Some (xs, ys)"
  by (simp add: cut_last_def dropWhile_append3 takeWhile_append2 in_set_conv_decomp [of c "rev ys"]
      dropWhile_append takeWhile_append)

lemma slash_not_in_itoa: "CHR ''/'' \<notin> set (itoa n)"
  using itoa_digits by (force simp: char_class_defs)

lemma itoa_hd:
  "1 < length (itoa n) \<Longrightarrow> 49 \<le> byte (hd (itoa n)) \<and> byte (hd (itoa n)) \<le> 57"
proof (induction n rule: itoa.induct)
  case (1 n)
  then have n: "\<not> n < 10" by (metis One_nat_def itoa.simps length_Cons less_not_refl list.size(3))
  then have i: "itoa n = itoa (n div 10) @ [digit_char (n mod 10)]" by (simp add: itoa.simps [of n])
  show ?case
  proof (cases "n div 10 < 10")
    case True
    then have "itoa (n div 10) = [digit_char (n div 10)]" by (simp add: itoa.simps [of "n div 10"])
    moreover have "0 < n div 10" using n by simp
    moreover have "is_digit (digit_char (n div 10))" "digit_val (digit_char (n div 10)) = n div 10"
      using True by simp_all
    ultimately show ?thesis by (simp add: i is_digit_def digit_val_def)
  next
    case False
    then have "1 < length (itoa (n div 10))" by (subst itoa.simps) (simp add: Suc_lessI)
    with 1 n show ?thesis by (simp add: i)
  qed
qed

lemma parse_prefix_string4:
  assumes "b \<le> 32"
  shows "parse_prefix (prefix_string (Prefix (A4 w) (int b))) = Some (Prefix (A4 w) (int b))"
proof -
  have "prefix_string (Prefix (A4 w) (int b)) = string4 w @ CHR ''/'' # itoa b"
    using assms by (simp add: prefix_string_def prefix_valid_def)
  moreover have "\<not> (1 < length (itoa b) \<and> (byte (hd (itoa b)) < 49 \<or> 57 < byte (hd (itoa b))))"
    using itoa_hd [of b] by auto
  ultimately show ?thesis using assms
    by (simp add: parse_prefix_def cut_last_append slash_not_in_itoa)
qed

section \<open>Membership\<close>

lemma drop_bit_mono_eq:
  fixes v w :: "'a::len word"
  assumes "drop_bit k v = drop_bit k w" and "k \<le> m"
  shows "drop_bit m v = drop_bit m w"
proof -
  have "drop_bit (m - k) (drop_bit k v) = drop_bit (m - k) (drop_bit k w)" using assms by simp
  with assms(2) show ?thesis by (simp add: drop_bit_drop_bit)
qed

lemma drop_push_drop:
  fixes v :: "'a::len word"
  shows "drop_bit k (push_bit k (drop_bit k v)) = drop_bit k v"
  by (rule bit_word_eqI) (auto simp: bit_simps dest: bit_imp_le_length)

lemma push_drop_eq_iff:
  fixes v w :: "'a::len word"
  shows "push_bit k (drop_bit k v) = push_bit k (drop_bit k w) \<longleftrightarrow> drop_bit k v = drop_bit k w"
  by (metis drop_push_drop)

lemma same_top_mono: "same_top b x y \<Longrightarrow> c \<le> b \<Longrightarrow> same_top c x y"
  by (induction b x y rule: same_top.induct) (auto elim!: drop_bit_mono_eq)

lemma same_top_sym: "same_top b x y \<longleftrightarrow> same_top b y x"
  by (induction b x y rule: same_top.induct) auto

lemma same_top_trans: "same_top b x y \<Longrightarrow> same_top b y z \<Longrightarrow> same_top b x z"
  by (cases x; cases y; cases z) auto

lemma same_top_refl: "a \<noteq> AInvalid \<Longrightarrow> same_top b a a"
  by (cases a) auto

lemma same_top_family: "same_top b x y \<Longrightarrow> is4 x = is4 y \<and> is6 x = is6 y"
  by (induction b x y rule: same_top.induct) auto

lemma mask_addr_eq_iff: "x \<noteq> AInvalid \<Longrightarrow> y \<noteq> AInvalid \<Longrightarrow>
    mask_addr x b = mask_addr y b \<longleftrightarrow> same_top b x y"
  by (cases x; cases y) (auto simp: push_drop_eq_iff)

lemma same_top_mask: "same_top b (mask_addr x b) y = same_top b x y"
  by (cases x; cases y) (auto simp: drop_push_drop)

lemma same_top_without_zone [simp]: "same_top b x (without_zone y) = same_top b x y"
  by (cases x; cases y) auto

lemma has_zone_without_zone [simp]: "\<not> has_zone (without_zone a)"
  by (cases a) auto

lemma same_top_zero: "x \<noteq> AInvalid \<Longrightarrow> y \<noteq> AInvalid \<Longrightarrow> same_top 0 x y \<longleftrightarrow> is4 x = is4 y"
  by (cases x; cases y) (auto intro!: bit_word_eqI simp: bit_simps dest: bit_imp_le_length)

lemma bit_len_mask [simp]: "bit_len (mask_addr a b) = bit_len a"
  by (cases a) auto

lemma mask_addr_invalid [simp]: "mask_addr a b = AInvalid \<longleftrightarrow> a = AInvalid"
  by (cases a) auto

lemma prefix_valid_masked [simp]: "prefix_valid (masked p) = prefix_valid p"
  by (auto simp: masked_def prefix_valid_def zero_prefix_def)

text \<open>Masking a prefix keeps its members.\<close>

lemma contains_masked [simp]: "prefix_contains (masked p) a = prefix_contains p a"
proof (cases "prefix_valid p")
  case True
  then have "masked p = Prefix (mask_addr (paddr p) (nat (pbits p))) (pbits p)"
    by (simp add: masked_def)
  with True prefix_valid_masked [of p] show ?thesis by (simp add: prefix_contains_def same_top_mask)
next
  case False
  then show ?thesis using prefix_valid_masked [of p] by (simp add: prefix_contains_def)
qed

text \<open>\<^verbatim>\<open>Overlaps\<close> decides whether two prefixes have a common member.\<close>

lemma overlaps_iff_same_top:
  assumes "prefix_valid p" "prefix_valid q"
  shows "overlaps p q \<longleftrightarrow> same_top (nat (min (pbits p) (pbits q))) (paddr p) (paddr q)"
proof -
  have v: "paddr p \<noteq> AInvalid" "paddr q \<noteq> AInvalid" using assms by (auto simp: prefix_valid_def)
  have "same_top (nat (min (pbits p) (pbits q))) (paddr p) (paddr q)" if "p = q"
    using that v by (simp add: same_top_refl)
  with assms v show ?thesis
    by (auto simp: overlaps_def mask_addr_eq_iff same_top_zero dest: same_top_family)
qed

lemma overlaps_iff_common:
  assumes p: "prefix_valid p" and q: "prefix_valid q"
  shows "overlaps p q \<longleftrightarrow> (\<exists>a. prefix_contains p a \<and> prefix_contains q a)"
proof
  assume "overlaps p q"
  then have st: "same_top (nat (min (pbits p) (pbits q))) (paddr p) (paddr q)"
    using assms by (simp add: overlaps_iff_same_top)
  have v: "paddr p \<noteq> AInvalid" "paddr q \<noteq> AInvalid" using assms by (auto simp: prefix_valid_def)
  show "\<exists>a. prefix_contains p a \<and> prefix_contains q a"
  proof (cases "pbits p \<le> pbits q")
    case True
    then show ?thesis using st v assms
      by (intro exI [of _ "without_zone (paddr q)"]) (simp add: prefix_contains_def same_top_refl min_def)
  next
    case False
    then show ?thesis using st v assms
      by (intro exI [of _ "without_zone (paddr p)"])
        (simp add: prefix_contains_def same_top_refl min_def same_top_sym)
  qed
next
  assume "\<exists>a. prefix_contains p a \<and> prefix_contains q a"
  then obtain a where a: "same_top (nat (pbits p)) (paddr p) a" "same_top (nat (pbits q)) (paddr q) a"
    by (auto simp: prefix_contains_def)
  let ?m = "nat (min (pbits p) (pbits q))"
  have "?m \<le> nat (pbits p)" "?m \<le> nat (pbits q)" by (auto intro: nat_mono)
  with a have "same_top ?m (paddr p) a" "same_top ?m (paddr q) a" by (auto intro: same_top_mono)
  then have "same_top ?m (paddr p) (paddr q)" using same_top_trans same_top_sym by blast
  then show "overlaps p q" using assms by (simp add: overlaps_iff_same_top)
qed

lemma parse_prefix_valid: "parse_prefix s = Some p \<Longrightarrow> prefix_valid p"
proof -
  have "parse_addr a \<noteq> Some AInvalid" for a
    by (auto simp: parse_addr_def parse_ipv4_def parse_ipv6_def Let_def
        split: option.splits if_splits prod.splits)
  then show "parse_prefix s = Some p \<Longrightarrow> prefix_valid p"
    by (auto simp: parse_prefix_def prefix_valid_def split: option.splits if_splits prod.splits)
qed

end
