(* ===== verification/Provenance.thy ===== *)
theory Provenance
  imports Go_Base "HOL-Library.Word"
begin

unbundle bit_operations_syntax

text \<open>
  The permanent ingress-interface to conntrack-mark registry, \<^verbatim>\<open>src/internal/provenance/ledger.go\<close>:
  the mark encoding, \<^verbatim>\<open>ValidateActive\<close>, and the ledger operations \<^verbatim>\<open>Reserve\<close>, \<^verbatim>\<open>ValidateRequired\<close>,
  \<^verbatim>\<open>Assignments\<close>, \<^verbatim>\<open>Digest\<close> and \<^verbatim>\<open>MergeFrom\<close>.

  A ledger is its \<^verbatim>\<open>allocations\<close> table, a list of rows, with the constraints and triggers of the
  schema written into the statements that change it. SQLite and the file system are outside the
  program: what they answer to each call is the argument \<open>ledger_io\<close>, \<open>None\<close> for success. An
  operation returns its error and the ledger after it, since a failing \<^verbatim>\<open>fsync\<close> after a commit reports
  an error although the rows have changed.

  Shown: \<^verbatim>\<open>ValidateActive\<close> accepts exactly the well-formed active sets; every operation keeps the
  table well formed and never removes, renumbers or revives an allocation; a successful \<^verbatim>\<open>Reserve\<close>
  leaves exactly the requested allocations active; a generation whose identities were once valid
  stays valid.
\<close>

type_synonym gotime = int

text \<open>Go's zero \<^verbatim>\<open>time.Time\<close>, in nanoseconds relative to the Unix epoch.\<close>

definition zero_time :: gotime where
  "zero_time = - 62135596800000000000"

section \<open>Assignments and their marks\<close>

record assignment =
  a_name :: string
  a_id :: "8 word"
  a_retired :: bool
  a_created :: gotime
  a_retired_at :: "gotime option"

definition mark_mask :: "32 word" where "mark_mask = 0xFF000000"
definition keep_mask :: "32 word" where "keep_mask = 0x00FFFFFF"

definition min_id :: nat where "min_id = 1"
definition max_id :: nat where "max_id = 254"
definition max_active :: nat where "max_active = 64"

definition encode_id :: "8 word \<Rightarrow> 32 word" where
  "encode_id i = push_bit 24 (ucast i)"

definition encoded :: "assignment \<Rightarrow> 32 word" where
  "encoded a = encode_id (a_id a)"

definition id_in_range :: "8 word \<Rightarrow> bool" where
  "id_in_range i \<longleftrightarrow> min_id \<le> unat i \<and> unat i \<le> max_id"

definition identity_pattern :: "string \<Rightarrow> bool" where
  "identity_pattern = name_match is_alnum (\<lambda>c. is_alnum c \<or> one_of ''_.:-'' c) 127"

section \<open>ValidateActive\<close>

definition validate_active_step ::
  "string list \<times> (8 word \<times> string) list \<Rightarrow> assignment \<Rightarrow> (string list \<times> (8 word \<times> string) list) result" where
  "validate_active_step st a =
     (case st of (names, ids) \<Rightarrow>
       if a_retired a then Err (Errorf ''active assignment %q is marked retired'' [a_name a])
       else if \<not> identity_pattern (a_name a) then Err (Errorf ''invalid provenance identity %q'' [a_name a])
       else if \<not> id_in_range (a_id a) then Err (Errorf ''provenance id for %q must be %d..%d''
         [a_name a, itoa min_id, itoa max_id])
       else if a_name a \<in> set names then Err (Errorf ''duplicate provenance identity %q'' [a_name a])
       else (case map_of ids (a_id a) of
               Some prior \<Rightarrow> Err (Errorf ''provenance id %d is assigned to both %q and %q''
                                [itoa (unat (a_id a)), prior, a_name a])
             | None \<Rightarrow> Ok (a_name a # names, (a_id a, a_name a) # ids)))"

definition validate_active :: "assignment list \<Rightarrow> goerr option" where
  "validate_active as =
     (if as = [] then Some (Errorf ''at least one ingress provenance assignment is required'' [])
      else if max_active < length as
        then Some (Errorf ''active ingress provenance assignments exceed %d'' [itoa max_active])
      else err_of (foldE validate_active_step ([], []) as))"

section \<open>The ledger\<close>

text \<open>\<open>led_open\<close> is false for a nil ledger or one without a database handle.\<close>

record ledger =
  led_open :: bool
  led_rows :: "assignment list"
  led_readonly :: bool

record ledger_io =
  io_begin :: "goerr option"
  io_query :: "goerr option"
  io_exec :: "string \<Rightarrow> goerr option"
  io_commit :: "goerr option"
  io_sync :: "goerr option"

definition row_key_less :: "assignment \<Rightarrow> assignment \<Rightarrow> bool" where
  "row_key_less a b = (if a_id a \<noteq> a_id b then a_id a < a_id b else a_name a < a_name b)"

text \<open>\<^verbatim>\<open>assignmentsFrom\<close>: every row, ordered by id and name.\<close>

definition assignments_from :: "goerr option \<Rightarrow> assignment list \<Rightarrow> assignment list result" where
  "assignments_from io rows = (case io of Some e \<Rightarrow> Err e | None \<Rightarrow> Ok (sort_slice row_key_less rows))"

text \<open>The two statements that change the table, with the schema's constraints.\<close>

definition sql_insert :: "assignment list \<Rightarrow> assignment \<Rightarrow> assignment list result" where
  "sql_insert rows r =
     (if a_name r \<in> a_name ` set rows then Err (External ''UNIQUE constraint failed: allocations.interface_name'')
      else if a_id r \<in> a_id ` set rows then Err (External ''UNIQUE constraint failed: allocations.provenance_id'')
      else if \<not> id_in_range (a_id r) then Err (External ''CHECK constraint failed: provenance_id BETWEEN 1 AND 254'')
      else Ok (rows @ [r]))"

definition sql_retire :: "assignment list \<Rightarrow> gotime \<Rightarrow> string \<Rightarrow> assignment list" where
  "sql_retire rows now n =
     map (\<lambda>r. if a_name r = n \<and> \<not> a_retired r then r\<lparr>a_retired := True, a_retired_at := Some now\<rparr> else r) rows"

definition by_name :: "assignment list \<Rightarrow> string \<Rightarrow> assignment option" where
  "by_name as = map_of (map (\<lambda>a. (a_name a, a)) (rev as))"

definition by_id :: "assignment list \<Rightarrow> 8 word \<Rightarrow> assignment option" where
  "by_id as = map_of (map (\<lambda>a. (a_id a, a)) (rev as))"

definition reserve_insert ::
  "ledger_io \<Rightarrow> gotime \<Rightarrow> assignment list \<Rightarrow> assignment list \<Rightarrow> assignment \<Rightarrow> assignment list result" where
  "reserve_insert io now existing rows a =
     (case by_name existing (a_name a) of
        Some prior \<Rightarrow>
          if a_id prior \<noteq> a_id a then
            Err (Errorf ''provenance identity %q is permanently id %d, not %d''
              [a_name a, itoa (unat (a_id prior)), itoa (unat (a_id a))])
          else if a_retired prior then
            Err (Errorf ''provenance identity %q was permanently retired'' [a_name a])
          else Ok rows
      | None \<Rightarrow>
         (case by_id existing (a_id a) of
            Some prior \<Rightarrow> Err (Errorf ''provenance id %d is permanently allocated to %q''
                             [itoa (unat (a_id a)), a_name prior])
          | None \<Rightarrow>
             (case io_exec io (a_name a) of
                Some e \<Rightarrow> Err (Wrapf ''reserve provenance id %d for %s: %w'' [itoa (unat (a_id a)), a_name a] e)
              | None \<Rightarrow>
                 (case sql_insert rows \<lparr>a_name = a_name a, a_id = a_id a, a_retired = False,
                      a_created = now, a_retired_at = None\<rparr> of
                    Inl e \<Rightarrow> Err (Wrapf ''reserve provenance id %d for %s: %w'' [itoa (unat (a_id a)), a_name a] e)
                  | Inr rows' \<Rightarrow> Ok rows'))))"

definition reserve_retire ::
  "ledger_io \<Rightarrow> gotime \<Rightarrow> string list \<Rightarrow> assignment list \<Rightarrow> assignment \<Rightarrow> assignment list result" where
  "reserve_retire io now activeNames rows a =
     (if a_retired a \<or> a_name a \<in> set activeNames then Ok rows
      else (case io_exec io (a_name a) of
              Some e \<Rightarrow> Err (Wrapf ''retire provenance identity %s: %w'' [a_name a] e)
            | None \<Rightarrow> Ok (sql_retire rows now (a_name a))))"

text \<open>The body of the transaction: what the table would be after the commit.\<close>

definition reserve_tx ::
  "ledger_io \<Rightarrow> gotime \<Rightarrow> assignment list \<Rightarrow> assignment list \<Rightarrow> assignment list result" where
  "reserve_tx io now active rows =
     (case io_begin io of Some e \<Rightarrow> Err e
      | None \<Rightarrow>
         bindE (assignments_from (io_query io) rows) (\<lambda>existing.
         bindE (foldE (reserve_insert io now existing) rows active) (\<lambda>rows1.
         foldE (reserve_retire io now (map a_name active)) rows1 existing)))"

text \<open>The end of a writing operation. That a transaction which is not committed leaves the table as it was is
  SQLite's doing; what the source adds is that the directory is synced after the commit, so that an error of
  that sync is reported although the rows have changed.\<close>

definition commit_rows :: "ledger_io \<Rightarrow> string \<Rightarrow> ledger \<Rightarrow> assignment list result \<Rightarrow> unit result \<times> ledger" where
  "commit_rows io msg l tx =
     (case tx of Inl e \<Rightarrow> (Err e, l)
      | Inr rows \<Rightarrow>
         (case io_commit io of Some e \<Rightarrow> (Err (Wrapf msg [] e), l)
          | None \<Rightarrow> (case io_sync io of Some e \<Rightarrow> (Err e, l\<lparr>led_rows := rows\<rparr>)
                    | None \<Rightarrow> (Ok (), l\<lparr>led_rows := rows\<rparr>))))"

definition reserve :: "ledger_io \<Rightarrow> gotime \<Rightarrow> assignment list \<Rightarrow> ledger \<Rightarrow> unit result \<times> ledger" where
  "reserve io now active l =
     (if \<not> led_open l \<or> led_readonly l then (Err (Errorf ''writable provenance ledger is required'' []), l)
      else (case validate_active active of Some e \<Rightarrow> (Err e, l)
            | None \<Rightarrow> commit_rows io ''commit provenance reservation: %w'' l
                       (reserve_tx io now active (led_rows l))))"

section \<open>ValidateRequired, Assignments, Digest\<close>

definition required_step ::
  "(string \<Rightarrow> goerr option) \<Rightarrow> assignment list \<Rightarrow> string list \<times> (8 word \<times> string) list \<Rightarrow> assignment \<Rightarrow>
   (string list \<times> (8 word \<times> string) list) result" where
  "required_step io rows st a =
     (case st of (names, ids) \<Rightarrow>
       if \<not> identity_pattern (a_name a) \<or> \<not> id_in_range (a_id a) then
         Err (Errorf ''invalid required provenance assignment %q/%d'' [a_name a, itoa (unat (a_id a))])
       else if a_name a \<in> set names then Err (Errorf ''duplicate required provenance identity %q'' [a_name a])
       else (case map_of ids (a_id a) of
               Some prior \<Rightarrow> Err (Errorf ''required provenance id %d is ambiguous between %q and %q''
                               [itoa (unat (a_id a)), prior, a_name a])
             | None \<Rightarrow>
                (case io (a_name a) of Some e \<Rightarrow> Err e
                 | None \<Rightarrow>
                    (case find (\<lambda>r. a_name r = a_name a) rows of
                       None \<Rightarrow> Err (Errorf ''provenance identity %q is absent from the monotonic ledger'' [a_name a])
                     | Some r \<Rightarrow>
                        if a_id r \<noteq> a_id a then
                          Err (Errorf ''provenance identity %q is ledger id %d, generation requires %d''
                                 [a_name a, itoa (unat (a_id r)), itoa (unat (a_id a))])
                        else Ok (a_name a # names, (a_id a, a_name a) # ids)))))"

definition validate_required :: "(string \<Rightarrow> goerr option) \<Rightarrow> ledger \<Rightarrow> assignment list \<Rightarrow> goerr option" where
  "validate_required io l req =
     (if \<not> led_open l then Some (Errorf ''provenance ledger is required'' [])
      else err_of (foldE (required_step io (led_rows l)) ([], []) req))"

definition assignments :: "goerr option \<Rightarrow> ledger \<Rightarrow> assignment list result" where
  "assignments io l =
     (if \<not> led_open l then Err (Errorf ''provenance ledger is required'' [])
      else assignments_from io (led_rows l))"

definition digest_text :: "assignment list \<Rightarrow> string" where
  "digest_text as =
     concat (map (\<lambda>a. a_name a @ [CHR 0x00] @ itoa (unat (a_id a)) @ [CHR 0x00] @
                      (if a_retired a then ''true'' else ''false'') @ NL) as)"

definition digest :: "(string \<Rightarrow> string) \<Rightarrow> goerr option \<Rightarrow> ledger \<Rightarrow> string result" where
  "digest sha256hex io l = bindE (assignments io l) (\<lambda>as. Ok (sha256hex (digest_text as)))"

section \<open>MergeFrom\<close>

definition merge_check_saved ::
  "assignment list \<Rightarrow> assignment \<Rightarrow> goerr option" where
  "merge_check_saved live a =
     (case by_name live (a_name a) of
        Some l \<Rightarrow>
          if a_id l \<noteq> a_id a then Some (Errorf ''saved ledger changes %q from id %d to %d''
                                   [a_name a, itoa (unat (a_id l)), itoa (unat (a_id a))])
          else if \<not> a_retired l \<and> a_retired a then
            Some (Errorf ''saved ledger retires currently active identity %q'' [a_name a])
          else None
      | None \<Rightarrow>
         (case by_id live (a_id a) of
            Some l \<Rightarrow> Some (Errorf ''saved ledger reuses id %d from %q for %q''
                             [itoa (unat (a_id a)), a_name l, a_name a])
          | None \<Rightarrow> None))"

definition merge_check_live :: "string list \<Rightarrow> assignment \<Rightarrow> goerr option" where
  "merge_check_live savedNames l =
     refuse (a_name l \<notin> set savedNames \<and> \<not> a_retired l)
       (Errorf ''saved ledger regresses active live identity %q'' [a_name l])"

definition merge_insert ::
  "ledger_io \<Rightarrow> gotime \<Rightarrow> assignment list \<Rightarrow> assignment list \<Rightarrow> assignment \<Rightarrow> assignment list result" where
  "merge_insert io now live rows a =
     (case by_name live (a_name a) of
        Some _ \<Rightarrow> Ok rows
      | None \<Rightarrow>
         (case io_exec io (a_name a) of
            Some e \<Rightarrow> Err (Wrapf ''merge saved provenance identity %s: %w'' [a_name a] e)
          | None \<Rightarrow>
             (case sql_insert rows
                     (a\<lparr>a_created := (if a_created a = zero_time then now else a_created a)\<rparr>) of
                Inl e \<Rightarrow> Err (Wrapf ''merge saved provenance identity %s: %w'' [a_name a] e)
              | Inr rows' \<Rightarrow> Ok rows')))"

definition merge_tx ::
  "ledger_io \<Rightarrow> gotime \<Rightarrow> assignment list \<Rightarrow> assignment list \<Rightarrow> assignment list result" where
  "merge_tx io now saved rows =
     (case io_begin io of Some e \<Rightarrow> Err e
      | None \<Rightarrow>
         bindE (assignments_from (io_query io) rows) (\<lambda>live.
         case checks (merge_check_saved live) saved of Some e \<Rightarrow> Err e
         | None \<Rightarrow>
            (case checks (merge_check_live (map a_name saved)) live of Some e \<Rightarrow> Err e
             | None \<Rightarrow> foldE (merge_insert io now live) rows saved)))"

text \<open>\<open>opened\<close> is what opening the saved ledger read-only returned, \<open>saved\<close> what listing it did.\<close>

definition merge_from ::
  "ledger_io \<Rightarrow> gotime \<Rightarrow> goerr option \<Rightarrow> assignment list result \<Rightarrow> ledger \<Rightarrow> unit result \<times> ledger" where
  "merge_from io now opened saved l =
     (if \<not> led_open l \<or> led_readonly l then (Err (Errorf ''writable provenance ledger is required'' []), l)
      else (case opened of Some e \<Rightarrow> (Err (Wrapf ''open saved provenance ledger: %w'' [] e), l)
            | None \<Rightarrow>
               (case saved of Inl e \<Rightarrow> (Err e, l)
                | Inr as \<Rightarrow> commit_rows io ''commit provenance ledger merge: %w'' l
                             (merge_tx io now as (led_rows l)))))"

lemmas provenance_eval [go_eval] =
  id_in_range_def min_id_def max_id_def max_active_def identity_pattern_def validate_active_step_def
  validate_active_def row_key_less_def assignments_from_def sql_insert_def sql_retire_def by_name_def
  by_id_def reserve_insert_def reserve_retire_def reserve_tx_def commit_rows_def reserve_def
  required_step_def validate_required_def merge_check_saved_def merge_check_live_def
  merge_insert_def merge_tx_def merge_from_def encode_id_def encoded_def mark_mask_def keep_mask_def

section \<open>What ValidateActive accepts\<close>

definition assignment_ok :: "assignment \<Rightarrow> bool" where
  "assignment_ok a \<longleftrightarrow> identity_pattern (a_name a) \<and> id_in_range (a_id a)"

definition active_set_ok :: "assignment list \<Rightarrow> bool" where
  "active_set_ok as \<longleftrightarrow> as \<noteq> [] \<and> length as \<le> max_active \<and>
     (\<forall>a \<in> set as. \<not> a_retired a \<and> assignment_ok a) \<and>
     distinct (map a_name as) \<and> distinct (map a_id as)"

lemma map_of_eq_None_keys: "map_of kvs k = None \<longleftrightarrow> k \<notin> fst ` set kvs"
  by (rule map_of_eq_None_iff)

lemma validate_active_loop:
  "(\<exists>st. foldE validate_active_step (ns, ids) as = Inr st) \<longleftrightarrow>
     (\<forall>a \<in> set as. \<not> a_retired a \<and> assignment_ok a \<and> a_name a \<notin> set ns \<and> a_id a \<notin> fst ` set ids) \<and>
     distinct (map a_name as) \<and> distinct (map a_id as)"
proof (induction as arbitrary: ns ids)
  case Nil
  then show ?case by simp
next
  case (Cons a as)
  show ?case
  proof (cases "\<not> a_retired a \<and> assignment_ok a \<and> a_name a \<notin> set ns \<and> a_id a \<notin> fst ` set ids")
    case True
    then have "validate_active_step (ns, ids) a = Inr (a_name a # ns, (a_id a, a_name a) # ids)"
      by (auto simp: validate_active_step_def assignment_ok_def map_of_eq_None_keys split: option.splits
          dest: map_of_SomeD)
    with True Cons.IH [of "a_name a # ns" "(a_id a, a_name a) # ids"] show ?thesis
      by (auto simp: image_iff)
  next
    case False
    then have "\<exists>e. validate_active_step (ns, ids) a = Inl e"
      by (auto simp: validate_active_step_def assignment_ok_def map_of_eq_None_keys
          split: option.splits if_splits)
    with False show ?thesis by auto
  qed
qed

lemma validate_active_iff: "validate_active as = None \<longleftrightarrow> active_set_ok as"
  by (auto simp: validate_active_def active_set_ok_def validate_active_loop simp del: split_paired_Ex)

section \<open>The table invariant\<close>

definition rows_ok :: "assignment list \<Rightarrow> bool" where
  "rows_ok rows \<longleftrightarrow> distinct (map a_name rows) \<and> distinct (map a_id rows) \<and>
     (\<forall>r \<in> set rows. id_in_range (a_id r))"

text \<open>Growth of the registry: every row of the old table is still there, with its id, and a tombstone
  stays a tombstone.\<close>

definition rows_le :: "assignment list \<Rightarrow> assignment list \<Rightarrow> bool" where
  "rows_le old new \<longleftrightarrow>
     (\<forall>r \<in> set old. \<exists>r' \<in> set new. a_name r' = a_name r \<and> a_id r' = a_id r \<and> (a_retired r \<longrightarrow> a_retired r'))"

lemma rows_le_refl [simp]: "rows_le rows rows"
  by (auto simp: rows_le_def)

lemma rows_le_trans: "rows_le a b \<Longrightarrow> rows_le b c \<Longrightarrow> rows_le a c"
  unfolding rows_le_def by metis

lemma rows_le_append [simp]: "rows_le rows (rows @ new)"
  by (auto simp: rows_le_def)

lemma sql_insert_Ok: "sql_insert rows r = Inr rows' \<longleftrightarrow>
    a_name r \<notin> a_name ` set rows \<and> a_id r \<notin> a_id ` set rows \<and> id_in_range (a_id r) \<and> rows' = rows @ [r]"
  by (auto simp: sql_insert_def)

lemma sql_insert_ok: "rows_ok rows \<Longrightarrow> sql_insert rows r = Inr rows' \<Longrightarrow> rows_ok rows'"
  by (auto simp: sql_insert_Ok rows_ok_def)

lemma sql_retire_keys [simp]: "map a_name (sql_retire rows now n) = map a_name rows"
  "map a_id (sql_retire rows now n) = map a_id rows"
  by (auto simp: sql_retire_def)

lemma sql_retire_ok: "rows_ok rows \<Longrightarrow> rows_ok (sql_retire rows now n)"
  unfolding rows_ok_def sql_retire_keys by (auto simp: sql_retire_def)

lemma sql_retire_le: "rows_le rows (sql_retire rows now n)"
proof -
  let ?f = "\<lambda>r. if a_name r = n \<and> \<not> a_retired r then r\<lparr>a_retired := True, a_retired_at := Some now\<rparr> else r"
  have "\<forall>r \<in> set rows. \<exists>r' \<in> ?f ` set rows. a_name r' = a_name r \<and> a_id r' = a_id r \<and> (a_retired r \<longrightarrow> a_retired r')"
  proof
    fix r assume "r \<in> set rows"
    then have "?f r \<in> ?f ` set rows" by (rule imageI)
    moreover have "a_name (?f r) = a_name r \<and> a_id (?f r) = a_id r \<and> (a_retired r \<longrightarrow> a_retired (?f r))" by simp
    ultimately show "\<exists>r' \<in> ?f ` set rows. a_name r' = a_name r \<and> a_id r' = a_id r \<and> (a_retired r \<longrightarrow> a_retired r')"
      by blast
  qed
  then show ?thesis by (simp only: rows_le_def sql_retire_def set_map)
qed

section \<open>Reserve\<close>

lemma reserve_insert_cases:
  assumes "reserve_insert io now ex rows a = Inr rows'"
  obtains (kept) prior where "by_name ex (a_name a) = Some prior" "a_id prior = a_id a"
      "\<not> a_retired prior" "rows' = rows"
  | (added) "by_name ex (a_name a) = None"
      "sql_insert rows \<lparr>a_name = a_name a, a_id = a_id a, a_retired = False, a_created = now,
         a_retired_at = None\<rparr> = Inr rows'"
  using assms by (auto simp: reserve_insert_def split: option.splits if_splits sum.splits)

lemma reserve_insert_ok:
  "reserve_insert io now ex rows a = Inr rows' \<Longrightarrow> rows_ok rows \<Longrightarrow> rows_ok rows' \<and> rows_le rows rows'"
  by (auto elim!: reserve_insert_cases intro: sql_insert_ok simp: sql_insert_Ok)

lemma reserve_retire_ok:
  "reserve_retire io now ns rows a = Inr rows' \<Longrightarrow> rows_ok rows \<Longrightarrow> rows_ok rows' \<and> rows_le rows rows'"
  by (auto simp: reserve_retire_def sql_retire_ok sql_retire_le split: if_splits option.splits)

lemma foldE_rows_ok:
  assumes "foldE f rows xs = Inr rows'" "rows_ok rows"
    and "\<And>rows x rows'. f rows x = Inr rows' \<Longrightarrow> rows_ok rows \<Longrightarrow> rows_ok rows' \<and> rows_le rows rows'"
  shows "rows_ok rows' \<and> rows_le rows rows'"
proof (rule foldE_invariant [OF assms(1), of "\<lambda>t. rows_ok t \<and> rows_le rows t"])
  show "rows_ok rows \<and> rows_le rows rows" using assms(2) by simp
next
  fix s x s' assume "rows_ok s \<and> rows_le rows s" "f s x = Inr s'"
  then show "rows_ok s' \<and> rows_le rows s'" using assms(3) rows_le_trans by blast
qed

lemma reserve_tx_ok:
  assumes "reserve_tx io now active rows = Inr rows'" "rows_ok rows"
  shows "rows_ok rows' \<and> rows_le rows rows'"
proof -
  from assms(1) obtain ex rows1 where
    1: "foldE (reserve_insert io now ex) rows active = Inr rows1" and
    2: "foldE (reserve_retire io now (map a_name active)) rows1 ex = Inr rows'"
    by (auto simp: reserve_tx_def bindE_eq_Ok split: option.splits)
  have 3: "rows_ok rows1 \<and> rows_le rows rows1"
    by (rule foldE_rows_ok [OF 1 assms(2)]) (rule reserve_insert_ok)
  then have "rows_ok rows1" ..
  have "rows_ok rows' \<and> rows_le rows1 rows'"
    by (rule foldE_rows_ok [OF 2 \<open>rows_ok rows1\<close>]) (rule reserve_retire_ok)
  with 3 rows_le_trans show ?thesis by blast
qed

lemma commit_rows_ok:
  assumes "commit_rows io msg l tx = (res, l')" "rows_ok (led_rows l)"
    and "\<And>rows. tx = Inr rows \<Longrightarrow> rows_ok rows \<and> rows_le (led_rows l) rows"
  shows "rows_ok (led_rows l') \<and> rows_le (led_rows l) (led_rows l')"
  using assms by (auto simp: commit_rows_def split: sum.splits option.splits)

lemma reserve_ok:
  "reserve io now active l = (res, l') \<Longrightarrow> rows_ok (led_rows l) \<Longrightarrow>
    rows_ok (led_rows l') \<and> rows_le (led_rows l) (led_rows l')"
  by (auto simp: reserve_def split: if_splits option.splits
      elim!: commit_rows_ok dest!: reserve_tx_ok)

section \<open>MergeFrom\<close>

lemma merge_insert_ok:
  "merge_insert io now live rows a = Inr rows' \<Longrightarrow> rows_ok rows \<Longrightarrow> rows_ok rows' \<and> rows_le rows rows'"
  by (auto simp: merge_insert_def split: option.splits sum.splits dest: sql_insert_ok)
    (auto simp: sql_insert_Ok)

lemma merge_tx_ok:
  "merge_tx io now saved rows = Inr rows' \<Longrightarrow> rows_ok rows \<Longrightarrow> rows_ok rows' \<and> rows_le rows rows'"
  by (auto simp: merge_tx_def bindE_eq_Ok split: option.splits
      elim!: foldE_rows_ok [THEN conjunct1] foldE_rows_ok [THEN conjunct2] dest: merge_insert_ok)

lemma merge_from_ok:
  "merge_from io now opened saved l = (res, l') \<Longrightarrow> rows_ok (led_rows l) \<Longrightarrow>
    rows_ok (led_rows l') \<and> rows_le (led_rows l) (led_rows l')"
  by (auto simp: merge_from_def split: if_splits option.splits sum.splits
      elim!: commit_rows_ok dest!: merge_tx_ok)

section \<open>The active set after Reserve\<close>

lemma distinct_map_by_mset: "mset xs = mset ys \<Longrightarrow> distinct (map f xs) = distinct (map f ys)"
  by (metis mset_eq_imp_distinct_iff mset_map)

lemma by_name_iff:
  "distinct (map a_name as) \<Longrightarrow> by_name as n = Some r \<longleftrightarrow> r \<in> set as \<and> a_name r = n"
  by (auto simp: by_name_def map_of_eq_Some_iff comp_def rev_map [symmetric] distinct_rev)

lemma by_name_None_iff: "by_name as n = None \<longleftrightarrow> n \<notin> a_name ` set as"
  by (auto simp: by_name_def map_of_eq_None_iff image_iff)

lemma by_id_None_iff: "by_id as i = None \<longleftrightarrow> i \<notin> a_id ` set as"
  by (auto simp: by_id_def map_of_eq_None_iff image_iff)

definition new_row :: "gotime \<Rightarrow> assignment \<Rightarrow> assignment" where
  "new_row now a = \<lparr>a_name = a_name a, a_id = a_id a, a_retired = False, a_created = now, a_retired_at = None\<rparr>"

lemma new_row_sel [simp]: "a_name (new_row now a) = a_name a" "a_id (new_row now a) = a_id a"
  "\<not> a_retired (new_row now a)"
  by (simp_all add: new_row_def)

lemma reserve_inserts:
  "foldE (reserve_insert io now ex) rows active = Inr rows1 \<Longrightarrow>
    rows1 = rows @ map (new_row now) (filter (\<lambda>a. by_name ex (a_name a) = None) active) \<and>
    (\<forall>a \<in> set active. \<forall>p. by_name ex (a_name a) = Some p \<longrightarrow> a_id p = a_id a \<and> \<not> a_retired p)"
proof (induction active arbitrary: rows)
  case (Cons a as)
  from Cons.prems obtain rows' where 1: "reserve_insert io now ex rows a = Inr rows'"
    and 2: "foldE (reserve_insert io now ex) rows' as = Inr rows1" by (auto simp: foldE_Cons_Ok simp del: foldE.simps(2))
  from 1 show ?case
    by (cases rule: reserve_insert_cases) (use Cons.IH [OF 2] in \<open>auto simp: sql_insert_Ok new_row_def\<close>)
qed simp

definition retired_row :: "gotime \<Rightarrow> assignment \<Rightarrow> assignment" where
  "retired_row now r = (if a_retired r then r else r\<lparr>a_retired := True, a_retired_at := Some now\<rparr>)"

lemma retired_row_sel [simp]: "a_name (retired_row now r) = a_name r" "a_id (retired_row now r) = a_id r"
  "a_retired (retired_row now r)" "retired_row now (retired_row now r) = retired_row now r"
  by (simp_all add: retired_row_def)

lemma sql_retire_alt: "sql_retire rows now n = map (\<lambda>r. if a_name r = n then retired_row now r else r) rows"
  by (auto simp: sql_retire_def retired_row_def)

lemma reserve_retires:
  "foldE (reserve_retire io now ns) rows ex = Inr rows2 \<Longrightarrow>
    rows2 = map (\<lambda>r. if \<exists>e \<in> set ex. \<not> a_retired e \<and> a_name e \<notin> set ns \<and> a_name e = a_name r
                     then retired_row now r else r) rows"
proof (induction ex arbitrary: rows)
  case (Cons e ex)
  from Cons.prems obtain rows' where 1: "reserve_retire io now ns rows e = Inr rows'"
    and 2: "foldE (reserve_retire io now ns) rows' ex = Inr rows2"
    by (auto simp: foldE_Cons_Ok simp del: foldE.simps(2))
  note IH = Cons.IH [OF 2]
  show ?case
  proof (cases "a_retired e \<or> a_name e \<in> set ns")
    case True
    with 1 have "rows' = rows" by (simp add: reserve_retire_def)
    with IH True show ?thesis by auto
  next
    case False
    with 1 have "rows' = map (\<lambda>r. if a_name r = a_name e then retired_row now r else r) rows"
      by (simp add: reserve_retire_def sql_retire_alt split: option.splits)
    with IH False show ?thesis by (auto simp: comp_def)
  qed
qed simp

definition active_ids :: "assignment list \<Rightarrow> (string \<times> 8 word) set" where
  "active_ids rows = {(a_name r, a_id r) |r. r \<in> set rows \<and> \<not> a_retired r}"

lemma active_ids_retire:
  "active_ids (map (\<lambda>r. if P r then retired_row now r else r) rows) =
    {(a_name r, a_id r) |r. r \<in> set rows \<and> \<not> a_retired r \<and> \<not> P r}"
  by (auto simp: active_ids_def split: if_splits)

lemma reserve_tx_active:
  assumes tx: "reserve_tx io now active rows = Inr rows'" and ok: "rows_ok rows"
  shows "active_ids rows' = (\<lambda>a. (a_name a, a_id a)) ` set active"
proof -
  from tx obtain ex rows1 where ex: "ex = sort_slice row_key_less rows"
    and 1: "foldE (reserve_insert io now ex) rows active = Inr rows1"
    and 2: "foldE (reserve_retire io now (map a_name active)) rows1 ex = Inr rows'"
    by (auto simp: reserve_tx_def bindE_eq_Ok assignments_from_def split: option.splits)
  have d: "distinct (map a_name ex)" "set ex = set rows"
    using ok ex distinct_map_by_mset [of ex rows a_name] by (auto simp: rows_ok_def)
  note ins = reserve_inserts [OF 1] and ret = reserve_retires [OF 2]
  have rows1: "set rows1 = set rows \<union> new_row now ` {a \<in> set active. a_name a \<notin> a_name ` set rows}"
    using ins d(2) by (auto simp: by_name_None_iff)
  have prior: "a_id p = a_id a \<and> \<not> a_retired p" if "a \<in> set active" "p \<in> set rows" "a_name p = a_name a" for a p
    using ins that d by (auto simp: by_name_iff)
  let ?P = "\<lambda>r. \<exists>e \<in> set ex. \<not> a_retired e \<and> a_name e \<notin> set (map a_name active) \<and> a_name e = a_name r"
  have P: "?P r \<longleftrightarrow> a_name r \<notin> a_name ` set active" if "r \<in> set rows1" "\<not> a_retired r" for r
    using that rows1 d(2) by (auto simp: image_iff)
  have "active_ids rows' = {(a_name r, a_id r) |r. r \<in> set rows1 \<and> \<not> a_retired r \<and> \<not> ?P r}"
    unfolding ret by (rule active_ids_retire)
  also have "\<dots> = {(a_name r, a_id r) |r. r \<in> set rows1 \<and> \<not> a_retired r \<and> a_name r \<in> a_name ` set active}"
    using P by blast
  also have "\<dots> = (\<lambda>a. (a_name a, a_id a)) ` set active"
  proof (intro equalityI subsetI)
    fix x assume "x \<in> {(a_name r, a_id r) |r. r \<in> set rows1 \<and> \<not> a_retired r \<and> a_name r \<in> a_name ` set active}"
    then obtain r where r1: "x = (a_name r, a_id r)" "r \<in> set rows1" "a_name r \<in> a_name ` set active" by blast
    then obtain a where r: "x = (a_name r, a_id r)" "r \<in> set rows1" "a \<in> set active" "a_name a = a_name r"
      by (metis imageE)
    show "x \<in> (\<lambda>a. (a_name a, a_id a)) ` set active"
    proof (cases "r \<in> set rows")
      case True
      with r prior [of a r] have "x = (a_name a, a_id a)" by simp
      with r(3) show ?thesis by auto
    next
      case False
      with r(1,2) rows1 obtain b where "b \<in> set active" "x = (a_name b, a_id b)" by auto
      then show ?thesis by (auto intro: image_eqI)
    qed
  next
    fix x assume "x \<in> (\<lambda>a. (a_name a, a_id a)) ` set active"
    then obtain a where a: "a \<in> set active" "x = (a_name a, a_id a)" by auto
    show "x \<in> {(a_name r, a_id r) |r. r \<in> set rows1 \<and> \<not> a_retired r \<and> a_name r \<in> a_name ` set active}"
    proof (cases "a_name a \<in> a_name ` set rows")
      case True
      then obtain p where p: "p \<in> set rows" "a_name p = a_name a" by auto
      with a prior [of a p] have "x = (a_name p, a_id p) \<and> \<not> a_retired p" by auto
      moreover have "p \<in> set rows1" "a_name p \<in> a_name ` set active" using a p rows1 by auto
      ultimately show ?thesis by blast
    next
      case False
      with a rows1 have "new_row now a \<in> set rows1" by auto
      with a show ?thesis by (intro CollectI exI [of _ "new_row now a"]) auto
    qed
  qed
  finally show ?thesis .
qed

lemma reserve_active:
  "reserve io now active l = (Inr (), l') \<Longrightarrow> rows_ok (led_rows l) \<Longrightarrow>
    active_ids (led_rows l') = (\<lambda>a. (a_name a, a_id a)) ` set active"
  by (auto simp: reserve_def commit_rows_def reserve_tx_active split: if_splits option.splits sum.splits)

section \<open>MergeFrom only adds\<close>

lemma merge_inserts:
  "foldE (merge_insert io now live) rows saved = Inr rows' \<Longrightarrow>
    \<exists>new. rows' = rows @ new \<and>
      (\<lambda>r. (a_name r, a_id r, a_retired r)) ` set new =
      (\<lambda>r. (a_name r, a_id r, a_retired r)) ` {a \<in> set saved. by_name live (a_name a) = None}"
proof (induction saved arbitrary: rows)
  case (Cons a as)
  from Cons.prems obtain rows1 where 1: "merge_insert io now live rows a = Inr rows1"
    and 2: "foldE (merge_insert io now live) rows1 as = Inr rows'"
    by (auto simp: foldE_Cons_Ok simp del: foldE.simps(2))
  from Cons.IH [OF 2] obtain new where new: "rows' = rows1 @ new"
    "(\<lambda>r. (a_name r, a_id r, a_retired r)) ` set new =
     (\<lambda>r. (a_name r, a_id r, a_retired r)) ` {a \<in> set as. by_name live (a_name a) = None}" by blast
  show ?case
  proof (cases "by_name live (a_name a)")
    case None
    with 1 obtain r where r: "rows1 = rows @ [r]"
      "(a_name r, a_id r, a_retired r) = (a_name a, a_id a, a_retired a)"
      by (auto simp: merge_insert_def sql_insert_Ok split: option.splits sum.splits)
    have "{x \<in> set (a # as). by_name live (a_name x) = None} =
        insert a {x \<in> set as. by_name live (a_name x) = None}" using None by auto
    with new r show ?thesis by (intro exI [of _ "r # new"]) simp
  next
    case (Some p)
    with 1 have "rows1 = rows" by (simp add: merge_insert_def)
    moreover have "{x \<in> set (a # as). by_name live (a_name x) = None} =
        {x \<in> set as. by_name live (a_name x) = None}" using Some by auto
    ultimately show ?thesis using new by auto
  qed
qed simp

lemma merge_tx_rows:
  assumes "merge_tx io now saved rows = Inr rows'" and ok: "rows_ok rows"
  shows "\<exists>new. rows' = rows @ new \<and>
      (\<forall>s \<in> set saved. \<exists>r \<in> set rows'. a_name r = a_name s \<and> a_id r = a_id s) \<and>
      (\<forall>r \<in> set rows. \<not> a_retired r \<longrightarrow> (\<exists>s \<in> set saved. a_name s = a_name r \<and> \<not> a_retired s))"
proof -
  from assms(1) obtain live where live: "live = sort_slice row_key_less rows"
    and c1: "\<forall>a \<in> set saved. merge_check_saved live a = None"
    and c2: "\<forall>r \<in> set live. merge_check_live (map a_name saved) r = None"
    and f: "foldE (merge_insert io now live) rows saved = Inr rows'"
    by (auto simp: merge_tx_def bindE_eq_Ok assignments_from_def split: option.splits)
  have d: "distinct (map a_name live)" "set live = set rows"
    using ok live distinct_map_by_mset [of live rows a_name] by (auto simp: rows_ok_def)
  from merge_inserts [OF f] obtain new where new: "rows' = rows @ new"
    "(\<lambda>r. (a_name r, a_id r, a_retired r)) ` set new =
     (\<lambda>r. (a_name r, a_id r, a_retired r)) ` {a \<in> set saved. by_name live (a_name a) = None}" by blast
  have m: "a_id p = a_id s \<and> (a_retired s \<longrightarrow> a_retired p)"
    if "s \<in> set saved" "p \<in> set rows" "a_name p = a_name s" for s p
  proof -
    have "by_name live (a_name s) = Some p" using that d by (simp add: by_name_iff)
    with c1 that(1) show ?thesis by (auto simp: merge_check_saved_def split: if_splits)
  qed
  have "\<exists>r \<in> set rows'. a_name r = a_name s \<and> a_id r = a_id s" if s: "s \<in> set saved" for s
  proof (cases "by_name live (a_name s)")
    case None
    with s have "(a_name s, a_id s, a_retired s) \<in> (\<lambda>r. (a_name r, a_id r, a_retired r)) ` set new"
      unfolding new(2) by blast
    then show ?thesis using new(1) by auto
  next
    case (Some p)
    with d have "p \<in> set rows" "a_name p = a_name s" by (auto simp: by_name_iff)
    with m s new(1) show ?thesis by auto
  qed
  moreover have "\<exists>s \<in> set saved. a_name s = a_name r \<and> \<not> a_retired s" if "r \<in> set rows" "\<not> a_retired r" for r
  proof -
    from c2 that d(2) obtain s where "s \<in> set saved" "a_name s = a_name r"
      by (auto simp: merge_check_live_def image_iff)
    with m that show ?thesis by metis
  qed
  ultimately show ?thesis using new(1) by blast
qed

section \<open>What ValidateRequired accepts\<close>

lemma find_name_iff:
  "distinct (map a_name rows) \<Longrightarrow> find (\<lambda>r. a_name r = n) rows = Some r \<longleftrightarrow> r \<in> set rows \<and> a_name r = n"
proof
  assume "find (\<lambda>r. a_name r = n) rows = Some r"
  then show "r \<in> set rows \<and> a_name r = n" by (auto simp: find_Some_iff in_set_conv_nth)
next
  assume d: "distinct (map a_name rows)" and r: "r \<in> set rows \<and> a_name r = n"
  then obtain r' where r': "find (\<lambda>r. a_name r = n) rows = Some r'"
    by (cases "find (\<lambda>r. a_name r = n) rows") (auto simp: find_None_iff)
  then have "r' \<in> set rows" "a_name r' = n" by (auto simp: find_Some_iff in_set_conv_nth)
  with d r have "r' = r" by (metis inj_onD distinct_map)
  with r' show "find (\<lambda>r. a_name r = n) rows = Some r" by simp
qed

definition holds_id :: "assignment list \<Rightarrow> assignment \<Rightarrow> bool" where
  "holds_id rows a \<longleftrightarrow> (\<exists>r \<in> set rows. a_name r = a_name a \<and> a_id r = a_id a)"

lemma required_loop:
  assumes d: "distinct (map a_name rows)"
  shows "(\<exists>st. foldE (required_step (\<lambda>_. None) rows) (ns, ids) req = Inr st) \<longleftrightarrow>
     (\<forall>a \<in> set req. assignment_ok a \<and> holds_id rows a \<and> a_name a \<notin> set ns \<and> a_id a \<notin> fst ` set ids) \<and>
     distinct (map a_name req) \<and> distinct (map a_id req)"
proof (induction req arbitrary: ns ids)
  case (Cons a as)
  show ?case
  proof (cases "assignment_ok a \<and> holds_id rows a \<and> a_name a \<notin> set ns \<and> a_id a \<notin> fst ` set ids")
    case True
    then obtain r where "find (\<lambda>r. a_name r = a_name a) rows = Some r" "a_id r = a_id a"
      using find_name_iff [OF d] by (auto simp: holds_id_def)
    with True have "required_step (\<lambda>_. None) rows (ns, ids) a = Inr (a_name a # ns, (a_id a, a_name a) # ids)"
      by (auto simp: required_step_def assignment_ok_def map_of_eq_None_keys split: option.splits
          dest: map_of_SomeD)
    with True Cons.IH [of "a_name a # ns" "(a_id a, a_name a) # ids"] show ?thesis by (auto simp: image_iff)
  next
    case False
    then have "\<exists>e. required_step (\<lambda>_. None) rows (ns, ids) a = Inl e"
      using find_name_iff [OF d, of "a_name a"]
      by (auto simp: required_step_def assignment_ok_def holds_id_def map_of_eq_None_keys
          split: option.splits if_splits)
    with False show ?thesis by auto
  qed
qed simp

lemma validate_required_iff:
  "rows_ok (led_rows l) \<Longrightarrow> validate_required (\<lambda>_. None) l req = None \<longleftrightarrow>
    led_open l \<and> (\<forall>a \<in> set req. assignment_ok a \<and> holds_id (led_rows l) a) \<and>
    distinct (map a_name req) \<and> distinct (map a_id req)"
  by (simp add: validate_required_def rows_ok_def required_loop del: split_paired_Ex)

lemma holds_id_le: "rows_le rows rows' \<Longrightarrow> holds_id rows a \<Longrightarrow> holds_id rows' a"
  unfolding rows_le_def holds_id_def by metis

section \<open>Marks\<close>

lemma encode_id_split: "encode_id i AND keep_mask = 0" "encode_id i AND mark_mask = encode_id i"
proof -
  have *: "bit (encode_id i) n \<longleftrightarrow> 24 \<le> n \<and> n < 32 \<and> bit i (n - 24)" for n
    by (auto simp: encode_id_def bit_simps)
  have k: "bit keep_mask n \<longleftrightarrow> n < 24" for n
  proof -
    have "keep_mask = mask 24" by (simp add: keep_mask_def mask_eq_exp_minus_1)
    show ?thesis unfolding \<open>keep_mask = mask 24\<close> bit_mask_iff by auto
  qed
  have m: "mark_mask = NOT keep_mask" by (simp add: keep_mask_def mark_mask_def)
  show "encode_id i AND keep_mask = 0" by (rule bit_word_eqI) (auto simp: bit_simps * k)
  show "encode_id i AND mark_mask = encode_id i" by (rule bit_word_eqI) (auto simp: bit_simps * k m)
qed

lemma encode_id_inject: "encode_id i = encode_id j \<longleftrightarrow> i = j"
proof
  assume eq: "encode_id i = encode_id j"
  show "i = j"
  proof (rule bit_word_eqI)
    fix n assume "n < LENGTH(8)"
    moreover from eq have "bit (encode_id i) (n + 24) = bit (encode_id j) (n + 24)" by simp
    ultimately show "bit i n = bit j n" by (simp add: encode_id_def bit_simps)
  qed
qed simp

lemma masks_complement: "mark_mask AND keep_mask = 0" "mark_mask OR keep_mask = - 1"
  by (simp_all add: keep_mask_def mark_mask_def)

lemma encode_id_zero: "encode_id i = 0 \<longleftrightarrow> i = 0"
  using encode_id_inject [of i 0] by (simp add: encode_id_def)


section \<open>Histories of a ledger\<close>

text \<open>The contract of a registry whose entries are permanent: identifiers are never changed, never given
  to another name, and a tombstone is never lifted, over any sequence of operations.\<close>

locale permanent_registry =
  fixes step :: "'s \<Rightarrow> 's \<Rightarrow> bool"
    and inv :: "'s \<Rightarrow> bool"
    and ident :: "'s \<Rightarrow> 'n \<Rightarrow> 'i option"
    and retired :: "'s \<Rightarrow> 'n \<Rightarrow> bool"
  assumes inv_step: "inv s \<Longrightarrow> step s t \<Longrightarrow> inv t"
    and ident_step: "inv s \<Longrightarrow> step s t \<Longrightarrow> ident s n = Some i \<Longrightarrow> ident t n = Some i"
    and retired_step: "inv s \<Longrightarrow> step s t \<Longrightarrow> retired s n \<Longrightarrow> retired t n"
    and ident_inj: "inv s \<Longrightarrow> ident s n = Some i \<Longrightarrow> ident s m = Some i \<Longrightarrow> n = m"
begin

lemma history:
  assumes "step\<^sup>*\<^sup>* s t" "inv s"
  shows "inv t \<and> (\<forall>n i. ident s n = Some i \<longrightarrow> ident t n = Some i) \<and> (\<forall>n. retired s n \<longrightarrow> retired t n)"
  using assms by (induction) (auto intro: inv_step ident_step retired_step)

lemma never_reassigned:
  "step\<^sup>*\<^sup>* s t \<Longrightarrow> inv s \<Longrightarrow> ident s n = Some i \<Longrightarrow> ident t m = Some i \<Longrightarrow> m = n"
  using history ident_inj by metis

lemma never_revived: "step\<^sup>*\<^sup>* s t \<Longrightarrow> inv s \<Longrightarrow> retired s n \<Longrightarrow> retired t n"
  using history by metis

end

inductive ledger_step :: "ledger \<Rightarrow> ledger \<Rightarrow> bool" where
  Reserve: "reserve io now active l = (res, l') \<Longrightarrow> ledger_step l l'"
| MergeFrom: "merge_from io now opened saved l = (res, l') \<Longrightarrow> ledger_step l l'"

definition id_of :: "ledger \<Rightarrow> string \<Rightarrow> 8 word option" where
  "id_of l n = map_option a_id (find (\<lambda>r. a_name r = n) (led_rows l))"

definition tombstone :: "ledger \<Rightarrow> string \<Rightarrow> bool" where
  "tombstone l n \<longleftrightarrow> (\<exists>r \<in> set (led_rows l). a_name r = n \<and> a_retired r)"

definition ledger_ok :: "ledger \<Rightarrow> bool" where
  "ledger_ok l \<longleftrightarrow> rows_ok (led_rows l)"

lemma ledger_step_rows: "ledger_step l l' \<Longrightarrow> ledger_ok l \<Longrightarrow> ledger_ok l' \<and> rows_le (led_rows l) (led_rows l')"
  unfolding ledger_ok_def by (auto elim!: ledger_step.cases dest: reserve_ok merge_from_ok)

lemma id_of_iff: "ledger_ok l \<Longrightarrow> id_of l n = Some i \<longleftrightarrow> (\<exists>r \<in> set (led_rows l). a_name r = n \<and> a_id r = i)"
  by (auto simp: id_of_def ledger_ok_def rows_ok_def find_name_iff)

interpretation registry: permanent_registry ledger_step ledger_ok id_of tombstone
proof
  fix s t assume s: "ledger_ok s" and st: "ledger_step s t"
  note rows = ledger_step_rows [OF st s]
  show "ledger_ok t" using rows ..
  show "id_of t n = Some i" if "id_of s n = Some i" for n i
    using that rows s by (fastforce simp: id_of_iff rows_le_def)
  show "tombstone t n" if "tombstone s n" for n
    using that rows by (fastforce simp: tombstone_def rows_le_def)
next
  fix s n m i assume "ledger_ok s" "id_of s n = Some i" "id_of s m = Some i"
  then obtain r r' where "r \<in> set (led_rows s)" "r' \<in> set (led_rows s)" "a_name r = n" "a_name r' = m"
    "a_id r = a_id r'" "distinct (map a_id (led_rows s))"
    by (auto simp: id_of_iff) (auto simp: ledger_ok_def rows_ok_def)
  then show "n = m" by (metis inj_onD distinct_map)
qed

lemma reserve_open: "reserve io now active l = (Inr (), l') \<Longrightarrow> led_open l \<and> led_open l' \<and> active_set_ok active"
  by (auto simp: reserve_def commit_rows_def validate_active_iff split: if_splits option.splits sum.splits)

lemma ledger_step_open: "ledger_step l l' \<Longrightarrow> led_open l' = led_open l"
  by (auto elim!: ledger_step.cases simp: reserve_def merge_from_def commit_rows_def
      split: if_splits option.splits sum.splits)

lemma ledger_history_open: "ledger_step\<^sup>*\<^sup>* l l' \<Longrightarrow> led_open l' = led_open l"
  by (induction rule: rtranclp_induct) (auto dest: ledger_step_open)

lemma holds_id_iff: "ledger_ok l \<Longrightarrow> holds_id (led_rows l) a \<longleftrightarrow> id_of l (a_name a) = Some (a_id a)"
  by (auto simp: id_of_iff holds_id_def)

section \<open>Properties\<close>

lemma distinct_nth_below: "distinct xs \<longleftrightarrow> (\<forall>i < length xs. \<forall>j < i. xs ! j \<noteq> xs ! i)"
proof
  show "distinct xs \<Longrightarrow> \<forall>i < length xs. \<forall>j < i. xs ! j \<noteq> xs ! i"
    by (auto simp: nth_eq_iff_index_eq)
next
  assume *: "\<forall>i < length xs. \<forall>j < i. xs ! j \<noteq> xs ! i"
  show "distinct xs"
    unfolding distinct_conv_nth
  proof (intro allI impI)
    fix i j assume "i < length xs" "j < length xs" "i \<noteq> j"
    then show "xs ! i \<noteq> xs ! j" using * by (metis linorder_neq_iff)
  qed
qed

text \<open>C29. \<^verbatim>\<open>ValidateActive\<close> accepts exactly the sets of one to 64 live allocations with well-formed names,
  identifiers 1..254, and neither a name nor an identifier twice.\<close>

theorem ValidateActive_exact:
  "validate_active as = None \<longleftrightarrow>
     as \<noteq> [] \<and> length as \<le> 64 \<and>
     (\<forall>i < length as. \<not> a_retired (as ! i) \<and> identity_pattern (a_name (as ! i)) \<and>
        1 \<le> unat (a_id (as ! i)) \<and> unat (a_id (as ! i)) \<le> 254 \<and>
        (\<forall>j < i. a_name (as ! j) \<noteq> a_name (as ! i) \<and> a_id (as ! j) \<noteq> a_id (as ! i)))"
  unfolding validate_active_iff active_set_ok_def assignment_ok_def id_in_range_def min_id_def max_id_def max_active_def
  by (simp add: all_set_conv_all_nth distinct_nth_below) blast

text \<open>C21. Across any history of \<^verbatim>\<open>Reserve\<close> and \<^verbatim>\<open>MergeFrom\<close> calls, failing ones included, an ingress
  identity keeps its identifier for ever, the identifier is never given to another identity, a
  retired identity stays retired, and the uniqueness and range constraints of the table hold.\<close>

theorem ledger_history_permanent:
  assumes "ledger_step\<^sup>*\<^sup>* l l'" "ledger_ok l"
  shows "ledger_ok l' \<and> (\<forall>n. tombstone l n \<longrightarrow> tombstone l' n) \<and>
    (\<forall>n i. id_of l n = Some i \<longrightarrow> id_of l' n = Some i \<and> (\<forall>m. id_of l' m = Some i \<longrightarrow> m = n))"
  using registry.history [OF assms] registry.never_reassigned [OF assms] by blast

text \<open>C26. A \<^verbatim>\<open>Reserve\<close> that reports success leaves exactly the requested allocations live: every
  requested one is in the table under its identifier, every other row is a tombstone.\<close>

theorem Reserve_exact:
  assumes "reserve io now active l = (Inr (), l')" "ledger_ok l"
  shows "{(a_name r, a_id r) |r. r \<in> set (led_rows l') \<and> \<not> a_retired r} = (\<lambda>a. (a_name a, a_id a)) ` set active"
  using reserve_active [OF assms(1)] assms(2) by (simp add: ledger_ok_def active_ids_def)

text \<open>C25. A generation whose allocations were reserved once passes \<^verbatim>\<open>ValidateRequired\<close> for ever after,
  whatever later reservations and merges retire: rollback to it stays possible.\<close>

theorem ValidateRequired_survives:
  assumes res: "reserve io now active l = (Inr (), l1)" and ok: "ledger_ok l" and hist: "ledger_step\<^sup>*\<^sup>* l1 l2"
  shows "validate_required (\<lambda>_. None) l2 active = None"
proof -
  have ok1: "ledger_ok l1" using ledger_step_rows [OF ledger_step.Reserve [OF res] ok] ..
  have "holds_id (led_rows l1) a" if "a \<in> set active" for a
  proof -
    have "(a_name a, a_id a) \<in> active_ids (led_rows l1)"
      using reserve_active [OF res] ok that by (auto simp: ledger_ok_def)
    then show ?thesis by (auto simp: active_ids_def holds_id_def)
  qed
  then have "holds_id (led_rows l2) a" if "a \<in> set active" for a
    using that registry.history [OF hist ok1] by (simp add: holds_id_iff ok1)
  moreover have "led_open l2 \<and> active_set_ok active"
    using reserve_open [OF res] ledger_history_open [OF hist] by simp
  moreover have "rows_ok (led_rows l2)" using registry.history [OF hist ok1] by (simp add: ledger_ok_def)
  ultimately show ?thesis by (simp add: validate_required_iff active_set_ok_def)
qed

text \<open>C30. A merge that reports success keeps every live row unchanged and only appends: every saved
  identity is then in the table under its saved identifier, and no identity that was active in the live
  ledger is missing or retired in the saved one.\<close>

theorem MergeFrom_only_adds:
  assumes "merge_from io now opened (Inr saved) l = (Inr (), l')" "ledger_ok l"
  shows "take (length (led_rows l)) (led_rows l') = led_rows l \<and>
    (\<forall>s \<in> set saved. id_of l' (a_name s) = Some (a_id s)) \<and>
    (\<forall>r \<in> set (led_rows l). \<not> a_retired r \<longrightarrow> (\<exists>s \<in> set saved. a_name s = a_name r \<and> \<not> a_retired s))"
proof -
  have ok': "ledger_ok l'" using ledger_step_rows [OF ledger_step.MergeFrom [OF assms(1)] assms(2)] ..
  have "merge_tx io now saved (led_rows l) = Inr (led_rows l')"
    using assms(1) by (auto simp: merge_from_def commit_rows_def split: if_splits option.splits sum.splits)
  from merge_tx_rows [OF this] assms(2) show ?thesis
    by (auto simp: ledger_ok_def id_of_iff [OF ok'])
qed

text \<open>The provenance mark lives in the top eight bits alone: setting it keeps the low 24 bits of a
  packet mark, reading it back under the mask gives the encoded identifier, and no two identifiers share a mark.\<close>

theorem mark_composition:
  "(m AND keep_mask OR encoded a) AND keep_mask = m AND keep_mask \<and>
   (m AND keep_mask OR encoded a) AND mark_mask = encoded a \<and>
   (encoded a = encoded b \<longleftrightarrow> a_id a = a_id b)"
proof -
  have 1: "(m AND keep_mask OR encoded a) AND keep_mask = m AND keep_mask"
    using encode_id_split [of "a_id a"] by (simp add: encoded_def bit.conj_disj_distrib2 and.assoc)
  have "(m AND keep_mask) AND mark_mask = 0"
    using masks_complement(1) by (metis and.assoc and.commute and_zero_eq)
  then have "(m AND keep_mask OR encoded a) AND mark_mask = encoded a"
    using encode_id_split [of "a_id a"] by (simp add: encoded_def bit.conj_disj_distrib2)
  with 1 show ?thesis by (simp add: encoded_def encode_id_inject)
qed

section \<open>Witnesses\<close>

definition io_fine :: ledger_io where
  "io_fine = \<lparr>io_begin = None, io_query = None, io_exec = \<lambda>_. None, io_commit = None, io_sync = None\<rparr>"

definition eth_row :: "bool \<Rightarrow> assignment" where
  "eth_row gone = \<lparr>a_name = ''eth0'', a_id = 1, a_retired = gone, a_created = 5,
     a_retired_at = (if gone then Some 9 else None)\<rparr>"

definition lan_row :: assignment where
  "lan_row = \<lparr>a_name = ''lan'', a_id = 2, a_retired = False, a_created = 9, a_retired_at = None\<rparr>"

definition one_row :: "assignment \<Rightarrow> ledger" where
  "one_row r = \<lparr>led_open = True, led_rows = [r], led_readonly = False\<rparr>"

lemmas example_ledger = sort_slice_def io_fine_def eth_row_def lan_row_def one_row_def new_row_def

lemma lan_reserve: "reserve io_fine 9 [lan_row] (one_row (eth_row False)) =
    (Inr (), \<lparr>led_open = True, led_rows = [eth_row True, lan_row], led_readonly = False\<rparr>)"
  by (simp add: go_eval example_ledger)

lemma one_row_ok: "ledger_ok (one_row (eth_row gone))"
  by (simp add: ledger_ok_def rows_ok_def go_eval example_ledger)

lemma ledger_history_permanent_witness:
  "id_of \<lparr>led_open = True, led_rows = [eth_row True, lan_row], led_readonly = False\<rparr> ''eth0'' = Some 1"
proof -
  have "ledger_step\<^sup>*\<^sup>* (one_row (eth_row False))
      \<lparr>led_open = True, led_rows = [eth_row True, lan_row], led_readonly = False\<rparr>"
    by (rule r_into_rtranclp) (rule ledger_step.Reserve [OF lan_reserve])
  moreover have "id_of (one_row (eth_row False)) ''eth0'' = Some 1"
    by (simp add: id_of_def one_row_def eth_row_def)
  ultimately show ?thesis using ledger_history_permanent one_row_ok by blast
qed

lemma Reserve_exact_witness:
  "{(a_name r, a_id r) |r. r \<in> set [eth_row True, lan_row] \<and> \<not> a_retired r} = {(''lan'', 2)}"
  using Reserve_exact [OF lan_reserve one_row_ok] by (simp add: lan_row_def)

lemma ValidateRequired_survives_witness:
  "validate_required (\<lambda>_. None) \<lparr>led_open = True, led_rows = [eth_row True, lan_row], led_readonly = False\<rparr>
    [lan_row] = None"
  by (rule ValidateRequired_survives [OF lan_reserve one_row_ok]) simp

lemma MergeFrom_only_adds_witness:
  "id_of \<lparr>led_open = True, led_rows = [eth_row False, lan_row], led_readonly = False\<rparr> ''lan'' = Some 2"
proof -
  have "merge_from io_fine 9 None (Inr [eth_row False, lan_row]) (one_row (eth_row False)) =
      (Inr (), \<lparr>led_open = True, led_rows = [eth_row False, lan_row], led_readonly = False\<rparr>)"
    by (simp add: go_eval example_ledger zero_time_def)
  from MergeFrom_only_adds [OF this one_row_ok] show ?thesis by (simp add: lan_row_def)
qed

lemma ValidateActive_exact_witness: "validate_active [lan_row] = None"
  unfolding ValidateActive_exact by (simp add: go_eval example_ledger)

end
