(* ===== verification/Config.thy ===== *)
theory Config
  imports Netip Provenance
begin

text \<open>
  The typed configuration, \<^verbatim>\<open>src/internal/config/config.go\<close>: its records, \<^verbatim>\<open>Defaults\<close>, and the whole of
  \<^verbatim>\<open>Validate\<close> with its helpers. \<^verbatim>\<open>Validate\<close> is split where its loops are: each loop is a function, and
  \<open>validate\<close> runs them in the order of the source, the first error winning. Decoding TOML and the
  ownership checks of the file are not modelled; of \<^verbatim>\<open>net/url\<close> and \<^verbatim>\<open>path/filepath\<close> the parts that
  \<^verbatim>\<open>Validate\<close> looks at are.

  The maps a loop fills keep the first entry of a key, which is the only one: a second one is refused
  before it is stored. The loop over the map of zones, whose order Go leaves open, runs here in the order
  of the file; the order only decides which of several errors is reported.
\<close>

section \<open>The document\<close>

record iface =
  if_name :: string
  if_role :: string
  if_zone :: string
  if_cidrs :: "string list"
  if_provname :: string
  if_provid :: "8 word"

record zone =
  z_name :: string
  z_networks :: "string list"
  z_interfaces :: "string list"

record service =
  s_name :: string
  s_protocol :: string
  s_ports :: "int list"

record policy =
  p_name :: string
  p_from :: string
  p_to :: string
  p_service :: string
  p_action :: string

record nat_rule =
  n_name :: string
  n_source :: string
  n_external_interface :: string
  n_protocol :: string
  n_external_port :: int
  n_destination :: string
  n_destination_port :: int

record wireguard_config =
  wg_interface :: string
  wg_endpoint_host :: string
  wg_endpoint_port :: int
  wg_fwmark :: string
  wg_bootstrap_ips :: "string list"
  wg_bootstrap_ips6 :: "string list"
  wg_bootstrap_hosts :: "string list"
  wg_keep_recent :: int
  wg_tcp_mss :: int
  wg_config_path :: string
  wg_handshake_second :: int

record runtime_config =
  rt_max_block_claims :: int
  rt_max_set_members :: int
  rt_safe_apply_seconds :: int
  rt_trusted_services :: "string list"

record state_config =
  st_directory :: string
  st_database :: string
  st_provenance_ledger :: string

record integrations_config =
  ic_docker_enabled :: bool
  ic_threat_feed :: bool
  ic_geoip :: bool
  ic_notifications :: bool

record docker_network =
  d_name :: string
  d_driver :: string
  d_bridge_interface :: string
  d_dynamic_bridge :: bool
  d_subnets :: "string list"
  d_gateways :: "string list"

record threat_feed_config =
  f_name :: string
  f_url :: string
  f_max_entries :: int
  f_max_bytes :: int
  f_min_entries :: int
  f_refresh_seconds :: int

record geo_set_config =
  g_name :: string
  g_country :: string
  g_cidr_file :: string
  g_max_entries :: int
  g_min_entries :: int
  g_refresh_seconds :: int

record system_config =
  sys_ipv6_mode :: string
  sys_strict_vpn :: bool

record config =
  c_system :: system_config
  c_interfaces :: "iface list"
  c_zones :: "zone list"
  c_services :: "service list"
  c_policies :: "policy list"
  c_nat :: "nat_rule list"
  c_wireguard :: wireguard_config
  c_runtime :: runtime_config
  c_state :: state_config
  c_integrations :: integrations_config
  c_docker_networks :: "docker_network list"
  c_threat_feeds :: "threat_feed_config list"
  c_geo_sets :: "geo_set_config list"

definition defaults :: config where
  "defaults = \<lparr>
     c_system = \<lparr>sys_ipv6_mode = ''disabled'', sys_strict_vpn = True\<rparr>,
     c_interfaces = [], c_zones = [], c_services = [], c_policies = [], c_nat = [],
     c_wireguard = \<lparr>wg_interface = ''wg0'', wg_endpoint_host = '''', wg_endpoint_port = 51820,
       wg_fwmark = ''0xca6c'', wg_bootstrap_ips = [], wg_bootstrap_ips6 = [], wg_bootstrap_hosts = [],
       wg_keep_recent = 2, wg_tcp_mss = 1360, wg_config_path = '''', wg_handshake_second = 180\<rparr>,
     c_runtime = \<lparr>rt_max_block_claims = 100000, rt_max_set_members = 65536,
       rt_safe_apply_seconds = 90, rt_trusted_services = []\<rparr>,
     c_state = \<lparr>st_directory = ''/var/lib/nftfw'',
       st_database = ''/var/lib/nftfw/generation-state/state.db'',
       st_provenance_ledger = ''/var/lib/nftfw/provenance-ledger.db''\<rparr>,
     c_integrations = \<lparr>ic_docker_enabled = False, ic_threat_feed = False, ic_geoip = False,
       ic_notifications = False\<rparr>,
     c_docker_networks = [], c_threat_feeds = [], c_geo_sets = []\<rparr>"

section \<open>Names\<close>

definition name_pattern :: "string \<Rightarrow> bool" where
  "name_pattern = name_match is_letter (\<lambda>c. is_alnum c \<or> one_of ''_.-'' c) 62"

definition iface_pattern :: "string \<Rightarrow> bool" where
  "iface_pattern = name_match (\<lambda>c. is_alnum c \<or> one_of ''_.-'' c) (\<lambda>c. is_alnum c \<or> one_of ''_.-'' c) 14"

definition docker_network_pattern :: "string \<Rightarrow> bool" where
  "docker_network_pattern = name_match is_alnum (\<lambda>c. is_alnum c \<or> one_of ''_.-'' c) 127"

definition provenance_identity_pattern :: "string \<Rightarrow> bool" where
  "provenance_identity_pattern = name_match is_alnum (\<lambda>c. is_alnum c \<or> one_of ''_.:-'' c) 127"

definition fwmark_pattern :: "string \<Rightarrow> bool" where
  "fwmark_pattern s \<longleftrightarrow>
     (has_prefix s ''0x'' \<and> 1 \<le> length (drop 2 s) \<and> length (drop 2 s) \<le> 8 \<and>
        list_all (\<lambda>c. hex_val c \<noteq> None) (drop 2 s)) \<or>
     (1 \<le> length s \<and> length s \<le> 10 \<and> list_all is_digit s)"

definition country_pattern :: "string \<Rightarrow> bool" where
  "country_pattern s \<longleftrightarrow> length s = 2 \<and> list_all is_letter s"

section \<open>The file path and URL functions Validate calls\<close>

definition is_abs :: "string \<Rightarrow> bool" where
  "is_abs p = has_prefix p ''/''"

text \<open>\<^verbatim>\<open>filepath.Clean\<close> of an absolute path, \<^verbatim>\<open>filepath.Join\<close> behind an absolute first element and
  \<^verbatim>\<open>filepath.Base\<close>.\<close>

definition clean_step :: "string list \<Rightarrow> string \<Rightarrow> string list" where
  "clean_step st w = (if w = '''' \<or> w = ''.'' then st else if w = ''..'' then tl st else w # st)"

definition clean_abs :: "string \<Rightarrow> string" where
  "clean_abs p = CHR ''/'' # join_str ''/'' (rev (foldl clean_step [] (split_on (CHR ''/'') p)))"

definition join_path :: "string \<Rightarrow> string list \<Rightarrow> string" where
  "join_path root ps = clean_abs (join_str ''/'' (root # ps))"

definition base_name :: "string \<Rightarrow> string" where
  "base_name p =
     (let q = rev (dropWhile (\<lambda>c. c = CHR ''/'') (rev p)) in
      if p = '''' then ''.'' else if q = '''' then ''/''
      else rev (takeWhile (\<lambda>c. c \<noteq> CHR ''/'') (rev q)))"

text \<open>\<^verbatim>\<open>net/url\<close>: percent-decoding in a host, in a zone behind a bracketed address, and in a path.\<close>

datatype escape_mode = EHost | EZone | EPath

definition host_char :: "char \<Rightarrow> bool" where
  "host_char c \<longleftrightarrow> is_alnum c \<or> one_of ''!$&()*+,;=:[]<>-_.~'' c \<or> byte c = 39 \<or> byte c = 34"

fun unescape :: "escape_mode \<Rightarrow> string \<Rightarrow> string option" where
  "unescape m [] = Some []"
| "unescape m (c # s) =
     (if c = CHR ''%'' then
        (case s of
           h # l # s' \<Rightarrow>
             (case (hex_val h, hex_val l) of
                (Some x, Some y) \<Rightarrow>
                  let v = char_of (16 * x + y) in
                  if m = EHost \<and> x < 8 \<and> \<not> (h = CHR ''2'' \<and> l = CHR ''5'') then None
                  else if m = EZone \<and> \<not> (h = CHR ''2'' \<and> l = CHR ''5'') \<and> v \<noteq> CHR '' '' \<and> \<not> host_char v then None
                  else map_option (Cons v) (unescape m s')
              | _ \<Rightarrow> None)
         | _ \<Rightarrow> None)
      else if m \<noteq> EPath \<and> byte c < 128 \<and> \<not> host_char c then None
      else map_option (Cons c) (unescape m s))"

definition valid_optional_port :: "string \<Rightarrow> bool" where
  "valid_optional_port p = (case p of [] \<Rightarrow> True | c # ds \<Rightarrow> c = CHR '':'' \<and> list_all is_digit ds)"

fun cut_at :: "string \<Rightarrow> string \<Rightarrow> (string \<times> string) option" where
  "cut_at sep [] = (if sep = [] then Some ([], []) else None)"
| "cut_at sep (c # s) =
     (if prefix sep (c # s) then Some ([], c # s)
      else map_option (\<lambda>(a, b). (c # a, b)) (cut_at sep s))"

definition parse_host :: "string \<Rightarrow> string option" where
  "parse_host host =
     (if has_prefix host ''['' then
        (if CHR ''['' \<in> set (tl host) then None
         else (case cut_last (CHR '']'') (tl host) of None \<Rightarrow> None
          | Some (h, port) \<Rightarrow>
             if \<not> valid_optional_port port then None
             else
               (case (case cut_at ''%25'' h of
                        None \<Rightarrow> unescape EHost h
                      | Some (a, z) \<Rightarrow>
                          (case (unescape EHost a, unescape EZone z) of
                             (Some a', Some z') \<Rightarrow> Some (a' @ z') | _ \<Rightarrow> None)) of
                  None \<Rightarrow> None
                | Some h' \<Rightarrow>
                    (case parse_addr h' of None \<Rightarrow> None
                     | Some ip \<Rightarrow> if is4 ip then None else Some (''['' @ h' @ '']'' @ port)))))
      else if CHR ''['' \<in> set host then None
      else if \<not> valid_optional_port (dropWhile (\<lambda>c. c \<noteq> CHR '':'') host) then None
      else unescape EHost host)"

text \<open>\<^verbatim>\<open>getScheme\<close>: \<open>None\<close> is an error, an empty scheme leaves the text alone.\<close>

fun get_scheme :: "bool \<Rightarrow> string \<Rightarrow> string \<Rightarrow> (string \<times> string) option" where
  "get_scheme first acc [] = Some ([], rev acc)"
| "get_scheme first acc (c # s) =
     (if is_letter c then get_scheme False (c # acc) s
      else if is_digit c \<or> one_of ''+-.'' c then
        (if first then Some ([], c # s) else get_scheme False (c # acc) s)
      else if c = CHR '':'' then (if first then None else Some (rev acc, s))
      else Some ([], rev acc @ c # s))"

definition lower_char :: "char \<Rightarrow> char" where
  "lower_char c = (if is_upper c then char_of (byte c + 32) else c)"

definition to_lower :: "string \<Rightarrow> string" where
  "to_lower = map lower_char"

record url =
  u_scheme :: string
  u_host :: string
  u_user :: bool
  u_raw_query :: string
  u_force_query :: bool

text \<open>
  \<^verbatim>\<open>url.Parse\<close>, without the fragment (its only caller refuses a text that has one) and without the
  path, of which only the percent-encoding is checked. A user part is reported, valid or not.
\<close>

definition parse_url :: "string \<Rightarrow> url option" where
  "parse_url raw =
     (if list_ex (\<lambda>c. byte c < 32 \<or> byte c = 127) raw then None
      else (case get_scheme True [] raw of None \<Rightarrow> None
        | Some (sch, rest0) \<Rightarrow>
           let force = (has_suffix rest0 ''?'' \<and> length (filter (\<lambda>c. c = CHR ''?'') rest0) = 1);
               rest = takeWhile (\<lambda>c. c \<noteq> CHR ''?'') rest0;
               q = tl (dropWhile (\<lambda>c. c \<noteq> CHR ''?'') rest0);
               u = \<lparr>u_scheme = to_lower sch, u_host = '''', u_user = False, u_raw_query = q, u_force_query = force\<rparr> in
           if \<not> has_prefix rest ''/'' \<and> sch \<noteq> '''' then Some u
           else if \<not> has_prefix rest ''/'' \<and> CHR '':'' \<in> set (takeWhile (\<lambda>c. c \<noteq> CHR ''/'') rest) then None
           else if (sch \<noteq> '''' \<or> \<not> has_prefix rest ''///'') \<and> has_prefix rest ''//'' then
             (let auth = takeWhile (\<lambda>c. c \<noteq> CHR ''/'') (drop 2 rest);
                  path = dropWhile (\<lambda>c. c \<noteq> CHR ''/'') (drop 2 rest) in
              if unescape EPath path = None then None
              else (case cut_last (CHR ''@'') auth of
                      Some (_, h) \<Rightarrow> map_option (\<lambda>h'. u\<lparr>u_host := h', u_user := True\<rparr>) (parse_host h)
                    | None \<Rightarrow> map_option (\<lambda>h'. u\<lparr>u_host := h'\<rparr>) (parse_host auth)))
           else if unescape EPath rest = None then None else Some u))"

lemmas config_lib_eval [go_eval] =
  name_pattern_def iface_pattern_def docker_network_pattern_def provenance_identity_pattern_def
  fwmark_pattern_def country_pattern_def is_abs_def clean_step_def clean_abs_def join_path_def
  base_name_def host_char_def valid_optional_port_def parse_host_def lower_char_def to_lower_def
  parse_url_def

section \<open>Validate: limits, runtime, state paths, integrations\<close>

definition validate_general :: "config \<Rightarrow> goerr option" where
  "validate_general c =
     (let sys = c_system c; rt = c_runtime c; st = c_state c; ic = c_integrations c in first_err [
       refuse (max_active < length (c_interfaces c) \<or> max_active < length (c_docker_networks c) \<or>
           256 < length (c_zones c) \<or> 1024 < length (c_services c) \<or> 10000 < length (c_policies c) \<or>
           10000 < length (c_nat c) \<or> 64 < length (c_threat_feeds c) \<or> 64 < length (c_geo_sets c))
         (Errorf ''configuration collection limit exceeded'' []),
       refuse (sys_ipv6_mode sys \<noteq> ''disabled'' \<and> sys_ipv6_mode sys \<noteq> ''vpn'' \<and> sys_ipv6_mode sys \<noteq> ''native'')
         (Errorf ''system.ipv6_mode must be disabled, vpn, or native'' []),
       refuse (\<not> sys_strict_vpn sys)
         (Errorf ''system.strict_vpn=false is not implemented; V2 requires explicit strict VPN egress'' []),
       refuse (rt_max_block_claims rt \<le> 0 \<or> rt_max_block_claims rt > 1000000)
         (Errorf ''runtime.max_block_claims must be 1..1000000'' []),
       refuse (rt_max_set_members rt \<le> 0 \<or> rt_max_set_members rt > 1000000)
         (Errorf ''runtime.max_set_members must be 1..1000000'' []),
       refuse (rt_safe_apply_seconds rt < 30 \<or> rt_safe_apply_seconds rt > 600)
         (Errorf ''runtime.safe_apply_timeout_seconds must be 30..600'' []),
       refuse (32 < length (rt_trusted_services rt))
         (Errorf ''runtime.trusted_services exceeds 32 entries'' []),
       refuse (\<not> is_abs (st_directory st) \<or> clean_abs (st_directory st) \<noteq> st_directory st \<or>
           clean_abs (st_directory st) = ''/'' \<or> contains_any (st_directory st) ''?#%'')
         (Errorf ''state.directory must be an absolute canonical non-root directory'' []),
       refuse (st_database st \<noteq> join_path (clean_abs (st_directory st)) [''generation-state'', ''state.db''])
         (Errorf ''state.database must be the canonical state.directory/generation-state/state.db'' []),
       refuse (st_provenance_ledger st \<noteq> join_path (clean_abs (st_directory st)) [''provenance-ledger.db''])
         (Errorf ''state.provenance_ledger must be the separate state.directory/provenance-ledger.db'' []),
       refuse (ic_notifications ic)
         (Errorf ''integrations.notifications is not implemented in the core; use a separate audit adapter'' []),
       refuse (ic_docker_enabled ic \<noteq> (0 < length (c_docker_networks c)))
         (Errorf ''integrations.docker_enabled must be true exactly when [[docker_networks]] entries are configured'' []),
       refuse (ic_threat_feed ic \<noteq> (0 < length (c_threat_feeds c)))
         (Errorf ''integrations.threat_feed must be true exactly when [[threat_feeds]] entries are configured'' []),
       refuse (ic_geoip ic \<noteq> (0 < length (c_geo_sets c)))
         (Errorf ''integrations.geoip must be true exactly when [[geo_sets]] entries are configured'' [])])"

section \<open>Validate: threat feeds and geo sets\<close>

definition validate_feed :: "config \<Rightarrow> string list \<Rightarrow> threat_feed_config \<Rightarrow> string list result" where
  "validate_feed c names f =
     (let u = parse_url (f_url f) in
      case first_err [
       refuse (\<not> name_pattern (f_name f) \<or> f_name f \<in> set names)
         (Errorf ''invalid or duplicate threat feed name %q'' [f_name f]),
       refuse (case u of None \<Rightarrow> True | Some u \<Rightarrow>
           u_scheme u \<noteq> ''https'' \<or> u_host u = '''' \<or> u_user u \<or> u_raw_query u \<noteq> '''' \<or>
           u_force_query u \<or> contains_str (f_url f) ''#'')
         (Errorf ''threat feed %s must use an HTTPS URL without userinfo, query, or fragment'' [f_name f]),
       refuse (f_max_entries f < 0 \<or> f_max_entries f > rt_max_block_claims (c_runtime c) \<or>
           f_min_entries f < 0 \<or> (f_max_entries f > 0 \<and> f_min_entries f > f_max_entries f))
         (Errorf ''threat feed %s has invalid entry bounds'' [f_name f]),
       refuse (f_max_bytes f < 0 \<or> f_max_bytes f > 67108864 \<or> f_refresh_seconds f < 0 \<or>
           (f_refresh_seconds f > 0 \<and> f_refresh_seconds f < 60))
         (Errorf ''threat feed %s has invalid byte/refresh bounds'' [f_name f])]
      of Some e \<Rightarrow> Err e | None \<Rightarrow> Ok (f_name f # names))"

definition validate_geo_set :: "config \<Rightarrow> string list \<Rightarrow> geo_set_config \<Rightarrow> string list result" where
  "validate_geo_set c names g =
     (case first_err [
       refuse (\<not> name_pattern (g_name g) \<or> g_name g \<in> set names)
         (Errorf ''invalid or duplicate GeoIP set name %q'' [g_name g]),
       refuse (\<not> country_pattern (g_country g))
         (Errorf ''GeoIP set %s has invalid country identifier %q'' [g_name g, g_country g]),
       refuse (\<not> is_abs (g_cidr_file g))
         (Errorf ''GeoIP set %s cidr_file must be absolute'' [g_name g]),
       refuse (g_max_entries g < 0 \<or> g_max_entries g > rt_max_block_claims (c_runtime c) \<or>
           g_min_entries g < 0 \<or> (g_max_entries g > 0 \<and> g_min_entries g > g_max_entries g))
         (Errorf ''GeoIP set %s has invalid entry bounds'' [g_name g]),
       refuse (g_refresh_seconds g < 0 \<or> (g_refresh_seconds g > 0 \<and> g_refresh_seconds g < 60))
         (Errorf ''GeoIP set %s has invalid refresh interval'' [g_name g])]
      of Some e \<Rightarrow> Err e | None \<Rightarrow> Ok (g_name g # names))"

section \<open>Validate: interfaces\<close>

text \<open>The length of the mask \<^verbatim>\<open>ParseCIDR\<close> returns, in bits.\<close>

definition cidr_bits :: "string \<Rightarrow> nat" where
  "cidr_bits s = (case parse_addr (takeWhile (\<lambda>c. c \<noteq> CHR ''/'') s) of None \<Rightarrow> 0 | Some ip \<Rightarrow> bit_len ip)"

definition validate_cidr :: "string \<Rightarrow> bool \<Rightarrow> goerr option" where
  "validate_cidr raw allowHost =
     (case parse_cidr (trim_space raw) of
        None \<Rightarrow> Some (Errorf ''invalid CIDR %q'' [raw])
      | Some ones \<Rightarrow>
         if ones = 0 then Some (Errorf ''/0 is not permitted'' [])
         else if \<not> allowHost \<and> ones \<noteq> cidr_bits (trim_space raw) then Some (Errorf ''host address required'' [])
         else None)"

definition interface_provenance_name :: "iface \<Rightarrow> string" where
  "interface_provenance_name i = (if if_provname i \<noteq> '''' then if_provname i else if_name i)"

definition iface_assignment :: "iface \<Rightarrow> assignment" where
  "iface_assignment i = \<lparr>a_name = interface_provenance_name i, a_id = if_provid i, a_retired = False,
     a_created = zero_time, a_retired_at = None\<rparr>"

definition validate_iface :: "string list \<Rightarrow> iface \<Rightarrow> string list result" where
  "validate_iface names i =
     (case first_err [
       refuse (\<not> iface_pattern (if_name i)) (Errorf ''interface %q has invalid name'' [if_name i]),
       refuse (if_role i \<noteq> ''uplink'' \<and> if_role i \<noteq> ''vpn'' \<and> if_role i \<noteq> ''lan'' \<and> if_role i \<noteq> ''container'')
         (Errorf ''interface %q has invalid role %q'' [if_name i, if_role i]),
       refuse (if_name i \<in> set names) (Errorf ''duplicate interface %q'' [if_name i]),
       refuse (unat (if_provid i) < min_id \<or> unat (if_provid i) > max_id)
         (Errorf ''interface %q provenance_id must be %d..%d'' [if_name i, itoa min_id, itoa max_id]),
       refuse (\<not> provenance_identity_pattern (interface_provenance_name i))
         (Errorf ''interface %q has invalid provenance_name %q'' [if_name i, interface_provenance_name i]),
       map_option (Wrapf ''interface %s cidr: %w'' [if_name i])
         (checks (\<lambda>r. validate_cidr r True) (if_cidrs i))]
      of Some e \<Rightarrow> Err e | None \<Rightarrow> Ok (if_name i # names))"

definition iface_named :: "config \<Rightarrow> string \<Rightarrow> iface option" where
  "iface_named c n = find (\<lambda>i. if_name i = n) (c_interfaces c)"

definition uplinks :: "config \<Rightarrow> iface list" where
  "uplinks c = filter (\<lambda>i. if_role i = ''uplink'') (c_interfaces c)"

section \<open>Validate: Docker networks\<close>

definition parse_prefix_or_zero :: "string \<Rightarrow> prefix_t" where
  "parse_prefix_or_zero s = (case parse_prefix s of None \<Rightarrow> zero_prefix | Some p \<Rightarrow> p)"

definition canonical_prefixes :: "string list \<Rightarrow> string list" where
  "canonical_prefixes values =
     sort (concat (map (\<lambda>raw. case parse_prefix (trim_space raw) of None \<Rightarrow> []
                               | Some p \<Rightarrow> [prefix_string (masked p)]) values))"

record docker_state =
  ds_names :: "string list"
  ds_bridges :: "(string \<times> string) list"
  ds_prefixes :: "(string \<times> prefix_t) list"

text \<open>The inner loop over the subnets of one network: the canonical subnets and the gateways seen, and
  the prefixes of all networks so far.\<close>

definition docker_subnet ::
  "docker_network \<Rightarrow> string list \<times> string list \<times> (string \<times> prefix_t) list \<Rightarrow> string \<times> string \<Rightarrow>
   (string list \<times> string list \<times> (string \<times> prefix_t) list) result" where
  "docker_subnet d st sg =
     (case (st, sg) of ((subnets, gateways, owned), (rawSubnet, rawGateway0)) \<Rightarrow>
       (case parse_prefix (trim_space rawSubnet) of
          None \<Rightarrow> Err (Errorf ''docker network %s has invalid subnet %q'' [d_name d, rawSubnet])
        | Some p0 \<Rightarrow>
           if pbits p0 = 0 then Err (Errorf ''docker network %s has invalid subnet %q'' [d_name d, rawSubnet])
           else
             let p = masked p0; canonical = prefix_string p in
             if trim_space rawSubnet \<noteq> canonical \<or> canonical \<in> set subnets then
               Err (Errorf ''docker network %s has non-canonical or duplicate subnet %q'' [d_name d, rawSubnet])
             else (case find (\<lambda>(n, q). overlaps p q) owned of
               Some (n, q) \<Rightarrow> Err (Errorf ''docker network %s subnet %s overlaps docker network %s subnet %s''
                               [d_name d, canonical, n, prefix_string q])
             | None \<Rightarrow>
                let rawGateway = trim_space rawGateway0;
                    unusable = Errorf ''docker network %s gateway %q is not usable within subnet %s''
                                 [d_name d, rawGateway0, canonical] in
                (case parse_addr rawGateway of None \<Rightarrow> Err unusable
                 | Some gw \<Rightarrow>
                    if \<not> is_valid_addr gw \<or> is_unspecified gw \<or> is_multicast gw \<or>
                       \<not> prefix_contains p gw \<or> is4 gw \<noteq> is4 (paddr p) then Err unusable
                    else if gw = paddr p \<or> addr_string gw \<in> set gateways \<or> rawGateway \<noteq> addr_string gw then
                      Err (Errorf ''docker network %s has non-canonical, duplicate, or network-address gateway %q''
                        [d_name d, rawGateway0])
                    else Ok (canonical # subnets, addr_string gw # gateways, owned @ [(d_name d, p)])))))"

definition docker_network_step :: "config \<Rightarrow> docker_state \<Rightarrow> docker_network \<Rightarrow> docker_state result" where
  "docker_network_step c st d =
     (let br = d_bridge_interface d; managed = ''docker:'' @ d_name d;
          mismatch = Errorf ''docker network %s subnets do not match declared interface %s CIDRs'' [d_name d, br] in
      if \<not> docker_network_pattern (d_name d) \<or> d_name d \<in> set (ds_names st) then
        Err (Errorf ''invalid or duplicate Docker network name %q'' [d_name d])
      else if d_driver d \<noteq> ''bridge'' then Err (Errorf ''docker network %s driver must be bridge'' [d_name d])
      else if \<not> iface_pattern br then
        Err (Errorf ''docker network %s has invalid bridge_interface %q'' [d_name d, br])
      else (case map_of (ds_bridges st) br of
        Some prior \<Rightarrow> Err (Errorf ''docker bridge interface %q is shared by networks %s and %s'' [br, prior, d_name d])
      | None \<Rightarrow>
        (case Option.bind (iface_named c br) (\<lambda>i. if if_role i = ''container'' then Some i else None) of
           None \<Rightarrow> Err (Errorf ''docker network %s bridge_interface %q must be a declared container interface'' [d_name d, br])
         | Some i \<Rightarrow>
            let prov = interface_provenance_name i in
            if d_dynamic_bridge d \<and> prov \<noteq> managed then
              Err (Errorf ''docker network %s dynamic bridge requires provenance_name %q'' [d_name d, managed])
            else if \<not> d_dynamic_bridge d \<and> prov \<noteq> br \<and> prov \<noteq> managed then
              Err (Errorf ''docker network %s static bridge has incompatible provenance_name %q'' [d_name d, prov])
            else if length (d_subnets d) = 0 \<or> length (d_subnets d) \<noteq> length (d_gateways d) then
              Err (Errorf ''docker network %s requires one explicit gateway for every subnet'' [d_name d])
            else if 16 < length (d_subnets d) then
              Err (Errorf ''docker network %s exceeds 16 subnet/gateway pairs'' [d_name d])
            else bindE (foldE (docker_subnet d) ([], [], ds_prefixes st) (zip (d_subnets d) (d_gateways d)))
              (\<lambda>(subnets, gateways, owned).
                case checks (\<lambda>raw. refuse
                        (trim_space raw \<noteq> prefix_string (masked (parse_prefix_or_zero (trim_space raw))))
                        (Errorf ''docker bridge interface %s CIDR %q must be a canonical subnet'' [br, raw]))
                      (if_cidrs i) of
                  Some e \<Rightarrow> Err e
                | None \<Rightarrow>
                   if canonical_prefixes (if_cidrs i) \<noteq> sort subnets then Err mismatch
                   else Ok (st\<lparr>ds_names := d_name d # ds_names st,
                               ds_bridges := (br, d_name d) # ds_bridges st, ds_prefixes := owned\<rparr>)))))"

definition validate_docker_networks :: "config \<Rightarrow> goerr option" where
  "validate_docker_networks c =
     err_of (foldE (docker_network_step c) \<lparr>ds_names = [], ds_bridges = [], ds_prefixes = []\<rparr>
               (c_docker_networks c))"

section \<open>Validate: zones\<close>

record zone_state =
  zs_names :: "string list"
  zs_prefixes :: "(string \<times> prefix_t) list"
  zs_ifzones :: "(string \<times> string) list"

definition assign_interface_zone :: "string \<Rightarrow> zone_state \<Rightarrow> string \<Rightarrow> zone_state result" where
  "assign_interface_zone zn st n =
     (case map_of (zs_ifzones st) n of
        Some prior \<Rightarrow>
          if prior \<noteq> zn then Err (Errorf ''interface %q is assigned to multiple zones %q and %q'' [n, prior, zn])
          else Ok (st\<lparr>zs_ifzones := (n, zn) # zs_ifzones st\<rparr>)
      | None \<Rightarrow> Ok (st\<lparr>zs_ifzones := (n, zn) # zs_ifzones st\<rparr>))"

definition zone_network :: "string \<Rightarrow> zone_state \<Rightarrow> string \<Rightarrow> zone_state result" where
  "zone_network zn st n =
     (case validate_cidr n True of
        Some e \<Rightarrow> Err (Wrapf ''zone %s network: %w'' [zn] e)
      | None \<Rightarrow>
         let p = masked (parse_prefix_or_zero n) in
         (case find (\<lambda>(z, q). overlaps p q) (zs_prefixes st) of
            Some (z, q) \<Rightarrow> Err (Errorf ''zone %s network %s overlaps zone %s network %s''
                             [zn, prefix_string p, z, prefix_string q])
          | None \<Rightarrow> Ok (st\<lparr>zs_prefixes := zs_prefixes st @ [(zn, p)]\<rparr>)))"

definition zone_interface :: "config \<Rightarrow> string \<Rightarrow> zone_state \<Rightarrow> string \<Rightarrow> zone_state result" where
  "zone_interface c zn st n =
     (if iface_named c n = None then Err (Errorf ''zone %s references unknown interface %q'' [zn, n])
      else assign_interface_zone zn st n)"

definition zone_step :: "config \<Rightarrow> zone_state \<Rightarrow> zone \<Rightarrow> zone_state result" where
  "zone_step c st z =
     (if \<not> name_pattern (z_name z) then Err (Errorf ''zone %q has invalid name'' [z_name z])
      else if z_name z \<in> set (zs_names st) then Err (Errorf ''duplicate zone %q'' [z_name z])
      else bindE (foldE (zone_network (z_name z)) (st\<lparr>zs_names := z_name z # zs_names st\<rparr>) (z_networks z))
             (\<lambda>st'. foldE (zone_interface c (z_name z)) st' (z_interfaces z)))"

definition iface_zone_step :: "zone_state \<Rightarrow> iface \<Rightarrow> zone_state result" where
  "iface_zone_step st i =
     (if if_zone i = '''' then Ok st
      else if if_zone i \<notin> set (zs_names st) then
        Err (Errorf ''interface %s references unknown zone %q'' [if_name i, if_zone i])
      else assign_interface_zone (if_zone i) st (if_name i))"

definition zone_populated :: "config \<Rightarrow> zone \<Rightarrow> goerr option" where
  "zone_populated c z =
     refuse (z_networks z = [] \<and> z_interfaces z = [] \<and>
         \<not> list_ex (\<lambda>i. if_zone i = z_name z) (c_interfaces c))
       (Errorf ''zone %s has no networks or interfaces'' [z_name z])"

definition no_zones :: zone_state where
  "no_zones = \<lparr>zs_names = [], zs_prefixes = [], zs_ifzones = []\<rparr>"

definition zone_table :: "config \<Rightarrow> zone_state result" where
  "zone_table c =
     bindE (foldE (zone_step c) no_zones (c_zones c)) (\<lambda>st. foldE iface_zone_step st (c_interfaces c))"

definition validate_zones :: "config \<Rightarrow> goerr option" where
  "validate_zones c = first_err [err_of (zone_table c), checks (zone_populated c) (c_zones c)]"

definition zone_named :: "config \<Rightarrow> string \<Rightarrow> zone option" where
  "zone_named c n = find (\<lambda>z. z_name z = n) (c_zones c)"

section \<open>Validate: services\<close>

definition port_step :: "string \<Rightarrow> int list \<Rightarrow> int \<Rightarrow> int list result" where
  "port_step sn seen p =
     (if p < 1 \<or> p > 65535 \<or> p \<in> set seen then
        Err (Errorf ''service %s has invalid or duplicate port %d'' [sn, itoa_int p])
      else Ok (p # seen))"

definition portless :: "string \<Rightarrow> bool" where
  "portless proto \<longleftrightarrow> proto = ''icmp'' \<or> proto = ''any''"

definition service_step :: "string list \<Rightarrow> service \<Rightarrow> string list result" where
  "service_step names s =
     (case first_err [
       refuse (\<not> name_pattern (s_name s)) (Errorf ''service %q has invalid name'' [s_name s]),
       refuse (s_name s \<in> set names) (Errorf ''duplicate service %q'' [s_name s]),
       refuse (s_protocol s \<noteq> ''tcp'' \<and> s_protocol s \<noteq> ''udp'' \<and> s_protocol s \<noteq> ''icmp'' \<and> s_protocol s \<noteq> ''any'')
         (Errorf ''service %s has invalid protocol %q'' [s_name s, s_protocol s]),
       refuse (portless (s_protocol s) \<and> length (s_ports s) \<noteq> 0)
         (Errorf ''service %s: %s cannot have ports'' [s_name s, s_protocol s]),
       err_of (foldE (port_step (s_name s)) [] (s_ports s)),
       refuse (\<not> portless (s_protocol s) \<and> length (s_ports s) = 0)
         (Errorf ''service %s must define at least one port'' [s_name s])]
      of Some e \<Rightarrow> Err e | None \<Rightarrow> Ok (s_name s # names))"

definition service_named :: "config \<Rightarrow> string \<Rightarrow> service option" where
  "service_named c n = find (\<lambda>s. s_name s = n) (c_services c)"

definition trusted_step :: "config \<Rightarrow> string list \<Rightarrow> string \<Rightarrow> string list result" where
  "trusted_step c seen n =
     (case service_named c n of
        None \<Rightarrow> Err (Errorf ''runtime.trusted_services references unknown service %q'' [n])
      | Some s \<Rightarrow>
         if n \<in> set seen then Err (Errorf ''runtime.trusted_services contains duplicate service %q'' [n])
         else if s_protocol s \<noteq> ''tcp'' \<and> s_protocol s \<noteq> ''udp'' then
           Err (Errorf ''runtime.trusted_services service %q must use tcp or udp'' [n])
         else Ok (n # seen))"

section \<open>Validate: policies\<close>

definition zone_uses_uplink :: "config \<Rightarrow> string \<Rightarrow> bool" where
  "zone_uses_uplink c zn \<longleftrightarrow>
     (case zone_named c zn of None \<Rightarrow> False
      | Some z \<Rightarrow> list_ex (\<lambda>n. case iface_named c n of None \<Rightarrow> False | Some i \<Rightarrow> if_role i = ''uplink'') (z_interfaces z)) \<or>
     list_ex (\<lambda>i. if_zone i = zn \<and> if_role i = ''uplink'') (c_interfaces c)"

type_synonym flow = "string \<times> string \<times> string"

definition flow_of :: "policy \<Rightarrow> flow" where
  "flow_of p = (p_from p, p_to p, p_service p)"

text \<open>The flow key joins three validated names with NUL bytes, which none of them contains; it is kept as
  the triple.\<close>

definition policy_step :: "config \<Rightarrow> string list \<times> (flow \<times> string) list \<Rightarrow> policy \<Rightarrow>
    (string list \<times> (flow \<times> string) list) result" where
  "policy_step c st p =
     (case st of (names, flows) \<Rightarrow>
      (case first_err [
       refuse (\<not> name_pattern (p_name p) \<or> p_name p \<in> set names)
         (Errorf ''invalid or duplicate policy %q'' [p_name p]),
       refuse (p_action p \<noteq> ''allow'' \<and> p_action p \<noteq> ''deny'')
         (Errorf ''policy %s action must be allow or deny'' [p_name p]),
       refuse (p_from p \<noteq> ''any'' \<and> p_from p \<noteq> ''host'' \<and> zone_named c (p_from p) = None)
         (Errorf ''policy %s references unknown source zone %q'' [p_name p, p_from p]),
       refuse (p_to p \<noteq> ''host'' \<and> p_to p \<noteq> ''any'' \<and> zone_named c (p_to p) = None)
         (Errorf ''policy %s references unknown destination zone %q'' [p_name p, p_to p]),
       refuse (service_named c (p_service p) = None)
         (Errorf ''policy %s references unknown service %q'' [p_name p, p_service p]),
       refuse ((p_from p = ''host'' \<or> p_from p = ''any'') \<and> p_to p \<noteq> ''host'' \<and> p_to p \<noteq> ''any'' \<and>
           zone_uses_uplink c (p_to p))
         (Errorf ''policy %s cannot use an uplink interface as a host destination zone'' [p_name p]),
       map_option (\<lambda>prev. Errorf ''policy %s duplicates flow tuple from policy %s'' [p_name p, prev])
         (map_of flows (flow_of p))]
      of Some e \<Rightarrow> Err e | None \<Rightarrow> Ok (p_name p # names, (flow_of p, p_name p) # flows)))"

section \<open>Validate: NAT\<close>

type_synonym binding = "string \<times> string \<times> int \<times> string"

definition binding_of :: "nat_rule \<Rightarrow> binding" where
  "binding_of r = (n_external_interface r, n_protocol r, n_external_port r, n_source r)"

definition zone_has_ipv4 :: "zone \<Rightarrow> bool" where
  "zone_has_ipv4 z = list_ex (\<lambda>raw. case parse_prefix raw of None \<Rightarrow> False | Some p \<Rightarrow> is4 (paddr p)) (z_networks z)"

definition nat_step :: "config \<Rightarrow> string list \<times> (binding \<times> string) list \<Rightarrow> nat_rule \<Rightarrow>
    (string list \<times> (binding \<times> string) list) result" where
  "nat_step c st r =
     (case st of (names, bindings) \<Rightarrow>
      (case first_err [
       refuse (\<not> name_pattern (n_name r) \<or> n_name r \<in> set names)
         (Errorf ''invalid or duplicate NAT rule %q'' [n_name r]),
       (if n_source r = ''any'' then None
        else (case zone_named c (n_source r) of
                None \<Rightarrow> Some (Errorf ''NAT rule %s references unknown source zone %q'' [n_name r, n_source r])
              | Some z \<Rightarrow> refuse (\<not> zone_has_ipv4 z)
                  (Errorf ''NAT rule %s source zone must contain an IPv4 network or use source=any'' [n_name r]))),
       refuse (case iface_named c (n_external_interface r) of None \<Rightarrow> True
               | Some i \<Rightarrow> if_role i \<noteq> ''uplink'' \<and> if_role i \<noteq> ''lan'' \<and> if_role i \<noteq> ''vpn'')
         (Errorf ''NAT rule %s external_interface must be a declared uplink, lan, or vpn interface'' [n_name r]),
       refuse (n_protocol r \<noteq> ''tcp'' \<and> n_protocol r \<noteq> ''udp'')
         (Errorf ''NAT rule %s protocol must be tcp or udp'' [n_name r]),
       refuse (n_external_port r < 1 \<or> n_external_port r > 65535 \<or> n_destination_port r < 1 \<or>
           n_destination_port r > 65535)
         (Errorf ''NAT rule %s has invalid port'' [n_name r]),
       refuse (case parse_addr (n_destination r) of None \<Rightarrow> True
               | Some a \<Rightarrow> \<not> is4 a \<or> is_unspecified a \<or> is_multicast a)
         (Errorf ''NAT rule %s destination must be a unicast IPv4 address'' [n_name r]),
       map_option (\<lambda>prev. Errorf ''NAT rule %s conflicts with rule %s'' [n_name r, prev])
         (map_of bindings (binding_of r))]
      of Some e \<Rightarrow> Err e | None \<Rightarrow> Ok (n_name r # names, (binding_of r, n_name r) # bindings)))"

section \<open>Validate: WireGuard\<close>

definition valid_endpoint_address :: "addr \<Rightarrow> bool" where
  "valid_endpoint_address a \<longleftrightarrow> is_valid_addr a \<and> \<not> is_unspecified a \<and> \<not> is_multicast a \<and>
     \<not> is_loopback a \<and> \<not> is_link_local a"

definition valid_label :: "string \<Rightarrow> bool" where
  "valid_label l \<longleftrightarrow> l \<noteq> '''' \<and> length l \<le> 63 \<and> \<not> has_prefix l ''-'' \<and> \<not> has_suffix l ''-'' \<and>
     list_all (\<lambda>c. is_alnum c \<or> one_of ''-_'' c) l"

definition valid_hostname :: "string \<Rightarrow> bool" where
  "valid_hostname s \<longleftrightarrow>
     length s \<noteq> 0 \<and> length s \<le> 253 \<and>
     \<not> contains_any s [CHR '' '', CHR ''/'', CHR 0x5C, CHR 0x09, CHR 0x0D, CHR 0x0A] \<and>
     list_all valid_label (split_on (CHR ''.'') (if has_suffix s ''.'' then butlast s else s))"

fun hex_digits :: "nat \<Rightarrow> string \<Rightarrow> nat option" where
  "hex_digits acc [] = Some acc"
| "hex_digits acc (c # cs) = (case hex_val c of None \<Rightarrow> None | Some v \<Rightarrow> hex_digits (16 * acc + v) cs)"

text \<open>\<^verbatim>\<open>strconv.ParseUint(value, base, 32)\<close> of a mark that matches the pattern.\<close>

definition parse_mark :: "string \<Rightarrow> nat option" where
  "parse_mark s =
     (case (if has_prefix s ''0x'' then (if drop 2 s = [] then None else hex_digits 0 (drop 2 s)) else dec_value s) of
        None \<Rightarrow> None | Some n \<Rightarrow> if n < 2 ^ 32 then Some n else None)"

definition bootstrap_ip :: "string \<Rightarrow> goerr option" where
  "bootstrap_ip raw =
     (let p = parse_prefix_or_zero raw in first_err [
       map_option (Wrapf ''wireguard.bootstrap_ips: %w'' []) (validate_cidr raw True),
       refuse (\<not> is4 (paddr p) \<or> pbits p \<noteq> 32 \<or> \<not> valid_endpoint_address (paddr p))
         (Errorf ''wireguard.bootstrap_ips requires IPv4 host prefixes, got %q'' [raw])])"

definition bootstrap_ip6 :: "string \<Rightarrow> goerr option" where
  "bootstrap_ip6 raw =
     (let p = parse_prefix_or_zero raw in first_err [
       map_option (Wrapf ''wireguard.bootstrap_ips_v6: %w'' []) (validate_cidr raw True),
       refuse (\<not> is6 (paddr p) \<or> pbits p \<noteq> 128 \<or> \<not> valid_endpoint_address (paddr p))
         (Errorf ''wireguard.bootstrap_ips_v6 requires IPv6 host prefixes, got %q'' [raw])])"

definition uplink_name :: "config \<Rightarrow> string" where
  "uplink_name c = (case uplinks c of [] \<Rightarrow> '''' | us \<Rightarrow> if_name (last us))"

definition validate_wireguard :: "config \<Rightarrow> goerr option" where
  "validate_wireguard c =
     (let w = c_wireguard c; wi = wg_interface w; mark = wg_fwmark w; host = wg_endpoint_host w in first_err [
       refuse (wi = '''') (Errorf ''wireguard.interface is required'' []),
       refuse (\<not> iface_pattern wi \<or> wi = '''') (Errorf ''wireguard.interface %q is invalid'' [wi]),
       refuse (wi = uplink_name c) (Errorf ''wireguard.interface cannot equal the uplink'' []),
       refuse (case iface_named c wi of None \<Rightarrow> True | Some i \<Rightarrow> if_role i \<noteq> ''vpn'')
         (Errorf ''wireguard.interface %q must be declared with role vpn'' [wi]),
       refuse (wg_endpoint_port w < 1 \<or> wg_endpoint_port w > 65535)
         (Errorf ''wireguard.endpoint_port must be 1..65535'' []),
       refuse (\<not> fwmark_pattern mark) (Errorf ''wireguard.fwmark %q is invalid'' [mark]),
       refuse (parse_mark mark = None) (Errorf ''wireguard.fwmark %q exceeds 32 bits'' [mark]),
       refuse (parse_mark mark = Some 0)
         (Errorf ''wireguard.fwmark must be nonzero so bootstrap traffic cannot match ordinary unmarked UDP'' []),
       refuse (wg_keep_recent w < 0 \<or> wg_keep_recent w > 16) (Errorf ''wireguard.keep_recent must be 0..16'' []),
       refuse (wg_tcp_mss w < 536 \<or> wg_tcp_mss w > 8960) (Errorf ''wireguard.tcp_mss must be 536..8960'' []),
       (if host = '''' then None
        else (case parse_addr host of
                Some a \<Rightarrow> refuse (\<not> valid_endpoint_address a)
                  (Errorf ''wireguard.endpoint_host %q is not a usable unicast endpoint'' [host])
              | None \<Rightarrow> refuse (\<not> valid_hostname host) (Errorf ''wireguard.endpoint_host %q is invalid'' [host]))),
       refuse (64 < length (wg_bootstrap_ips w) + length (wg_bootstrap_ips6 w) \<or> 16 < length (wg_bootstrap_hosts w))
         (Errorf ''WireGuard bootstrap endpoint limits exceeded (64 addresses, 16 hosts)'' []),
       checks bootstrap_ip (wg_bootstrap_ips w),
       checks bootstrap_ip6 (wg_bootstrap_ips6 w),
       checks (\<lambda>h. refuse (\<not> valid_hostname h) (Errorf ''wireguard.bootstrap_hosts %q is invalid'' [h]))
         (wg_bootstrap_hosts w),
       refuse (wg_config_path w \<noteq> '''' \<and>
           (\<not> is_abs (wg_config_path w) \<or> base_name (wg_config_path w) \<noteq> wi @ ''.conf''))
         (Errorf ''wireguard.config_path must be an absolute <interface>.conf path'' []),
       refuse (wg_handshake_second w < 30 \<or> wg_handshake_second w > 3600)
         (Errorf ''wireguard.handshake_timeout_seconds must be 30..3600'' []),
       refuse (sys_strict_vpn (c_system c) \<and> wi = '''')
         (Errorf ''strict VPN mode requires wireguard.interface'' [])])"

section \<open>Validate\<close>

definition validate :: "config \<Rightarrow> goerr option" where
  "validate c = first_err [
     validate_general c,
     err_of (foldE (validate_feed c) [] (c_threat_feeds c)),
     err_of (foldE (validate_geo_set c) [] (c_geo_sets c)),
     refuse (length (c_interfaces c) = 0) (Errorf ''at least one interface is required'' []),
     err_of (foldE validate_iface [] (c_interfaces c)),
     validate_active (map iface_assignment (c_interfaces c)),
     validate_docker_networks c,
     refuse (length (uplinks c) \<noteq> 1)
       (Errorf ''exactly one uplink interface is required, got %d'' [itoa (length (uplinks c))]),
     validate_zones c,
     err_of (foldE service_step [] (c_services c)),
     err_of (foldE (trusted_step c) [] (rt_trusted_services (c_runtime c))),
     err_of (foldE (policy_step c) ([], []) (c_policies c)),
     err_of (foldE (nat_step c) ([], []) (c_nat c)),
     validate_wireguard c]"

lemmas config_eval [go_eval] =
  validate_general_def validate_feed_def validate_geo_set_def cidr_bits_def validate_cidr_def
  interface_provenance_name_def iface_assignment_def validate_iface_def iface_named_def uplinks_def
  parse_prefix_or_zero_def canonical_prefixes_def docker_subnet_def docker_network_step_def
  validate_docker_networks_def assign_interface_zone_def zone_network_def zone_interface_def zone_step_def
  iface_zone_step_def zone_populated_def no_zones_def zone_table_def validate_zones_def zone_named_def
  port_step_def portless_def service_step_def service_named_def trusted_step_def zone_uses_uplink_def
  flow_of_def policy_step_def binding_of_def zone_has_ipv4_def nat_step_def valid_endpoint_address_def
  valid_label_def valid_hostname_def parse_mark_def bootstrap_ip_def bootstrap_ip6_def uplink_name_def
  validate_wireguard_def validate_def

section \<open>What an accepted configuration satisfies\<close>

lemma find_key:
  assumes "distinct (map key xs)"
  shows "find (\<lambda>x. key x = k) xs = Some x \<longleftrightarrow> x \<in> set xs \<and> key x = k"
  using assms by (induction xs) (auto simp: image_iff)

lemma validate_parts:
  assumes "validate c = None"
  shows "validate_general c = None"
    "foldE (validate_feed c) [] (c_threat_feeds c) = Inr (rev (map f_name (c_threat_feeds c)))"
    "\<exists>t. foldE validate_iface [] (c_interfaces c) = Inr t"
    "validate_active (map iface_assignment (c_interfaces c)) = None"
    "validate_docker_networks c = None" "length (uplinks c) = 1" "validate_zones c = None"
    "\<exists>t. foldE service_step [] (c_services c) = Inr t"
    "\<exists>t. foldE (trusted_step c) [] (rt_trusted_services (c_runtime c)) = Inr t"
    "\<exists>t. foldE (policy_step c) ([], []) (c_policies c) = Inr t"
    "\<exists>t. foldE (nat_step c) ([], []) (c_nat c) = Inr t"
    "validate_wireguard c = None"
proof -
  have feed: "validate_feed c ns f = Inr ns' \<Longrightarrow> ns' = f_name f # ns \<and> f_name f \<notin> set ns" for ns f ns'
    by (auto simp: validate_feed_def Let_def split: option.splits)
  from assms obtain t where t: "foldE (validate_feed c) [] (c_threat_feeds c) = Inr t"
    by (auto simp: validate_def simp del: split_paired_Ex)
  from foldE_keys [of "validate_feed c" "[]" _ t "\<lambda>x. x" f_name] t feed
  show "foldE (validate_feed c) [] (c_threat_feeds c) = Inr (rev (map f_name (c_threat_feeds c)))" by simp
qed (use assms in \<open>auto simp: validate_def simp del: split_paired_Ex\<close>)

lemma validate_iface_Ok: "validate_iface names i = Inr names' \<Longrightarrow>
    names' = if_name i # names \<and> if_name i \<notin> set names \<and> iface_pattern (if_name i) \<and>
    if_role i \<in> {''uplink'', ''vpn'', ''lan'', ''container''} \<and> id_in_range (if_provid i)"
  by (auto simp: validate_iface_def id_in_range_def split: option.splits)

lemma valid_ifaces:
  assumes "validate c = None"
  shows "distinct (map if_name (c_interfaces c))"
    and "\<And>i. i \<in> set (c_interfaces c) \<Longrightarrow> iface_pattern (if_name i)"
proof -
  obtain t where t: "foldE validate_iface [] (c_interfaces c) = Inr t" using validate_parts(3) [OF assms] ..
  have "validate_iface u x = Inr u' \<Longrightarrow> u' = if_name x # u \<and> if_name x \<notin> set u" for u x u'
    using validate_iface_Ok by blast
  from foldE_keys [of validate_iface "[]" _ t "\<lambda>x. x" if_name, OF t this]
  show "distinct (map if_name (c_interfaces c))" by blast
  fix i assume "i \<in> set (c_interfaces c)"
  from foldE_each [OF t this] show "iface_pattern (if_name i)" by (auto dest: validate_iface_Ok)
qed

lemma valid_iface_named:
  assumes "validate c = None"
  shows "iface_named c n = Some i \<longleftrightarrow> i \<in> set (c_interfaces c) \<and> if_name i = n"
  unfolding iface_named_def by (rule find_key [OF valid_ifaces(1) [OF assms]])

lemma valid_uplink:
  assumes "validate c = None"
  obtains u where "u \<in> set (c_interfaces c)" "if_role u = ''uplink''" "uplinks c = [u]" "uplink_name c = if_name u"
    "\<And>i. i \<in> set (c_interfaces c) \<Longrightarrow> if_role i = ''uplink'' \<Longrightarrow> i = u"
proof -
  obtain u where u: "uplinks c = [u]" using validate_parts(6) [OF assms] by (auto simp: length_Suc_conv)
  then have "set (uplinks c) = {u}" by simp
  then have "i \<in> set (c_interfaces c) \<and> if_role i = ''uplink'' \<longleftrightarrow> i = u" for i
    by (auto simp: uplinks_def)
  then have m: "u \<in> set (c_interfaces c)" "if_role u = ''uplink''"
    and only: "\<And>i. i \<in> set (c_interfaces c) \<Longrightarrow> if_role i = ''uplink'' \<Longrightarrow> i = u" by blast+
  have "uplink_name c = if_name u" by (simp add: uplink_name_def u)
  from that [OF m u this only] show ?thesis .
qed

lemma valid_wireguard:
  assumes "validate c = None"
  shows "wg_interface (c_wireguard c) \<noteq> uplink_name c"
    and "\<exists>i \<in> set (c_interfaces c). if_name i = wg_interface (c_wireguard c) \<and> if_role i = ''vpn''"
    and "\<exists>n. parse_mark (wg_fwmark (c_wireguard c)) = Some n \<and> 0 < n \<and> n < 2 ^ 32"
    and "0 < wg_endpoint_port (c_wireguard c)"
proof -
  note w = validate_parts(12) [OF assms, unfolded validate_wireguard_def Let_def]
  show "wg_interface (c_wireguard c) \<noteq> uplink_name c" using w by simp
  show "\<exists>i \<in> set (c_interfaces c). if_name i = wg_interface (c_wireguard c) \<and> if_role i = ''vpn''"
    using w valid_iface_named [OF assms] by (auto split: option.splits)
  show "0 < wg_endpoint_port (c_wireguard c)" using w by simp
  have "parse_mark (wg_fwmark (c_wireguard c)) \<noteq> None" "parse_mark (wg_fwmark (c_wireguard c)) \<noteq> Some 0"
    using w by auto
  then show "\<exists>n. parse_mark (wg_fwmark (c_wireguard c)) = Some n \<and> 0 < n \<and> n < 2 ^ 32"
    by (auto simp: parse_mark_def split: option.splits if_splits)
qed

lemma policy_step_Ok: "policy_step c st p = Inr st' \<Longrightarrow>
    st' = (p_name p # fst st, (flow_of p, p_name p) # snd st) \<and> name_pattern (p_name p) \<and>
    p_name p \<notin> set (fst st) \<and> flow_of p \<notin> fst ` set (snd st) \<and>
    (p_action p = ''allow'' \<or> p_action p = ''deny'') \<and>
    (p_from p = ''any'' \<or> p_from p = ''host'' \<or> zone_named c (p_from p) \<noteq> None) \<and>
    (p_to p = ''any'' \<or> p_to p = ''host'' \<or> zone_named c (p_to p) \<noteq> None) \<and>
    service_named c (p_service p) \<noteq> None \<and>
    ((p_from p = ''host'' \<or> p_from p = ''any'') \<and> p_to p \<noteq> ''host'' \<and> p_to p \<noteq> ''any'' \<longrightarrow>
       \<not> zone_uses_uplink c (p_to p))"
  by (auto simp: policy_step_def map_of_eq_None_iff split: prod.splits option.splits)

lemma valid_policies:
  assumes "validate c = None"
  shows "distinct (map p_name (c_policies c))" "distinct (map flow_of (c_policies c))"
    and "\<And>p. p \<in> set (c_policies c) \<Longrightarrow> \<exists>st st'. policy_step c st p = Inr st'"
proof -
  obtain t where t: "foldE (policy_step c) ([], []) (c_policies c) = Inr t" using validate_parts(10) [OF assms] ..
  from foldE_keys [OF t, of fst p_name] policy_step_Ok show "distinct (map p_name (c_policies c))" by fastforce
  from foldE_keys [OF t, of "\<lambda>s. map fst (snd s)" flow_of] policy_step_Ok
  show "distinct (map flow_of (c_policies c))" by fastforce
  show "\<And>p. p \<in> set (c_policies c) \<Longrightarrow> \<exists>st st'. policy_step c st p = Inr st'" using foldE_each [OF t] by blast
qed

section \<open>Zones of an accepted configuration\<close>

lemma assign_interface_zone_Ok: "assign_interface_zone zn st n = Inr st' \<Longrightarrow>
    st' = st\<lparr>zs_ifzones := (n, zn) # zs_ifzones st\<rparr> \<and> (\<forall>z. map_of (zs_ifzones st) n = Some z \<longrightarrow> z = zn)"
  by (auto simp: assign_interface_zone_def split: option.splits if_splits)

text \<open>The state of the loops: no two of the prefixes overlap, and the interface map is a function.\<close>

definition apart :: "(string \<times> prefix_t) list \<Rightarrow> bool" where
  "apart ps \<longleftrightarrow> (\<forall>i < length ps. \<forall>j < i. \<not> overlaps (snd (ps ! i)) (snd (ps ! j)))"

lemma apart_snoc: "apart ps \<Longrightarrow> (\<forall>q \<in> set ps. \<not> overlaps p (snd q)) \<Longrightarrow> apart (ps @ [(z, p)])"
  by (auto simp: apart_def nth_append less_Suc_eq)

lemma zone_network_Ok: "zone_network zn st n = Inr st' \<Longrightarrow>
    st' = st\<lparr>zs_prefixes := zs_prefixes st @ [(zn, masked (parse_prefix_or_zero n))]\<rparr> \<and>
    (\<forall>q \<in> set (zs_prefixes st). \<not> overlaps (masked (parse_prefix_or_zero n)) (snd q)) \<and> validate_cidr n True = None"
  by (auto simp: zone_network_def Let_def find_None_iff case_prod_unfold split: option.splits)

lemma zone_networks_Ok: "foldE (zone_network zn) st ns = Inr st' \<Longrightarrow> apart (zs_prefixes st) \<Longrightarrow>
    st' = st\<lparr>zs_prefixes := zs_prefixes st @ map (\<lambda>n. (zn, masked (parse_prefix_or_zero n))) ns\<rparr> \<and>
    apart (zs_prefixes st')"
proof (induction ns arbitrary: st)
  case (Cons n ns)
  then obtain s where s: "zone_network zn st n = Inr s" "foldE (zone_network zn) s ns = Inr st'"
    by (auto split: sum.splits)
  from zone_network_Ok [OF s(1)] have s1: "zs_prefixes s = zs_prefixes st @ [(zn, masked (parse_prefix_or_zero n))]"
    "zs_names s = zs_names st" "zs_ifzones s = zs_ifzones st" "apart (zs_prefixes s)"
    using Cons.prems(2) by (auto intro: apart_snoc)
  from Cons.IH [OF s(2) s1(4)] zone_network_Ok [OF s(1)] show ?case by auto
qed simp

text \<open>Every assignment agrees with the map: an interface has one zone.\<close>

definition one_zone :: "(string \<times> string) list \<Rightarrow> bool" where
  "one_zone as \<longleftrightarrow> (\<forall>n y z. (n, y) \<in> set as \<longrightarrow> (n, z) \<in> set as \<longrightarrow> y = z)"

lemma one_zone_Cons: "one_zone as \<Longrightarrow> (\<forall>z. map_of as n = Some z \<longrightarrow> z = zn) \<Longrightarrow> one_zone ((n, zn) # as)"
  unfolding one_zone_def by (metis map_of_SomeD prod.inject set_ConsD weak_map_of_SomeI)

lemma assign_loop:
  assumes "foldE f st xs = Inr st'" "one_zone (zs_ifzones st)"
    and "\<And>u x u'. x \<in> set xs \<Longrightarrow> f u x = Inr u' \<Longrightarrow> u' = u \<or> assign_interface_zone (zn x) u (nm x) = Inr u'"
  shows "one_zone (zs_ifzones st') \<and> zs_prefixes st' = zs_prefixes st \<and> zs_names st' = zs_names st \<and>
    set (zs_ifzones st) \<subseteq> set (zs_ifzones st')"
proof (rule foldE_invariant [OF assms(1)])
  show "one_zone (zs_ifzones st) \<and> zs_prefixes st = zs_prefixes st \<and> zs_names st = zs_names st \<and>
    set (zs_ifzones st) \<subseteq> set (zs_ifzones st)" using assms(2) by simp
next
  fix u x u' assume "x \<in> set xs" and inv: "one_zone (zs_ifzones u) \<and> zs_prefixes u = zs_prefixes st \<and> zs_names u = zs_names st \<and>
    set (zs_ifzones st) \<subseteq> set (zs_ifzones u)" and "f u x = Inr u'"
  from assms(3) [OF this(1,3)] show "one_zone (zs_ifzones u') \<and> zs_prefixes u' = zs_prefixes st \<and> zs_names u' = zs_names st \<and>
    set (zs_ifzones st) \<subseteq> set (zs_ifzones u')"
  proof
    assume "assign_interface_zone (zn x) u (nm x) = Inr u'"
    from assign_interface_zone_Ok [OF this] inv show ?thesis by (auto intro: one_zone_Cons)
  qed (use inv in simp)
qed

lemma zone_interfaces_Ok:
  assumes "foldE (zone_interface c zn) st ns = Inr st'" "one_zone (zs_ifzones st)"
  shows "one_zone (zs_ifzones st') \<and> zs_prefixes st' = zs_prefixes st \<and> zs_names st' = zs_names st \<and>
    set (zs_ifzones st) \<subseteq> set (zs_ifzones st')"
  by (rule assign_loop [OF assms, of "\<lambda>_. zn" "\<lambda>n. n"]) (auto simp: zone_interface_def split: if_splits)

definition zone_state_ok :: "zone list \<Rightarrow> zone_state \<Rightarrow> bool" where
  "zone_state_ok zs st \<longleftrightarrow> apart (zs_prefixes st) \<and> one_zone (zs_ifzones st) \<and> zs_names st = rev (map z_name zs) \<and>
     distinct (map z_name zs) \<and>
     zs_prefixes st = concat (map (\<lambda>z. map (\<lambda>n. (z_name z, masked (parse_prefix_or_zero n))) (z_networks z)) zs)"

lemma zone_step_ok:
  assumes "zone_step c st z = Inr st'" "zone_state_ok zs st"
  shows "zone_state_ok (zs @ [z]) st' \<and> set (zs_ifzones st) \<subseteq> set (zs_ifzones st')"
proof -
  from assms(1) obtain s where s: "foldE (zone_network (z_name z)) (st\<lparr>zs_names := z_name z # zs_names st\<rparr>) (z_networks z) = Inr s"
    "foldE (zone_interface c (z_name z)) s (z_interfaces z) = Inr st'" and new: "z_name z \<notin> set (zs_names st)"
    by (auto simp: zone_step_def bindE_eq_Ok split: if_splits)
  have "apart (zs_prefixes st)" using assms(2) unfolding zone_state_ok_def by blast
  then have "apart (zs_prefixes (st\<lparr>zs_names := z_name z # zs_names st\<rparr>))" by simp
  note 1 = zone_networks_Ok [OF s(1) this]
  then have "one_zone (zs_ifzones s)" using assms(2) by (simp add: zone_state_ok_def)
  note 2 = zone_interfaces_Ok [OF s(2) this]
  have 3: "zs_prefixes st' = zs_prefixes st @ map (\<lambda>n. (z_name z, masked (parse_prefix_or_zero n))) (z_networks z)"
    "apart (zs_prefixes st')" "zs_names st' = z_name z # zs_names st" "set (zs_ifzones st) \<subseteq> set (zs_ifzones st')"
    using 1 2 by auto
  have 4: "distinct (map z_name (zs @ [z]))" using new assms(2) by (auto simp: zone_state_ok_def)
  have 5: "one_zone (zs_ifzones st')" using 2 ..
  from 3 4 5 assms(2) show ?thesis by (simp add: zone_state_ok_def)
qed

lemma zones_ok: "foldE (zone_step c) st zs = Inr st' \<Longrightarrow> zone_state_ok done st \<Longrightarrow> zone_state_ok (done @ zs) st'"
proof (induction zs arbitrary: st "done")
  case (Cons z zs)
  then obtain s where s: "zone_step c st z = Inr s" "foldE (zone_step c) s zs = Inr st'" by (auto split: sum.splits)
  from zone_step_ok [OF s(1) Cons.prems(2)] Cons.IH [OF s(2), of "done @ [z]"] show ?case by simp
qed simp

lemma valid_zone_table:
  assumes "validate c = None"
  obtains st where "zone_table c = Inr st" "zone_state_ok (c_zones c) st"
proof -
  have "validate_zones c = None" by (rule validate_parts(7) [OF assms])
  then obtain st where st: "zone_table c = Inr st" by (auto simp: validate_zones_def)
  then obtain s where s: "foldE (zone_step c) no_zones (c_zones c) = Inr s" "foldE iface_zone_step s (c_interfaces c) = Inr st"
    by (auto simp: zone_table_def bindE_eq_Ok)
  have "zone_state_ok [] no_zones" by (simp add: zone_state_ok_def no_zones_def apart_def one_zone_def)
  from zones_ok [OF s(1) this] have 1: "zone_state_ok (c_zones c) s" by simp
  then have "one_zone (zs_ifzones s)" by (simp add: zone_state_ok_def)
  have "one_zone (zs_ifzones st) \<and> zs_prefixes st = zs_prefixes s \<and> zs_names st = zs_names s \<and>
      set (zs_ifzones s) \<subseteq> set (zs_ifzones st)"
    by (rule assign_loop [OF s(2) \<open>one_zone (zs_ifzones s)\<close>, of if_zone if_name])
      (auto simp: iface_zone_step_def split: if_splits)
  with 1 st that show ?thesis by (auto simp: zone_state_ok_def)
qed

lemma valid_zone_names: "validate c = None \<Longrightarrow> distinct (map z_name (c_zones c))"
  by (erule valid_zone_table) (simp add: zone_state_ok_def)

end
