(* ===== verification/Policy.thy ===== *)
theory Policy
  imports Config
begin

text \<open>
  The declarative policy model, \<^verbatim>\<open>src/internal/policy/model.go\<close>: \<^verbatim>\<open>Compile\<close>, the decision function
  \<^verbatim>\<open>ExplainEffective\<close> with its helpers, and the order of the policies. The two maps of \<^verbatim>\<open>Effective\<close> are
  partial functions, filled as the source fills them (a later entry would replace an earlier one).
\<close>

record effective =
  ef_config :: config
  ef_zones :: "string \<Rightarrow> zone option"
  ef_svcs :: "string \<Rightarrow> service option"

definition effective_of :: "config \<Rightarrow> effective" where
  "effective_of c = \<lparr>ef_config = c,
     ef_zones = map_of (rev (map (\<lambda>z. (z_name z, z)) (c_zones c))),
     ef_svcs = map_of (rev (map (\<lambda>s. (s_name s, s)) (c_services c)))\<rparr>"

definition compile_policy :: "config \<Rightarrow> effective result" where
  "compile_policy c = (case validate c of Some e \<Rightarrow> Err e | None \<Rightarrow> Ok (effective_of c))"

record query =
  q_from :: string
  q_to :: string
  q_protocol :: string
  q_port :: int

record runtime_context =
  rc_blocked :: "string list"
  rc_trusted :: "string list"

record decision =
  dc_action :: string
  dc_matched :: "policy option"
  dc_source_zone :: string
  dc_destination :: string
  dc_reason :: string
  dc_rule :: string

definition contains_port :: "int list \<Rightarrow> int \<Rightarrow> bool" where
  "contains_port ports p = list_ex (\<lambda>q. q = p) ports"

definition policy_less :: "policy \<Rightarrow> policy \<Rightarrow> bool" where
  "policy_less p q =
     (if p_action p \<noteq> p_action q then p_action p = ''deny'' else p_name p < p_name q)"

definition sorted_policies :: "effective \<Rightarrow> policy list" where
  "sorted_policies e = sort_slice policy_less (c_policies (ef_config e))"

definition address_in_prefixes :: "addr \<Rightarrow> string list \<Rightarrow> bool" where
  "address_in_prefixes a prefixes' =
     list_ex (\<lambda>raw. case parse_prefix raw of None \<Rightarrow> False | Some p \<Rightarrow> prefix_contains p a) prefixes'"

definition is_trusted_service :: "effective \<Rightarrow> string \<Rightarrow> int \<Rightarrow> bool" where
  "is_trusted_service e proto port =
     list_ex (\<lambda>n. case ef_svcs e n of None \<Rightarrow> False
        | Some s \<Rightarrow> s_protocol s = proto \<and> (proto = ''icmp'' \<or> contains_port (s_ports s) port))
       (rt_trusted_services (c_runtime (ef_config e)))"

definition source_zone :: "effective \<Rightarrow> string \<Rightarrow> string" where
  "source_zone e raw =
     (if raw = '''' \<or> raw = ''host'' then ''host''
      else if ef_zones e raw \<noteq> None then raw
      else (case parse_addr raw of None \<Rightarrow> ''unknown''
        | Some a \<Rightarrow>
           (case find (\<lambda>z. address_in_prefixes a (z_networks z)) (c_zones (ef_config e)) of
              Some z \<Rightarrow> z_name z
            | None \<Rightarrow>
               (case find (\<lambda>i. address_in_prefixes a (if_cidrs i) \<and> if_zone i \<noteq> '''') (c_interfaces (ef_config e)) of
                  Some i \<Rightarrow> if_zone i
                | None \<Rightarrow> ''unknown''))))"

definition zone_matches :: "string \<Rightarrow> string \<Rightarrow> string \<Rightarrow> bool" where
  "zone_matches want actual raw \<longleftrightarrow>
     want = ''any'' \<or> want = actual \<or> (want = ''host'' \<and> (raw = '''' \<or> raw = ''host''))"

definition dest_matches :: "string \<Rightarrow> string \<Rightarrow> effective \<Rightarrow> bool" where
  "dest_matches want actual e \<longleftrightarrow>
     want = ''any'' \<or> want = actual \<or> (want = ''host'' \<and> (actual = '''' \<or> actual = ''host'')) \<or>
     (case ef_zones e want of None \<Rightarrow> False
      | Some z \<Rightarrow> (case parse_addr actual of None \<Rightarrow> False | Some a \<Rightarrow> address_in_prefixes a (z_networks z)))"

definition service_matches :: "service \<Rightarrow> query \<Rightarrow> bool" where
  "service_matches s q \<longleftrightarrow>
     (s_protocol s = ''any'' \<or> s_protocol s = q_protocol q) \<and>
     (s_protocol s = ''any'' \<or> s_protocol s = ''icmp'' \<or> contains_port (s_ports s) (q_port q))"

definition policy_matches :: "effective \<Rightarrow> query \<Rightarrow> string \<Rightarrow> policy \<Rightarrow> bool" where
  "policy_matches e q src p \<longleftrightarrow>
     (p_action p = ''allow'' \<or> p_action p = ''deny'') \<and>
     zone_matches (p_from p) src (q_from q) \<and> dest_matches (p_to p) (q_to q) e \<and>
     (case ef_svcs e (p_service p) of None \<Rightarrow> False | Some s \<Rightarrow> service_matches s q)"

definition explain_effective :: "effective \<Rightarrow> query \<Rightarrow> runtime_context \<Rightarrow> decision" where
  "explain_effective e q rc =
     (let src = source_zone e (q_from q); dst = q_to q;
          from = parse_addr (q_from q); to' = parse_addr (q_to q);
          holds = (\<lambda>a P. case a of None \<Rightarrow> False | Some x \<Rightarrow> P x);
          say = (\<lambda>act m reason rule. \<lparr>dc_action = act, dc_matched = m, dc_source_zone = src,
                   dc_destination = dst, dc_reason = reason, dc_rule = rule\<rparr>) in
      if holds from is_loopback \<or> holds to' is_loopback then
        say ''allow'' None ''loopback traffic is explicitly allowed'' ''nftfw:loopback''
      else if sys_ipv6_mode (c_system (ef_config e)) = ''disabled'' \<and> (holds from is6 \<or> holds to' is6) then
        say ''deny'' None ''IPv6 mode is disabled'' ''nftfw:ipv6-mode-disabled''
      else if holds from (\<lambda>a. address_in_prefixes a (rc_blocked rc)) then
        say ''deny'' None ''source address has an active block claim'' ''nftfw:block-source''
      else if holds to' (\<lambda>a. address_in_prefixes a (rc_blocked rc)) then
        say ''deny'' None ''destination address has an active block claim'' ''nftfw:block-destination''
      else if q_to q = ''host'' \<and> holds from (\<lambda>a. address_in_prefixes a (rc_trusted rc)) \<and>
          is_trusted_service e (q_protocol q) (q_port q) then
        say ''allow'' None ''source has an active temporary access lease for this trusted service''
          ''nftfw:trusted-services''
      else (case find (policy_matches e q src) (sorted_policies e) of
          Some p \<Rightarrow> say (p_action p) (Some p)
            (p_from p @ '' -> '' @ p_to p @ '', service '' @ p_service p @ '', action '' @ p_action p)
            (''nftfw-policy:'' @ p_name p)
        | None \<Rightarrow> say ''deny'' None ''no allow policy matched; default deny'' ''nftfw:default-deny''))"

definition explain :: "effective \<Rightarrow> query \<Rightarrow> decision" where
  "explain e q = explain_effective e q \<lparr>rc_blocked = [], rc_trusted = []\<rparr>"

lemmas policy_eval [go_eval] =
  effective_of_def compile_policy_def contains_port_def policy_less_def sorted_policies_def
  address_in_prefixes_def is_trusted_service_def source_zone_def zone_matches_def dest_matches_def
  service_matches_def policy_matches_def explain_effective_def explain_def

section \<open>The order of the policies\<close>

definition actions_ok :: "policy list \<Rightarrow> bool" where
  "actions_ok ps \<longleftrightarrow> (\<forall>p \<in> set ps. p_action p = ''allow'' \<or> p_action p = ''deny'')"

definition deny_first :: "policy \<Rightarrow> policy \<Rightarrow> bool" where
  "deny_first p q =
     (if (p_action p = ''deny'') \<noteq> (p_action q = ''deny'') then p_action p = ''deny'' else p_name p < p_name q)"

lemma deny_first_weak: "weak_order deny_first"
  unfolding weak_order_def deny_first_def by (auto split: if_splits)

lemma sorted_policies_deny_first:
  assumes "actions_ok (c_policies (ef_config e))"
  shows "sorted_policies e = sort_slice deny_first (c_policies (ef_config e))"
  unfolding sorted_policies_def
  by (rule sort_slice_cong)
    (use assms in \<open>auto simp: actions_ok_def policy_less_def deny_first_def; metis\<close>)

lemma set_sorted_policies [simp]: "set (sorted_policies e) = set (c_policies (ef_config e))"
  by (simp add: sorted_policies_def)

lemma sorted_policies_order:
  assumes "actions_ok (c_policies (ef_config e))" "sorted_policies e = xs @ p # ys" "q \<in> set ys"
  shows "\<not> deny_first q p"
proof -
  have "sorted_wrt (\<lambda>a b. \<not> deny_first b a) (xs @ p # ys)"
    using sorted_sort_slice [OF deny_first_weak] assms(1,2) by (metis sorted_policies_deny_first)
  with assms(3) show ?thesis by (auto simp: sorted_wrt_append)
qed

lemma find_first: "find P xs = Some x \<longleftrightarrow> (\<exists>ys zs. xs = ys @ x # zs \<and> P x \<and> (\<forall>y \<in> set ys. \<not> P y))"
proof (induction xs)
  case (Cons a xs)
  show ?case
  proof (cases "P a")
    case True
    then show ?thesis by (auto simp: Cons_eq_append_conv)
  next
    case False
    then show ?thesis using Cons by (auto simp: Cons_eq_append_conv) (metis set_ConsD)
  qed
qed simp

lemma explain_actions: "actions_ok (c_policies (ef_config e)) \<Longrightarrow>
    dc_action (explain_effective e q rc) = ''allow'' \<or> dc_action (explain_effective e q rc) = ''deny''"
  by (auto simp: explain_effective_def Let_def policy_matches_def find_Some_iff split: option.splits)

lemma valid_actions: "validate c = None \<Longrightarrow> actions_ok (c_policies c)"
  unfolding actions_ok_def using valid_policies(3) policy_step_Ok by blast

lemma explain_matched:
  "dc_matched (explain_effective e q rc) = Some p \<Longrightarrow>
    find (policy_matches e q (source_zone e (q_from q))) (sorted_policies e) = Some p \<and>
    dc_action (explain_effective e q rc) = p_action p"
  by (auto simp: explain_effective_def Let_def split: if_splits option.splits)

text \<open>C28. The decision function lets a matching deny policy override every matching allow policy, and among
  policies with the same action the one with the least name decides.\<close>

theorem Explain_deny_overrides:
  assumes "compile_policy c = Inr e" "dc_matched (explain_effective e q rc) = Some p"
  shows "p \<in> set (c_policies c) \<and> dc_action (explain_effective e q rc) = p_action p \<and>
    policy_matches e q (source_zone e (q_from q)) p \<and>
    (\<forall>d \<in> set (c_policies c). policy_matches e q (source_zone e (q_from q)) d \<longrightarrow>
       (p_action p = ''allow'' \<longrightarrow> p_action d = ''allow'') \<and> (p_action d = p_action p \<longrightarrow> p_name p \<le> p_name d))"
proof -
  from assms(1) have v: "validate c = None" and e: "e = effective_of c"
    by (auto simp: compile_policy_def split: option.splits)
  have cfg: "ef_config e = c" by (simp add: e effective_of_def)
  have ok: "actions_ok (c_policies (ef_config e))" using valid_actions [OF v] by (simp add: cfg)
  let ?P = "policy_matches e q (source_zone e (q_from q))"
  note m = explain_matched [OF assms(2)]
  from m obtain ys zs where s: "sorted_policies e = ys @ p # zs" "?P p" "\<forall>y \<in> set ys. \<not> ?P y"
    unfolding find_first by blast
  have in_c: "p \<in> set (c_policies c)" using s(1) set_sorted_policies [of e] by (auto simp: cfg)
  have "(p_action p = ''allow'' \<longrightarrow> p_action d = ''allow'') \<and> (p_action d = p_action p \<longrightarrow> p_name p \<le> p_name d)"
    if d: "d \<in> set (c_policies c)" "?P d" for d
  proof -
    have "d \<in> set (sorted_policies e)" using d(1) by (simp add: cfg)
    with s d(2) have "d = p \<or> d \<in> set zs" by auto
    then show ?thesis
    proof
      assume "d \<in> set zs"
      from sorted_policies_order [OF ok s(1) this] have "\<not> deny_first d p" .
      moreover have "p_action d = ''allow'' \<or> p_action d = ''deny''"
        using valid_actions [OF v] d(1) by (simp add: actions_ok_def)
      ultimately show ?thesis by (auto simp: deny_first_def split: if_splits)
    qed simp
  qed
  with m in_c s(2) show ?thesis by blast
qed

section \<open>Properties of an accepted configuration\<close>

lemma zone_prefix_index:
  assumes "zone_state_ok zs st" "z \<in> set zs" "n \<in> set (z_networks z)"
  shows "\<exists>i < length (zs_prefixes st). zs_prefixes st ! i = (z_name z, masked (parse_prefix_or_zero n))"
proof -
  have "(z_name z, masked (parse_prefix_or_zero n)) \<in> set (zs_prefixes st)"
    using assms unfolding zone_state_ok_def by auto
  then show ?thesis by (metis in_set_conv_nth)
qed

text \<open>C27. In an accepted configuration no address belongs to networks of two different zones, for the networks
  that \<^verbatim>\<open>netip.ParsePrefix\<close> reads: \<open>address_in_prefixes\<close> counts no others. The validator also accepts networks
  that \<^verbatim>\<open>net.ParseCIDR\<close> alone reads, those whose mask has a leading zero, and their overlaps stay unnoticed, see
  \<open>leading_zero_hides_overlap\<close>.\<close>

theorem zones_disjoint:
  assumes "validate c = None" "y \<in> set (c_zones c)" "z \<in> set (c_zones c)" "z_name y \<noteq> z_name z"
  shows "\<not> (address_in_prefixes a (z_networks y) \<and> address_in_prefixes a (z_networks z))"
proof
  assume "address_in_prefixes a (z_networks y) \<and> address_in_prefixes a (z_networks z)"
  then obtain n k p q where n: "n \<in> set (z_networks y)" "parse_prefix n = Some p" "prefix_contains p a"
    and k: "k \<in> set (z_networks z)" "parse_prefix k = Some q" "prefix_contains q a"
    by (auto simp: address_in_prefixes_def list_ex_iff split: option.splits)
  obtain st where st: "zone_state_ok (c_zones c) st" by (rule valid_zone_table [OF assms(1)])
  obtain i j where i: "i < length (zs_prefixes st)" "zs_prefixes st ! i = (z_name y, masked p)"
    and j: "j < length (zs_prefixes st)" "zs_prefixes st ! j = (z_name z, masked q)"
    using zone_prefix_index [OF st assms(2) n(1)] zone_prefix_index [OF st assms(3) k(1)] n(2) k(2)
    by (auto simp: parse_prefix_or_zero_def)
  have "i \<noteq> j" using i(2) j(2) assms(4) by auto
  moreover have "\<not> overlaps (masked p) (masked q) \<or> \<not> overlaps (masked q) (masked p)"
    using st i j calculation unfolding zone_state_ok_def apart_def by (metis linorder_neqE_nat snd_conv)
  moreover have "prefix_valid (masked p)" "prefix_valid (masked q)"
    using n(3) k(3) by (simp_all add: prefix_contains_def)
  moreover from this have "overlaps (masked p) (masked q)" "overlaps (masked q) (masked p)"
    using n(3) k(3) overlaps_iff_common [of "masked p" "masked q"] overlaps_iff_common [of "masked q" "masked p"]
    by auto
  ultimately show False by blast
qed

text \<open>C40. An accepted configuration has one uplink, a tunnel interface of role \<^verbatim>\<open>vpn\<close> that is not the uplink, a
  mark that is a nonzero 32-bit number, interface names without repetition and provenance assignments that
  \<^verbatim>\<open>ValidateActive\<close> accepts.\<close>

theorem Validate_egress:
  assumes "validate c = None"
  shows "(\<exists>!u. u \<in> set (c_interfaces c) \<and> if_role u = ''uplink'') \<and>
    (\<exists>v \<in> set (c_interfaces c). if_name v = wg_interface (c_wireguard c) \<and> if_role v = ''vpn'') \<and>
    wg_interface (c_wireguard c) \<noteq> uplink_name c \<and>
    (\<exists>n. parse_mark (wg_fwmark (c_wireguard c)) = Some n \<and> 0 < n \<and> n < 2 ^ 32) \<and>
    distinct (map if_name (c_interfaces c)) \<and> validate_active (map iface_assignment (c_interfaces c)) = None"
proof -
  obtain u where "u \<in> set (c_interfaces c)" "if_role u = ''uplink''"
    "\<And>i. i \<in> set (c_interfaces c) \<Longrightarrow> if_role i = ''uplink'' \<Longrightarrow> i = u"
    by (rule valid_uplink [OF assms], rule that)
  then have "\<exists>!u. u \<in> set (c_interfaces c) \<and> if_role u = ''uplink''" by blast
  with valid_wireguard [OF assms] valid_ifaces(1) [OF assms] validate_parts(4) [OF assms] show ?thesis by blast
qed

text \<open>The policies of an accepted configuration have distinct names and distinct flows, an action that is
  allow or deny, and refer to zones and services that the configuration declares; none opened to the host's own
  traffic goes to a zone with the uplink in it.\<close>

theorem Validate_policies:
  assumes "validate c = None"
  shows "distinct (map p_name (c_policies c)) \<and> distinct (map flow_of (c_policies c)) \<and>
    (\<forall>p \<in> set (c_policies c). (p_action p = ''allow'' \<or> p_action p = ''deny'') \<and>
      (p_from p = ''any'' \<or> p_from p = ''host'' \<or> p_from p \<in> z_name ` set (c_zones c)) \<and>
      (p_to p = ''any'' \<or> p_to p = ''host'' \<or> p_to p \<in> z_name ` set (c_zones c)) \<and>
      p_service p \<in> s_name ` set (c_services c) \<and>
      (p_from p \<in> {''any'', ''host''} \<and> p_to p \<notin> {''any'', ''host''} \<longrightarrow> \<not> zone_uses_uplink c (p_to p)))"
proof -
  have z: "zone_named c n \<noteq> None \<Longrightarrow> n \<in> z_name ` set (c_zones c)" for n
    by (auto simp: zone_named_def find_None_iff)
  have s: "service_named c n \<noteq> None \<Longrightarrow> n \<in> s_name ` set (c_services c)" for n
    by (auto simp: service_named_def find_None_iff)
  have "(p_action p = ''allow'' \<or> p_action p = ''deny'') \<and>
      (p_from p = ''any'' \<or> p_from p = ''host'' \<or> p_from p \<in> z_name ` set (c_zones c)) \<and>
      (p_to p = ''any'' \<or> p_to p = ''host'' \<or> p_to p \<in> z_name ` set (c_zones c)) \<and>
      p_service p \<in> s_name ` set (c_services c) \<and>
      (p_from p \<in> {''any'', ''host''} \<and> p_to p \<notin> {''any'', ''host''} \<longrightarrow> \<not> zone_uses_uplink c (p_to p))"
    if p: "p \<in> set (c_policies c)" for p
  proof -
    obtain st st' where "policy_step c st p = Inr st'" using valid_policies(3) [OF assms p] by blast
    from policy_step_Ok [OF this] z s show ?thesis by blast
  qed
  with valid_policies(1,2) [OF assms] show ?thesis by blast
qed

section \<open>Examples\<close>

definition mk_iface :: "string \<Rightarrow> string \<Rightarrow> string \<Rightarrow> string list \<Rightarrow> 8 word \<Rightarrow> iface" where
  "mk_iface n r z cs i = \<lparr>if_name = n, if_role = r, if_zone = z, if_cidrs = cs, if_provname = '''', if_provid = i\<rparr>"

definition mk_policy :: "string \<Rightarrow> string \<Rightarrow> string \<Rightarrow> string \<Rightarrow> string \<Rightarrow> policy" where
  "mk_policy n f t s a = \<lparr>p_name = n, p_from = f, p_to = t, p_service = s, p_action = a\<rparr>"

text \<open>A small router: one uplink, the tunnel and a LAN.\<close>

definition home :: "string list \<Rightarrow> policy list \<Rightarrow> string list \<Rightarrow> config" where
  "home nets ps trusted = defaults\<lparr>
     c_interfaces := [mk_iface ''eth0'' ''uplink'' '''' [] 1, mk_iface ''wg0'' ''vpn'' '''' [] 2,
       mk_iface ''lan0'' ''lan'' '''' [] 3],
     c_zones := [\<lparr>z_name = ''lan'', z_networks = nets, z_interfaces = []\<rparr>],
     c_services := [\<lparr>s_name = ''ssh'', s_protocol = ''tcp'', s_ports = [22]\<rparr>],
     c_policies := ps,
     c_runtime := (c_runtime defaults)\<lparr>rt_trusted_services := trusted\<rparr>\<rparr>"

definition ssh_in :: "policy list" where
  "ssh_in = [mk_policy ''ssh-in'' ''lan'' ''host'' ''ssh'' ''allow'']"

lemmas home_defs = home_def defaults_def mk_iface_def mk_policy_def ssh_in_def

lemma home_valid_by_parts:
  assumes "validate_zones (home nets ps trusted) = None"
    and "foldE (policy_step (home nets ps trusted)) ([], []) ps = Inr st"
    and "foldE (trusted_step (home nets ps trusted)) [] trusted = Inr ts"
    and "length ps \<le> 10000" "length trusted \<le> 32"
  shows "validate (home nets ps trusted) = None"
  using assms
  by (simp add: home_defs go_eval string_eval del: validate_zones_def policy_step_def trusted_step_def)

abbreviation home1 :: config where
  "home1 \<equiv> home [''192.168.1.0/24''] ssh_in []"

lemma home_valid: "validate home1 = None"
  by (rule home_valid_by_parts; simp add: home_defs go_eval string_eval)

lemma Validate_egress_witness: "wg_interface (c_wireguard home1) \<noteq> uplink_name home1"
  using Validate_egress [OF home_valid] by blast

lemma Validate_policies_witness: "p_service (hd (c_policies home1)) \<in> s_name ` set (c_services home1)"
  using Validate_policies [OF home_valid] by (simp add: home_defs)

text \<open>Two LANs.\<close>

definition two_lans :: config where
  "two_lans = home1\<lparr>c_zones := [\<lparr>z_name = ''lan'', z_networks = [''192.168.1.0/24''], z_interfaces = []\<rparr>,
     \<lparr>z_name = ''dmz'', z_networks = [''192.168.2.0/24''], z_interfaces = [''lan0'']\<rparr>]\<rparr>"

lemma two_lans_valid: "validate two_lans = None"
  by (simp add: two_lans_def home_defs go_eval string_eval)

lemma zones_disjoint_witness: "\<not> address_in_prefixes (A4 0xC0A80107) [''192.168.2.0/24'']"
proof -
  have "address_in_prefixes (A4 0xC0A80107) [''192.168.1.0/24'']" by (simp add: go_eval)
  with zones_disjoint [OF two_lans_valid, of "hd (c_zones two_lans)" "last (c_zones two_lans)" "A4 0xC0A80107"]
  show ?thesis by (simp add: two_lans_def)
qed

lemma Explain_deny_overrides_witness:
  "dc_action (explain (effective_of home1)
     \<lparr>q_from = ''192.168.1.7'', q_to = ''host'', q_protocol = ''tcp'', q_port = 22\<rparr>) = ''allow''"
proof -
  let ?q = "\<lparr>q_from = ''192.168.1.7'', q_to = ''host'', q_protocol = ''tcp'', q_port = 22\<rparr>"
  have c: "compile_policy home1 = Inr (effective_of home1)" by (simp add: compile_policy_def home_valid)
  have m: "dc_matched (explain_effective (effective_of home1) ?q \<lparr>rc_blocked = [], rc_trusted = []\<rparr>) = Some (hd ssh_in)"
    by (simp add: home_defs go_eval string_eval sort_slice_def Let_def)
  from Explain_deny_overrides [OF c m] show ?thesis by (simp add: explain_def ssh_in_def mk_policy_def)
qed

end
