(* ===== verification/Compiler.thy ===== *)
theory Compiler
  imports Policy
begin

text \<open>
  The compiler from a validated policy to an nft script, \<^verbatim>\<open>src/internal/compiler/compiler.go\<close>, function
  by function and text by text: \<^verbatim>\<open>Compile\<close> with its checks of the runtime input, and the \<^verbatim>\<open>emit...\<close>
  functions, which here return the text the source appends to its builder. \<^verbatim>\<open>sha256\<close> in hexadecimal and
  the text of \<^verbatim>\<open>%#v\<close> of a configuration are arguments. The theory Ruleset gives the same script as
  structured rules.
\<close>

record compile_input =
  ci_policy :: effective
  ci_blocked4 :: "string list"
  ci_blocked6 :: "string list"
  ci_bootstrap4 :: "string list"
  ci_bootstrap6 :: "string list"
  ci_docker4 :: "string list"
  ci_docker6 :: "string list"

record artifact =
  ar_generation :: "64 word"
  ar_script :: string
  ar_checksum :: string
  ar_provenance :: "assignment list"

section \<open>Text\<close>

definition line :: "string \<Rightarrow> string" where
  "line s = s @ NL"

definition indent :: string where
  "indent = ''        ''"

definition hex8 :: "32 word \<Rightarrow> string" where
  "hex8 w = pad_zero 8 (hex_str (unat w))"

text \<open>\<^verbatim>\<open>quote(interfaces, role)\<close>: the quoted name of the first interface with the role.\<close>

definition role_name :: "iface list \<Rightarrow> string \<Rightarrow> string" where
  "role_name is role = (case find (\<lambda>i. if_role i = role) is of Some i \<Rightarrow> if_name i | None \<Rightarrow> '''')"

definition quote_role :: "iface list \<Rightarrow> string \<Rightarrow> string" where
  "quote_role is role = quote (role_name is role)"

definition sorted_interfaces :: "iface list \<Rightarrow> iface list" where
  "sorted_interfaces is = sort_slice (\<lambda>a b. if_name a < if_name b) is"

fun unique_neighbours :: "'a list \<Rightarrow> 'a list" where
  "unique_neighbours (x # y # zs) = (if x = y then unique_neighbours (y # zs) else x # unique_neighbours (y # zs))"
| "unique_neighbours xs = xs"

definition unique_strings :: "string list \<Rightarrow> string list" where
  "unique_strings values = unique_neighbours (sort values)"

section \<open>Sets\<close>

definition emit_set :: "string \<Rightarrow> string \<Rightarrow> string list \<Rightarrow> bool \<Rightarrow> string" where
  "emit_set name typ elems timeout =
     line (''    set '' @ name @ '' {'') @
     line (''        type '' @ typ @ ''; flags '' @ (if timeout then ''interval, timeout'' else ''interval'') @
           ''; comment '' @ dquote @ ''nftfw-owned:'' @ name @ dquote) @
     (if elems = [] then '''' else line (''        elements = { '' @ join_str '', '' (sort elems) @ '' }'')) @
     line (''    }'')"

section \<open>Provenance marks\<close>

definition encoded_id :: "iface \<Rightarrow> 32 word" where
  "encoded_id i = encode_id (if_provid i)"

definition tag_line :: "string \<Rightarrow> string \<Rightarrow> iface \<Rightarrow> string" where
  "tag_line dir chain i = line (indent @ dir @ '' '' @ quote (if_name i) @
     '' ct direction original ct mark & 0x'' @ hex8 mark_mask @ '' == 0x00000000 ct mark set (ct mark & 0x'' @
     hex8 keep_mask @ '') | 0x'' @ hex8 (encoded_id i) @ '' counter comment '' @
     quote (''nftfw:provenance-tag-'' @ chain @ '':'' @ if_name i))"

definition emit_provenance_tags :: "iface list \<Rightarrow> string \<Rightarrow> string" where
  "emit_provenance_tags is chain = concat (map (tag_line ''iifname'' chain) (sorted_interfaces is))"

definition emit_output_provenance_tags :: "iface list \<Rightarrow> string" where
  "emit_output_provenance_tags is = concat (map (tag_line ''oifname'' ''output'') (sorted_interfaces is))"

definition reply_line :: "string \<Rightarrow> (iface \<Rightarrow> string) \<Rightarrow> iface \<Rightarrow> string" where
  "reply_line dir comment i = line (indent @ dir @ '' '' @ quote (if_name i) @
     '' ct mark & 0x'' @ hex8 mark_mask @ '' == 0x'' @ hex8 (encoded_id i) @
     '' ct direction reply ct state established,related accept comment '' @ quote (comment i))"

definition emit_provenance_replies :: "iface list \<Rightarrow> string \<Rightarrow> string" where
  "emit_provenance_replies is chain =
     concat (map (reply_line ''oifname'' (\<lambda>i. ''nftfw:provenance-reply-'' @ chain @ '':'' @ if_name i))
       (sorted_interfaces is))"

definition emit_input_replies :: "iface list \<Rightarrow> string" where
  "emit_input_replies is =
     concat (map (reply_line ''iifname'' (\<lambda>i. ''nftfw:input-reply-only'')) (sorted_interfaces is))"

section \<open>Containers\<close>

record container_binding =
  cb_interface :: string
  cb_prefix :: string
  cb_family :: string

definition binding_less :: "container_binding \<Rightarrow> container_binding \<Rightarrow> bool" where
  "binding_less a b =
     (if cb_interface a \<noteq> cb_interface b then cb_interface a < cb_interface b
      else if cb_family a \<noteq> cb_family b then cb_family a < cb_family b
      else cb_prefix a < cb_prefix b)"

definition bindings_of :: "iface \<Rightarrow> container_binding list" where
  "bindings_of i =
     (if if_role i \<noteq> ''container'' then []
      else concat (map (\<lambda>raw. case parse_prefix raw of None \<Rightarrow> []
        | Some p \<Rightarrow> [\<lparr>cb_interface = if_name i, cb_prefix = prefix_string (masked p),
                      cb_family = (if is4 (paddr p) then ''ip'' else ''ip6'')\<rparr>]) (if_cidrs i)))"

definition container_bindings :: "config \<Rightarrow> container_binding list" where
  "container_bindings c = sort_slice binding_less (concat (map bindings_of (c_interfaces c)))"

definition family_suffix :: "container_binding \<Rightarrow> string" where
  "family_suffix b = (if cb_family b = ''ip6'' then ''v6'' else ''v4'')"

definition path_error_line :: "container_binding \<Rightarrow> string" where
  "path_error_line b =
     (if cb_family b = ''ip'' then
        line (indent @ ''oifname '' @ quote (cb_interface b) @ '' ip daddr '' @ cb_prefix b @
          '' meta l4proto icmp icmp type { destination-unreachable, time-exceeded, parameter-problem } accept comment '' @
          quote (''nftfw:container-path-errors-v4:'' @ cb_interface b))
      else
        line (indent @ ''oifname '' @ quote (cb_interface b) @ '' ip6 daddr '' @ cb_prefix b @
          '' meta l4proto ipv6-icmp icmpv6 type { destination-unreachable, packet-too-big, time-exceeded, parameter-problem } accept comment '' @
          quote (''nftfw:container-path-errors-v6:'' @ cb_interface b)))"

definition emit_container_path_errors :: "config \<Rightarrow> string" where
  "emit_container_path_errors c = concat (map path_error_line (container_bindings c))"

definition forward_guard_lines :: "config \<Rightarrow> container_binding \<Rightarrow> string" where
  "forward_guard_lines c b =
     (let vpn = quote (wg_interface (c_wireguard c)); uplink = quote_role (c_interfaces c) ''uplink'';
          mss = itoa_int (wg_tcp_mss (c_wireguard c)) in
      line (indent @ ''iifname '' @ quote (cb_interface b) @ '' '' @ cb_family b @ '' saddr '' @ cb_prefix b @
        '' oifname '' @ vpn @ '' tcp flags syn tcp option maxseg size set '' @ mss @ '' comment '' @
        quote (''nftfw:container-vpn-mss-out-'' @ family_suffix b @ '':'' @ cb_interface b)) @
      line (indent @ ''iifname '' @ vpn @ '' oifname '' @ quote (cb_interface b) @ '' '' @ cb_family b @ '' daddr '' @
        cb_prefix b @ '' tcp flags syn tcp option maxseg size set '' @ mss @ '' comment '' @
        quote (''nftfw:container-vpn-mss-in-'' @ family_suffix b @ '':'' @ cb_interface b)) @
      line (indent @ ''iifname '' @ quote (cb_interface b) @ '' '' @ cb_family b @ '' saddr '' @ cb_prefix b @
        '' oifname '' @ uplink @ '' drop comment '' @
        quote (''nftfw:container-physical-deny-'' @ family_suffix b @ '':'' @ cb_interface b)))"

definition emit_container_forward_guards :: "config \<Rightarrow> string" where
  "emit_container_forward_guards c = concat (map (forward_guard_lines c) (container_bindings c))"

definition vpn_marker_line :: "config \<Rightarrow> container_binding \<Rightarrow> string" where
  "vpn_marker_line c b = line (indent @ ''iifname '' @ quote (cb_interface b) @ '' '' @ cb_family b @ '' saddr '' @
     cb_prefix b @ '' oifname '' @ quote (wg_interface (c_wireguard c)) @ '' counter comment '' @
     quote (''nftfw:container-vpn-egress-'' @ family_suffix b @ '':'' @ cb_interface b))"

definition emit_container_vpn_markers :: "config \<Rightarrow> string" where
  "emit_container_vpn_markers c = concat (map (vpn_marker_line c) (container_bindings c))"

section \<open>Zone selectors and services\<close>

record zone_selector =
  zs_expression :: string
  zs_family :: string
  zs_requires_vpn :: bool

definition family_expr :: "string \<Rightarrow> string" where
  "family_expr pre = (if contains_str pre '':'' then ''ip6'' else ''ip'')"

definition address_match :: "string \<Rightarrow> string \<Rightarrow> string" where
  "address_match pre dir = family_expr pre @ '' '' @ dir @ '' '' @ pre"

definition destination_requires_vpn :: "string \<Rightarrow> bool" where
  "destination_requires_vpn raw =
     (case parse_prefix raw of None \<Rightarrow> True
      | Some p \<Rightarrow> \<not> is_private (paddr p) \<and> \<not> is_link_local (paddr p) \<and> \<not> is_loopback (paddr p))"

definition zone_selectors :: "string \<Rightarrow> string \<Rightarrow> effective \<Rightarrow> zone_selector list" where
  "zone_selectors name direction e =
     (let addrDir = (if direction = ''destination'' then ''daddr'' else ''saddr'');
          ifDir = (if direction = ''destination'' then ''oifname'' else ''iifname'') in
      if name = ''host'' then []
      else if name = ''any'' then
        [\<lparr>zs_expression = ''meta nfproto ipv4'', zs_family = ''ip'', zs_requires_vpn = False\<rparr>,
         \<lparr>zs_expression = ''meta nfproto ipv6'', zs_family = ''ip6'', zs_requires_vpn = False\<rparr>]
      else (case ef_zones e name of None \<Rightarrow> []
        | Some z \<Rightarrow>
           let nets = map (\<lambda>n. \<lparr>zs_expression = address_match n addrDir, zs_family = family_expr n,
                                 zs_requires_vpn = destination_requires_vpn n\<rparr>) (z_networks z);
               ifs = unique_strings (z_interfaces z @
                 map if_name (filter (\<lambda>i. if_zone i = name) (c_interfaces (ef_config e)))) in
           if nets \<noteq> [] \<and> ifs \<noteq> [] then
             concat (map (\<lambda>s. map (\<lambda>n. s\<lparr>zs_expression := ifDir @ '' '' @ quote n @ '' '' @ zs_expression s\<rparr>) ifs) nets)
           else if nets \<noteq> [] then nets
           else concat (map (\<lambda>n.
             [\<lparr>zs_expression = ifDir @ '' '' @ quote n @ '' meta nfproto ipv4'', zs_family = ''ip'', zs_requires_vpn = False\<rparr>,
              \<lparr>zs_expression = ifDir @ '' '' @ quote n @ '' meta nfproto ipv6'', zs_family = ''ip6'', zs_requires_vpn = False\<rparr>])
             ifs)))"

definition service_expr :: "service \<Rightarrow> string \<Rightarrow> string" where
  "service_expr s family =
     (if s_protocol s = ''any'' then ''''
      else if s_protocol s = ''icmp'' then
        (if family = ''ip6'' then ''meta l4proto ipv6-icmp'' else ''meta l4proto icmp'')
      else s_protocol s @ '' dport { '' @ join_str '', '' (map itoa_int (sort (s_ports s))) @ '' }'')"

definition trusted_port_list :: "effective \<Rightarrow> string \<Rightarrow> int list" where
  "trusted_port_list e proto =
     sort (remdups (concat (map (\<lambda>n. case ef_svcs e n of None \<Rightarrow> []
         | Some s \<Rightarrow> if s_protocol s \<noteq> proto then [] else s_ports s)
       (rt_trusted_services (c_runtime (ef_config e))))))"

definition trusted_ports :: "effective \<Rightarrow> string \<Rightarrow> string list" where
  "trusted_ports e proto = map itoa_int (trusted_port_list e proto)"

section \<open>Policies\<close>

definition policy_applies_to_chain :: "policy \<Rightarrow> string \<Rightarrow> bool" where
  "policy_applies_to_chain p chain =
     (if chain = ''input'' then p_to p = ''host'' \<and> p_from p \<noteq> ''host''
      else if chain = ''output'' then (p_from p = ''host'' \<or> p_from p = ''any'') \<and> p_to p \<noteq> ''host''
      else if chain = ''forward'' then p_from p \<noteq> ''host'' \<and> p_to p \<noteq> ''host''
      else False)"

definition verdict_of :: "policy \<Rightarrow> string" where
  "verdict_of p = (if p_action p = ''allow'' then ''accept'' else ''drop'')"

definition no_selector :: zone_selector where
  "no_selector = \<lparr>zs_expression = '''', zs_family = '''', zs_requires_vpn = False\<rparr>"

definition emit_policy_rules :: "policy \<Rightarrow> service \<Rightarrow> effective \<Rightarrow> string \<Rightarrow> string" where
  "emit_policy_rules p svc e chain =
     (let vpn = ''oifname '' @ quote (wg_interface (c_wireguard (ef_config e))) @ '' '';
          tail = '' '' @ verdict_of p @ '' comment '' @ quote (''nftfw-policy:'' @ p_name p) @ NL in
      if chain = ''output'' then
        concat (map (\<lambda>dst.
          (indent @ zs_expression dst @ '' '' @
           (if p_to p = ''any'' \<or> zs_requires_vpn dst then vpn else '''')) @
          service_expr svc (zs_family dst) @ tail) (zone_selectors (p_to p) ''destination'' e))
      else
        (let sources = zone_selectors (p_from p) ''source'' e;
             dests = (if chain = ''input'' \<and> p_to p = ''host'' then [no_selector]
                      else zone_selectors (p_to p) ''destination'' e) in
         concat (map (\<lambda>src. concat (map (\<lambda>dst.
           if zs_family dst \<noteq> '''' \<and> zs_family src \<noteq> zs_family dst then ''''
           else
             (if chain = ''input'' then indent @ zs_expression src @ '' ''
              else indent @ zs_expression src @ '' '' @
                (if zs_expression dst \<noteq> '''' then zs_expression dst @ '' '' else '''') @
                (if p_to p = ''any'' then vpn else '''')) @
             service_expr svc (zs_family src) @ tail) dests)) sources)))"

definition emit_policies :: "effective \<Rightarrow> string \<Rightarrow> string \<Rightarrow> string" where
  "emit_policies e chain action =
     concat (map (\<lambda>p.
       if p_action p \<noteq> action \<or> \<not> policy_applies_to_chain p chain then ''''
       else (case ef_svcs e (p_service p) of None \<Rightarrow> '''' | Some svc \<Rightarrow> emit_policy_rules p svc e chain))
       (sorted_policies e))"

section \<open>The filter table\<close>

definition trusted_lines :: "effective \<Rightarrow> string \<Rightarrow> string" where
  "trusted_lines e proto =
     (let ports = trusted_ports e proto in
      if ports = [] then ''''
      else
        line (indent @ ''ip saddr @trusted_v4 '' @ proto @ '' dport { '' @ join_str '', '' ports @
          '' } accept comment '' @ dquote @ ''nftfw:trusted-services-v4-'' @ proto @ dquote) @
        line (indent @ ''ip6 saddr @trusted_v6 '' @ proto @ '' dport { '' @ join_str '', '' ports @
          '' } accept comment '' @ dquote @ ''nftfw:trusted-services-v6-'' @ proto @ dquote))"

definition nd_line :: string where
  "nd_line = line (indent @
     ''ip6 hoplimit 255 meta l4proto ipv6-icmp icmpv6 type { nd-neighbor-solicit, nd-neighbor-advert, nd-router-solicit, nd-router-advert } accept comment '' @
     dquote @ ''nftfw:ipv6-neighbor-discovery'' @ dquote)"

definition noted :: "string \<Rightarrow> string \<Rightarrow> string" where
  "noted s comment = line (indent @ s @ '' comment '' @ dquote @ comment @ dquote)"

definition emit_input_chain :: "compile_input \<Rightarrow> string" where
  "emit_input_chain inp =
     (let e = ci_policy inp; c = ef_config e in
      line ''    chain input {'' @
      line ''        type filter hook input priority filter; policy drop;'' @
      noted ''ct state invalid drop'' ''nftfw:invalid'' @
      noted (''iifname '' @ dquote @ ''lo'' @ dquote @ '' accept'') ''nftfw:loopback'' @
      emit_provenance_tags (c_interfaces c) ''input'' @
      (if sys_ipv6_mode (c_system c) \<noteq> ''disabled'' then nd_line else '''') @
      concat (map (trusted_lines e) [''tcp'', ''udp'']) @
      emit_policies e ''input'' ''deny'' @
      emit_input_replies (c_interfaces c) @
      noted ''ip saddr @blocked_v4 drop'' ''nftfw:block-v4'' @
      noted ''ip6 saddr @blocked_v6 drop'' ''nftfw:block-v6'' @
      emit_policies e ''input'' ''allow'' @
      noted ''counter drop'' ''nftfw:input-default-deny'' @
      line ''    }'')"

definition emit_output_chain :: "compile_input \<Rightarrow> string" where
  "emit_output_chain inp =
     (let e = ci_policy inp; c = ef_config e; w = c_wireguard c;
          uplink = quote_role (c_interfaces c) ''uplink'' in
      line ''    chain output {'' @
      line ''        type filter hook output priority filter; policy drop;'' @
      noted ''ct state invalid drop'' ''nftfw:invalid'' @
      emit_output_provenance_tags (c_interfaces c) @
      noted (''oifname '' @ dquote @ ''lo'' @ dquote @ '' accept'') ''nftfw:loopback'' @
      emit_provenance_replies (c_interfaces c) ''output'' @
      emit_container_path_errors c @
      (if sys_ipv6_mode (c_system c) \<noteq> ''disabled'' then
         nd_line @ noted (''oifname '' @ uplink @ '' udp sport 546 udp dport 547 accept'') ''nftfw:dhcpv6-bootstrap''
       else '''') @
      noted (''oifname '' @ uplink @ '' udp sport 68 udp dport 67 accept'') ''nftfw:dhcp-bootstrap'' @
      (if 0 < wg_endpoint_port w then
         noted (''oifname '' @ uplink @ '' meta mark '' @ wg_fwmark w @ '' ip daddr @wg_bootstrap_v4 udp dport '' @
           itoa_int (wg_endpoint_port w) @ '' accept'') ''nftfw:wg-bootstrap-v4'' @
         noted (''oifname '' @ uplink @ '' meta mark '' @ wg_fwmark w @ '' ip6 daddr @wg_bootstrap_v6 udp dport '' @
           itoa_int (wg_endpoint_port w) @ '' accept'') ''nftfw:wg-bootstrap-v6''
       else '''') @
      noted ''ip daddr @blocked_v4 drop'' ''nftfw:block-v4'' @
      noted ''ip6 daddr @blocked_v6 drop'' ''nftfw:block-v6'' @
      noted (''oifname '' @ quote (wg_interface w) @ '' counter'') ''nftfw:vpn-only-egress'' @
      emit_policies e ''output'' ''deny'' @
      emit_policies e ''output'' ''allow'' @
      noted ''counter drop'' ''nftfw:output-default-deny'' @
      line ''    }'')"

definition emit_forward_chain :: "compile_input \<Rightarrow> string" where
  "emit_forward_chain inp =
     (let e = ci_policy inp; c = ef_config e in
      line ''    chain forward {'' @
      line ''        type filter hook forward priority filter; policy drop;'' @
      noted ''ct state invalid drop'' ''nftfw:invalid'' @
      emit_provenance_tags (c_interfaces c) ''forward'' @
      emit_provenance_replies (c_interfaces c) ''forward'' @
      noted ''ip saddr @blocked_v4 drop'' ''nftfw:block-forward-source-v4'' @
      noted ''ip daddr @blocked_v4 drop'' ''nftfw:block-forward-destination-v4'' @
      noted ''ip6 saddr @blocked_v6 drop'' ''nftfw:block-forward-source-v6'' @
      noted ''ip6 daddr @blocked_v6 drop'' ''nftfw:block-forward-destination-v6'' @
      emit_container_forward_guards c @
      noted (''oifname '' @ quote_role (c_interfaces c) ''uplink'' @ '' drop'') ''nftfw:forward-physical-deny'' @
      emit_policies e ''forward'' ''deny'' @
      emit_container_vpn_markers c @
      emit_policies e ''forward'' ''allow'' @
      noted ''counter drop'' ''nftfw:forward-default-deny'' @
      line ''    }'')"

definition emit_filter :: "compile_input \<Rightarrow> string" where
  "emit_filter inp =
     line (''table inet nftfw_filter {'') @
     emit_set ''blocked_v4'' ''ipv4_addr'' (ci_blocked4 inp) False @
     emit_set ''blocked_v6'' ''ipv6_addr'' (ci_blocked6 inp) False @
     emit_set ''trusted_v4'' ''ipv4_addr'' [] True @
     emit_set ''trusted_v6'' ''ipv6_addr'' [] True @
     emit_set ''wg_bootstrap_v4'' ''ipv4_addr'' (ci_bootstrap4 inp) False @
     emit_set ''wg_bootstrap_v6'' ''ipv6_addr'' (ci_bootstrap6 inp) False @
     emit_set ''docker_nets'' ''ipv4_addr'' (ci_docker4 inp) False @
     emit_set ''docker_nets6'' ''ipv6_addr'' (ci_docker6 inp) False @
     emit_input_chain inp @ emit_output_chain inp @ emit_forward_chain inp @
     line ''}''"

section \<open>The NAT table and the IPv6 table\<close>

definition nat_sources :: "string \<Rightarrow> effective \<Rightarrow> string list" where
  "nat_sources name e =
     (if name = ''any'' then ['''']
      else
        (let sources = map zs_expression
               (filter (\<lambda>s. zs_family s = ''ip'') (zone_selectors name ''source'' e)) in
         if sources = [] then [''''] else sort sources))"

definition nat_line :: "nat_rule \<Rightarrow> string \<Rightarrow> string" where
  "nat_line r source =
     (let external = ''iifname '' @ quote (n_external_interface r);
          pre = (if source = '''' then indent @ external @ '' ''
                 else if has_prefix source (external @ '' '') then indent @ source @ '' ''
                 else indent @ external @ '' '' @ source @ '' '') in
      line (pre @ n_protocol r @ '' dport '' @ itoa_int (n_external_port r) @ '' dnat to '' @ n_destination r @
        '':'' @ itoa_int (n_destination_port r) @ '' comment '' @ quote (''nftfw-nat:'' @ n_name r)))"

definition sorted_nat :: "config \<Rightarrow> nat_rule list" where
  "sorted_nat c = sort_slice (\<lambda>a b. n_name a < n_name b) (c_nat c)"

definition masquerade_line :: "config \<Rightarrow> container_binding \<Rightarrow> string" where
  "masquerade_line c b =
     line (indent @ ''iifname '' @ quote (cb_interface b) @ '' ip saddr '' @ cb_prefix b @ '' oifname '' @
       quote (wg_interface (c_wireguard c)) @ '' masquerade comment '' @
       quote (''nftfw:vpn-only-nat:'' @ cb_interface b))"

definition emit_nat :: "compile_input \<Rightarrow> string" where
  "emit_nat inp =
     (let e = ci_policy inp; c = ef_config e in
      line (''table ip nftfw_nat {'') @
      emit_set ''docker_nets_nat'' ''ipv4_addr'' (ci_docker4 inp) False @
      line ''    chain prerouting {'' @
      line ''        type nat hook prerouting priority dstnat; policy accept;'' @
      noted ''counter'' ''nftfw:dnat-chain'' @
      concat (map (\<lambda>r. concat (map (nat_line r) (nat_sources (n_source r) e))) (sorted_nat c)) @
      line ''    }'' @
      line ''    chain postrouting {'' @
      line ''        type nat hook postrouting priority srcnat; policy accept;'' @
      concat (map (masquerade_line c) (filter (\<lambda>b. cb_family b = ''ip'') (container_bindings c))) @
      line ''    }'' @
      line ''}'')"

definition emit_ipv6 :: "compile_input \<Rightarrow> string" where
  "emit_ipv6 inp =
     (let mode = sys_ipv6_mode (c_system (ef_config (ci_policy inp))) in
      line ''table ip6 nftfw_filter6 {'' @
      (if mode \<noteq> ''disabled'' then
         line (''    chain mode_marker { comment '' @ quote (''nftfw:ipv6-mode-'' @ mode) @ ''; }'') @
         line ''}''
       else
         line ''    chain input { type filter hook input priority -300; policy drop;'' @
         noted (''iifname '' @ dquote @ ''lo'' @ dquote @ '' accept'') ''nftfw:ipv6-mode-disabled'' @
         line ''    }'' @
         line ''    chain output { type filter hook output priority -300; policy drop;'' @
         noted (''oifname '' @ dquote @ ''lo'' @ dquote @ '' accept'') ''nftfw:ipv6-loopback'' @
         line ''    }'' @
         line ''    chain forward { type filter hook forward priority -300; policy drop;'' @
         noted ''ct state invalid drop'' ''nftfw:ipv6-invalid'' @
         line ''    }'' @
         line ''}''))"

section \<open>The checks of the runtime input\<close>

definition runtime_prefix :: "string \<Rightarrow> bool \<Rightarrow> string \<Rightarrow> goerr option" where
  "runtime_prefix name v4 raw =
     (case parse_prefix raw of
        None \<Rightarrow> Some (Wrapf ''invalid runtime prefix %q: %w'' [raw] (External ''netip.ParsePrefix''))
      | Some p \<Rightarrow> first_err [
          refuse (pbits p = 0) (Errorf ''runtime prefix %q is /0'' [raw]),
          refuse ((v4 \<and> \<not> is4 (paddr p)) \<or> (\<not> v4 \<and> \<not> is6 (paddr p)))
            (Errorf ''%s contains address from wrong family: %q'' [name, raw]),
          refuse (has_prefix name ''wg_bootstrap_'' \<and> pbits p \<noteq> int (bit_len (paddr p)))
            (Errorf ''%s contains non-host endpoint prefix: %q'' [name, raw])])"

definition runtime_prefixes :: "compile_input \<Rightarrow> goerr option" where
  "runtime_prefixes inp = first_err [
     checks (runtime_prefix ''blocked_v4'' True) (ci_blocked4 inp),
     checks (runtime_prefix ''blocked_v6'' False) (ci_blocked6 inp),
     checks (runtime_prefix ''wg_bootstrap_v4'' True) (ci_bootstrap4 inp),
     checks (runtime_prefix ''wg_bootstrap_v6'' False) (ci_bootstrap6 inp),
     checks (runtime_prefix ''docker_nets'' True) (ci_docker4 inp),
     checks (runtime_prefix ''docker_nets6'' False) (ci_docker6 inp)]"

definition validate_nat_targets :: "nat_rule list \<Rightarrow> string list \<Rightarrow> goerr option" where
  "validate_nat_targets rules networks =
     (let owned = filter (\<lambda>p. is4 (paddr p)) (concat (map (\<lambda>raw. case parse_prefix raw of None \<Rightarrow> [] | Some p \<Rightarrow> [p]) networks)) in
      checks (\<lambda>r. refuse
          (\<not> list_ex (\<lambda>p. prefix_contains p (case parse_addr (n_destination r) of None \<Rightarrow> AInvalid | Some a \<Rightarrow> a)) owned)
          (Errorf ''NAT rule %s destination is outside observed container networks'' [n_name r])) rules)"

definition observed_step :: "bool \<Rightarrow> string list \<Rightarrow> string \<Rightarrow> string list result" where
  "observed_step v4 seen raw =
     (case parse_prefix raw of
        None \<Rightarrow> Err (Errorf ''invalid observed container network %q'' [raw])
      | Some p \<Rightarrow>
         if pbits p = 0 \<or> is4 (paddr p) \<noteq> v4 then Err (Errorf ''invalid observed container network %q'' [raw])
         else if prefix_string (masked p) \<in> set seen then
           Err (Errorf ''duplicate observed container network %q'' [prefix_string (masked p)])
         else Ok (prefix_string (masked p) # seen))"

text \<open>The maps of the source are sets of keys here: lists without duplicates.\<close>

definition same_prefix_set :: "string list \<Rightarrow> string list \<Rightarrow> bool" where
  "same_prefix_set left right \<longleftrightarrow>
     length (remdups left) = length (remdups right) \<and> list_all (\<lambda>v. v \<in> set right) left"

definition validate_container_topology :: "config \<Rightarrow> string list \<Rightarrow> string list \<Rightarrow> goerr option" where
  "validate_container_topology c observed4 observed6 =
     (let bs = container_bindings c;
          expected4 = map cb_prefix (filter (\<lambda>b. cb_family b = ''ip'') bs);
          expected6 = map cb_prefix (filter (\<lambda>b. cb_family b \<noteq> ''ip'') bs) in
      err_of (bindE (foldE (observed_step True) [] observed4) (\<lambda>actual4.
        bindE (foldE (observed_step False) [] observed6) (\<lambda>actual6.
          if \<not> same_prefix_set expected4 actual4 \<or> \<not> same_prefix_set expected6 actual6 then
            Err (Errorf ''observed container subnets do not exactly match declared stable container interfaces'' [])
          else Ok ()))))"

section \<open>Compile\<close>

definition script_of :: "(config \<Rightarrow> string) \<Rightarrow> (string \<Rightarrow> string) \<Rightarrow> compile_input \<Rightarrow> 64 word \<Rightarrow> string" where
  "script_of goSyntax sha256hex inp generation =
     line ''#!/usr/sbin/nft -f'' @
     line ''# nftfw transaction; owned tables only; global ruleset replacement omitted'' @
     line (''# generation: '' @ itoa (unat generation)) @
     line (''# policy checksum: '' @ sha256hex (goSyntax (ef_config (ci_policy inp)))) @
     line '''' @ emit_filter inp @ line '''' @ emit_nat inp @ line '''' @ emit_ipv6 inp"

definition compile :: "(config \<Rightarrow> string) \<Rightarrow> (string \<Rightarrow> string) \<Rightarrow> compile_input \<Rightarrow> 64 word \<Rightarrow> artifact result" where
  "compile goSyntax sha256hex inp generation =
     (let c = ef_config (ci_policy inp) in
      case first_err [
        validate c, runtime_prefixes inp, validate_nat_targets (c_nat c) (ci_docker4 inp),
        validate_container_topology c (ci_docker4 inp) (ci_docker6 inp)] of
        Some e \<Rightarrow> Err e
      | None \<Rightarrow>
         let script = script_of goSyntax sha256hex inp generation in
         Ok \<lparr>ar_generation = generation, ar_script = script, ar_checksum = sha256hex script,
              ar_provenance = map iface_assignment (sorted_interfaces (c_interfaces c))\<rparr>)"

lemmas compiler_eval [go_eval] =
  line_def indent_def hex8_def role_name_def quote_role_def sorted_interfaces_def unique_strings_def
  bindings_of_def binding_less_def container_bindings_def family_suffix_def family_expr_def address_match_def
  destination_requires_vpn_def zone_selectors_def service_expr_def trusted_port_list_def trusted_ports_def
  policy_applies_to_chain_def verdict_of_def no_selector_def nat_sources_def sorted_nat_def
  runtime_prefix_def runtime_prefixes_def validate_nat_targets_def observed_step_def same_prefix_set_def
  validate_container_topology_def encoded_id_def

end
