(* ===== verification/Ruleset.thy ===== *)
theory Ruleset
  imports Compiler
begin

text \<open>
  The generated script as structured rules: a rule is a list of matches, a statement and a comment, a
  base chain a list of rules under a default verdict. \<open>render_rule\<close> prints a rule the way the compiler
  writes it, and the theorems of this theory say that the texts of \<^verbatim>\<open>compiler.go\<close> are exactly the printed
  structured chains. What a chain does to a packet is stated over the structured rules.
\<close>

section \<open>Rules\<close>

datatype nmatch =
    CtInvalid
  | Iif string
  | Oif string
  | CtOriginal
  | CtReply
  | CtEstablished
  | CtMark "32 word" "32 word"
  | NdExchange
  | InSet string string string
  | InNet string string string
  | NfProto string
  | Dports string "int list"
  | AnyService
  | UdpPair int int
  | UdpDport int
  | MetaMark string
  | L4 string
  | IcmpPathErrors string
  | TcpSyn

datatype nstmt =
    Accept
  | Drop
  | CountDrop
  | Count
  | SetTag "32 word" "32 word"
  | SetMss int

datatype nrule = NRule (r_matches: "nmatch list") (r_stmt: nstmt) (r_comment: string)

fun match_text :: "nmatch \<Rightarrow> string" where
  "match_text CtInvalid = ''ct state invalid''"
| "match_text (Iif n) = ''iifname '' @ quote n"
| "match_text (Oif n) = ''oifname '' @ quote n"
| "match_text CtOriginal = ''ct direction original''"
| "match_text CtReply = ''ct direction reply''"
| "match_text CtEstablished = ''ct state established,related''"
| "match_text (CtMark m v) = ''ct mark & 0x'' @ hex8 m @ '' == 0x'' @ hex8 v"
| "match_text NdExchange = ''ip6 hoplimit 255 meta l4proto ipv6-icmp icmpv6 type { nd-neighbor-solicit, nd-neighbor-advert, nd-router-solicit, nd-router-advert }''"
| "match_text (InSet fam dir name) = fam @ '' '' @ dir @ '' @'' @ name"
| "match_text (InNet fam dir cidr) = fam @ '' '' @ dir @ '' '' @ cidr"
| "match_text (NfProto fam) = ''meta nfproto '' @ fam"
| "match_text (Dports proto ports) = proto @ '' dport { '' @ join_str '', '' (map itoa_int ports) @ '' }''"
| "match_text AnyService = ''''"
| "match_text (UdpPair s d) = ''udp sport '' @ itoa_int s @ '' udp dport '' @ itoa_int d"
| "match_text (UdpDport d) = ''udp dport '' @ itoa_int d"
| "match_text (MetaMark m) = ''meta mark '' @ m"
| "match_text (L4 p) = ''meta l4proto '' @ p"
| "match_text (IcmpPathErrors fam) =
     (if fam = ''ip'' then ''icmp type { destination-unreachable, time-exceeded, parameter-problem }''
      else ''icmpv6 type { destination-unreachable, packet-too-big, time-exceeded, parameter-problem }'')"
| "match_text TcpSyn = ''tcp flags syn''"

fun stmt_text :: "nstmt \<Rightarrow> string" where
  "stmt_text Accept = ''accept''"
| "stmt_text Drop = ''drop''"
| "stmt_text CountDrop = ''counter drop''"
| "stmt_text Count = ''counter''"
| "stmt_text (SetTag keep v) = ''ct mark set (ct mark & 0x'' @ hex8 keep @ '') | 0x'' @ hex8 v @ '' counter''"
| "stmt_text (SetMss n) = ''tcp option maxseg size set '' @ itoa_int n"

definition words_text :: "string list \<Rightarrow> string" where
  "words_text ws = concat (map (\<lambda>w. w @ '' '') ws)"

definition matches_text :: "nmatch list \<Rightarrow> string" where
  "matches_text ms = words_text (map match_text ms)"

definition render_rule :: "nrule \<Rightarrow> string" where
  "render_rule r = indent @ matches_text (r_matches r) @ stmt_text (r_stmt r) @ '' comment '' @ quote (r_comment r) @ NL"

definition render_rules :: "nrule list \<Rightarrow> string" where
  "render_rules rs = concat (map render_rule rs)"

definition render_chain :: "string \<Rightarrow> nrule list \<Rightarrow> string" where
  "render_chain name rs =
     line (''    chain '' @ name @ '' {'') @
     line (''        type filter hook '' @ name @ '' priority filter; policy drop;'') @
     render_rules rs @ line ''    }''"

section \<open>The chains\<close>

definition tag_rule :: "(string \<Rightarrow> nmatch) \<Rightarrow> string \<Rightarrow> iface \<Rightarrow> nrule" where
  "tag_rule dir chain i = NRule [dir (if_name i), CtOriginal, CtMark mark_mask 0] (SetTag keep_mask (encoded_id i))
     (''nftfw:provenance-tag-'' @ chain @ '':'' @ if_name i)"

definition reply_rule :: "(string \<Rightarrow> nmatch) \<Rightarrow> (iface \<Rightarrow> string) \<Rightarrow> iface \<Rightarrow> nrule" where
  "reply_rule dir comment i =
     NRule [dir (if_name i), CtMark mark_mask (encoded_id i), CtReply, CtEstablished] Accept (comment i)"

definition path_error_rule :: "container_binding \<Rightarrow> nrule" where
  "path_error_rule b =
     (if cb_family b = ''ip'' then
        NRule [Oif (cb_interface b), InNet ''ip'' ''daddr'' (cb_prefix b), L4 ''icmp'', IcmpPathErrors ''ip''] Accept
          (''nftfw:container-path-errors-v4:'' @ cb_interface b)
      else
        NRule [Oif (cb_interface b), InNet ''ip6'' ''daddr'' (cb_prefix b), L4 ''ipv6-icmp'', IcmpPathErrors ''ip6''] Accept
          (''nftfw:container-path-errors-v6:'' @ cb_interface b))"

definition guard_rules :: "config \<Rightarrow> container_binding \<Rightarrow> nrule list" where
  "guard_rules c b =
     (let vpn = wg_interface (c_wireguard c); mss = wg_tcp_mss (c_wireguard c) in
      [NRule [Iif (cb_interface b), InNet (cb_family b) ''saddr'' (cb_prefix b), Oif vpn, TcpSyn] (SetMss mss)
         (''nftfw:container-vpn-mss-out-'' @ family_suffix b @ '':'' @ cb_interface b),
       NRule [Iif vpn, Oif (cb_interface b), InNet (cb_family b) ''daddr'' (cb_prefix b), TcpSyn] (SetMss mss)
         (''nftfw:container-vpn-mss-in-'' @ family_suffix b @ '':'' @ cb_interface b),
       NRule [Iif (cb_interface b), InNet (cb_family b) ''saddr'' (cb_prefix b),
           Oif (role_name (c_interfaces c) ''uplink'')] Drop
         (''nftfw:container-physical-deny-'' @ family_suffix b @ '':'' @ cb_interface b)])"

definition marker_rule :: "config \<Rightarrow> container_binding \<Rightarrow> nrule" where
  "marker_rule c b = NRule [Iif (cb_interface b), InNet (cb_family b) ''saddr'' (cb_prefix b),
     Oif (wg_interface (c_wireguard c))] Count (''nftfw:container-vpn-egress-'' @ family_suffix b @ '':'' @ cb_interface b)"

text \<open>A zone selector as matches, its family and whether it has to leave through the VPN.\<close>

type_synonym selector = "nmatch list \<times> string \<times> bool"

definition selectors :: "string \<Rightarrow> string \<Rightarrow> effective \<Rightarrow> selector list" where
  "selectors name direction e =
     (let addrDir = (if direction = ''destination'' then ''daddr'' else ''saddr'');
          ifm = (if direction = ''destination'' then Oif else Iif) in
      if name = ''host'' then []
      else if name = ''any'' then [([NfProto ''ipv4''], ''ip'', False), ([NfProto ''ipv6''], ''ip6'', False)]
      else (case ef_zones e name of None \<Rightarrow> []
        | Some z \<Rightarrow>
           let nets = map (\<lambda>n. ([InNet (family_expr n) addrDir n], family_expr n, destination_requires_vpn n)) (z_networks z);
               ifs = unique_strings (z_interfaces z @
                 map if_name (filter (\<lambda>i. if_zone i = name) (c_interfaces (ef_config e)))) in
           if nets \<noteq> [] \<and> ifs \<noteq> [] then
             concat (map (\<lambda>(ms, f, v). map (\<lambda>n. (ifm n # ms, f, v)) ifs) nets)
           else if nets \<noteq> [] then nets
           else concat (map (\<lambda>n. [([ifm n, NfProto ''ipv4''], ''ip'', False), ([ifm n, NfProto ''ipv6''], ''ip6'', False)]) ifs)))"

definition service_match :: "service \<Rightarrow> string \<Rightarrow> nmatch" where
  "service_match s family =
     (if s_protocol s = ''any'' then AnyService
      else if s_protocol s = ''icmp'' then (if family = ''ip6'' then L4 ''ipv6-icmp'' else L4 ''icmp'')
      else Dports (s_protocol s) (sort (s_ports s)))"

definition policy_stmt :: "policy \<Rightarrow> nstmt" where
  "policy_stmt p = (if p_action p = ''allow'' then Accept else Drop)"

definition policy_rules :: "policy \<Rightarrow> service \<Rightarrow> effective \<Rightarrow> string \<Rightarrow> nrule list" where
  "policy_rules p svc e chain =
     (let vpn = Oif (wg_interface (c_wireguard (ef_config e)));
          rule = (\<lambda>ms f. NRule (ms @ [service_match svc f]) (policy_stmt p) (''nftfw-policy:'' @ p_name p)) in
      if chain = ''output'' then
        map (\<lambda>(ms, f, v). rule (ms @ (if p_to p = ''any'' \<or> v then [vpn] else [])) f)
          (selectors (p_to p) ''destination'' e)
      else
        (let dests = (if chain = ''input'' \<and> p_to p = ''host'' then [([], '''', False)]
                      else selectors (p_to p) ''destination'' e) in
         concat (map (\<lambda>(ms, f, v). concat (map (\<lambda>(ds, g, w).
             if g \<noteq> '''' \<and> f \<noteq> g then []
             else [rule (if chain = ''input'' then ms else ms @ ds @ (if p_to p = ''any'' then [vpn] else [])) f]) dests))
           (selectors (p_from p) ''source'' e))))"

definition rules_of_policies :: "effective \<Rightarrow> string \<Rightarrow> string \<Rightarrow> nrule list" where
  "rules_of_policies e chain action =
     concat (map (\<lambda>p.
       if p_action p \<noteq> action \<or> \<not> policy_applies_to_chain p chain then []
       else (case ef_svcs e (p_service p) of None \<Rightarrow> [] | Some svc \<Rightarrow> policy_rules p svc e chain))
       (sorted_policies e))"

definition trusted_rules :: "effective \<Rightarrow> string \<Rightarrow> nrule list" where
  "trusted_rules e proto =
     (let ports = trusted_port_list e proto in
      if ports = [] then []
      else [NRule [InSet ''ip'' ''saddr'' ''trusted_v4'', Dports proto ports] Accept (''nftfw:trusted-services-v4-'' @ proto),
            NRule [InSet ''ip6'' ''saddr'' ''trusted_v6'', Dports proto ports] Accept (''nftfw:trusted-services-v6-'' @ proto)])"

definition nd_rule :: nrule where
  "nd_rule = NRule [NdExchange] Accept ''nftfw:ipv6-neighbor-discovery''"

definition invalid_rule :: nrule where
  "invalid_rule = NRule [CtInvalid] Drop ''nftfw:invalid''"

text \<open>Each chain is its head, the rules in front of the block rules, and the rest.\<close>

definition input_head :: "compile_input \<Rightarrow> nrule list" where
  "input_head inp =
     (let e = ci_policy inp; c = ef_config e; is = sorted_interfaces (c_interfaces c) in
      [invalid_rule, NRule [Iif ''lo''] Accept ''nftfw:loopback''] @
      map (tag_rule Iif ''input'') is @
      (if sys_ipv6_mode (c_system c) \<noteq> ''disabled'' then [nd_rule] else []) @
      concat (map (trusted_rules e) [''tcp'', ''udp'']))"

definition input_rules :: "compile_input \<Rightarrow> nrule list" where
  "input_rules inp =
     (let e = ci_policy inp; c = ef_config e; is = sorted_interfaces (c_interfaces c) in
      input_head inp @
      rules_of_policies e ''input'' ''deny'' @
      map (reply_rule Iif (\<lambda>i. ''nftfw:input-reply-only'')) is @
      [NRule [InSet ''ip'' ''saddr'' ''blocked_v4''] Drop ''nftfw:block-v4'',
       NRule [InSet ''ip6'' ''saddr'' ''blocked_v6''] Drop ''nftfw:block-v6''] @
      rules_of_policies e ''input'' ''allow'' @
      [NRule [] CountDrop ''nftfw:input-default-deny''])"

definition output_head :: "compile_input \<Rightarrow> nrule list" where
  "output_head inp =
     (let e = ci_policy inp; c = ef_config e; is = sorted_interfaces (c_interfaces c); w = c_wireguard c;
          uplink = role_name (c_interfaces c) ''uplink'' in
      [invalid_rule] @ map (tag_rule Oif ''output'') is @
      [NRule [Oif ''lo''] Accept ''nftfw:loopback''] @
      map (reply_rule Oif (\<lambda>i. ''nftfw:provenance-reply-'' @ ''output'' @ '':'' @ if_name i)) is @
      map path_error_rule (container_bindings c) @
      (if sys_ipv6_mode (c_system c) \<noteq> ''disabled'' then
         [nd_rule, NRule [Oif uplink, UdpPair 546 547] Accept ''nftfw:dhcpv6-bootstrap''] else []) @
      [NRule [Oif uplink, UdpPair 68 67] Accept ''nftfw:dhcp-bootstrap''] @
      (if 0 < wg_endpoint_port w then
         [NRule [Oif uplink, MetaMark (wg_fwmark w), InSet ''ip'' ''daddr'' ''wg_bootstrap_v4'', UdpDport (wg_endpoint_port w)]
            Accept ''nftfw:wg-bootstrap-v4'',
          NRule [Oif uplink, MetaMark (wg_fwmark w), InSet ''ip6'' ''daddr'' ''wg_bootstrap_v6'', UdpDport (wg_endpoint_port w)]
            Accept ''nftfw:wg-bootstrap-v6''] else []))"

definition output_rules :: "compile_input \<Rightarrow> nrule list" where
  "output_rules inp =
     (let e = ci_policy inp; w = c_wireguard (ef_config e) in
      output_head inp @
      [NRule [InSet ''ip'' ''daddr'' ''blocked_v4''] Drop ''nftfw:block-v4'',
       NRule [InSet ''ip6'' ''daddr'' ''blocked_v6''] Drop ''nftfw:block-v6'',
       NRule [Oif (wg_interface w)] Count ''nftfw:vpn-only-egress''] @
      rules_of_policies e ''output'' ''deny'' @ rules_of_policies e ''output'' ''allow'' @
      [NRule [] CountDrop ''nftfw:output-default-deny''])"

definition forward_head :: "compile_input \<Rightarrow> nrule list" where
  "forward_head inp =
     (let e = ci_policy inp; c = ef_config e; is = sorted_interfaces (c_interfaces c) in
      [invalid_rule] @ map (tag_rule Iif ''forward'') is @
      map (reply_rule Oif (\<lambda>i. ''nftfw:provenance-reply-'' @ ''forward'' @ '':'' @ if_name i)) is)"

definition forward_rules :: "compile_input \<Rightarrow> nrule list" where
  "forward_rules inp =
     (let e = ci_policy inp; c = ef_config e in
      forward_head inp @
      [NRule [InSet ''ip'' ''saddr'' ''blocked_v4''] Drop ''nftfw:block-forward-source-v4'',
       NRule [InSet ''ip'' ''daddr'' ''blocked_v4''] Drop ''nftfw:block-forward-destination-v4'',
       NRule [InSet ''ip6'' ''saddr'' ''blocked_v6''] Drop ''nftfw:block-forward-source-v6'',
       NRule [InSet ''ip6'' ''daddr'' ''blocked_v6''] Drop ''nftfw:block-forward-destination-v6''] @
      concat (map (guard_rules c) (container_bindings c)) @
      [NRule [Oif (role_name (c_interfaces c) ''uplink'')] Drop ''nftfw:forward-physical-deny''] @
      rules_of_policies e ''forward'' ''deny'' @
      map (marker_rule c) (container_bindings c) @
      rules_of_policies e ''forward'' ''allow'' @
      [NRule [] CountDrop ''nftfw:forward-default-deny''])"

section \<open>The printed rules are the compiler's text\<close>

lemma render_rules_simps [simp]: "render_rules [] = []" "render_rules (r # rs) = render_rule r @ render_rules rs"
  "render_rules (rs @ qs) = render_rules rs @ render_rules qs"
  by (simp_all add: render_rules_def)

lemma render_rules_concat: "render_rules (concat (map f xs)) = concat (map (\<lambda>x. render_rules (f x)) xs)"
  by (induction xs) simp_all

lemma render_rules_map: "render_rules (map f xs) = concat (map (\<lambda>x. render_rule (f x)) xs)"
  by (induction xs) simp_all

lemma words_text_simps [simp]: "words_text [] = []" "words_text (w # ws) = w @ '' '' @ words_text ws"
  "words_text (ws @ vs) = words_text ws @ words_text vs"
  by (simp_all add: words_text_def)

lemma matches_text_simps [simp]: "matches_text [] = []" "matches_text (m # ms) = match_text m @ '' '' @ matches_text ms"
  "matches_text (ms @ ns) = matches_text ms @ matches_text ns"
  by (simp_all add: matches_text_def)

lemma hex8_zero: "hex8 0 = ''00000000''"
  by (simp add: hex8_def pad_zero_def hex_str.simps digit_char_def numeral_eq_Suc)

lemma tag_text: "render_rule (tag_rule Iif chain i) = tag_line ''iifname'' chain i"
  "render_rule (tag_rule Oif chain i) = tag_line ''oifname'' chain i"
  by (simp_all add: render_rule_def tag_rule_def tag_line_def line_def hex8_zero)

lemma reply_text: "render_rule (reply_rule Iif f i) = reply_line ''iifname'' f i"
  "render_rule (reply_rule Oif f i) = reply_line ''oifname'' f i"
  by (simp_all add: render_rule_def reply_rule_def reply_line_def line_def)

lemma path_error_text: "render_rule (path_error_rule b) = path_error_line b"
  by (simp add: render_rule_def path_error_rule_def path_error_line_def line_def)

lemma guard_text: "render_rules (guard_rules c b) = forward_guard_lines c b"
  by (simp add: render_rule_def guard_rules_def forward_guard_lines_def line_def Let_def quote_role_def)

lemma marker_text: "render_rule (marker_rule c b) = vpn_marker_line c b"
  by (simp add: render_rule_def marker_rule_def vpn_marker_line_def line_def)

lemma join_matches: "matches_text (ms @ [m]) = matches_text ms @ match_text m @ '' ''"
  by simp

definition selector_text :: "selector \<Rightarrow> zone_selector" where
  "selector_text = (\<lambda>(ms, f, v). \<lparr>zs_expression = butlast (matches_text ms), zs_family = f, zs_requires_vpn = v\<rparr>)"

lemma selector_text_simps:
  "selector_text ([m], f, v) = \<lparr>zs_expression = match_text m, zs_family = f, zs_requires_vpn = v\<rparr>"
  "selector_text ([m, n], f, v) = \<lparr>zs_expression = match_text m @ '' '' @ match_text n, zs_family = f, zs_requires_vpn = v\<rparr>"
  by (simp_all add: selector_text_def butlast_append)

lemma selector_text_sel [simp]: "zs_family (selector_text (ms, f, v)) = f" "zs_requires_vpn (selector_text (ms, f, v)) = v"
  by (simp_all add: selector_text_def)

lemma selectors_text: "zone_selectors name direction e = map selector_text (selectors name direction e)"
proof -
  have 1: "map selector_text (concat (map (\<lambda>n. [([ifm n, NfProto ''ipv4''], ''ip'', False), ([ifm n, NfProto ''ipv6''], ''ip6'', False)]) ifs)) =
     concat (map (\<lambda>n. [\<lparr>zs_expression = d @ '' '' @ quote n @ '' meta nfproto ipv4'', zs_family = ''ip'', zs_requires_vpn = False\<rparr>,
        \<lparr>zs_expression = d @ '' '' @ quote n @ '' meta nfproto ipv6'', zs_family = ''ip6'', zs_requires_vpn = False\<rparr>]) ifs)"
    if "\<And>n. match_text (ifm n) = d @ '' '' @ quote n" for ifm d ifs
    by (induction ifs) (simp_all add: selector_text_simps that)
  have 2: "map selector_text (concat (map (\<lambda>(ms, f, v). map (\<lambda>n. (ifm n # ms, f, v)) ifs)
        (map (\<lambda>n. ([InNet (family_expr n) a n], family_expr n, destination_requires_vpn n)) nets))) =
      concat (map (\<lambda>s. map (\<lambda>n. s\<lparr>zs_expression := d @ '' '' @ quote n @ '' '' @ zs_expression s\<rparr>) ifs)
        (map (\<lambda>n. \<lparr>zs_expression = address_match n a, zs_family = family_expr n,
                     zs_requires_vpn = destination_requires_vpn n\<rparr>) nets))"
    if "\<And>n. match_text (ifm n) = d @ '' '' @ quote n" for ifm d ifs a nets
    by (induction nets) (simp_all add: selector_text_simps that address_match_def)
  have 3: "map selector_text (map (\<lambda>n. ([InNet (family_expr n) a n], family_expr n, destination_requires_vpn n)) nets) =
     map (\<lambda>n. \<lparr>zs_expression = address_match n a, zs_family = family_expr n, zs_requires_vpn = destination_requires_vpn n\<rparr>) nets"
    for a nets by (simp add: selector_text_simps address_match_def)
  have o: "match_text (Oif n) = ''oifname'' @ '' '' @ quote n" "match_text (Iif n) = ''iifname'' @ '' '' @ quote n" for n by simp_all
  show ?thesis
    unfolding zone_selectors_def selectors_def Let_def
    using 1 [of Oif "''oifname''", OF o(1)] 1 [of Iif "''iifname''", OF o(2)]
      2 [of Oif "''oifname''", OF o(1)] 2 [of Iif "''iifname''", OF o(2)] 3
    by (simp split: option.split add: selector_text_simps del: append.simps)
qed

lemma selector_nonempty: "(ms, f, v) \<in> set (selectors name direction e) \<Longrightarrow> ms \<noteq> []"
  by (auto simp: selectors_def Let_def split: if_splits option.splits)

lemma matches_text_nonempty: "ms \<noteq> [] \<Longrightarrow> butlast (matches_text ms) @ '' '' = matches_text ms"
proof (induction ms)
  case (Cons m ms)
  then show ?case by (cases "ms = []") (auto simp: butlast_append)
qed simp

lemma service_text: "match_text (service_match s f) = service_expr s f"
  by (simp add: service_match_def service_expr_def)

lemma policy_stmt_text: "stmt_text (policy_stmt p) = verdict_of p"
  by (simp add: policy_stmt_def verdict_of_def)

lemma selector_expression_nonempty:
  "(ms, f, v) \<in> set (selectors name direction e) \<Longrightarrow> zs_expression (selector_text (ms, f, v)) \<noteq> []"
  by (auto simp: selectors_def Let_def selector_text_simps split: if_splits option.splits)

lemma selector_expression:
  "(ms, f, v) \<in> set (selectors name direction e) \<Longrightarrow>
    zs_expression (selector_text (ms, f, v)) @ CHR '' '' # xs = matches_text ms @ xs"
  using matches_text_nonempty [OF selector_nonempty] by (simp add: selector_text_def)

lemma concat_map_cong: "(\<And>x. x \<in> set xs \<Longrightarrow> f x = g x) \<Longrightarrow> concat (map f xs) = concat (map g xs)"
  by (metis map_eq_conv)

lemma policy_rules_text:
  "emit_policy_rules p svc e chain = render_rules (policy_rules p svc e chain)"
proof (cases "chain = ''output''")
  case True
  then show ?thesis
    by (simp add: emit_policy_rules_def policy_rules_def Let_def selectors_text render_rules_map comp_def)
      (intro concat_map_cong, auto simp: render_rule_def selector_expression service_text policy_stmt_text)
next
  case False
  have dst: "(if zs_family (selector_text d) \<noteq> '''' \<and> zs_family (selector_text s) \<noteq> zs_family (selector_text d) then ''''
      else (if chain = ''input'' then indent @ zs_expression (selector_text s) @ '' ''
            else indent @ zs_expression (selector_text s) @ '' '' @
              (if zs_expression (selector_text d) \<noteq> '''' then zs_expression (selector_text d) @ '' '' else '''') @
              (if p_to p = ''any'' then ''oifname '' @ quote vpn @ '' '' else '''')) @
        service_expr svc (zs_family (selector_text s)) @ '' '' @ verdict_of p @ '' comment '' @
          quote (''nftfw-policy:'' @ p_name p) @ NL) =
    render_rules ((\<lambda>(ms, f, v) (ds, g, w).
       if g \<noteq> '''' \<and> f \<noteq> g then []
       else [NRule ((if chain = ''input'' then ms else ms @ ds @ (if p_to p = ''any'' then [Oif vpn] else [])) @
              [service_match svc f]) (policy_stmt p) (''nftfw-policy:'' @ p_name p)]) s d)"
    if "s \<in> set (selectors (p_from p) ''source'' e)"
      and "chain \<noteq> ''input'' \<longrightarrow> d \<in> set (selectors (p_to p) ''destination'' e)" for s d vpn
  proof -
    obtain ms f v ds g w where sd: "s = (ms, f, v)" "d = (ds, g, w)" by (cases s, cases d) auto
    show ?thesis
      using that unfolding sd
      by (auto simp: render_rule_def service_text policy_stmt_text selector_expression selector_expression_nonempty)
  qed
  have no: "selector_text ([], '''', False) = no_selector"
    by (simp add: selector_text_def no_selector_def)
  define D where "D = (if chain = ''input'' \<and> p_to p = ''host'' then [([], '''', False)]
      else selectors (p_to p) ''destination'' e)"
  define vpn where "vpn = wg_interface (c_wireguard (ef_config e))"
  have D: "map selector_text D = (if chain = ''input'' \<and> p_to p = ''host'' then [no_selector]
      else zone_selectors (p_to p) ''destination'' e)"
    by (simp add: D_def no selectors_text)
  let ?T = "\<lambda>s d. if zs_family d \<noteq> '''' \<and> zs_family s \<noteq> zs_family d then ''''
      else (if chain = ''input'' then indent @ zs_expression s @ '' ''
            else indent @ zs_expression s @ '' '' @
              (if zs_expression d \<noteq> '''' then zs_expression d @ '' '' else '''') @
              (if p_to p = ''any'' then ''oifname '' @ quote vpn @ '' '' else '''')) @
        service_expr svc (zs_family s) @ '' '' @ verdict_of p @ '' comment '' @
          quote (''nftfw-policy:'' @ p_name p) @ NL"
  let ?R = "\<lambda>(ms, f, v) (ds, g, w). if g \<noteq> '''' \<and> f \<noteq> g then []
       else [NRule ((if chain = ''input'' then ms else ms @ ds @ (if p_to p = ''any'' then [Oif vpn] else [])) @
              [service_match svc f]) (policy_stmt p) (''nftfw-policy:'' @ p_name p)]"
  have "emit_policy_rules p svc e chain =
      concat (map (\<lambda>s. concat (map (?T s) (map selector_text D))) (map selector_text (selectors (p_from p) ''source'' e)))"
    using False unfolding D selectors_text [symmetric] emit_policy_rules_def Let_def vpn_def by simp
  also have "\<dots> = concat (map (\<lambda>s. concat (map (\<lambda>d. ?T (selector_text s) (selector_text d)) D)) (selectors (p_from p) ''source'' e))"
    by (simp add: comp_def)
  also have "\<dots> = concat (map (\<lambda>s. concat (map (\<lambda>d. render_rules (?R s d)) D)) (selectors (p_from p) ''source'' e))"
  proof (intro concat_map_cong)
    fix s d assume "s \<in> set (selectors (p_from p) ''source'' e)" "d \<in> set D"
    then show "?T (selector_text s) (selector_text d) = render_rules (?R s d)"
      by (intro dst) (auto simp: D_def split: if_splits)
  qed
  also have "\<dots> = render_rules (concat (map (\<lambda>s. concat (map (?R s) D)) (selectors (p_from p) ''source'' e)))"
    by (simp only: render_rules_concat)
  also have "concat (map (\<lambda>s. concat (map (?R s) D)) (selectors (p_from p) ''source'' e)) = policy_rules p svc e chain"
    unfolding policy_rules_def Let_def D_def [symmetric] vpn_def [symmetric] if_not_P [OF False]
    by (intro concat_map_cong) (auto intro!: concat_map_cong)
  finally show ?thesis .
qed

lemma policies_text: "emit_policies e chain action = render_rules (rules_of_policies e chain action)"
  by (auto simp: emit_policies_def rules_of_policies_def render_rules_concat policy_rules_text
      intro!: concat_map_cong split: option.split)

lemma quote_noted:
  "list_all plain_char comment \<Longrightarrow> noted s comment = indent @ s @ '' comment '' @ quote comment @ NL"
  by (simp add: noted_def line_def quote_plain)

lemma trusted_text: "proto = ''tcp'' \<or> proto = ''udp'' \<Longrightarrow> trusted_lines e proto = render_rules (trusted_rules e proto)"
  by (auto simp: trusted_lines_def trusted_rules_def trusted_ports_def Let_def render_rule_def line_def
      quote_def quote_char_def byte_def)

lemma nd_text: "nd_line = render_rule nd_rule"
  by (simp add: nd_line_def nd_rule_def render_rule_def line_def quote_def quote_char_def byte_def)

lemma quote_lo: "quote ''lo'' = dquote @ ''lo'' @ dquote"
  by (rule quote_plain) (simp add: plain_char_def byte_def)

lemma render_noted:
  "list_all plain_char comment \<Longrightarrow> matches_text ms @ stmt_text st = s \<Longrightarrow>
    noted s comment = render_rule (NRule ms st comment)"
  by (auto simp: quote_noted render_rule_def)

lemmas plain_eval = plain_char_def byte_def

lemma blocked_text:
  "noted ''ip saddr @blocked_v4 drop'' ''nftfw:block-v4'' = render_rule (NRule [InSet ''ip'' ''saddr'' ''blocked_v4''] Drop ''nftfw:block-v4'')"
  "noted ''ip6 saddr @blocked_v6 drop'' ''nftfw:block-v6'' = render_rule (NRule [InSet ''ip6'' ''saddr'' ''blocked_v6''] Drop ''nftfw:block-v6'')"
  "noted ''ip daddr @blocked_v4 drop'' ''nftfw:block-v4'' = render_rule (NRule [InSet ''ip'' ''daddr'' ''blocked_v4''] Drop ''nftfw:block-v4'')"
  "noted ''ip6 daddr @blocked_v6 drop'' ''nftfw:block-v6'' = render_rule (NRule [InSet ''ip6'' ''daddr'' ''blocked_v6''] Drop ''nftfw:block-v6'')"
  "noted ''ip saddr @blocked_v4 drop'' ''nftfw:block-forward-source-v4'' =
     render_rule (NRule [InSet ''ip'' ''saddr'' ''blocked_v4''] Drop ''nftfw:block-forward-source-v4'')"
  "noted ''ip daddr @blocked_v4 drop'' ''nftfw:block-forward-destination-v4'' =
     render_rule (NRule [InSet ''ip'' ''daddr'' ''blocked_v4''] Drop ''nftfw:block-forward-destination-v4'')"
  "noted ''ip6 saddr @blocked_v6 drop'' ''nftfw:block-forward-source-v6'' =
     render_rule (NRule [InSet ''ip6'' ''saddr'' ''blocked_v6''] Drop ''nftfw:block-forward-source-v6'')"
  "noted ''ip6 daddr @blocked_v6 drop'' ''nftfw:block-forward-destination-v6'' =
     render_rule (NRule [InSet ''ip6'' ''daddr'' ''blocked_v6''] Drop ''nftfw:block-forward-destination-v6'')"
  by (rule render_noted; simp add: plain_eval)+

lemma fixed_text:
  "noted ''ct state invalid drop'' ''nftfw:invalid'' = render_rule invalid_rule"
  "noted (''iifname '' @ dquote @ ''lo'' @ dquote @ '' accept'') ''nftfw:loopback'' = render_rule (NRule [Iif ''lo''] Accept ''nftfw:loopback'')"
  "noted (''oifname '' @ dquote @ ''lo'' @ dquote @ '' accept'') ''nftfw:loopback'' = render_rule (NRule [Oif ''lo''] Accept ''nftfw:loopback'')"
  "noted ''counter drop'' ''nftfw:input-default-deny'' = render_rule (NRule [] CountDrop ''nftfw:input-default-deny'')"
  "noted ''counter drop'' ''nftfw:output-default-deny'' = render_rule (NRule [] CountDrop ''nftfw:output-default-deny'')"
  "noted ''counter drop'' ''nftfw:forward-default-deny'' = render_rule (NRule [] CountDrop ''nftfw:forward-default-deny'')"
  unfolding invalid_rule_def by (rule render_noted; simp add: plain_eval quote_lo)+

lemma uplink_text:
  "noted (''oifname '' @ quote u @ '' udp sport 546 udp dport 547 accept'') ''nftfw:dhcpv6-bootstrap'' =
     render_rule (NRule [Oif u, UdpPair 546 547] Accept ''nftfw:dhcpv6-bootstrap'')"
  "noted (''oifname '' @ quote u @ '' udp sport 68 udp dport 67 accept'') ''nftfw:dhcp-bootstrap'' =
     render_rule (NRule [Oif u, UdpPair 68 67] Accept ''nftfw:dhcp-bootstrap'')"
  "noted (''oifname '' @ quote u @ '' meta mark '' @ mk @ '' ip daddr @wg_bootstrap_v4 udp dport '' @ itoa_int d @ '' accept'')
     ''nftfw:wg-bootstrap-v4'' = render_rule (NRule [Oif u, MetaMark mk, InSet ''ip'' ''daddr'' ''wg_bootstrap_v4'', UdpDport d]
            Accept ''nftfw:wg-bootstrap-v4'')"
  "noted (''oifname '' @ quote u @ '' meta mark '' @ mk @ '' ip6 daddr @wg_bootstrap_v6 udp dport '' @ itoa_int d @ '' accept'')
     ''nftfw:wg-bootstrap-v6'' = render_rule (NRule [Oif u, MetaMark mk, InSet ''ip6'' ''daddr'' ''wg_bootstrap_v6'', UdpDport d]
            Accept ''nftfw:wg-bootstrap-v6'')"
  "noted (''oifname '' @ quote u @ '' counter'') ''nftfw:vpn-only-egress'' = render_rule (NRule [Oif u] Count ''nftfw:vpn-only-egress'')"
  "noted (''oifname '' @ quote u @ '' drop'') ''nftfw:forward-physical-deny'' = render_rule (NRule [Oif u] Drop ''nftfw:forward-physical-deny'')"
  by (rule render_noted; simp add: plain_eval itoa_int_def itoa.simps digit_char_def)+

lemma if_text: "(if b then render_rules xs else '''') = render_rules (if b then xs else [])"
  by simp

lemma input_chain_text: "emit_input_chain inp = render_chain ''input'' (input_rules inp)"
  unfolding emit_input_chain_def Let_def fixed_text blocked_text nd_text emit_provenance_tags_def
    emit_input_replies_def policies_text
  by (simp add: render_chain_def input_rules_def input_head_def Let_def trusted_text
      render_rules_map render_rules_concat tag_text reply_text line_def)

lemma output_chain_text: "emit_output_chain inp = render_chain ''output'' (output_rules inp)"
  unfolding emit_output_chain_def Let_def quote_role_def fixed_text blocked_text nd_text uplink_text
    emit_output_provenance_tags_def emit_provenance_replies_def emit_container_path_errors_def policies_text
  by (simp add: render_chain_def output_rules_def output_head_def Let_def
      render_rules_map render_rules_concat tag_text reply_text path_error_text line_def)

lemma forward_chain_text: "emit_forward_chain inp = render_chain ''forward'' (forward_rules inp)"
  unfolding emit_forward_chain_def Let_def quote_role_def fixed_text blocked_text uplink_text
    emit_provenance_tags_def emit_provenance_replies_def emit_container_forward_guards_def
    emit_container_vpn_markers_def policies_text
  by (simp add: render_chain_def forward_rules_def forward_head_def Let_def guard_text marker_text
      render_rules_map render_rules_concat tag_text reply_text line_def)

section \<open>The IPv6 table and the whole script\<close>

definition render_chain6 :: "string \<times> nrule list \<Rightarrow> string" where
  "render_chain6 ch = line (''    chain '' @ fst ch @ '' { type filter hook '' @ fst ch @ '' priority -300; policy drop;'') @
     render_rules (snd ch) @ line ''    }''"

text \<open>The base chains of the IPv6 table when IPv6 is disabled; otherwise the table has none.\<close>

definition ipv6_chains :: "compile_input \<Rightarrow> (string \<times> nrule list) list" where
  "ipv6_chains inp =
     (if sys_ipv6_mode (c_system (ef_config (ci_policy inp))) \<noteq> ''disabled'' then []
      else [(''input'', [NRule [Iif ''lo''] Accept ''nftfw:ipv6-mode-disabled'']),
            (''output'', [NRule [Oif ''lo''] Accept ''nftfw:ipv6-loopback'']),
            (''forward'', [NRule [CtInvalid] Drop ''nftfw:ipv6-invalid''])])"

lemma ipv6_fixed_text:
  "noted (''iifname '' @ dquote @ ''lo'' @ dquote @ '' accept'') ''nftfw:ipv6-mode-disabled'' =
     render_rule (NRule [Iif ''lo''] Accept ''nftfw:ipv6-mode-disabled'')"
  "noted (''oifname '' @ dquote @ ''lo'' @ dquote @ '' accept'') ''nftfw:ipv6-loopback'' =
     render_rule (NRule [Oif ''lo''] Accept ''nftfw:ipv6-loopback'')"
  "noted ''ct state invalid drop'' ''nftfw:ipv6-invalid'' = render_rule (NRule [CtInvalid] Drop ''nftfw:ipv6-invalid'')"
  by (rule render_noted; simp add: plain_eval quote_lo)+

lemma ipv6_text: "emit_ipv6 inp = line ''table ip6 nftfw_filter6 {'' @
    (if sys_ipv6_mode (c_system (ef_config (ci_policy inp))) \<noteq> ''disabled'' then
       line (''    chain mode_marker { comment '' @ quote (''nftfw:ipv6-mode-'' @
         sys_ipv6_mode (c_system (ef_config (ci_policy inp)))) @ ''; }'') else '''') @
    concat (map render_chain6 (ipv6_chains inp)) @ line ''}''"
  unfolding emit_ipv6_def Let_def ipv6_fixed_text
  by (simp add: ipv6_chains_def render_chain6_def line_def)

definition set_texts :: "compile_input \<Rightarrow> string" where
  "set_texts inp = concat (map (\<lambda>(n, t, es, timeout). emit_set n t es timeout)
     [(''blocked_v4'', ''ipv4_addr'', ci_blocked4 inp, False), (''blocked_v6'', ''ipv6_addr'', ci_blocked6 inp, False),
      (''trusted_v4'', ''ipv4_addr'', [], True), (''trusted_v6'', ''ipv6_addr'', [], True),
      (''wg_bootstrap_v4'', ''ipv4_addr'', ci_bootstrap4 inp, False),
      (''wg_bootstrap_v6'', ''ipv6_addr'', ci_bootstrap6 inp, False),
      (''docker_nets'', ''ipv4_addr'', ci_docker4 inp, False), (''docker_nets6'', ''ipv6_addr'', ci_docker6 inp, False)])"

lemma filter_text: "emit_filter inp = line ''table inet nftfw_filter {'' @ set_texts inp @
    render_chain ''input'' (input_rules inp) @ render_chain ''output'' (output_rules inp) @
    render_chain ''forward'' (forward_rules inp) @ line ''}''"
  by (simp add: emit_filter_def set_texts_def input_chain_text output_chain_text forward_chain_text)

lemma compile_Ok: "compile goSyntax sha inp g = Inr art \<longleftrightarrow>
    validate (ef_config (ci_policy inp)) = None \<and> runtime_prefixes inp = None \<and>
    validate_nat_targets (c_nat (ef_config (ci_policy inp))) (ci_docker4 inp) = None \<and>
    validate_container_topology (ef_config (ci_policy inp)) (ci_docker4 inp) (ci_docker6 inp) = None \<and>
    art = \<lparr>ar_generation = g, ar_script = script_of goSyntax sha inp g, ar_checksum = sha (script_of goSyntax sha inp g),
       ar_provenance = map iface_assignment (sorted_interfaces (c_interfaces (ef_config (ci_policy inp))))\<rparr>"
  by (auto simp: compile_def Let_def split: option.splits)

lemma emit_set_mset:
  assumes "mset xs = mset ys"
  shows "emit_set n t xs b = emit_set n t ys b"
proof -
  have "sort xs = sort ys" using assms by (metis sorted_list_of_multiset_mset)
  moreover have "xs = [] \<longleftrightarrow> ys = []" using assms by (metis mset_zero_iff)
  ultimately show ?thesis by (simp add: emit_set_def)
qed

end
