(* ===== verification/Enforcement.thy ===== *)
theory Enforcement
  imports Ruleset
begin

text \<open>
  What the generated chains do to packets. The nftables virtual machine is not part of the repository: a
  packet is a value of any type, \<open>m\<close> decides a match, \<open>act\<close> is the effect of a non-terminal statement, and
  the locale \<open>nft_kernel\<close> states the documented behaviour the policy relies on. A chain is run rule by rule
  under the default verdict \<^verbatim>\<open>drop\<close>. The theorems say which packets the chains of the compiler accept.
\<close>

section \<open>Running a chain\<close>

fun run_chain :: "(nmatch \<Rightarrow> 'p \<Rightarrow> bool) \<Rightarrow> (nstmt \<Rightarrow> 'p \<Rightarrow> 'p) \<Rightarrow> nrule list \<Rightarrow> 'p \<Rightarrow> bool \<times> 'p" where
  "run_chain m act [] p = (False, p)"
| "run_chain m act (NRule ms s c # rs) p =
     (if list_all (\<lambda>x. m x p) ms then
        (case s of Accept \<Rightarrow> (True, p) | Drop \<Rightarrow> (False, p) | CountDrop \<Rightarrow> (False, p)
         | _ \<Rightarrow> run_chain m act rs (act s p))
      else run_chain m act rs p)"

definition accepts :: "(nmatch \<Rightarrow> 'p \<Rightarrow> bool) \<Rightarrow> (nstmt \<Rightarrow> 'p \<Rightarrow> 'p) \<Rightarrow> nrule list \<Rightarrow> 'p \<Rightarrow> bool" where
  "accepts m act rs p = fst (run_chain m act rs p)"

fun is_static :: "nmatch \<Rightarrow> bool" where
  "is_static (CtMark k v) = False"
| "is_static _ = True"

fun terminal :: "nstmt \<Rightarrow> bool" where
  "terminal Accept = True" | "terminal Drop = True" | "terminal CountDrop = True" | "terminal _ = False"

text \<open>
  What the kernel documents: a packet leaves through one interface and enters through one, belongs to one
  address family, and the statements of the program change at most the mark of the connection and the segment
  size, so that every match that does not look at the mark keeps its value.
\<close>

locale nft_kernel =
  fixes m :: "nmatch \<Rightarrow> 'p \<Rightarrow> bool"
    and act :: "nstmt \<Rightarrow> 'p \<Rightarrow> 'p"
  assumes one_oif: "m (Oif a) p \<Longrightarrow> m (Oif b) p \<Longrightarrow> a = b"
    and one_iif: "m (Iif a) p \<Longrightarrow> m (Iif b) p \<Longrightarrow> a = b"
    and one_family: "\<not> (m (NfProto ''ipv4'') p \<and> m (NfProto ''ipv6'') p)"
    and static: "is_static x \<Longrightarrow> m x (act s p) = m x p"
begin

lemma accepted_by:
  "accepts m act rs p \<Longrightarrow>
    \<exists>pre r post. rs = pre @ r # post \<and> r_stmt r = Accept \<and>
      (\<forall>x \<in> set (r_matches r). is_static x \<longrightarrow> m x p) \<and>
      (\<forall>q \<in> set pre. terminal (r_stmt q) \<longrightarrow> list_all is_static (r_matches q) \<longrightarrow>
         (\<exists>x \<in> set (r_matches q). \<not> m x p))"
proof (induction rs arbitrary: p)
  case (Cons q rs)
  obtain ms s c where q: "q = NRule ms s c" by (cases q)
  show ?case
  proof (cases "list_all (\<lambda>x. m x p) ms")
    case False
    then have "accepts m act rs p" using Cons.prems by (simp add: q accepts_def)
    from Cons.IH [OF this] obtain pre r post where r: "rs = pre @ r # post" "r_stmt r = Accept"
      "\<forall>x \<in> set (r_matches r). is_static x \<longrightarrow> m x p"
      "\<forall>q \<in> set pre. terminal (r_stmt q) \<longrightarrow> list_all is_static (r_matches q) \<longrightarrow> (\<exists>x \<in> set (r_matches q). \<not> m x p)"
      by blast
    moreover have "\<exists>x \<in> set (r_matches q). \<not> m x p" using False by (auto simp: q list_all_iff)
    ultimately show ?thesis by (intro exI [of _ "q # pre"] exI [of _ r] exI [of _ post]) auto
  next
    case True
    show ?thesis
    proof (cases "s = Accept")
      case a: True
      show ?thesis using True a
        by (intro exI [of _ "[]"] exI [of _ q] exI [of _ rs]) (auto simp: q list_all_iff)
    next
      case False
      with True Cons.prems have s: "\<not> terminal s" and acc: "accepts m act rs (act s p)"
        by (cases s; simp add: q accepts_def)+
      from Cons.IH [OF acc] obtain pre r post where r: "rs = pre @ r # post" "r_stmt r = Accept"
        "\<forall>x \<in> set (r_matches r). is_static x \<longrightarrow> m x (act s p)"
        "\<forall>q \<in> set pre. terminal (r_stmt q) \<longrightarrow> list_all is_static (r_matches q) \<longrightarrow>
           (\<exists>x \<in> set (r_matches q). \<not> m x (act s p))"
        by blast
      have "\<exists>x \<in> set (r_matches q'). \<not> m x p"
        if "q' \<in> set pre" "terminal (r_stmt q')" "list_all is_static (r_matches q')" for q'
        using r(4) that static by (metis list_all_iff)
      then show ?thesis using r s static
        by (intro exI [of _ "q # pre"] exI [of _ r] exI [of _ post]) (auto simp: q)
    qed
  qed
qed (simp add: accepts_def)

lemma accept_rule:
  assumes "accepts m act rs p"
  obtains r where "r \<in> set rs" "r_stmt r = Accept" "\<And>x. x \<in> set (r_matches r) \<Longrightarrow> is_static x \<Longrightarrow> m x p"
  using accepted_by [OF assms] by fastforce

text \<open>A packet that a drop rule matches is accepted only by a rule in front of it.\<close>

lemma accept_rule_before:
  assumes "accepts m act (as @ NRule ms s c # bs) p"
    and s: "s = Drop \<or> s = CountDrop" and ms: "list_all is_static ms" "list_all (\<lambda>x. m x p) ms"
  obtains r where "r \<in> set as" "r_stmt r = Accept" "\<And>x. x \<in> set (r_matches r) \<Longrightarrow> is_static x \<Longrightarrow> m x p"
proof -
  from accepted_by [OF assms(1)] obtain pre r post where
    eq: "as @ NRule ms s c # bs = pre @ r # post" and r: "r_stmt r = Accept"
      "\<forall>x \<in> set (r_matches r). is_static x \<longrightarrow> m x p"
    and pre: "\<forall>q \<in> set pre. terminal (r_stmt q) \<longrightarrow> list_all is_static (r_matches q) \<longrightarrow>
         (\<exists>x \<in> set (r_matches q). \<not> m x p)" by blast
  have "NRule ms s c \<notin> set pre"
  proof
    assume "NRule ms s c \<in> set pre"
    with pre s ms have "\<exists>x \<in> set ms. \<not> m x p" by fastforce
    with ms(2) show False by (auto simp: list_all_iff)
  qed
  moreover have "NRule ms s c \<noteq> r" using r(1) s by auto
  ultimately have "r \<in> set as" using eq by (auto simp: append_eq_append_conv2 append_eq_Cons_conv Cons_eq_append_conv)
  with r that show ?thesis by blast
qed

end

section \<open>Where a rule of a policy comes from\<close>

lemma set_unique_neighbours [simp]: "set (unique_neighbours xs) = set xs"
  by (induction xs rule: unique_neighbours.induct) auto

lemma set_unique_strings [simp]: "set (unique_strings xs) = set xs"
  by (simp add: unique_strings_def)

lemma effective_sel [simp]: "ef_config (effective_of c) = c"
  by (simp add: effective_of_def)

lemma effective_zone: "ef_zones (effective_of c) n = Some z \<Longrightarrow> z \<in> set (c_zones c) \<and> z_name z = n"
  by (auto simp: effective_of_def dest: map_of_SomeD)

lemma policies_rule:
  assumes "r \<in> set (rules_of_policies e chain action)"
  obtains p svc where "p \<in> set (c_policies (ef_config e))" "p_action p = action" "policy_applies_to_chain p chain"
    "r \<in> set (policy_rules p svc e chain)" "ef_svcs e (p_service p) = Some svc"
  using assms by (auto simp: rules_of_policies_def split: if_splits option.splits)

lemma output_policy_rule:
  assumes "r \<in> set (policy_rules p svc e ''output'')"
  obtains ms f v where "(ms, f, v) \<in> set (selectors (p_to p) ''destination'' e)" "r_stmt r = policy_stmt p"
    "set ms \<subseteq> set (r_matches r)" "p_to p = ''any'' \<or> v \<Longrightarrow> Oif (wg_interface (c_wireguard (ef_config e))) \<in> set (r_matches r)"
proof -
  from assms obtain ms f v where r: "(ms, f, v) \<in> set (selectors (p_to p) ''destination'' e)"
    "r = NRule ((ms @ (if p_to p = ''any'' \<or> v then [Oif (wg_interface (c_wireguard (ef_config e)))] else [])) @
       [service_match svc f]) (policy_stmt p) (''nftfw-policy:'' @ p_name p)"
    by (auto simp: policy_rules_def Let_def)
  show ?thesis by (rule that [OF r(1)]) (auto simp: r(2))
qed

lemma destination_selector:
  assumes "(ms, f, v) \<in> set (selectors name ''destination'' e)" "name \<noteq> ''any''"
  obtains (oif) z n where "ef_zones e name = Some z" "Oif n \<in> set ms"
      "n \<in> set (z_interfaces z) \<or> n \<in> if_name ` {i \<in> set (c_interfaces (ef_config e)). if_zone i = name}"
  | (net) z n where "ef_zones e name = Some z" "n \<in> set (z_networks z)" "InNet (family_expr n) ''daddr'' n \<in> set ms"
      "v = destination_requires_vpn n"
proof -
  have "ef_zones e name \<noteq> None"
  proof
    assume "ef_zones e name = None"
    with assms show False by (simp add: selectors_def Let_def split: if_splits)
  qed
  then obtain z where z: "ef_zones e name = Some z" by blast
  with assms have "(\<exists>n. Oif n \<in> set ms \<and> (n \<in> set (z_interfaces z) \<or>
        n \<in> if_name ` {i \<in> set (c_interfaces (ef_config e)). if_zone i = name})) \<or>
    (\<exists>n \<in> set (z_networks z). InNet (family_expr n) ''daddr'' n \<in> set ms \<and> v = destination_requires_vpn n)"
    by (auto simp: selectors_def Let_def split: if_splits)
  with z oif net show ?thesis by blast
qed

lemma service_match_static [simp]: "is_static (service_match s f)"
  by (simp add: service_match_def)

lemma selector_static: "(ms, f, v) \<in> set (selectors name direction e) \<Longrightarrow> x \<in> set ms \<Longrightarrow> is_static x"
  by (auto simp: selectors_def Let_def split: if_splits option.splits)

lemma policy_rules_static: "r \<in> set (policy_rules p svc e chain) \<Longrightarrow> x \<in> set (r_matches r) \<Longrightarrow> is_static x"
  by (auto simp: policy_rules_def Let_def split: if_splits dest!: selector_static)

lemma policy_rules_stmt: "r \<in> set (policy_rules p svc e chain) \<Longrightarrow> r_stmt r = policy_stmt p"
  by (auto simp: policy_rules_def Let_def split: if_splits)

lemma no_accept_deny: "r \<in> set (rules_of_policies e chain ''deny'') \<Longrightarrow> r_stmt r \<noteq> Accept"
  by (erule policies_rule) (auto dest!: policy_rules_stmt simp: policy_stmt_def)

lemma no_accept_tag [simp]: "r_stmt (tag_rule d ch i) \<noteq> Accept"
  by (simp add: tag_rule_def)

lemma no_accept_guard: "r \<in> set (guard_rules c b) \<Longrightarrow> r_stmt r \<noteq> Accept"
  by (auto simp: guard_rules_def Let_def)

lemma no_accept_marker [simp]: "r_stmt (marker_rule c b) \<noteq> Accept"
  by (simp add: marker_rule_def)

section \<open>The uplink of an accepted configuration\<close>

lemma find_unique: "u \<in> set xs \<Longrightarrow> P u \<Longrightarrow> (\<And>x. x \<in> set xs \<Longrightarrow> P x \<Longrightarrow> x = u) \<Longrightarrow> find P xs = Some u"
proof (induction xs)
  case (Cons x xs)
  show ?case
  proof (cases "P x")
    case True
    with Cons.prems(3) [of x] show ?thesis by simp
  next
    case False
    with Cons.prems(1,2) have "u \<in> set xs" by auto
    from Cons.IH [OF this Cons.prems(2)] Cons.prems(3) False show ?thesis by simp
  qed
qed simp

lemma role_name_uplink: "validate c = None \<Longrightarrow> role_name (c_interfaces c) ''uplink'' = uplink_name c"
proof -
  assume v: "validate c = None"
  obtain u where u: "u \<in> set (c_interfaces c)" "if_role u = ''uplink''" "uplink_name c = if_name u"
    "\<And>i. i \<in> set (c_interfaces c) \<Longrightarrow> if_role i = ''uplink'' \<Longrightarrow> i = u"
    by (rule valid_uplink [OF v], rule that)
  have "find (\<lambda>i. if_role i = ''uplink'') (c_interfaces c) = Some u"
    by (rule find_unique) (use u(1,2,4) in blast)+
  then show ?thesis by (simp add: role_name_def u(3))
qed


lemma host_destination_not_uplink:
  assumes v: "validate c = None" and p: "p \<in> set (c_policies c)" "p_from p = ''host'' \<or> p_from p = ''any''"
    "p_to p \<noteq> ''host''" "p_to p \<noteq> ''any''" "ef_zones (effective_of c) (p_to p) = Some z"
    and n: "n \<in> set (z_interfaces z) \<or> n \<in> if_name ` {i \<in> set (c_interfaces c). if_zone i = p_to p}"
  shows "n \<noteq> uplink_name c"
proof
  assume "n = uplink_name c"
  obtain u where u: "u \<in> set (c_interfaces c)" "if_role u = ''uplink''" "uplink_name c = if_name u"
    by (rule valid_uplink [OF v])
  have named: "iface_named c n = Some u" using u \<open>n = uplink_name c\<close> valid_iface_named [OF v] by auto
  have z: "zone_named c (p_to p) = Some z"
    using effective_zone [OF p(5)] find_key [OF valid_zone_names [OF v]] by (simp add: zone_named_def)
  have "zone_uses_uplink c (p_to p)"
    using n
  proof
    assume "n \<in> set (z_interfaces z)"
    then show ?thesis using named u z by (auto simp: zone_uses_uplink_def list_ex_iff intro!: bexI [of _ n])
  next
    assume "n \<in> if_name ` {i \<in> set (c_interfaces c). if_zone i = p_to p}"
    then obtain i where "i \<in> set (c_interfaces c)" "if_zone i = p_to p" "if_name i = n" by auto
    then have "iface_named c n = Some i" using valid_iface_named [OF v] by blast
    then have "i = u" using named by simp
    then show ?thesis using u \<open>if_zone i = p_to p\<close> by (auto simp: zone_uses_uplink_def list_ex_iff)
  qed
  moreover obtain st st' where "policy_step c st p = Inr st'" using valid_policies(3) [OF v p(1)] by blast
  ultimately show False using policy_step_Ok p by blast
qed

section \<open>Why a packet may be accepted before any block or policy rule\<close>

text \<open>Why a packet may be accepted on its way out before any policy is looked at.\<close>

definition early_output :: "(nmatch \<Rightarrow> 'p \<Rightarrow> bool) \<Rightarrow> config \<Rightarrow> 'p \<Rightarrow> bool" where
  "early_output m c p \<longleftrightarrow>
     m (Oif ''lo'') p \<or>
     (m CtReply p \<and> m CtEstablished p \<and> (\<exists>i \<in> set (c_interfaces c). m (Oif (if_name i)) p)) \<or>
     (\<exists>b \<in> set (container_bindings c). m (Oif (cb_interface b)) p \<and> (m (IcmpPathErrors ''ip'') p \<or> m (IcmpPathErrors ''ip6'') p)) \<or>
     (sys_ipv6_mode (c_system c) \<noteq> ''disabled'' \<and>
        (m NdExchange p \<or> (m (Oif (uplink_name c)) p \<and> m (UdpPair 546 547) p))) \<or>
     (m (Oif (uplink_name c)) p \<and> m (UdpPair 68 67) p) \<or>
     (m (Oif (uplink_name c)) p \<and> m (MetaMark (wg_fwmark (c_wireguard c))) p \<and>
        m (UdpDport (wg_endpoint_port (c_wireguard c))) p \<and>
        (m (InSet ''ip'' ''daddr'' ''wg_bootstrap_v4'') p \<or> m (InSet ''ip6'' ''daddr'' ''wg_bootstrap_v6'') p))"

definition early_input :: "(nmatch \<Rightarrow> 'p \<Rightarrow> bool) \<Rightarrow> config \<Rightarrow> 'p \<Rightarrow> bool" where
  "early_input m c p \<longleftrightarrow>
     m (Iif ''lo'') p \<or> (sys_ipv6_mode (c_system c) \<noteq> ''disabled'' \<and> m NdExchange p) \<or>
     (\<exists>proto \<in> {''tcp'', ''udp''}. trusted_port_list (effective_of c) proto \<noteq> [] \<and>
        m (Dports proto (trusted_port_list (effective_of c) proto)) p \<and>
        (m (InSet ''ip'' ''saddr'' ''trusted_v4'') p \<or> m (InSet ''ip6'' ''saddr'' ''trusted_v6'') p))"

definition reply_in :: "(nmatch \<Rightarrow> 'p \<Rightarrow> bool) \<Rightarrow> config \<Rightarrow> 'p \<Rightarrow> bool" where
  "reply_in m c p \<longleftrightarrow> m CtReply p \<and> m CtEstablished p \<and> (\<exists>i \<in> set (c_interfaces c). m (Iif (if_name i)) p)"

definition reply_out :: "(nmatch \<Rightarrow> 'p \<Rightarrow> bool) \<Rightarrow> config \<Rightarrow> 'p \<Rightarrow> bool" where
  "reply_out m c p \<longleftrightarrow> m CtReply p \<and> m CtEstablished p \<and> (\<exists>i \<in> set (c_interfaces c). m (Oif (if_name i)) p)"

text \<open>A rule of one of the policies with the action applies to the packet.\<close>

definition policy_fits :: "(nmatch \<Rightarrow> 'p \<Rightarrow> bool) \<Rightarrow> config \<Rightarrow> string \<Rightarrow> string \<Rightarrow> 'p \<Rightarrow> bool" where
  "policy_fits m c chain action p \<longleftrightarrow>
     (\<exists>r \<in> set (rules_of_policies (effective_of c) chain action). \<forall>x \<in> set (r_matches r). m x p)"

definition blocked_source :: "(nmatch \<Rightarrow> 'p \<Rightarrow> bool) \<Rightarrow> 'p \<Rightarrow> bool" where
  "blocked_source m p \<longleftrightarrow> m (InSet ''ip'' ''saddr'' ''blocked_v4'') p \<or> m (InSet ''ip6'' ''saddr'' ''blocked_v6'') p"

definition blocked_destination :: "(nmatch \<Rightarrow> 'p \<Rightarrow> bool) \<Rightarrow> 'p \<Rightarrow> bool" where
  "blocked_destination m p \<longleftrightarrow> m (InSet ''ip'' ''daddr'' ''blocked_v4'') p \<or> m (InSet ''ip6'' ''daddr'' ''blocked_v6'') p"

lemma set_sorted_interfaces [simp]: "set (sorted_interfaces is) = set is"
  by (simp add: sorted_interfaces_def)

lemma policies_rule_static: "r \<in> set (rules_of_policies e chain action) \<Longrightarrow> list_all is_static (r_matches r)"
  by (elim policies_rule) (auto simp: list_all_iff dest: policy_rules_static)

lemma deny_rule_drops: "r \<in> set (rules_of_policies e chain ''deny'') \<Longrightarrow> r_stmt r = Drop"
  by (elim policies_rule) (auto dest!: policy_rules_stmt simp: policy_stmt_def)

context nft_kernel begin

abbreviation fits :: "nrule \<Rightarrow> 'p \<Rightarrow> bool" where
  "fits r p \<equiv> \<forall>x \<in> set (r_matches r). is_static x \<longrightarrow> m x p"

lemma fits_policy: "r \<in> set (rules_of_policies (effective_of c) chain action) \<Longrightarrow> fits r p \<Longrightarrow> policy_fits m c chain action p"
  using policies_rule_static by (fastforce simp: policy_fits_def list_all_iff)

lemma fits_reply: "fits (reply_rule Oif f i) p \<Longrightarrow> m CtReply p \<and> m CtEstablished p \<and> m (Oif (if_name i)) p"
  and fits_input_reply: "fits (reply_rule Iif f i) p \<Longrightarrow> m CtReply p \<and> m CtEstablished p \<and> m (Iif (if_name i)) p"
  by (simp_all add: reply_rule_def)

lemma fits_path_error: "fits (path_error_rule b) p \<Longrightarrow>
    m (Oif (cb_interface b)) p \<and> (m (IcmpPathErrors ''ip'') p \<or> m (IcmpPathErrors ''ip6'') p)"
  by (simp add: path_error_rule_def split: if_splits)

lemma output_head_accept:
  assumes v: "validate c = None" and inp: "ci_policy inp = effective_of c"
    and r: "r \<in> set (output_head inp)" "r_stmt r = Accept" and fit: "fits r p"
  shows "early_output m c p"
proof -
  have no: "r \<notin> tag_rule Oif ''output'' ` set js" for js using r(2) by auto
  show ?thesis
    using r(1) unfolding output_head_def Let_def set_append set_map list.set set_sorted_interfaces inp effective_sel
      role_name_uplink [OF v] Un_iff insert_iff empty_iff
  proof (elim disjE, goal_cases)
    case 6
    then show ?case using fit fits_reply unfolding early_output_def by blast
  next
    case 7
    then show ?case using fit fits_path_error unfolding early_output_def by blast
  next
    case 11
    then have "\<exists>fam st. (fam, st) \<in> {(''ip'', ''wg_bootstrap_v4''), (''ip6'', ''wg_bootstrap_v6'')} \<and>
        r_matches r = [Oif (uplink_name c), MetaMark (wg_fwmark (c_wireguard c)), InSet fam ''daddr'' st,
          UdpDport (wg_endpoint_port (c_wireguard c))]" by (auto split: if_splits)
    with fit show ?case unfolding early_output_def by fastforce
  qed (use fit r(2) no in \<open>auto simp: early_output_def nd_rule_def invalid_rule_def split: if_splits\<close>)
qed

lemma input_head_accept:
  assumes inp: "ci_policy inp = effective_of c"
    and r: "r \<in> set (input_head inp)" "r_stmt r = Accept" and fit: "fits r p"
  shows "early_input m c p"
proof -
  have no: "r \<notin> tag_rule Iif ''input'' ` set js" for js using r(2) by auto
  show ?thesis
    using r(1) unfolding input_head_def Let_def set_append set_map list.set set_sorted_interfaces inp effective_sel
      Un_iff insert_iff empty_iff
    by (elim disjE) (use fit r(2) no in \<open>auto simp: early_input_def nd_rule_def invalid_rule_def trusted_rules_def Let_def split: if_splits\<close>)
qed

lemma forward_head_accept:
  assumes inp: "ci_policy inp = effective_of c"
    and r: "r \<in> set (forward_head inp)" "r_stmt r = Accept" and fit: "fits r p"
  shows "reply_out m c p"
proof -
  have no: "r \<notin> tag_rule Iif ''forward'' ` set js" for js using r(2) by auto
  from r(1) have "r \<in> reply_rule Oif (\<lambda>i. ''nftfw:provenance-reply-'' @ ''forward'' @ '':'' @ if_name i) ` set (c_interfaces c)"
    unfolding forward_head_def Let_def set_append set_map list.set set_sorted_interfaces inp effective_sel
      Un_iff insert_iff empty_iff using no r(2) by (auto simp: invalid_rule_def)
  then show ?thesis using fit fits_reply unfolding reply_out_def by blast
qed

lemma output_accept:
  assumes v: "validate c = None" and inp: "ci_policy inp = effective_of c" and acc: "accepts m act (output_rules inp) p"
  shows "early_output m c p \<or> (\<exists>r \<in> set (rules_of_policies (effective_of c) ''output'' ''allow''). fits r p)"
proof -
  obtain r where r: "r \<in> set (output_rules inp)" "r_stmt r = Accept" and fit: "fits r p"
    using accept_rule [OF acc] by metis
  have "r \<in> set (output_head inp) \<or> r \<in> set (rules_of_policies (effective_of c) ''output'' ''allow'')"
    using r no_accept_deny unfolding output_rules_def Let_def set_append list.set inp by auto
  with output_head_accept [OF v inp _ r(2) fit] fit show ?thesis by blast
qed

lemma input_accept:
  assumes inp: "ci_policy inp = effective_of c" and acc: "accepts m act (input_rules inp) p"
  shows "early_input m c p \<or> reply_in m c p \<or> policy_fits m c ''input'' ''allow'' p"
proof -
  obtain r where r: "r \<in> set (input_rules inp)" "r_stmt r = Accept" and fit: "fits r p"
    using accept_rule [OF acc] by metis
  have "r \<in> set (input_head inp) \<or> r \<in> reply_rule Iif (\<lambda>i. ''nftfw:input-reply-only'') ` set (c_interfaces c) \<or>
      r \<in> set (rules_of_policies (effective_of c) ''input'' ''allow'')"
    using r no_accept_deny unfolding input_rules_def Let_def set_append list.set set_map set_sorted_interfaces inp effective_sel
    by auto
  with input_head_accept [OF inp _ r(2) fit] fit fits_policy fits_input_reply show ?thesis
    unfolding reply_in_def by blast
qed

lemma forward_accept:
  assumes inp: "ci_policy inp = effective_of c" and acc: "accepts m act (forward_rules inp) p"
  shows "reply_out m c p \<or> policy_fits m c ''forward'' ''allow'' p"
proof -
  obtain r where r: "r \<in> set (forward_rules inp)" "r_stmt r = Accept" and fit: "fits r p"
    using accept_rule [OF acc] by metis
  have "r \<in> set (forward_head inp) \<or> r \<in> set (rules_of_policies (effective_of c) ''forward'' ''allow'')"
    using r no_accept_deny no_accept_guard unfolding forward_rules_def Let_def set_append list.set set_map inp effective_sel
    by auto
  with forward_head_accept [OF inp _ r(2) fit] fit fits_policy show ?thesis by blast
qed

lemma output_policy_cases:
  assumes v: "validate c = None" and "r \<in> set (rules_of_policies (effective_of c) ''output'' ''allow'')" and fit: "fits r p"
    and up: "m (Oif (uplink_name c)) p"
  obtains q z n where "q \<in> set (c_policies c)" "p_action q = ''allow''" "p_from q = ''host'' \<or> p_from q = ''any''"
    "z \<in> set (c_zones c)" "z_name z = p_to q" "n \<in> set (z_networks z)" "\<not> destination_requires_vpn n"
    "m (InNet (family_expr n) ''daddr'' n) p"
proof -
  from assms(2) obtain q svc where q: "q \<in> set (c_policies c)" "p_action q = ''allow''"
    "policy_applies_to_chain q ''output''" "r \<in> set (policy_rules q svc (effective_of c) ''output'')"
    by (elim policies_rule) simp
  obtain ms f vp where ms: "(ms, f, vp) \<in> set (selectors (p_to q) ''destination'' (effective_of c))"
    "set ms \<subseteq> set (r_matches r)"
    "p_to q = ''any'' \<or> vp \<Longrightarrow> Oif (wg_interface (c_wireguard c)) \<in> set (r_matches r)"
    using output_policy_rule [OF q(4)] by (metis effective_sel)
  have "Oif n \<in> set (r_matches r) \<Longrightarrow> n = uplink_name c" for n
    using fit one_oif [of n p "uplink_name c"] up by auto
  then have noif: "n = uplink_name c" if "Oif n \<in> set ms" for n using ms(2) that by blast
  have novpn: "\<not> (p_to q = ''any'' \<or> vp)"
    using ms(3) valid_wireguard(1) [OF v] \<open>\<And>n. Oif n \<in> set (r_matches r) \<Longrightarrow> n = uplink_name c\<close> by blast
  have src: "p_from q = ''host'' \<or> p_from q = ''any''" "p_to q \<noteq> ''host''"
    using q(3) by (auto simp: policy_applies_to_chain_def)
  have any: "p_to q \<noteq> ''any''" using novpn by blast
  show ?thesis
    using ms(1) any
  proof (cases rule: destination_selector)
    case (oif z n)
    with host_destination_not_uplink [OF v q(1) src any oif(1), of n] noif have False by simp
    then show ?thesis ..
  next
    case (net z n)
    then have "m (InNet (family_expr n) ''daddr'' n) p" using ms(2) fit by auto
    with net novpn q src effective_zone [OF net(1)] that show ?thesis by blast
  qed
qed

end

section \<open>What the drop rules stop\<close>

context nft_kernel begin

lemma head_accept:
  assumes acc: "accepts m act (hd' @ ds @ tl') p" and no: "\<And>r. r \<in> set ds \<Longrightarrow> r_stmt r \<noteq> Accept"
    and d: "d \<in> set ds" "r_stmt d = Drop \<or> r_stmt d = CountDrop" "list_all is_static (r_matches d)"
      "list_all (\<lambda>x. m x p) (r_matches d)"
  obtains r where "r \<in> set hd'" "r_stmt r = Accept" "fits r p"
proof -
  obtain ms s k where dk: "d = NRule ms s k" by (cases d)
  obtain d1 d2 where "ds = d1 @ d # d2" using d(1) by (meson split_list)
  with acc dk have "accepts m act ((hd' @ d1) @ NRule ms s k # d2 @ tl') p" by simp
  from accept_rule_before [OF this] d dk
  obtain r where r: "r \<in> set (hd' @ d1)" "r_stmt r = Accept" "fits r p" by (metis nrule.sel(1,2))
  moreover have "r \<notin> set d1" using no r(2) \<open>ds = d1 @ d # d2\<close> by auto
  ultimately show ?thesis using that by auto
qed

lemma output_blocked:
  assumes v: "validate c = None" and inp: "ci_policy inp = effective_of c"
    and acc: "accepts m act (output_rules inp) p"
    and bad: "blocked_destination m p \<or> policy_fits m c ''output'' ''deny'' p"
  shows "early_output m c p"
proof -
  define ds where "ds = [NRule [InSet ''ip'' ''daddr'' ''blocked_v4''] Drop ''nftfw:block-v4'',
       NRule [InSet ''ip6'' ''daddr'' ''blocked_v6''] Drop ''nftfw:block-v6'',
       NRule [Oif (wg_interface (c_wireguard c))] Count ''nftfw:vpn-only-egress''] @
      rules_of_policies (effective_of c) ''output'' ''deny''"
  have eq: "output_rules inp = output_head inp @ ds @ rules_of_policies (effective_of c) ''output'' ''allow'' @
      [NRule [] CountDrop ''nftfw:output-default-deny'']"
    by (simp add: output_rules_def Let_def inp ds_def)
  have "\<exists>d \<in> set ds. r_stmt d = Drop \<and> list_all is_static (r_matches d) \<and> list_all (\<lambda>x. m x p) (r_matches d)"
    using bad deny_rule_drops policies_rule_static
    by (auto simp: ds_def blocked_destination_def policy_fits_def list_all_iff bex_Un)
  then obtain d where d: "d \<in> set ds" "r_stmt d = Drop" "list_all is_static (r_matches d)"
    "list_all (\<lambda>x. m x p) (r_matches d)" by blast
  have "r_stmt r \<noteq> Accept" if "r \<in> set ds" for r using that no_accept_deny by (auto simp: ds_def)
  from head_accept [OF acc [unfolded eq] this d(1) _ d(3,4)] d(2)
  obtain r where "r \<in> set (output_head inp)" "r_stmt r = Accept" "fits r p" by metis
  then show ?thesis using output_head_accept [OF v inp] by blast
qed

lemma forward_stopped:
  assumes v: "validate c = None" and inp: "ci_policy inp = effective_of c"
    and acc: "accepts m act (forward_rules inp) p"
    and bad: "blocked_source m p \<or> blocked_destination m p \<or> m (Oif (uplink_name c)) p \<or>
      policy_fits m c ''forward'' ''deny'' p"
  shows "reply_out m c p"
proof -
  define ds where "ds = [NRule [InSet ''ip'' ''saddr'' ''blocked_v4''] Drop ''nftfw:block-forward-source-v4'',
       NRule [InSet ''ip'' ''daddr'' ''blocked_v4''] Drop ''nftfw:block-forward-destination-v4'',
       NRule [InSet ''ip6'' ''saddr'' ''blocked_v6''] Drop ''nftfw:block-forward-source-v6'',
       NRule [InSet ''ip6'' ''daddr'' ''blocked_v6''] Drop ''nftfw:block-forward-destination-v6''] @
      concat (map (guard_rules c) (container_bindings c)) @
      [NRule [Oif (uplink_name c)] Drop ''nftfw:forward-physical-deny''] @
      rules_of_policies (effective_of c) ''forward'' ''deny''"
  have eq: "forward_rules inp = forward_head inp @ ds @ map (marker_rule c) (container_bindings c) @
      rules_of_policies (effective_of c) ''forward'' ''allow'' @ [NRule [] CountDrop ''nftfw:forward-default-deny'']"
    by (simp add: forward_rules_def Let_def inp ds_def role_name_uplink [OF v])
  have "\<exists>d \<in> set ds. r_stmt d = Drop \<and> list_all is_static (r_matches d) \<and> list_all (\<lambda>x. m x p) (r_matches d)"
    using bad deny_rule_drops policies_rule_static
    unfolding ds_def blocked_source_def blocked_destination_def policy_fits_def list_all_iff set_append bex_Un
    by (elim disjE) auto
  then obtain d where d: "d \<in> set ds" "r_stmt d = Drop" "list_all is_static (r_matches d)"
    "list_all (\<lambda>x. m x p) (r_matches d)" by blast
  have "r_stmt r \<noteq> Accept" if "r \<in> set ds" for r using that no_accept_deny no_accept_guard by (auto simp: ds_def)
  from head_accept [OF acc [unfolded eq] this d(1) _ d(3,4)] d(2)
  obtain r where "r \<in> set (forward_head inp)" "r_stmt r = Accept" "fits r p" by metis
  then show ?thesis using forward_head_accept [OF inp] by blast
qed

lemma input_denied:
  assumes inp: "ci_policy inp = effective_of c" and acc: "accepts m act (input_rules inp) p"
    and bad: "policy_fits m c ''input'' ''deny'' p"
  shows "early_input m c p"
proof -
  have "\<exists>d \<in> set (rules_of_policies (effective_of c) ''input'' ''deny''). r_stmt d = Drop \<and>
      list_all is_static (r_matches d) \<and> list_all (\<lambda>x. m x p) (r_matches d)"
    using bad deny_rule_drops policies_rule_static by (auto simp: policy_fits_def list_all_iff)
  then obtain d where d: "d \<in> set (rules_of_policies (effective_of c) ''input'' ''deny'')" "r_stmt d = Drop"
    "list_all is_static (r_matches d)" "list_all (\<lambda>x. m x p) (r_matches d)" by blast
  from head_accept [of "input_head inp" "rules_of_policies (effective_of c) ''input'' ''deny''" _ p,
      OF _ no_accept_deny d(1) _ d(3,4)] acc d(2)
  obtain r where "r \<in> set (input_head inp)" "r_stmt r = Accept" "fits r p"
    unfolding input_rules_def Let_def inp by metis
  then show ?thesis using input_head_accept [OF inp] by blast
qed

lemma input_blocked:
  assumes inp: "ci_policy inp = effective_of c" and acc: "accepts m act (input_rules inp) p"
    and bad: "blocked_source m p"
  shows "early_input m c p \<or> reply_in m c p"
proof -
  define hs where "hs = input_head inp @ rules_of_policies (effective_of c) ''input'' ''deny'' @
      map (reply_rule Iif (\<lambda>i. ''nftfw:input-reply-only'')) (sorted_interfaces (c_interfaces c))"
  define ds where "ds = [NRule [InSet ''ip'' ''saddr'' ''blocked_v4''] Drop ''nftfw:block-v4'',
       NRule [InSet ''ip6'' ''saddr'' ''blocked_v6''] Drop ''nftfw:block-v6'']"
  have eq: "input_rules inp = hs @ ds @ rules_of_policies (effective_of c) ''input'' ''allow'' @
      [NRule [] CountDrop ''nftfw:input-default-deny'']"
    by (simp add: input_rules_def Let_def inp ds_def hs_def)
  have "\<exists>d \<in> set ds. r_stmt d = Drop \<and> list_all is_static (r_matches d) \<and> list_all (\<lambda>x. m x p) (r_matches d)"
    using bad by (auto simp: ds_def blocked_source_def)
  then obtain d where d: "d \<in> set ds" "r_stmt d = Drop" "list_all is_static (r_matches d)"
    "list_all (\<lambda>x. m x p) (r_matches d)" by blast
  have "r_stmt r \<noteq> Accept" if "r \<in> set ds" for r using that by (auto simp: ds_def)
  from head_accept [OF acc [unfolded eq] this d(1) _ d(3,4)] d(2)
  obtain r where r: "r \<in> set hs" "r_stmt r = Accept" "fits r p" by metis
  then have "r \<in> set (input_head inp) \<or> r \<in> reply_rule Iif (\<lambda>i. ''nftfw:input-reply-only'') ` set (c_interfaces c)"
    using no_accept_deny by (auto simp: hs_def)
  with r(2,3) input_head_accept [OF inp] fits_input_reply show ?thesis unfolding reply_in_def by blast
qed

end

section \<open>A reference kernel\<close>

text \<open>An executable instance of the interface: a packet with the fields the rules look at, and the elements
  of the named sets. The witnesses run the generated chains on it.\<close>

record packet =
  pk_iif :: string
  pk_oif :: string
  pk_src :: addr
  pk_dst :: addr
  pk_l4 :: string
  pk_icmp :: string
  pk_sport :: int
  pk_dport :: int
  pk_hops :: nat
  pk_syn :: bool
  pk_mark :: nat
  pk_ctmark :: "32 word"
  pk_state :: string
  pk_reply :: bool
  pk_mss :: int

definition nd_types :: "string list" where
  "nd_types = [''nd-neighbor-solicit'', ''nd-neighbor-advert'', ''nd-router-solicit'', ''nd-router-advert'']"

definition path_types :: "string \<Rightarrow> string list" where
  "path_types fam = (if fam = ''ip'' then [''destination-unreachable'', ''time-exceeded'', ''parameter-problem'']
     else [''destination-unreachable'', ''packet-too-big'', ''time-exceeded'', ''parameter-problem''])"

definition field_addr :: "string \<Rightarrow> packet \<Rightarrow> addr" where
  "field_addr dir p = (if dir = ''saddr'' then pk_src p else pk_dst p)"

definition of_family :: "string \<Rightarrow> addr \<Rightarrow> bool" where
  "of_family fam a = (if fam = ''ip'' then is4 a else is6 a)"

fun ref_match :: "(string \<Rightarrow> string list) \<Rightarrow> nmatch \<Rightarrow> packet \<Rightarrow> bool" where
  "ref_match els CtInvalid p = (pk_state p = ''invalid'')"
| "ref_match els (Iif n) p = (pk_iif p = n)"
| "ref_match els (Oif n) p = (pk_oif p = n)"
| "ref_match els CtOriginal p = (\<not> pk_reply p)"
| "ref_match els CtReply p = pk_reply p"
| "ref_match els CtEstablished p = (pk_state p = ''established'' \<or> pk_state p = ''related'')"
| "ref_match els (CtMark k v) p = (and (pk_ctmark p) k = v)"
| "ref_match els NdExchange p = (is6 (pk_dst p) \<and> pk_hops p = 255 \<and> pk_l4 p = ''ipv6-icmp'' \<and> pk_icmp p \<in> set nd_types)"
| "ref_match els (InSet fam dir name) p =
     (of_family fam (field_addr dir p) \<and> address_in_prefixes (field_addr dir p) (els name))"
| "ref_match els (InNet fam dir cidr) p =
     (of_family fam (field_addr dir p) \<and> address_in_prefixes (field_addr dir p) [cidr])"
| "ref_match els (NfProto fam) p = (if fam = ''ipv4'' then is4 (pk_dst p) else is6 (pk_dst p))"
| "ref_match els (Dports proto ports) p = (pk_l4 p = proto \<and> pk_dport p \<in> set ports)"
| "ref_match els AnyService p = True"
| "ref_match els (UdpPair s d) p = (pk_l4 p = ''udp'' \<and> pk_sport p = s \<and> pk_dport p = d)"
| "ref_match els (UdpDport d) p = (pk_l4 p = ''udp'' \<and> pk_dport p = d)"
| "ref_match els (MetaMark mk) p = (parse_mark mk = Some (pk_mark p))"
| "ref_match els (L4 proto) p = (pk_l4 p = proto)"
| "ref_match els (IcmpPathErrors fam) p = (pk_icmp p \<in> set (path_types fam))"
| "ref_match els TcpSyn p = (pk_l4 p = ''tcp'' \<and> pk_syn p)"

fun ref_act :: "nstmt \<Rightarrow> packet \<Rightarrow> packet" where
  "ref_act (SetTag keep v) p = p\<lparr>pk_ctmark := or (and (pk_ctmark p) keep) v\<rparr>"
| "ref_act (SetMss n) p = p\<lparr>pk_mss := n\<rparr>"
| "ref_act _ p = p"

lemma field_addr_upd [simp]: "field_addr d (p\<lparr>pk_ctmark := w\<rparr>) = field_addr d p" "field_addr d (p\<lparr>pk_mss := k\<rparr>) = field_addr d p"
  by (simp_all add: field_addr_def)

lemma is4_not_is6: "is4 a \<Longrightarrow> \<not> is6 a"
  by (cases a) auto

interpretation ref_kernel: nft_kernel "ref_match els" ref_act for els
proof
  show "is_static x \<Longrightarrow> ref_match els x (ref_act s p) = ref_match els x p" for x s p
    by (cases s; cases x) auto
qed (auto simp: is4_not_is6)

section \<open>Properties\<close>

text \<open>C24. The script \<^verbatim>\<open>Compile\<close> returns is, byte for byte, the printed structured ruleset: its header, the
  sets, the three filter chains, the NAT table and the IPv6 table.\<close>

theorem Compile_script:
  assumes "compile goSyntax sha inp g = Inr art"
  shows "ar_script art =
    line ''#!/usr/sbin/nft -f'' @
    line ''# nftfw transaction; owned tables only; global ruleset replacement omitted'' @
    line (''# generation: '' @ itoa (unat g)) @
    line (''# policy checksum: '' @ sha (goSyntax (ef_config (ci_policy inp)))) @ line '''' @
    line ''table inet nftfw_filter {'' @ set_texts inp @
    render_chain ''input'' (input_rules inp) @ render_chain ''output'' (output_rules inp) @
    render_chain ''forward'' (forward_rules inp) @ line ''}'' @ line '''' @ emit_nat inp @ line '''' @
    line ''table ip6 nftfw_filter6 {'' @
    (if sys_ipv6_mode (c_system (ef_config (ci_policy inp))) \<noteq> ''disabled'' then
       line (''    chain mode_marker { comment '' @ quote (''nftfw:ipv6-mode-'' @
         sys_ipv6_mode (c_system (ef_config (ci_policy inp)))) @ ''; }'') else '''') @
    concat (map render_chain6 (ipv6_chains inp)) @ line ''}''"
  using assms unfolding compile_Ok by (simp only: artifact.simps script_of_def filter_text ipv6_text append_assoc)







text \<open>C20. No forwarded packet leaves through the uplink but as a reply of an established connection on an
  interface of the configuration, whatever the policies say.\<close>

theorem forward_never_physical:
  assumes "nft_kernel m act" "compile goSyntax sha inp g = Inr art" "ci_policy inp = effective_of c"
    and "accepts m act (forward_rules inp) p" "m (Oif (uplink_name c)) p"
  shows "m CtReply p \<and> m CtEstablished p"
proof -
  have v: "validate c = None" using assms(2) unfolding compile_Ok assms(3) by simp
  from nft_kernel.forward_stopped [OF assms(1) v assms(3,4)] assms(5) show ?thesis by (simp add: reply_out_def)
qed

text \<open>C23. A packet from or to a blocked address is accepted only as a reply of an established connection
  or by one of the rules in front of the block rules: loopback, neighbour discovery, DHCP, the bootstrap of
  the tunnel, path errors to containers, and, on the way in, the services opened to leased addresses.\<close>

theorem blocked_addresses:
  assumes "nft_kernel m act" "compile goSyntax sha inp g = Inr art" "ci_policy inp = effective_of c"
  shows "(blocked_source m p \<and> accepts m act (input_rules inp) p \<longrightarrow> early_input m c p \<or> reply_in m c p) \<and>
    (blocked_destination m p \<and> accepts m act (output_rules inp) p \<longrightarrow> early_output m c p) \<and>
    ((blocked_source m p \<or> blocked_destination m p) \<and> accepts m act (forward_rules inp) p \<longrightarrow> reply_out m c p)"
proof -
  have v: "validate c = None" using assms(2) unfolding compile_Ok assms(3) by simp
  show ?thesis
    using nft_kernel.input_blocked [OF assms(1,3)] nft_kernel.output_blocked [OF assms(1) v assms(3)]
      nft_kernel.forward_stopped [OF assms(1) v assms(3)] by blast
qed

text \<open>C22. Default deny with deny precedence: what a chain accepts is one of the early exceptions, a reply,
  or traffic that a rule of an allow policy fits and no rule of a deny policy.\<close>

theorem default_deny:
  assumes "nft_kernel m act" "compile goSyntax sha inp g = Inr art" "ci_policy inp = effective_of c"
  shows "(accepts m act (input_rules inp) p \<longrightarrow> early_input m c p \<or>
      (\<not> policy_fits m c ''input'' ''deny'' p \<and> (reply_in m c p \<or> policy_fits m c ''input'' ''allow'' p))) \<and>
    (accepts m act (output_rules inp) p \<longrightarrow> early_output m c p \<or>
      (\<not> policy_fits m c ''output'' ''deny'' p \<and> policy_fits m c ''output'' ''allow'' p)) \<and>
    (accepts m act (forward_rules inp) p \<longrightarrow> reply_out m c p \<or>
      (\<not> policy_fits m c ''forward'' ''deny'' p \<and> policy_fits m c ''forward'' ''allow'' p))"
proof -
  have v: "validate c = None" using assms(2) unfolding compile_Ok assms(3) by simp
  show ?thesis
    using nft_kernel.input_denied [OF assms(1,3)] nft_kernel.input_accept [OF assms(1,3)]
      nft_kernel.output_blocked [OF assms(1) v assms(3)] nft_kernel.output_accept [OF assms(1) v assms(3)]
      nft_kernel.fits_policy [OF assms(1)]
      nft_kernel.forward_stopped [OF assms(1) v assms(3)] nft_kernel.forward_accept [OF assms(1,3)] by metis
qed

text \<open>With IPv6 disabled the base chains of the IPv6 table, which see every IPv6 packet first, accept
  loopback traffic only and forward nothing.\<close>

theorem ipv6_disabled:
  assumes "nft_kernel m act" "sys_ipv6_mode (c_system (ef_config (ci_policy inp))) = ''disabled''"
    and "(hook, rules) \<in> set (ipv6_chains inp)" "accepts m act rules p"
  shows "(hook = ''input'' \<and> m (Iif ''lo'') p) \<or> (hook = ''output'' \<and> m (Oif ''lo'') p)"
  using assms by (auto simp: ipv6_chains_def accepts_def split: if_splits)

text \<open>C31. The script does not depend on the order in which block claims, bootstrap endpoints and container
  networks are listed.\<close>

theorem Compile_order_independent:
  assumes "mset (ci_blocked4 a) = mset (ci_blocked4 b)" "mset (ci_blocked6 a) = mset (ci_blocked6 b)"
    "mset (ci_bootstrap4 a) = mset (ci_bootstrap4 b)" "mset (ci_bootstrap6 a) = mset (ci_bootstrap6 b)"
    "mset (ci_docker4 a) = mset (ci_docker4 b)" "mset (ci_docker6 a) = mset (ci_docker6 b)"
    "ci_policy a = ci_policy b"
  shows "script_of goSyntax sha a g = script_of goSyntax sha b g"
proof -
  have "input_rules a = input_rules b" "output_rules a = output_rules b" "forward_rules a = forward_rules b"
    using assms(7) by (simp_all add: input_rules_def output_rules_def forward_rules_def input_head_def
        output_head_def forward_head_def)
  moreover have "set_texts a = set_texts b"
    unfolding set_texts_def
    using assms(1-6) [THEN emit_set_mset] by simp
  moreover have "emit_nat a = emit_nat b" using emit_set_mset [OF assms(5)] assms(7) by (simp add: emit_nat_def)
  moreover have "emit_ipv6 a = emit_ipv6 b" using assms(7) by (simp add: emit_ipv6_def)
  ultimately show ?thesis by (simp add: script_of_def filter_text assms(7))
qed

section \<open>Witnesses\<close>

definition home_input :: "config \<Rightarrow> compile_input" where
  "home_input c = \<lparr>ci_policy = effective_of c, ci_blocked4 = [''203.0.113.0/24''], ci_blocked6 = [],
     ci_bootstrap4 = [], ci_bootstrap6 = [], ci_docker4 = [], ci_docker6 = []\<rparr>"

definition sets_of :: "compile_input \<Rightarrow> string \<Rightarrow> string list" where
  "sets_of inp name = (if name = ''blocked_v4'' then ci_blocked4 inp else [])"

lemma home_input_sel [simp]: "ci_policy (home_input c) = effective_of c"
  by (simp add: home_input_def)

lemma home_compiles:
  assumes "validate c = None" "c_nat c = []" "container_bindings c = []"
  shows "\<exists>art. compile goSyntax sha (home_input c) g = Inr art"
proof -
  have "runtime_prefixes (home_input c) = None" by (simp add: home_input_def go_eval)
  moreover have "validate_container_topology c [] [] = None"
    using assms(3) by (simp add: validate_container_topology_def same_prefix_set_def)
  ultimately show ?thesis
    unfolding compile_Ok using assms(1,2) by (simp add: home_input_def validate_nat_targets_def)
qed

lemma home_containers [simp]: "container_bindings (home nets ps ts) = []" "c_nat (home nets ps ts) = []"
  by (simp_all add: home_defs container_bindings_def bindings_of_def sort_slice_def)

lemma home_compiled: "\<exists>art. compile goSyntax sha (home_input home1) g = Inr art"
  by (rule home_compiles [OF home_valid]) simp_all

lemma home_uplink [simp]: "uplink_name (home nets ps ts) = ''eth0''"
  by (simp add: home_defs uplink_name_def uplinks_def)

definition mk_packet :: "string \<Rightarrow> string \<Rightarrow> addr \<Rightarrow> addr \<Rightarrow> string \<Rightarrow> int \<Rightarrow> int \<Rightarrow> packet" where
  "mk_packet i out s d proto sp dp = \<lparr>pk_iif = i, pk_oif = out, pk_src = s, pk_dst = d, pk_l4 = proto, pk_icmp = '''',
     pk_sport = sp, pk_dport = dp, pk_hops = 64, pk_syn = True, pk_mark = 0, pk_ctmark = 0, pk_state = ''new'',
     pk_reply = False, pk_mss = 1460\<rparr>"

lemmas run_eval = accepts_def input_rules_def output_rules_def forward_rules_def input_head_def output_head_def
  forward_head_def invalid_rule_def tag_rule_def reply_rule_def nd_rule_def rules_of_policies_def policy_rules_def
  selectors_def service_match_def policy_stmt_def trusted_rules_def field_addr_def of_family_def home_input_def
  sets_of_def mk_packet_def sort_slice_def Let_def


lemma ssh_accepted: "accepts (ref_match (sets_of (home_input home1))) ref_act
    (input_rules (home_input home1))
    (mk_packet ''lan0'' '''' (A4 0xC0A80107) (A4 0xC0A80101) ''tcp'' 40000 22)"
  by (simp add: run_eval home_defs go_eval string_eval)

abbreviation input1 :: compile_input where
  "input1 \<equiv> home_input home1"

abbreviation m1 :: "nmatch \<Rightarrow> packet \<Rightarrow> bool" where
  "m1 \<equiv> ref_match (sets_of input1)"


definition ssh_packet :: packet where
  "ssh_packet = mk_packet ''lan0'' '''' (A4 0xC0A80107) (A4 0xC0A80101) ''tcp'' 40000 22"

definition reply_packet :: packet where
  "reply_packet = (mk_packet ''wg0'' ''eth0'' (A4 0xCB007109) (A4 0x08080808) ''tcp'' 443 50000)\<lparr>pk_reply := True,
     pk_state := ''established'', pk_ctmark := 0x01000000\<rparr>"

lemma Compile_script_witness: "\<exists>art rest. compile (\<lambda>_. '''') (\<lambda>_. '''') input1 7 = Inr art \<and>
    ar_script art = line ''#!/usr/sbin/nft -f'' @ rest"
  using home_compiled [of "\<lambda>_. ''''" "\<lambda>_. ''''" 7] Compile_script [of "\<lambda>_. ''''" "\<lambda>_. ''''" input1 7] by blast


lemma forward_never_physical_witness: "accepts m1 ref_act (forward_rules input1) reply_packet \<and> m1 CtReply reply_packet"
proof -
  obtain art where "compile (\<lambda>_. '''') (\<lambda>_. '''') input1 1 = Inr art" using home_compiled by blast
  moreover have acc: "accepts m1 ref_act (forward_rules input1) reply_packet"
    by (simp add: reply_packet_def run_eval home_defs go_eval string_eval)
  ultimately show ?thesis
    using forward_never_physical [OF ref_kernel.nft_kernel_axioms _ home_input_sel acc]
    by (simp add: reply_packet_def mk_packet_def)
qed

lemma blocked_addresses_witness: "reply_out m1 home1 reply_packet \<and> blocked_source m1 reply_packet"
proof -
  obtain art where c: "compile (\<lambda>_. '''') (\<lambda>_. '''') input1 1 = Inr art" using home_compiled by blast
  have acc: "accepts m1 ref_act (forward_rules input1) reply_packet"
    by (simp add: reply_packet_def run_eval home_defs go_eval string_eval)
  have "blocked_source m1 reply_packet"
    by (simp add: blocked_source_def reply_packet_def run_eval go_eval string_eval)
  with acc blocked_addresses [where p = reply_packet, OF ref_kernel.nft_kernel_axioms c home_input_sel]
  show ?thesis by blast
qed

lemma default_deny_witness: "policy_fits m1 home1 ''input'' ''allow'' ssh_packet"
proof -
  obtain art where c: "compile (\<lambda>_. '''') (\<lambda>_. '''') input1 1 = Inr art" using home_compiled by blast
  have "\<not> early_input m1 home1 ssh_packet" "\<not> reply_in m1 home1 ssh_packet"
    by (simp_all add: early_input_def reply_in_def ssh_packet_def run_eval home_defs go_eval)
  with ssh_accepted default_deny [where p = ssh_packet, OF ref_kernel.nft_kernel_axioms c home_input_sel]
  show ?thesis by (simp only: ssh_packet_def) blast
qed

lemma ipv6_disabled_witness: "m1 (Oif ''lo'') (mk_packet '''' ''lo'' (A6 1 '''') (A6 1 '''') ''tcp'' 1 2)"
proof -
  have mode: "sys_ipv6_mode (c_system (ef_config (ci_policy input1))) = ''disabled''"
    by (simp add: home_defs)
  have out: "(''output'', [NRule [Oif ''lo''] Accept ''nftfw:ipv6-loopback'']) \<in> set (ipv6_chains input1)"
    using mode by (simp add: ipv6_chains_def)
  have acc: "accepts m1 ref_act [NRule [Oif ''lo''] Accept ''nftfw:ipv6-loopback'']
      (mk_packet '''' ''lo'' (A6 1 '''') (A6 1 '''') ''tcp'' 1 2)"
    by (simp add: accepts_def mk_packet_def)
  from ipv6_disabled [OF ref_kernel.nft_kernel_axioms mode out acc] show ?thesis by simp
qed

lemma Compile_order_independent_witness:
  "script_of (\<lambda>_. '''') (\<lambda>_. '''') (input1\<lparr>ci_blocked4 := [''10.0.0.0/8'', ''1.1.1.1/32'']\<rparr>) 1 =
   script_of (\<lambda>_. '''') (\<lambda>_. '''') (input1\<lparr>ci_blocked4 := [''1.1.1.1/32'', ''10.0.0.0/8'']\<rparr>) 1"
  by (rule Compile_order_independent) simp_all

end
