(* ===== verification/Divergences.thy ===== *)
theory Divergences
  imports Enforcement
begin

text \<open>
  Concrete configurations on which parts of the program disagree with each other or with what their
  messages promise. Each theorem evaluates the modelled functions on one input.
\<close>

section \<open>A deny policy to any destination\<close>

definition deny_any :: "policy list" where
  "deny_any = [mk_policy ''no-ssh'' ''host'' ''any'' ''ssh'' ''deny'', mk_policy ''ssh-lan'' ''host'' ''lan'' ''ssh'' ''allow'']"

abbreviation home_deny :: config where "home_deny \<equiv> home [''192.168.1.0/24''] deny_any []"

lemma deny_any_valid: "validate home_deny = None"
  by (rule home_valid_by_parts; simp add: home_defs deny_any_def go_eval string_eval)

text \<open>\<^verbatim>\<open>ExplainEffective\<close> says the deny policy decides; the output chain accepts the packet, since the
  compiled deny rule only looks at packets that leave through the tunnel.\<close>

theorem deny_to_any_does_not_deny_lan:
  "dc_action (explain (effective_of home_deny) \<lparr>q_from = ''host'', q_to = ''192.168.1.7'', q_protocol = ''tcp'', q_port = 22\<rparr>) = ''deny''"
  "accepts (ref_match (sets_of (home_input home_deny))) ref_act (output_rules (home_input home_deny))
     (mk_packet '''' ''lan0'' (A4 0xC0A80101) (A4 0xC0A80107) ''tcp'' 40000 22)"
  by (simp_all add: run_eval home_defs deny_any_def go_eval string_eval)

section \<open>A policy to any destination and the host\<close>

definition allow_any :: "policy list" where
  "allow_any = [mk_policy ''ssh-any'' ''any'' ''any'' ''ssh'' ''allow'']"

abbreviation home_any :: config where "home_any \<equiv> home [''192.168.1.0/24''] allow_any []"

lemma allow_any_valid: "validate home_any = None"
  by (rule home_valid_by_parts; simp add: home_defs allow_any_def go_eval string_eval)

theorem allow_to_any_does_not_open_host:
  "dc_action (explain (effective_of home_any) \<lparr>q_from = ''192.168.1.7'', q_to = ''host'', q_protocol = ''tcp'', q_port = 22\<rparr>) = ''allow''"
  "\<not> accepts (ref_match (sets_of (home_input home_any))) ref_act (input_rules (home_input home_any))
     (mk_packet ''lan0'' '''' (A4 0xC0A80107) (A4 0xC0A80101) ''tcp'' 40000 22)"
  by (simp_all add: run_eval home_defs allow_any_def go_eval string_eval)

section \<open>A blocked source with a lease\<close>

abbreviation home_trusted :: config where "home_trusted \<equiv> home [''192.168.1.0/24''] [] [''ssh'']"

definition leased_sets :: "string \<Rightarrow> string list" where
  "leased_sets name = (if name = ''blocked_v4'' \<or> name = ''trusted_v4'' then [''203.0.113.0/24''] else [])"

lemma trusted_valid: "validate home_trusted = None"
  by (rule home_valid_by_parts; simp add: home_defs go_eval string_eval)

theorem lease_overrides_block:
  "dc_action (explain_effective (effective_of home_trusted)
     \<lparr>q_from = ''203.0.113.9'', q_to = ''host'', q_protocol = ''tcp'', q_port = 22\<rparr>
     \<lparr>rc_blocked = [''203.0.113.0/24''], rc_trusted = [''203.0.113.0/24'']\<rparr>) = ''deny''"
  "accepts (ref_match leased_sets) ref_act (input_rules (home_input home_trusted))
     (mk_packet ''wg0'' '''' (A4 0xCB007109) (A4 0x0A000001) ''tcp'' 40000 22)"
  by (simp_all add: run_eval home_defs leased_sets_def go_eval string_eval)

section \<open>A wide network around a private address\<close>

definition ssh_out :: "policy list" where
  "ssh_out = [mk_policy ''ssh-out'' ''host'' ''lan'' ''ssh'' ''allow'']"

abbreviation home_wide :: config where "home_wide \<equiv> home [''10.0.0.0/1''] ssh_out []"

lemma wide_valid: "validate home_wide = None"
  by (rule home_valid_by_parts; simp add: home_defs ssh_out_def go_eval string_eval)

text \<open>The validator accepts the zone, the compiler takes it for private, and a new connection to 8.8.8.8 leaves
  through the uplink.\<close>

theorem wide_network_leaks:
  "accepts (ref_match (sets_of (home_input home_wide))) ref_act (output_rules (home_input home_wide))
     (mk_packet '''' ''eth0'' (A4 0xC0A80101) (A4 0x08080808) ''tcp'' 40000 22)"
  by (simp add: run_eval home_defs ssh_out_def go_eval string_eval)

section \<open>Networks with white space or a leading zero\<close>

abbreviation home_newline :: config where "home_newline \<equiv> home [''192.168.1.0/24'' @ NL] ssh_in []"

lemma newline_valid: "validate home_newline = None"
  by (rule home_valid_by_parts; simp add: home_defs go_eval string_eval)

text \<open>The line break ends the rule in front of its service: the second line accepts SSH from everywhere.\<close>

theorem newline_splits_rule:
  "emit_policies (effective_of home_newline) ''input'' ''allow'' =
     indent @ ''ip saddr 192.168.1.0/24'' @ NL @
     '' tcp dport { 22 } accept comment '' @ dquote @ ''nftfw-policy:ssh-in'' @ dquote @ NL"
  by (simp add: emit_policies_def emit_policy_rules_def Let_def home_defs sort_slice_def quote_def quote_char_def
      go_eval string_eval)

abbreviation home_overlap :: config where "home_overlap \<equiv> home [''192.168.0.0/016'', ''192.168.1.0/24''] ssh_in []"

theorem leading_zero_hides_overlap:
  "validate home_overlap = None"
  by (rule home_valid_by_parts; simp add: home_defs go_eval string_eval)

end
