(* ===== verification/Effects.thy ===== *)
theory Effects
  imports Go_Base
begin

text \<open>
  Stateful, fallible Go code. A function or method that reads and changes the world and returns
  \<^verbatim>\<open>(T, error)\<close> is a program: from a world to its result and the world after it. An error does not undo
  what was done before it.
  \<^item> \<open>ret\<close>, \<open>failp\<close>, \<open>bindP\<close>, \<open>thenP\<close>: a value, \<^verbatim>\<open>return err\<close>, the next statement after
    \<^verbatim>\<open>if err != nil { return err }\<close>.
  \<^item> \<open>refuseP\<close>: \<^verbatim>\<open>if cond { return err }\<close>. \<open>wrapP\<close>: \<^verbatim>\<open>fmt.Errorf("...: %w", err)\<close>. \<open>attempt\<close>: the error is
    looked at. \<open>ignoreP\<close>: \<^verbatim>\<open>_ = f()\<close>. \<open>deferP\<close>: \<^verbatim>\<open>defer f()\<close>. \<open>elseP\<close>: an error
    that is handled.
  \<^item> \<open>wp\<close> is the weakest precondition for a result condition and an error condition, with one equation
    per combinator. \<open>obeys R p\<close> says that whatever \<open>p\<close> returns, the worlds before and after it are related.
\<close>

type_synonym ('w, 'a) prog = "'w \<Rightarrow> 'a result \<times> 'w"

named_theorems prog_run \<open>equations that run a program\<close>

section \<open>The combinators\<close>

definition ret :: "'a \<Rightarrow> ('w, 'a) prog" where
  "ret x w = (Ok x, w)"

definition failp :: "goerr \<Rightarrow> ('w, 'a) prog" where
  "failp e w = (Err e, w)"

definition bindP :: "('w, 'a) prog \<Rightarrow> ('a \<Rightarrow> ('w, 'b) prog) \<Rightarrow> ('w, 'b) prog" where
  "bindP m f w = (case m w of (Inl e, w') \<Rightarrow> (Err e, w') | (Inr x, w') \<Rightarrow> f x w')"

definition thenP :: "('w, unit) prog \<Rightarrow> ('w, 'b) prog \<Rightarrow> ('w, 'b) prog" where
  "thenP m k = bindP m (\<lambda>_. k)"

definition refuseP :: "bool \<Rightarrow> goerr \<Rightarrow> ('w, unit) prog" where
  "refuseP b e = (if b then failp e else ret ())"

definition check :: "goerr option \<Rightarrow> ('w, unit) prog" where
  "check oe = (case oe of Some e \<Rightarrow> failp e | None \<Rightarrow> ret ())"

definition of_result :: "'a result \<Rightarrow> ('w, 'a) prog" where
  "of_result r w = (r, w)"

definition wrapP :: "(goerr \<Rightarrow> goerr) \<Rightarrow> ('w, 'a) prog \<Rightarrow> ('w, 'a) prog" where
  "wrapP g m w = (case m w of (Inl e, w') \<Rightarrow> (Err (g e), w') | (Inr x, w') \<Rightarrow> (Ok x, w'))"

definition attempt :: "('w, 'a) prog \<Rightarrow> ('w, 'a result) prog" where
  "attempt m w = (case m w of (r, w') \<Rightarrow> (Ok r, w'))"

definition ignoreP :: "('w, 'a) prog \<Rightarrow> ('w, unit) prog" where
  "ignoreP m w = (Ok (), snd (m w))"

definition getP :: "('w \<Rightarrow> 'a) \<Rightarrow> ('w, 'a) prog" where
  "getP f w = (Ok (f w), w)"

text \<open>\<^verbatim>\<open>if err != nil\<close> with statements of its own.\<close>

definition elseP :: "('w, 'a) prog \<Rightarrow> (goerr \<Rightarrow> ('w, 'b) prog) \<Rightarrow> ('a \<Rightarrow> ('w, 'b) prog) \<Rightarrow> ('w, 'b) prog" where
  "elseP m h k w = (case m w of (Inl e, w') \<Rightarrow> h e w' | (Inr x, w') \<Rightarrow> k x w')"

text \<open>\<^verbatim>\<open>defer f()\<close> around the rest of a function.\<close>

definition deferP :: "('w, unit) prog \<Rightarrow> ('w, 'a) prog \<Rightarrow> ('w, 'a) prog" where
  "deferP c m w = (case m w of (r, w') \<Rightarrow> (r, snd (c w')))"

fun forP :: "('a \<Rightarrow> ('w, unit) prog) \<Rightarrow> 'a list \<Rightarrow> ('w, unit) prog" where
  "forP f [] = ret ()"
| "forP f (x # xs) = thenP (f x) (forP f xs)"

lemmas prog_defs [prog_run, go_eval] =
  ret_def failp_def bindP_def thenP_def refuseP_def check_def of_result_def wrapP_def attempt_def
  ignoreP_def getP_def deferP_def elseP_def

lemma bindP_ret [simp]: "bindP (ret x) f = f x" "bindP (failp e) f = failp e"
  by (simp_all add: fun_eq_iff bindP_def ret_def failp_def)

lemma thenP_ret [simp]: "thenP (ret u) k = k" "thenP (failp e) k = failp e"
  by (simp_all add: thenP_def)

section \<open>Weakest preconditions\<close>

definition wp :: "('w, 'a) prog \<Rightarrow> ('a \<Rightarrow> 'w \<Rightarrow> bool) \<Rightarrow> (goerr \<Rightarrow> 'w \<Rightarrow> bool) \<Rightarrow> 'w \<Rightarrow> bool" where
  "wp m Q E w = (case m w of (Inl e, w') \<Rightarrow> E e w' | (Inr x, w') \<Rightarrow> Q x w')"

lemma wp_ret [simp]: "wp (ret x) Q E = Q x"
  by (rule ext) (simp add: wp_def ret_def)

lemma wp_failp [simp]: "wp (failp e) Q E = E e"
  by (rule ext) (simp add: wp_def failp_def)

lemma wp_bindP [simp]: "wp (bindP m f) Q E = wp m (\<lambda>x. wp (f x) Q E) E"
  by (rule ext) (auto simp: wp_def bindP_def split: prod.splits sum.splits)

lemma wp_thenP [simp]: "wp (thenP m k) Q E = wp m (\<lambda>_. wp k Q E) E"
  by (simp add: thenP_def)

lemma wp_refuseP [simp]: "wp (refuseP b e) Q E = (\<lambda>w. if b then E e w else Q () w)"
  by (rule ext) (simp add: refuseP_def)

lemma wp_check [simp]: "wp (check oe) Q E = (\<lambda>w. case oe of Some e \<Rightarrow> E e w | None \<Rightarrow> Q () w)"
  by (rule ext) (simp add: check_def split: option.splits)

lemma wp_check_then:
  assumes "oe = None \<Longrightarrow> wp k Q E w" "\<And>e. E e w"
  shows "wp (thenP (check oe) k) Q E w"
  using assms by (simp split: option.splits)

lemma wp_of_result [simp]: "wp (of_result r) Q E = (\<lambda>w. case r of Inl e \<Rightarrow> E e w | Inr x \<Rightarrow> Q x w)"
  by (rule ext) (simp add: wp_def of_result_def)

lemma wp_wrapP [simp]: "wp (wrapP g m) Q E = wp m Q (\<lambda>e. E (g e))"
  by (rule ext) (auto simp: wp_def wrapP_def split: prod.splits sum.splits)

lemma wp_attempt [simp]: "wp (attempt m) Q E = wp m (\<lambda>x. Q (Inr x)) (\<lambda>e. Q (Inl e))"
  by (rule ext) (auto simp: wp_def attempt_def split: prod.splits sum.splits)

lemma wp_ignoreP [simp]: "wp (ignoreP m) Q E = wp m (\<lambda>_. Q ()) (\<lambda>_. Q ())"
  by (rule ext) (auto simp: wp_def ignoreP_def split: prod.splits sum.splits)

lemma wp_elseP [simp]: "wp (elseP m h k) Q E = wp m (\<lambda>x. wp (k x) Q E) (\<lambda>e. wp (h e) Q E)"
  by (rule ext) (auto simp: wp_def elseP_def split: prod.splits sum.splits)

lemma wp_deferP: "wp (deferP c m) Q E = wp m (\<lambda>x. wp c (\<lambda>_. Q x) (\<lambda>_. Q x)) (\<lambda>e. wp c (\<lambda>_. E e) (\<lambda>_. E e))"
  by (rule ext) (auto simp: wp_def deferP_def split: prod.splits sum.splits)

lemma wp_getP [simp]: "wp (getP f) Q E = (\<lambda>w. Q (f w) w)"
  by (rule ext) (simp add: wp_def getP_def)

lemma wp_if [simp]: "wp (if b then m else n) Q E = (\<lambda>w. if b then wp m Q E w else wp n Q E w)"
  by (rule ext) simp

lemma wp_case_option [simp]:
  "wp (case oe of None \<Rightarrow> m | Some x \<Rightarrow> f x) Q E =
    (\<lambda>w. case oe of None \<Rightarrow> wp m Q E w | Some x \<Rightarrow> wp (f x) Q E w)"
  by (rule ext) (simp split: option.splits)

lemma wp_case_sum [simp]:
  "wp (case r of Inl x \<Rightarrow> f x | Inr y \<Rightarrow> g y) Q E =
    (\<lambda>w. case r of Inl x \<Rightarrow> wp (f x) Q E w | Inr y \<Rightarrow> wp (g y) Q E w)"
  by (rule ext) (simp split: sum.splits)

lemma wp_case_prod [simp]:
  "wp (case p of (x, y) \<Rightarrow> f x y) Q E = (\<lambda>w. case p of (x, y) \<Rightarrow> wp (f x y) Q E w)"
  by (rule ext) (simp split: prod.splits)

lemma wp_mono:
  assumes "wp m Q E w" "\<And>x w'. Q x w' \<Longrightarrow> Q' x w'" "\<And>e w'. E e w' \<Longrightarrow> E' e w'"
  shows "wp m Q' E' w"
  using assms by (auto simp: wp_def split: prod.splits sum.splits)

lemma wp_True [simp]: "wp m (\<lambda>_ _. True) (\<lambda>_ _. True) w"
  by (simp add: wp_def split: prod.splits sum.splits)

lemma wp_Ok: "wp m Q E w \<Longrightarrow> m w = (Inr x, w') \<Longrightarrow> Q x w'"
  by (simp add: wp_def)

lemma wp_Err: "wp m Q E w \<Longrightarrow> m w = (Inl e, w') \<Longrightarrow> E e w'"
  by (simp add: wp_def)

lemma wp_conj: "wp m Q E w \<Longrightarrow> wp m Q' E' w \<Longrightarrow> wp m (\<lambda>x v. Q x v \<and> Q' x v) (\<lambda>e v. E e v \<and> E' e v) w"
  by (auto simp: wp_def split: prod.splits sum.splits)

lemma wpI:
  assumes "\<And>x w'. m w = (Inr x, w') \<Longrightarrow> Q x w'" "\<And>e w'. m w = (Inl e, w') \<Longrightarrow> E e w'"
  shows "wp m Q E w"
  using assms by (auto simp: wp_def split: prod.splits sum.splits)

section \<open>Frames\<close>

definition obeys :: "('w \<Rightarrow> 'w \<Rightarrow> bool) \<Rightarrow> ('w, 'a) prog \<Rightarrow> bool" where
  "obeys R m \<longleftrightarrow> (\<forall>w. R w (snd (m w)))"

lemma obeysD: "obeys R m \<Longrightarrow> R w (snd (m w))"
  by (simp add: obeys_def)

lemma obeys_run: "obeys R m \<Longrightarrow> m w = (r, w') \<Longrightarrow> R w w'"
  by (metis obeysD snd_conv)

lemma obeys_wp: "obeys R m \<Longrightarrow> wp m (\<lambda>_. R w) (\<lambda>_. R w) w"
  by (auto simp: wp_def dest: obeys_run split: prod.splits sum.splits)

text \<open>A preorder on worlds that a group of operations stays within: what holds of each call holds of
  the programs made of them.\<close>

locale frame_order =
  fixes R :: "'w \<Rightarrow> 'w \<Rightarrow> bool"
  assumes frame_refl: "R w w"
    and frame_trans: "R a b \<Longrightarrow> R b c \<Longrightarrow> R a c"
begin

lemma obeys_ret: "obeys R (ret x)"
  by (simp add: obeys_def ret_def frame_refl)

lemma obeys_failp: "obeys R (failp e)"
  by (simp add: obeys_def failp_def frame_refl)

lemma obeys_refuseP: "obeys R (refuseP b e)"
  by (simp add: refuseP_def obeys_ret obeys_failp)

lemma obeys_check: "obeys R (check oe)"
  by (simp add: check_def obeys_ret obeys_failp split: option.splits)

lemma obeys_of_result: "obeys R (of_result r)"
  by (simp add: obeys_def of_result_def frame_refl)

lemma obeys_getP: "obeys R (getP f)"
  by (simp add: obeys_def getP_def frame_refl)

lemma obeys_bindP:
  assumes "obeys R m" "\<And>x. obeys R (f x)"
  shows "obeys R (bindP m f)"
  unfolding obeys_def
proof
  fix w
  show "R w (snd (bindP m f w))"
    using obeysD [OF assms(1), of w] frame_trans obeysD [OF assms(2)]
    by (auto simp: bindP_def split: prod.splits sum.splits)
qed

lemma obeys_thenP: "obeys R m \<Longrightarrow> obeys R k \<Longrightarrow> obeys R (thenP m k)"
  by (simp add: thenP_def obeys_bindP)

lemma obeys_wrapP: "obeys R m \<Longrightarrow> obeys R (wrapP g m)"
  by (auto simp: obeys_def wrapP_def split: prod.splits sum.splits) (metis snd_conv)+

lemma obeys_attempt: "obeys R m \<Longrightarrow> obeys R (attempt m)"
  by (auto simp: obeys_def attempt_def split: prod.splits) (metis snd_conv)

lemma obeys_ignoreP: "obeys R m \<Longrightarrow> obeys R (ignoreP m)"
  by (simp add: obeys_def ignoreP_def)

lemma obeys_elseP:
  assumes "obeys R m" "\<And>e. obeys R (h e)" "\<And>x. obeys R (k x)"
  shows "obeys R (elseP m h k)"
  unfolding obeys_def
proof
  fix w
  show "R w (snd (elseP m h k w))"
    using obeysD [OF assms(1), of w] frame_trans obeysD [OF assms(2)] obeysD [OF assms(3)]
    by (auto simp: elseP_def split: prod.splits sum.splits)
qed

lemma obeys_deferP:
  assumes "obeys R c" "obeys R m"
  shows "obeys R (deferP c m)"
  unfolding obeys_def
proof
  fix w
  show "R w (snd (deferP c m w))"
    using frame_trans [OF obeysD [OF assms(2), of w] obeysD [OF assms(1)]]
    by (cases "m w") (simp add: deferP_def)
qed

lemma obeys_if: "obeys R m \<Longrightarrow> obeys R n \<Longrightarrow> obeys R (if b then m else n)"
  by simp

lemma obeys_case_option: "obeys R m \<Longrightarrow> (\<And>x. obeys R (f x)) \<Longrightarrow> obeys R (case oe of None \<Rightarrow> m | Some x \<Rightarrow> f x)"
  by (simp split: option.splits)

lemma obeys_case_sum:
  "(\<And>x. obeys R (f x)) \<Longrightarrow> (\<And>y. obeys R (g y)) \<Longrightarrow> obeys R (case r of Inl x \<Rightarrow> f x | Inr y \<Rightarrow> g y)"
  by (simp split: sum.splits)

lemma obeys_case_prod: "(\<And>x y. obeys R (f x y)) \<Longrightarrow> obeys R (case p of (x, y) \<Rightarrow> f x y)"
  by (simp split: prod.splits)

lemma obeys_forP: "(\<And>x. x \<in> set xs \<Longrightarrow> obeys R (f x)) \<Longrightarrow> obeys R (forP f xs)"
  by (induction xs) (simp_all add: obeys_ret obeys_thenP)

lemmas frame_rules =
  obeys_ret obeys_failp obeys_refuseP obeys_check obeys_of_result obeys_getP obeys_bindP obeys_thenP
  obeys_wrapP obeys_attempt obeys_ignoreP obeys_deferP obeys_elseP obeys_if obeys_case_option obeys_case_sum obeys_case_prod
  obeys_forP

end

end
