(* ===== verification/World.thy ===== *)
theory World
  imports Effects Provenance
begin

text \<open>
  The world of the state store, \<^verbatim>\<open>src/internal/state\<close>, and the calls that reach it.
  \<^item> \<open>db\<close>: the tables of the SQLite database, one record type per table. A column that the program
    writes as \<^verbatim>\<open>t.Format(time.RFC3339Nano)\<close> holds the time \<open>t\<close>; SQL compares such columns as text, which
    is what \<open>text_after\<close> does.
  \<^item> \<open>disk\<close>: the files under the state directory, by content: the immutable scripts and snapshots of the
    generations, the enforcement pointer and the temporary file that is renamed onto it.
  \<^item> \<open>w_kernel\<close>: the live nftables state, \<open>w_ext\<close>: everything else the program cannot see (the clock,
    other processes, what SQLite and the file system answer next).
  \<^item> \<open>env\<close>: what the outside answers. \<open>fault l\<close> is what the call labelled \<open>l\<close> returns, \<open>None\<close> for
    success; a statement that fails changes nothing, a transaction that fails is rolled back
    (\<open>in_tx\<close>). SHA-256, the JSON form of a snapshot and the reading of the ledger file are functions of \<open>env\<close>.
\<close>

section \<open>RFC 3339 timestamps\<close>

text \<open>\<^verbatim>\<open>time.Time\<close> in UTC is a number of nanoseconds since the epoch; the civil date is that of the
  proleptic Gregorian calendar.\<close>

definition ns_per_s :: int where "ns_per_s = 1000000000"

definition civil :: "int \<Rightarrow> int \<times> int \<times> int" where
  "civil days =
     (let z = days + 719468; era = z div 146097; doe = z mod 146097;
          yoe = (doe - doe div 1460 + doe div 36524 - doe div 146096) div 365;
          doy = doe - (365 * yoe + yoe div 4 - yoe div 100);
          mp = (5 * doy + 2) div 153;
          d = doy - (153 * mp + 2) div 5 + 1;
          m = (if mp < 10 then mp + 3 else mp - 9)
      in (yoe + era * 400 + (if m \<le> 2 then 1 else 0), m, d))"

definition padded :: "nat \<Rightarrow> int \<Rightarrow> string" where
  "padded k n = (if n < 0 then ''-'' else []) @ pad_zero k (itoa (nat \<bar>n\<bar>))"

definition strip_zeros :: "string \<Rightarrow> string" where
  "strip_zeros s = rev (dropWhile (\<lambda>c. c = CHR ''0'') (rev s))"

definition rfc3339nano :: "gotime \<Rightarrow> string" where
  "rfc3339nano t =
     (let s = t div ns_per_s; ns = t mod ns_per_s; sod = s mod 86400 in
      case civil (s div 86400) of (y, m, d) \<Rightarrow>
        padded 4 y @ ''-'' @ padded 2 m @ ''-'' @ padded 2 d @ ''T'' @
        padded 2 (sod div 3600) @ '':'' @ padded 2 (sod div 60 mod 60) @ '':'' @ padded 2 (sod mod 60) @
        (if ns = 0 then [] else ''.'' @ strip_zeros (padded 9 ns)) @ ''Z'')"

text \<open>\<^verbatim>\<open>column > ?\<close> on two timestamps: SQLite compares the two texts byte by byte.\<close>

definition text_after :: "gotime \<Rightarrow> gotime \<Rightarrow> bool" where
  "text_after a b \<longleftrightarrow> rfc3339nano b < rfc3339nano a"

section \<open>The rows of the database\<close>

datatype gen_status = Pending | Applied | CommitPrepared | Committed | RolledBack

fun status_text :: "gen_status \<Rightarrow> string" where
  "status_text Pending = ''pending''"
| "status_text Applied = ''applied''"
| "status_text CommitPrepared = ''commit_prepared''"
| "status_text Committed = ''committed''"
| "status_text RolledBack = ''rolled_back''"

record generation =
  g_id :: nat
  g_checksum :: string
  g_snapshot_checksum :: string
  g_observed_hash :: string
  g_script_path :: string
  g_snapshot_path :: string
  g_status :: gen_status
  g_created :: gotime
  g_deadline :: "gotime option"
  g_previous :: "nat option"
  g_boot :: string
  g_prepared_at :: "gotime option"
  g_prior :: "nat option"
  g_prior_sum :: string
  g_prior_snapshot_sum :: string

record claim =
  c_id :: int
  c_address :: string
  c_family :: string
  c_source :: string
  c_reason :: string
  c_actor :: string
  c_created :: gotime
  c_expires :: "gotime option"

record audit_row =
  au_id :: int
  au_created :: gotime
  au_actor :: string
  au_event :: string
  au_detail :: string

record integration_state =
  is_name :: string
  is_status :: string
  is_count :: int
  is_last :: "gotime option"
  is_updated :: gotime

record claim_publication =
  p_desired :: nat
  p_applied :: nat

record db =
  gens :: "generation list"
  claims :: "claim list"
  claim_seq :: int
  audits :: "audit_row list"
  audit_seq :: int
  integrations :: "integration_state list"
  publication :: "claim_publication option"

section \<open>Files\<close>

record enforcement_pointer =
  ep_schema :: string
  ep_generation :: nat
  ep_snapshot_sum :: string
  ep_policy_sum :: string

record generation_snapshot =
  sn_schema :: string
  sn_generation :: nat
  sn_checksum :: string
  sn_script :: string
  sn_provenance :: "assignment list"
  sn_previous :: "enforcement_pointer option"
  sn_boot :: string

record disk =
  d_scripts :: "nat \<Rightarrow> string option"
  d_snapshots :: "nat \<Rightarrow> string option"
  d_marker :: "string option"
  d_temp :: "string option"

record ('k, 'x) world =
  w_db :: db
  w_disk :: disk
  w_kernel :: 'k
  w_ext :: 'x

section \<open>What the outside answers\<close>

record 'x env =
  fault :: "string \<Rightarrow> 'x \<Rightarrow> goerr option \<times> 'x"
  clock :: "'x \<Rightarrow> gotime \<times> 'x"
  boot_file :: "'x \<Rightarrow> string result \<times> 'x"
  ledger_file :: "'x \<Rightarrow> ledger result \<times> 'x"
  sha256 :: "string \<Rightarrow> string"
  json_snapshot :: "generation_snapshot \<Rightarrow> string result"
  parse_snapshot :: "string \<Rightarrow> generation_snapshot result"
  state_dir :: string

definition io :: "('x, 'z) env_scheme \<Rightarrow> string \<Rightarrow> (('k, 'x) world, unit) prog" where
  "io env l w =
     (case fault env l (w_ext w) of
        (Some e, x) \<Rightarrow> (Err e, w\<lparr>w_ext := x\<rparr>)
      | (None, x) \<Rightarrow> (Ok (), w\<lparr>w_ext := x\<rparr>))"

definition time_now :: "('x, 'z) env_scheme \<Rightarrow> (('k, 'x) world, gotime) prog" where
  "time_now env w = (case clock env (w_ext w) of (t, x) \<Rightarrow> (Ok t, w\<lparr>w_ext := x\<rparr>))"

text \<open>A SQL statement: the call may fail, else \<open>f\<close> is what the statement does.\<close>

definition exec :: "('x, 'z) env_scheme \<Rightarrow> string \<Rightarrow> (db \<Rightarrow> ('a \<times> db) result) \<Rightarrow> (('k, 'x) world, 'a) prog" where
  "exec env l f =
     thenP (io env l) (\<lambda>w. case f (w_db w) of
       Inl e \<Rightarrow> (Err e, w)
     | Inr (x, d) \<Rightarrow> (Ok x, w\<lparr>w_db := d\<rparr>))"

definition query :: "('x, 'z) env_scheme \<Rightarrow> string \<Rightarrow> (db \<Rightarrow> 'a result) \<Rightarrow> (('k, 'x) world, 'a) prog" where
  "query env l f = thenP (io env l) (bindP (getP w_db) (\<lambda>d. of_result (f d)))"

text \<open>\<^verbatim>\<open>BeginTx\<close>, the body, \<^verbatim>\<open>Commit\<close>, with the deferred \<^verbatim>\<open>Rollback\<close>.\<close>

definition in_tx :: "('x, 'z) env_scheme \<Rightarrow> (('k, 'x) world, 'a) prog \<Rightarrow> (('k, 'x) world, 'a) prog" where
  "in_tx env body w =
     (case thenP (io env ''BEGIN'') (bindP body (\<lambda>x. thenP (io env ''COMMIT'') (ret x))) w of
        (Inl e, w') \<Rightarrow> (Err e, w'\<lparr>w_db := w_db w\<rparr>)
      | (Inr x, w') \<Rightarrow> (Ok x, w'))"

definition sync_database :: "('x, 'z) env_scheme \<Rightarrow> (('k, 'x) world, unit) prog" where
  "sync_database env =
     thenP (wrapP (Wrapf ''checkpoint state database: %w'' []) (io env ''PRAGMA wal_checkpoint(FULL)''))
       (io env ''fsync state database'')"

definition require_one_row :: "nat \<Rightarrow> goerr option" where
  "require_one_row n = refuse (n \<noteq> 1) ErrNoRows"

text \<open>\<^verbatim>\<open>UPDATE t SET ... WHERE ...\<close>: every row that satisfies the condition, and their number.\<close>

definition sql_update :: "('r \<Rightarrow> bool) \<Rightarrow> ('r \<Rightarrow> 'r) \<Rightarrow> 'r list \<Rightarrow> nat \<times> 'r list" where
  "sql_update P f rows = (length (filter P rows), map (\<lambda>r. if P r then f r else r) rows)"

definition max_int64 :: int where "max_int64 = 9223372036854775807"
definition max_audit_rows :: int where "max_audit_rows = 10000"

text \<open>\<^verbatim>\<open>INSERT INTO audit\<close> and its pruning trigger.\<close>

definition sql_audit :: "gotime \<Rightarrow> string \<Rightarrow> string \<Rightarrow> string \<Rightarrow> db \<Rightarrow> (unit \<times> db) result" where
  "sql_audit now actor event detail d =
     (if audit_seq d = max_int64 then Err (Errorf ''database or disk is full'' [])
      else let i = audit_seq d + 1;
               row = \<lparr>au_id = i, au_created = now, au_actor = actor, au_event = event, au_detail = detail\<rparr>
           in Ok ((), d\<lparr>audits := filter (\<lambda>r. \<not> au_id r \<le> i - max_audit_rows) (audits d @ [row]),
                        audit_seq := i\<rparr>))"

lemmas world_run [go_eval, prog_run] =
  io_def time_now_def exec_def query_def in_tx_def sync_database_def require_one_row_def sql_update_def
  sql_audit_def max_int64_def max_audit_rows_def

lemmas time_eval [go_eval] =
  ns_per_s_def civil_def padded_def strip_zeros_def rfc3339nano_def text_after_def zero_time_def

section \<open>Preconditions of the calls\<close>

lemma wp_io: "(\<And>x. Q () (w\<lparr>w_ext := x\<rparr>)) \<Longrightarrow> (\<And>e x. E e (w\<lparr>w_ext := x\<rparr>)) \<Longrightarrow> wp (io env l) Q E w"
  by (simp add: wp_def io_def split: prod.splits option.splits)

lemma wp_time_now: "(\<And>t x. Q t (w\<lparr>w_ext := x\<rparr>)) \<Longrightarrow> wp (time_now env) Q E w"
  by (simp add: wp_def time_now_def split: prod.splits)

lemma wp_exec:
  assumes "\<And>x v d'. f (w_db w) = Inr (v, d') \<Longrightarrow> Q v (w\<lparr>w_ext := x, w_db := d'\<rparr>)"
    and "\<And>e x. E e (w\<lparr>w_ext := x\<rparr>)"
  shows "wp (exec env l f) Q E w"
  unfolding exec_def using assms
  by (auto simp: wp_def thenP_def bindP_def io_def split: prod.splits option.splits sum.splits)

lemma wp_query:
  assumes "\<And>x v. f (w_db w) = Inr v \<Longrightarrow> Q v (w\<lparr>w_ext := x\<rparr>)" and "\<And>e x. E e (w\<lparr>w_ext := x\<rparr>)"
  shows "wp (query env l f) Q E w"
  unfolding query_def using assms
  by (auto intro!: wp_io split: sum.splits)

lemma wp_in_tx:
  assumes "\<And>x. wp body (\<lambda>v w'. \<forall>y. Q v (w'\<lparr>w_ext := y\<rparr>)) (\<lambda>_ _. True) (w\<lparr>w_ext := x\<rparr>)"
    and "\<And>e w'. w_db w' = w_db w \<Longrightarrow> E e w'"
  shows "wp (in_tx env body) Q E w"
proof -
  let ?m = "thenP (io env ''BEGIN'') (bindP body (\<lambda>x. thenP (io env ''COMMIT'') (ret x)))"
  obtain r v where run: "?m w = (r, v)" by fastforce
  have h: "wp ?m Q (\<lambda>_ _. True) w"
    by (auto intro!: wp_io wp_mono [OF assms(1)])
  show ?thesis unfolding wp_def in_tx_def run
    using h [unfolded wp_def run] assms(2) by (cases r) simp_all
qed

lemma wp_sync_database:
  "(\<And>x. Q () (w\<lparr>w_ext := x\<rparr>)) \<Longrightarrow> (\<And>e x. E e (w\<lparr>w_ext := x\<rparr>)) \<Longrightarrow> wp (sync_database env) Q E w"
  by (simp add: sync_database_def) (auto intro!: wp_io)

section \<open>An environment in which nothing fails\<close>

text \<open>For concrete runs: no call fails, the clock stands still, the hash is constant, files cannot be
  decoded.\<close>

definition quiet :: "unit env" where
  "quiet = \<lparr>fault = \<lambda>_ x. (None, x), clock = \<lambda>x. (1700000000000000000, x),
     boot_file = \<lambda>x. (Ok ''00000000-0000-0000-0000-000000000000'', x),
     ledger_file = \<lambda>x. (Err ErrNotExist, x),
     sha256 = \<lambda>_. replicate 32 (CHR 0x00),
     json_snapshot = \<lambda>s. Ok (sn_script s), parse_snapshot = \<lambda>_. Err ErrNotExist,
     state_dir = ''/var/lib/nftfw''\<rparr>"

lemma quiet_simps [simp]:
  "fault quiet l x = (None, x)" "clock quiet x = (1700000000000000000, x)"
  by (simp_all add: quiet_def)

end
