(* ===== verification/Claims.thy ===== *)
theory Claims
  imports World Netip
begin

text \<open>
  Dynamic block and allow claims, their publication to the live sets, audit records and integration
  states: the \<^verbatim>\<open>claims\<close>, \<^verbatim>\<open>runtime_claim_publication\<close>, \<^verbatim>\<open>integration_state\<close> and \<^verbatim>\<open>audit\<close> tables of
  \<^verbatim>\<open>src/internal/state/store.go\<close> and the methods of \<^verbatim>\<open>Store\<close> that read and change them.

  Shown: every operation, whatever fails, keeps the tables well formed and bounded; an operation that
  fails leaves the database as it was; a change of the claims always moves the desired revision, so
  that a publication that is recorded as applied published the claims as they still are; replacing the
  claims of one integration touches no other claim.
\<close>

section \<open>What a claim may be\<close>

definition source_char :: "char \<Rightarrow> bool" where
  "source_char c \<longleftrightarrow> is_alnum c \<or> one_of ''_.-'' c"

definition claim_source_pattern :: "string \<Rightarrow> bool" where
  "claim_source_pattern s =
     (case cut_first (CHR ''/'') s of
        None \<Rightarrow> name_match is_letter source_char 63 s
      | Some (a, b) \<Rightarrow> name_match is_letter source_char 63 a \<and> 1 \<le> length b \<and> length b \<le> 64 \<and>
                       list_all source_char b)"

definition is_allow_source :: "string \<Rightarrow> bool" where
  "is_allow_source s \<longleftrightarrow> s = ''allow'' \<or> has_prefix s ''allow/''"

definition validate_claim :: "string \<Rightarrow> string \<Rightarrow> goerr option" where
  "validate_claim address family =
     (if family \<noteq> ''ipv4'' \<and> family \<noteq> ''ipv6'' then Some (Errorf ''claim family must be ipv4 or ipv6'' [])
      else
        (case (case parse_prefix address of
                 Some p \<Rightarrow> Some p
               | None \<Rightarrow> map_option (\<lambda>a. prefix_from a (int (bit_len a))) (parse_addr address)) of
           None \<Rightarrow> Some (Errorf ''invalid claim address %q'' [address])
         | Some p \<Rightarrow>
             first_err
               [refuse (pbits p = 0) (Errorf ''claim /0 is forbidden'' []),
                refuse (family = ''ipv4'' \<and> \<not> is4 (paddr p)) (Errorf ''claim family/address mismatch'' []),
                refuse (family = ''ipv6'' \<and> \<not> is6 (paddr p)) (Errorf ''claim family/address mismatch'' [])]))"

definition validate_claim_metadata :: "claim \<Rightarrow> goerr option" where
  "validate_claim_metadata c =
     first_err
       [refuse (\<not> claim_source_pattern (c_source c) \<or> c_actor c = [])
          (Errorf ''claim source or actor is invalid'' []),
        refuse (128 < length (c_actor c) \<or> 1024 < length (c_reason c))
          (Errorf ''claim actor or reason exceeds its size limit'' []),
        refuse (is_allow_source (c_source c) \<and> c_expires c = None)
          (Errorf ''temporary access claim requires an expiry'' [])]"

section \<open>The statements\<close>

definition sql_live :: "gotime \<Rightarrow> claim \<Rightarrow> bool" where
  "sql_live now c = (case c_expires c of None \<Rightarrow> True | Some e \<Rightarrow> text_after e now)"

definition live_count :: "gotime \<Rightarrow> db \<Rightarrow> nat" where
  "live_count now d = length (filter (sql_live now) (claims d))"

definition sql_insert_claim :: "claim \<Rightarrow> db \<Rightarrow> (int \<times> db) result" where
  "sql_insert_claim c d =
     (if c_family c \<noteq> ''ipv4'' \<and> c_family c \<noteq> ''ipv6'' then Err (Errorf ''CHECK constraint failed: family'' [])
      else if claim_seq d = max_int64 then Err (Errorf ''database or disk is full'' [])
      else let i = claim_seq d + 1 in Ok (i, d\<lparr>claims := claims d @ [c\<lparr>c_id := i\<rparr>], claim_seq := i\<rparr>))"

definition sql_insert_claim_id :: "claim \<Rightarrow> db \<Rightarrow> (unit \<times> db) result" where
  "sql_insert_claim_id c d =
     (if c_family c \<noteq> ''ipv4'' \<and> c_family c \<noteq> ''ipv6'' then Err (Errorf ''CHECK constraint failed: family'' [])
      else if c_id c \<in> c_id ` set (claims d) then Err (Errorf ''UNIQUE constraint failed: claims.id'' [])
      else Ok ((), d\<lparr>claims := claims d @ [c], claim_seq := max (claim_seq d) (c_id c)\<rparr>))"

definition sql_delete_claims :: "(claim \<Rightarrow> bool) \<Rightarrow> db \<Rightarrow> (nat \<times> db) result" where
  "sql_delete_claims P d =
     Ok (length (filter P (claims d)), d\<lparr>claims := filter (\<lambda>c. \<not> P c) (claims d)\<rparr>)"

text \<open>\<^verbatim>\<open>INSERT INTO integration_state ... ON CONFLICT(name) DO UPDATE\<close>: \<open>row\<close> is inserted, or the row
  with its name becomes \<open>upd\<close> of it.\<close>

definition sql_upsert ::
  "integration_state \<Rightarrow> (integration_state \<Rightarrow> integration_state) \<Rightarrow> db \<Rightarrow> (unit \<times> db) result" where
  "sql_upsert row upd d =
     (if is_count row < 0 then Err (Errorf ''CHECK constraint failed: entry_count'' [])
      else Ok ((), d\<lparr>integrations :=
             (if is_name row \<in> is_name ` set (integrations d)
              then map (\<lambda>r. if is_name r = is_name row then upd r else r) (integrations d)
              else integrations d @ [row])\<rparr>))"

definition sql_bump :: "db \<Rightarrow> (nat \<times> db) result" where
  "sql_bump d =
     (case publication d of
        None \<Rightarrow> Ok (0, d)
      | Some p \<Rightarrow> Ok (1, d\<lparr>publication := Some (p\<lparr>p_desired := p_desired p + 1\<rparr>)\<rparr>))"

definition sql_publication :: "db \<Rightarrow> claim_publication result" where
  "sql_publication d = (case publication d of None \<Rightarrow> Err ErrNoRows | Some p \<Rightarrow> Ok p)"

definition rows_affected :: "('x, 'z) env_scheme \<Rightarrow> nat \<Rightarrow> (('k, 'x) world, nat) prog" where
  "rows_affected env n = thenP (io env ''RowsAffected'') (ret n)"

section \<open>Publication\<close>

definition runtime_claims :: string where "runtime_claims = ''runtime/claims''"

definition mark_runtime_claims_degraded :: "('x, 'z) env_scheme \<Rightarrow> gotime \<Rightarrow> (('k, 'x) world, unit) prog" where
  "mark_runtime_claims_degraded env now =
     bindP (query env ''SELECT COUNT(*) FROM claims'' (\<lambda>d. Ok (live_count now d))) (\<lambda>cnt.
     exec env ''INSERT INTO integration_state''
       (sql_upsert \<lparr>is_name = runtime_claims, is_status = ''degraded'', is_count = int cnt,
                    is_last = None, is_updated = now\<rparr>
          (\<lambda>r. r\<lparr>is_status := ''degraded'', is_count := int cnt, is_updated := now\<rparr>)))"

definition mark_claim_publication_dirty :: "('x, 'z) env_scheme \<Rightarrow> gotime \<Rightarrow> (('k, 'x) world, unit) prog" where
  "mark_claim_publication_dirty env now =
     bindP (exec env ''UPDATE runtime_claim_publication'' sql_bump) (\<lambda>n.
     bindP (rows_affected env n) (\<lambda>updated.
     thenP (refuseP (updated \<noteq> 1) (Errorf ''runtime claim publication state is missing'' []))
       (mark_runtime_claims_degraded env now)))"

definition revision_invalid :: "claim_publication \<Rightarrow> goerr option" where
  "revision_invalid p =
     refuse (p_desired p < p_applied p) (Errorf ''runtime claim publication revision is invalid'' [])"

definition claim_publication_state :: "('x, 'z) env_scheme \<Rightarrow> (('k, 'x) world, claim_publication) prog" where
  "claim_publication_state env =
     bindP (query env ''SELECT FROM runtime_claim_publication'' sql_publication) (\<lambda>p.
     thenP (check (revision_invalid p)) (ret p))"

definition prepare_claim_publication :: "('x, 'z) env_scheme \<Rightarrow> (('k, 'x) world, nat) prog" where
  "prepare_claim_publication env =
     in_tx env
       (bindP (query env ''SELECT FROM runtime_claim_publication'' sql_publication) (\<lambda>p.
        thenP (check (revision_invalid p))
        (bindP (time_now env) (\<lambda>now.
         if p_desired p = p_applied p
         then thenP (mark_claim_publication_dirty env now) (ret (p_desired p + 1))
         else thenP (mark_runtime_claims_degraded env now) (ret (p_desired p))))))"

definition sql_mark_applied :: "nat \<Rightarrow> db \<Rightarrow> (nat \<times> db) result" where
  "sql_mark_applied revision d =
     (case publication d of
        None \<Rightarrow> Ok (0, d)
      | Some p \<Rightarrow> if p_desired p = revision
                  then Ok (1, d\<lparr>publication := Some (p\<lparr>p_applied := revision\<rparr>)\<rparr>) else Ok (0, d))"

definition mark_claims_published :: "('x, 'z) env_scheme \<Rightarrow> nat \<Rightarrow> int \<Rightarrow> (('k, 'x) world, unit) prog" where
  "mark_claims_published env revision cnt =
     thenP (refuseP (cnt < 0) (Errorf ''runtime claim count is invalid'' []))
       (in_tx env
         (bindP (time_now env) (\<lambda>_.
          bindP (exec env ''UPDATE runtime_claim_publication'' (sql_mark_applied revision)) (\<lambda>n.
          bindP (rows_affected env n) (\<lambda>updated.
          thenP (refuseP (updated \<noteq> 1) (Errorf ''runtime claims changed during publication'' []))
          (bindP (time_now env) (\<lambda>now.
           exec env ''INSERT INTO integration_state''
             (sql_upsert \<lparr>is_name = runtime_claims, is_status = ''healthy'', is_count = cnt,
                          is_last = Some now, is_updated = now\<rparr>
                (\<lambda>r. r\<lparr>is_status := ''healthy'', is_count := cnt, is_last := Some now,
                       is_updated := now\<rparr>)))))))))"

section \<open>Adding and removing claims\<close>

definition add_claim_bounded :: "('x, 'z) env_scheme \<Rightarrow> claim \<Rightarrow> int \<Rightarrow> (('k, 'x) world, int) prog" where
  "add_claim_bounded env c0 bound =
     thenP (check (validate_claim (c_address c0) (c_family c0)))
     (thenP (check (validate_claim_metadata c0))
     (bindP (time_now env) (\<lambda>now.
      let c = c0\<lparr>c_reason := (if c_reason c0 = [] then ''unspecified'' else c_reason c0),
                 c_created := (if c_created c0 = zero_time then now else c_created c0)\<rparr> in
      in_tx env
        (thenP (if 0 < bound
                then bindP (query env ''SELECT COUNT(*) FROM claims'' (\<lambda>d. Ok (live_count now d))) (\<lambda>cnt.
                     refuseP (bound \<le> int cnt) (Errorf ''claim limit reached (%d)'' [itoa_int bound]))
                else ret ())
        (bindP (exec env ''INSERT INTO claims'' (sql_insert_claim c)) (\<lambda>i.
         thenP (io env ''LastInsertId'')
         (thenP (exec env ''INSERT INTO audit'' (sql_audit now (c_actor c) ''claim_added''
                   (''id='' @ itoa_int i @ '' address='' @ c_address c @ '' source='' @ c_source c)))
         (thenP (mark_claim_publication_dirty env now) (ret i)))))))))"

definition add_claim :: "('x, 'z) env_scheme \<Rightarrow> claim \<Rightarrow> (('k, 'x) world, int) prog" where
  "add_claim env c = add_claim_bounded env c 0"

definition claim_removed :: "('x, 'z) env_scheme \<Rightarrow> string \<Rightarrow> int \<Rightarrow> (('k, 'x) world, unit) prog" where
  "claim_removed env actor i =
     bindP (time_now env) (\<lambda>now.
     thenP (exec env ''INSERT INTO audit'' (sql_audit now actor ''claim_removed'' (''id='' @ itoa_int i)))
       (mark_claim_publication_dirty env now))"

definition remove_claim :: "('x, 'z) env_scheme \<Rightarrow> int \<Rightarrow> string \<Rightarrow> (('k, 'x) world, unit) prog" where
  "remove_claim env i actor =
     thenP (refuseP (i \<le> 0) (Errorf ''claim id must be positive'' []))
     (in_tx env
       (bindP (exec env ''DELETE FROM claims'' (sql_delete_claims (\<lambda>c. c_id c = i))) (\<lambda>n0.
        bindP (attempt (rows_affected env n0)) (\<lambda>n.
        thenP (refuseP (case n of Inl _ \<Rightarrow> True | Inr k \<Rightarrow> k = 0) ErrNoRows)
          (claim_removed env actor i)))))"

definition sql_claim_source :: "int \<Rightarrow> db \<Rightarrow> string result" where
  "sql_claim_source i d =
     (case find (\<lambda>c. c_id c = i) (claims d) of None \<Rightarrow> Err ErrNoRows | Some c \<Rightarrow> Ok (c_source c))"

definition operator_may_remove :: "string \<Rightarrow> string \<Rightarrow> bool" where
  "operator_may_remove kind source \<longleftrightarrow>
     kind = ''block'' \<and> source = ''manual'' \<or> kind = ''allow'' \<and> is_allow_source source"

definition remove_operator_claim ::
  "('x, 'z) env_scheme \<Rightarrow> int \<Rightarrow> string \<Rightarrow> string \<Rightarrow> (('k, 'x) world, unit) prog" where
  "remove_operator_claim env i actor kind =
     thenP (refuseP (i \<le> 0) (Errorf ''claim id must be positive'' []))
     (in_tx env
       (bindP (query env ''SELECT source FROM claims'' (sql_claim_source i)) (\<lambda>source.
        thenP (refuseP (\<not> operator_may_remove kind source)
                (Errorf ''claim %d with source %s cannot be removed as %s'' [itoa_int i, source, kind]))
        (bindP (exec env ''DELETE FROM claims'' (sql_delete_claims (\<lambda>c. c_id c = i))) (\<lambda>_.
         claim_removed env actor i)))))"

text \<open>The addresses of a feed, in canonical form: masked, without duplicates, none \<^verbatim>\<open>/0\<close>.\<close>

definition replacement_prefix :: "string \<Rightarrow> prefix_t result" where
  "replacement_prefix raw =
     (case parse_prefix raw of
        Some p \<Rightarrow> Ok p
      | None \<Rightarrow> (case parse_addr raw of
                   Some ip \<Rightarrow> Ok (prefix_from ip (int (bit_len ip)))
                 | None \<Rightarrow> Err (Errorf ''invalid replacement claim %q'' [raw])))"

definition canonical_step :: "string list \<Rightarrow> string \<Rightarrow> string list result" where
  "canonical_step seen raw =
     bindE (replacement_prefix raw) (\<lambda>p.
     if pbits p = 0 then Err (Errorf ''replacement claim /0 is forbidden'' [])
     else let v = prefix_string (masked p) in Ok (if v \<in> set seen then seen else seen @ [v]))"

definition canonical_addresses :: "string list \<Rightarrow> string list result" where
  "canonical_addresses raws = bindE (foldE canonical_step [] raws) (\<lambda>vs. Ok (sort vs))"

definition address_family :: "string \<Rightarrow> string" where
  "address_family a =
     (case parse_prefix a of
        Some p \<Rightarrow> if is4 (paddr p) then ''ipv4'' else ''ipv6''
      | None \<Rightarrow> ''ipv6'')"

definition replacement_claim :: "string \<Rightarrow> string \<Rightarrow> string \<Rightarrow> gotime \<Rightarrow> string \<Rightarrow> claim" where
  "replacement_claim source reason actor now a =
     \<lparr>c_id = 0, c_address = a, c_family = address_family a, c_source = source, c_reason = reason,
      c_actor = actor, c_created = now, c_expires = None\<rparr>"

definition replace_guard :: "string \<Rightarrow> string \<Rightarrow> string \<Rightarrow> goerr option" where
  "replace_guard source reason actor =
     first_err
       [refuse (source = [] \<or> actor = []) (Errorf ''claim source and actor are required'' []),
        refuse (129 < length source \<or> 128 < length actor \<or> 1024 < length reason)
          (Errorf ''claim source, actor, or reason exceeds its size limit'' []),
        refuse (\<not> claim_source_pattern source \<or> is_allow_source source)
          (Errorf ''integration claim source is invalid or reserved for temporary access'' [])]"

definition replace_tx ::
  "('x, 'z) env_scheme \<Rightarrow> string \<Rightarrow> string \<Rightarrow> string \<Rightarrow> string list \<Rightarrow> int \<Rightarrow> (('k, 'x) world, nat) prog" where
  "replace_tx env source reason actor canonical bound =
     bindP (exec env ''DELETE FROM claims'' (sql_delete_claims (\<lambda>c. c_source c = source))) (\<lambda>_.
     thenP (if 0 < bound
            then bindP (time_now env) (\<lambda>t.
                 bindP (query env ''SELECT COUNT(*) FROM claims'' (\<lambda>d. Ok (live_count t d))) (\<lambda>remaining.
                 refuseP (bound < int (remaining + length canonical))
                   (Errorf ''claim limit would be exceeded (%d)'' [itoa_int bound])))
            else ret ())
     (bindP (time_now env) (\<lambda>now.
      thenP (forP (\<lambda>a. bindP (exec env ''INSERT INTO claims''
                            (sql_insert_claim (replacement_claim source reason actor now a))) (\<lambda>_. ret ()))
               canonical)
      (thenP (exec env ''INSERT INTO audit'' (sql_audit now actor ''claim_source_replaced''
                (''source='' @ source @ '' entries='' @ itoa (length canonical))))
      (thenP (io env ''time.Parse'')
      (thenP (mark_claim_publication_dirty env now) (ret (length canonical))))))))"

definition replace_source_claims_bounded ::
  "('x, 'z) env_scheme \<Rightarrow> string \<Rightarrow> string \<Rightarrow> string \<Rightarrow> string list \<Rightarrow> int \<Rightarrow> (('k, 'x) world, nat) prog" where
  "replace_source_claims_bounded env source reason0 actor addresses bound =
     thenP (check (replace_guard source reason0 actor))
     (let reason = (if reason0 = [] then ''integration'' else reason0) in
      bindP (of_result (canonical_addresses addresses)) (\<lambda>canonical.
      in_tx env (replace_tx env source reason actor canonical bound)))"

definition replace_source_claims ::
  "('x, 'z) env_scheme \<Rightarrow> string \<Rightarrow> string \<Rightarrow> string \<Rightarrow> string list \<Rightarrow> (('k, 'x) world, nat) prog" where
  "replace_source_claims env source reason actor addresses =
     replace_source_claims_bounded env source reason actor addresses 0"

definition restore_claim :: "('x, 'z) env_scheme \<Rightarrow> claim \<Rightarrow> string \<Rightarrow> (('k, 'x) world, unit) prog" where
  "restore_claim env c actor =
     thenP (refuseP (c_id c \<le> 0 \<or> actor = []) (Errorf ''restored claim id and actor are required'' []))
     (thenP (check (validate_claim (c_address c) (c_family c)))
     (thenP (check (validate_claim_metadata c))
     (in_tx env
       (thenP (exec env ''INSERT INTO claims'' (sql_insert_claim_id c))
       (bindP (time_now env) (\<lambda>now.
        thenP (exec env ''INSERT INTO audit'' (sql_audit now actor ''claim_restored'' (''id='' @ itoa_int (c_id c))))
          (mark_claim_publication_dirty env now)))))))"

definition purge_expired_claims :: "('x, 'z) env_scheme \<Rightarrow> gotime \<Rightarrow> (('k, 'x) world, nat) prog" where
  "purge_expired_claims env now =
     in_tx env
       (bindP (exec env ''DELETE FROM claims''
                 (sql_delete_claims (\<lambda>c. case c_expires c of None \<Rightarrow> False | Some e \<Rightarrow> \<not> text_after e now))) (\<lambda>n.
        bindP (rows_affected env n) (\<lambda>cnt.
        thenP (if 0 < cnt
               then thenP (exec env ''INSERT INTO audit'' (sql_audit now ''system'' ''expired_claims_purged''
                             (''count='' @ itoa cnt)))
                      (mark_claim_publication_dirty env now)
               else ret ())
          (ret cnt))))"

section \<open>Reading claims\<close>

definition claim_less :: "claim \<Rightarrow> claim \<Rightarrow> bool" where
  "claim_less a b \<longleftrightarrow>
     c_address a < c_address b \<or>
     c_address a = c_address b \<and> (c_source a < c_source b \<or> c_source a = c_source b \<and> c_id a < c_id b)"

definition live_claims :: "gotime \<Rightarrow> db \<Rightarrow> claim list" where
  "live_claims now d = sort_slice claim_less (filter (sql_live now) (claims d))"

definition scan_claim :: "claim \<Rightarrow> goerr option" where
  "scan_claim c =
     first_err
       [map_option (Wrapf ''invalid persisted claim %d: %w'' [itoa_int (c_id c)])
          (validate_claim (c_address c) (c_family c)),
        map_option (Wrapf ''invalid persisted claim %d: %w'' [itoa_int (c_id c)])
          (validate_claim_metadata c)]"

definition scan_claims :: "('x, 'z) env_scheme \<Rightarrow> claim list \<Rightarrow> (('k, 'x) world, claim list) prog" where
  "scan_claims env rows =
     thenP (forP (\<lambda>c. thenP (io env ''rows.Scan'') (check (scan_claim c))) rows)
       (thenP (io env ''rows.Err'') (ret rows))"

definition claims_at :: "('x, 'z) env_scheme \<Rightarrow> gotime \<Rightarrow> (('k, 'x) world, claim list) prog" where
  "claims_at env now =
     bindP (query env ''SELECT FROM claims'' (\<lambda>d. Ok (live_claims now d))) (scan_claims env)"

definition claims_with_publication ::
  "('x, 'z) env_scheme \<Rightarrow> gotime \<Rightarrow> (('k, 'x) world, claim list \<times> claim_publication) prog" where
  "claims_with_publication env now =
     in_tx env
       (bindP (query env ''SELECT FROM claims'' (\<lambda>d. Ok (live_claims now d))) (\<lambda>rows.
        bindP (attempt (scan_claims env rows)) (\<lambda>scanned.
        bindP (attempt (io env ''rows.Close'')) (\<lambda>closed.
        bindP (of_result scanned) (\<lambda>cs.
        thenP (of_result closed)
        (bindP (query env ''SELECT FROM runtime_claim_publication'' sql_publication) (\<lambda>p.
         thenP (check (revision_invalid p)) (ret (cs, p)))))))))"

definition claims_page :: "('x, 'z) env_scheme \<Rightarrow> gotime \<Rightarrow> int \<Rightarrow> int \<Rightarrow> (('k, 'x) world, claim list) prog" where
  "claims_page env now limit offset =
     thenP (refuseP (limit < 1 \<or> 1000 < limit \<or> offset < 0 \<or> 1000000 < offset)
              (Errorf ''invalid claim page bounds'' []))
     (bindP (query env ''SELECT FROM claims''
               (\<lambda>d. Ok (take (nat limit) (drop (nat offset) (live_claims now d))))) (scan_claims env))"

definition active_claim_count :: "('x, 'z) env_scheme \<Rightarrow> gotime \<Rightarrow> (('k, 'x) world, nat) prog" where
  "active_claim_count env now = query env ''SELECT COUNT(*) FROM claims'' (\<lambda>d. Ok (live_count now d))"

definition claim_count_excluding_source :: "('x, 'z) env_scheme \<Rightarrow> string \<Rightarrow> (('k, 'x) world, nat) prog" where
  "claim_count_excluding_source env source =
     query env ''SELECT COUNT(*) FROM claims'' (\<lambda>d. Ok (length (filter (\<lambda>c. c_source c \<noteq> source) (claims d))))"

definition source_claim_count :: "('x, 'z) env_scheme \<Rightarrow> string \<Rightarrow> (('k, 'x) world, nat) prog" where
  "source_claim_count env source =
     query env ''SELECT COUNT(*) FROM claims'' (\<lambda>d. Ok (length (filter (\<lambda>c. c_source c = source) (claims d))))"

definition effective_addresses :: "claim list \<Rightarrow> string \<Rightarrow> string list" where
  "effective_addresses cs family =
     sort (remdups (map c_address (filter (\<lambda>c. c_family c = family \<and> \<not> is_allow_source (c_source c)) cs)))"

definition effective_addresses_from :: "claim list \<Rightarrow> string \<Rightarrow> string \<Rightarrow> string list" where
  "effective_addresses_from cs family source_prefix =
     sort (remdups (map c_address (filter (\<lambda>c. c_family c = family \<and>
       (source_prefix = [] \<or> source_prefix = ''allow'' \<and> is_allow_source (c_source c) \<or>
        has_prefix (c_source c) (source_prefix @ ''/''))) cs)))"

section \<open>Audit records and integration states\<close>

definition validate_audit_record :: "string \<Rightarrow> string \<Rightarrow> string \<Rightarrow> string result" where
  "validate_audit_record actor event detail =
     (if actor = [] \<or> event = [] \<or> 128 < length actor \<or> 128 < length event
      then Err (Errorf ''audit actor or event is invalid'' [])
      else Ok (take 4096 detail))"

definition audit :: "('x, 'z) env_scheme \<Rightarrow> string \<Rightarrow> string \<Rightarrow> string \<Rightarrow> (('k, 'x) world, unit) prog" where
  "audit env actor event detail0 =
     bindP (of_result (validate_audit_record actor event detail0)) (\<lambda>detail.
     bindP (time_now env) (\<lambda>now.
     exec env ''INSERT INTO audit'' (sql_audit now actor event detail)))"

definition audit_durable :: "('x, 'z) env_scheme \<Rightarrow> string \<Rightarrow> string \<Rightarrow> string \<Rightarrow> (('k, 'x) world, unit) prog" where
  "audit_durable env actor event detail0 =
     bindP (of_result (validate_audit_record actor event detail0)) (\<lambda>detail.
     thenP (in_tx env (bindP (time_now env) (\<lambda>now.
              exec env ''INSERT INTO audit'' (sql_audit now actor event detail))))
       (sync_database env))"

definition recent_audit :: "('x, 'z) env_scheme \<Rightarrow> int \<Rightarrow> (('k, 'x) world, audit_row list) prog" where
  "recent_audit env limit0 =
     (let limit = (if limit0 \<le> 0 \<or> 1000 < limit0 then 100 else limit0) in
      bindP (query env ''SELECT FROM audit'' (\<lambda>d. Ok (take (nat limit)
               (sort_slice (\<lambda>a b. au_id b < au_id a) (audits d))))) (\<lambda>rows.
      thenP (forP (\<lambda>_. io env ''rows.Scan'') rows) (thenP (io env ''rows.Err'') (ret rows))))"

definition integration_named :: "string \<Rightarrow> db \<Rightarrow> integration_state result" where
  "integration_named name d =
     (case find (\<lambda>r. is_name r = name) (integrations d) of None \<Rightarrow> Err ErrNoRows | Some r \<Rightarrow> Ok r)"

definition set_integration_state ::
  "('x, 'z) env_scheme \<Rightarrow> string \<Rightarrow> string \<Rightarrow> int \<Rightarrow> bool \<Rightarrow> (('k, 'x) world, unit) prog" where
  "set_integration_state env name status cnt success =
     thenP (refuseP (name = [] \<or> status \<noteq> ''healthy'' \<and> status \<noteq> ''degraded'' \<or> cnt < 0)
              (Errorf ''invalid integration state'' []))
     (bindP (time_now env) (\<lambda>now.
      bindP (if success then ret (Some now)
             else bindP (attempt (query env ''SELECT last_success'' (integration_named name))) (\<lambda>r.
                  ret (case r of Inl _ \<Rightarrow> None | Inr row \<Rightarrow> is_last row))) (\<lambda>last.
      let row = \<lparr>is_name = name, is_status = status, is_count = cnt, is_last = last, is_updated = now\<rparr> in
      exec env ''INSERT INTO integration_state'' (sql_upsert row (\<lambda>_. row)))))"

definition integration_states :: "('x, 'z) env_scheme \<Rightarrow> (('k, 'x) world, integration_state list) prog" where
  "integration_states env =
     bindP (query env ''SELECT FROM integration_state''
              (\<lambda>d. Ok (sort_slice (\<lambda>a b. is_name a < is_name b) (integrations d)))) (\<lambda>rows.
     thenP (forP (\<lambda>_. io env ''rows.Scan'') rows) (thenP (io env ''rows.Err'') (ret rows)))"

definition integration_state_of :: "('x, 'z) env_scheme \<Rightarrow> string \<Rightarrow> (('k, 'x) world, integration_state) prog" where
  "integration_state_of env name = query env ''SELECT FROM integration_state'' (integration_named name)"

text \<open>SQLite's \<^verbatim>\<open>LIKE\<close> ignores the case of ASCII letters.\<close>

definition ascii_lower :: "char \<Rightarrow> char" where
  "ascii_lower c = (if is_upper c then char_of (byte c + 32) else c)"

definition sql_like_prefix :: "string \<Rightarrow> string \<Rightarrow> bool" where
  "sql_like_prefix s p = has_prefix (map ascii_lower s) (map ascii_lower p)"

definition managed_sources :: "db \<Rightarrow> string list" where
  "managed_sources d =
     sort (remdups (filter (\<lambda>s. sql_like_prefix s ''threatfeed/'' \<or> sql_like_prefix s ''geo/'')
       (map c_source (claims d))))"

definition managed_state :: "string \<Rightarrow> bool" where
  "managed_state name \<longleftrightarrow> name = ''docker'' \<or> has_prefix name ''wireguard/'' \<or>
     has_prefix name ''threatfeed/'' \<or> has_prefix name ''geo/''"

definition retire_sources :: "('x, 'z) env_scheme \<Rightarrow> string list \<Rightarrow> nat \<Rightarrow> (('k, 'x) world, nat) prog" where
  "retire_sources env sources k0 =
     foldr (\<lambda>s k n. bindP (exec env ''DELETE FROM claims'' (sql_delete_claims (\<lambda>c. c_source c = s))) (\<lambda>m.
                     bindP (rows_affected env m) (\<lambda>cnt. k (n + cnt)))) sources ret k0"

definition retire_states :: "('x, 'z) env_scheme \<Rightarrow> string list \<Rightarrow> (('k, 'x) world, unit) prog" where
  "retire_states env states =
     forP (\<lambda>n. exec env ''DELETE FROM integration_state'' (\<lambda>d.
       Ok ((), d\<lparr>integrations := filter (\<lambda>r. is_name r \<noteq> n) (integrations d)\<rparr>))) states"

definition retire_finish ::
  "('x, 'z) env_scheme \<Rightarrow> (string \<Rightarrow> bool) \<Rightarrow> string list \<Rightarrow> nat \<Rightarrow> (('k, 'x) world, nat) prog" where
  "retire_finish env active inactive removed =
     bindP (query env ''SELECT name FROM integration_state''
              (\<lambda>d. Ok (sort (map is_name (integrations d))))) (\<lambda>names.
     thenP (forP (\<lambda>_. io env ''rows.Scan'') names)
     (thenP (io env ''rows.Err'') (thenP (io env ''rows.Close'')
     (let states = filter (\<lambda>n. managed_state n \<and> \<not> active n) names in
      thenP (retire_states env states)
      (bindP (time_now env) (\<lambda>now.
       thenP (if 0 < removed then mark_claim_publication_dirty env now else ret ())
       (thenP (if inactive \<noteq> [] \<or> states \<noteq> []
               then exec env ''INSERT INTO audit'' (sql_audit now ''system'' ''inactive_integrations_retired''
                      (''claim_sources='' @ itoa (length inactive) @ '' states='' @ itoa (length states) @
                       '' claims='' @ itoa removed))
               else ret ())
         (ret removed))))))))"

definition retire_inactive_integrations ::
  "('x, 'z) env_scheme \<Rightarrow> (string \<Rightarrow> bool) \<Rightarrow> (('k, 'x) world, nat) prog" where
  "retire_inactive_integrations env active =
     in_tx env
       (bindP (query env ''SELECT DISTINCT source FROM claims'' (\<lambda>d. Ok (managed_sources d))) (\<lambda>sources.
        thenP (forP (\<lambda>_. io env ''rows.Scan'') sources)
        (thenP (io env ''rows.Err'') (thenP (io env ''rows.Close'')
        (let inactive = filter (\<lambda>s. \<not> active s) sources in
         bindP (retire_sources env inactive 0) (retire_finish env active inactive))))))"

end
