(* ===== verification/Netip_Text.thy ===== *)
theory Netip_Text
  imports Netip
begin

text \<open>
  Printing and parsing of addresses and prefixes are inverse: what \<^verbatim>\<open>Prefix.String\<close> prints,
  \<^verbatim>\<open>ParsePrefix\<close> reads back, for IPv4, for IPv6 with the longest run of zero groups left out, and for
  IPv4-mapped IPv6 addresses.
\<close>

section \<open>Hexadecimal groups\<close>

lemma hex_digit: "d < 16 \<Longrightarrow> hex_val (digit_char d) = Some d"
proof -
  assume "d < 16"
  then have "d = 0 \<or> d = 1 \<or> d = 2 \<or> d = 3 \<or> d = 4 \<or> d = 5 \<or> d = 6 \<or> d = 7 \<or> d = 8 \<or> d = 9 \<or>
    d = 10 \<or> d = 11 \<or> d = 12 \<or> d = 13 \<or> d = 14 \<or> d = 15" by presburger
  then show ?thesis by (elim disjE) (simp_all add: digit_char_def hex_val_def char_class_defs)
qed

lemma hex_str_group:
  assumes "n < 65536"
  shows "hex_str n =
    (if n < 16 then [digit_char n]
     else if n < 256 then [digit_char (n div 16), digit_char (n mod 16)]
     else if n < 4096 then [digit_char (n div 256), digit_char (n div 16 mod 16), digit_char (n mod 16)]
     else [digit_char (n div 4096), digit_char (n div 256 mod 16), digit_char (n div 16 mod 16),
           digit_char (n mod 16)])"
proof -
  have "n div 16 div 16 = n div 256" "n div 256 div 16 = n div 4096" by (simp_all add: div_mult2_eq [symmetric])
  with assms show ?thesis
    by (auto simp: hex_str.simps [of n] hex_str.simps [of "n div 16"] hex_str.simps [of "n div 256"]
        hex_str.simps [of "n div 4096"])
qed

lemma hex_str_nonempty [simp]: "hex_str n \<noteq> []"
  by (subst hex_str.simps) simp

lemma hex_str_digits: "\<forall>c \<in> set (hex_str n). hex_val c \<noteq> None"
proof (induction n rule: hex_str.induct)
  case (1 n)
  then show ?case by (cases "n < 16") (subst hex_str.simps, simp add: hex_digit)+
qed

lemma hex_run_group:
  assumes "n < 65536" "rest = [] \<or> hex_val (hd rest) = None"
  shows "hex_run (hex_str n @ rest) 0 0 = Some (length (hex_str n), n, rest)"
proof -
  have stop: "hex_run rest k a = Some (k, a, rest)" for k a
    using assms(2) by (cases rest) auto
  have d: "n div 256 div 16 = n div 4096" "n div 16 div 16 = n div 256" by (simp_all add: div_mult2_eq [symmetric])
  have e: "n div 256 * 16 + n div 16 mod 16 = n div 16" "n div 4096 * 16 + n div 256 mod 16 = n div 256"
    "n div 16 * 16 + n mod 16 = n"
    using div_mult_mod_eq [of "n div 16" 16] div_mult_mod_eq [of "n div 256" 16] by (simp_all add: d)
  show ?thesis using assms(1) e by (auto simp: hex_str_group hex_digit stop)
qed

lemma hex_not_special:
  assumes "hex_val c \<noteq> None"
  shows "c \<noteq> CHR '':''" "c \<noteq> CHR ''.''" "c \<noteq> CHR ''%''" "c \<noteq> CHR ''/''"
  using assms by (auto simp: hex_val_def char_class_defs)

lemma hd_hex: "hex_val (hd (hex_str n @ rest)) \<noteq> None"
  using hex_str_digits [of n] by (cases "hex_str n") auto

definition hex_groups :: "nat list \<Rightarrow> string" where
  "hex_groups gs = join_str '':'' (map hex_str gs)"

lemma hex_groups_simps [simp]:
  "hex_groups [] = []" "hex_groups [g] = hex_str g"
  "hex_groups (g # h # gs) = hex_str g @ CHR '':'' # hex_groups (h # gs)"
  by (simp_all add: hex_groups_def)

lemma hex_groups_hd: "gs \<noteq> [] \<Longrightarrow> hex_groups gs \<noteq> [] \<and> hex_val (hd (hex_groups gs)) \<noteq> None"
proof (cases gs)
  case (Cons g t)
  then show ?thesis using hd_hex [of g "[]"] hd_hex [of g] by (cases t) auto
qed simp

lemma hex_groups_chars: "c \<in> set (hex_groups gs) \<Longrightarrow> c = CHR '':'' \<or> hex_val c \<noteq> None"
  using hex_str_digits by (induction gs rule: remdups_adj.induct) auto

section \<open>The loop over the groups\<close>

lemma v6_groups_last:
  "g < 65536 \<Longrightarrow> v6_groups (Suc n) (hex_str g) acc ell = Some ([], acc @ [g], ell)"
  using hex_run_group [of g "[]"] by simp

lemma v6_groups_colon:
  assumes "g < 65536" "s \<noteq> []" "hd s \<noteq> CHR '':''"
  shows "v6_groups (Suc n) (hex_str g @ CHR '':'' # s) acc ell = v6_groups n s (acc @ [g]) ell"
proof -
  have "hex_val (CHR '':'') = None" by (simp add: hex_val_def char_class_defs)
  with assms show ?thesis using hex_run_group [of g "CHR '':'' # s"] by simp
qed

lemma v6_groups_ellipsis:
  assumes "g < 65536"
  shows "v6_groups (Suc n) (hex_str g @ '':'' @ '':'' @ s) acc None =
    (if s = [] then Some ([], acc @ [g], Some (length acc + 1))
     else v6_groups n s (acc @ [g]) (Some (length acc + 1)))"
proof -
  have "hex_val (CHR '':'') = None" by (simp add: hex_val_def char_class_defs)
  with assms show ?thesis using hex_run_group [of g "'':'' @ '':'' @ s"] by simp
qed

lemma v6_groups_plain:
  assumes "\<forall>g \<in> set gs. g < 65536" "gs \<noteq> []" "length gs \<le> n"
  shows "v6_groups n (hex_groups gs) acc ell = Some ([], acc @ gs, ell)"
  using assms
proof (induction gs arbitrary: n acc rule: remdups_adj.induct)
  case (2 g)
  then show ?case by (cases n) (simp_all add: v6_groups_last del: v6_groups.simps)
next
  case (3 g h gs)
  then obtain m where n: "n = Suc m" by (cases n) auto
  from hex_groups_hd [of "h # gs"] have h: "hex_groups (h # gs) \<noteq> []" "hd (hex_groups (h # gs)) \<noteq> CHR '':''"
    using hex_not_special(1) by auto
  have "v6_groups m (hex_groups (h # gs)) (acc @ [g]) ell = Some ([], (acc @ [g]) @ h # gs, ell)"
    by (cases "g = h") (use 3 n in auto)
  with 3 n h show ?case by (simp add: v6_groups_colon del: v6_groups.simps hex_groups_simps(2))
qed simp

lemma v6_groups_gap:
  assumes "\<forall>g \<in> set (ls @ rs). g < 65536" "ls \<noteq> []" "length ls + length rs \<le> n"
  shows "v6_groups n (hex_groups ls @ '':'' @ '':'' @ hex_groups rs) acc None =
    Some ([], acc @ ls @ rs, Some (length acc + length ls))"
  using assms
proof (induction ls arbitrary: n acc rule: remdups_adj.induct)
  case (2 g)
  then obtain m where n: "n = Suc m" by (cases n) auto
  show ?case
  proof (cases "rs = []")
    case True
    with 2 n show ?thesis using v6_groups_ellipsis [of g m "[]" acc] by simp
  next
    case False
    with 2 n v6_groups_plain [of rs m "acc @ [g]" "Some (length acc + 1)"] hex_groups_hd [of rs]
    show ?thesis using v6_groups_ellipsis [of g m "hex_groups rs" acc] by (simp del: v6_groups.simps)
  qed
next
  case (3 g h gs)
  then obtain m where n: "n = Suc m" by (cases n) auto
  let ?t = "hex_groups (h # gs) @ '':'' @ '':'' @ hex_groups rs"
  from hex_groups_hd [of "h # gs"] have h: "?t \<noteq> []" "hd ?t \<noteq> CHR '':''"
    using hex_not_special(1) by auto
  have "v6_groups m ?t (acc @ [g]) None =
      Some ([], (acc @ [g]) @ (h # gs) @ rs, Some (length (acc @ [g]) + length (h # gs)))"
    by (cases "g = h") (use 3 n in auto)
  with 3 n h show ?case using v6_groups_colon [of g ?t m acc None] by simp
qed simp

section \<open>The run of zeros\<close>

lemma zero_len_run: "i < zero_len gs \<Longrightarrow> gs ! i = 0" "zero_len gs \<le> length gs"
  unfolding zero_len_def
  by (metis (mono_tags) nth_mem set_takeWhileD takeWhile_nth) (rule length_takeWhile_le)

definition run_ok :: "nat list \<Rightarrow> nat \<times> nat \<Rightarrow> bool" where
  "run_ok gs r \<longleftrightarrow> r = (255, 255) \<or>
     (fst r + 2 \<le> snd r \<and> snd r \<le> length gs \<and> (\<forall>i. fst r \<le> i \<and> i < snd r \<longrightarrow> gs ! i = 0))"

lemma zero_run_ok: "length gs = 8 \<Longrightarrow> run_ok gs (zero_run gs)"
proof -
  assume l: "length gs = 8"
  let ?f = "\<lambda>(zs, ze) i. let l = zero_len (drop i gs) in
              if 2 \<le> l \<and> ze - zs < l then (i, i + l) else (zs, ze)"
  have step: "run_ok gs r \<Longrightarrow> i < 8 \<Longrightarrow> run_ok gs (?f r i)" for r i
  proof -
    assume r: "run_ok gs r" "i < 8"
    have "zero_len (drop i gs) \<le> 8 - i" using zero_len_run(2) [of "drop i gs"] l by simp
    moreover have "gs ! j = 0" if "i \<le> j" "j < i + zero_len (drop i gs)" for j
    proof -
      from that zero_len_run(1) [of "j - i" "drop i gs"] have "drop i gs ! (j - i) = 0" by simp
      with that r l show ?thesis by simp
    qed
    ultimately show ?thesis using r l by (auto simp: run_ok_def Let_def split: prod.splits)
  qed
  have "run_ok gs r \<Longrightarrow> \<forall>i \<in> set is. i < 8 \<Longrightarrow> run_ok gs (foldl ?f r is)" for "is" r
    by (induction "is" arbitrary: r) (use step in \<open>auto simp del: split_paired_All\<close>)
  moreover have "run_ok gs (255, 255)" by (simp add: run_ok_def)
  ultimately show ?thesis unfolding zero_run_def by fastforce
qed

lemma drop_run:
  assumes "zs \<le> ze" "ze \<le> length gs" "\<forall>i. zs \<le> i \<and> i < ze \<longrightarrow> gs ! i = 0"
  shows "take zs gs @ replicate (ze - zs) 0 @ drop ze gs = gs"
proof -
  have "take (ze - zs) (drop zs gs) = replicate (ze - zs) 0"
    using assms by (intro nth_equalityI) auto
  then have "drop zs gs = replicate (ze - zs) 0 @ drop ze gs"
    using assms(1) append_take_drop_id [of "ze - zs" "drop zs gs"] by simp
  then show ?thesis by (metis append_take_drop_id)
qed

section \<open>IPv6 addresses\<close>

lemma groups6_bounds: "length (groups6 w) = 8" "\<forall>g \<in> set (groups6 w). g < 65536"
  by (simp_all add: groups6_def)

lemma word_of_groups6: "word_of_groups (groups6 w) = w"
proof -
  let ?n = "unat w"
  have "?n < 2 ^ 128" using unsigned_less [of w] by simp
  then have top: "?n div 65536 div 65536 div 65536 div 65536 div 65536 div 65536 div 65536 < 65536"
    by (simp add: div_mult2_eq [symmetric] less_mult_imp_div_less)
  have d: "unat (drop_bit k w) = ?n div 2 ^ k" for k
    unfolding unat_drop_bit_eq by (rule drop_bit_eq_div)
  have p: "?n div 2 ^ 16 = ?n div 65536" "?n div 2 ^ 32 = ?n div 65536 div 65536"
    "?n div 2 ^ 48 = ?n div 65536 div 65536 div 65536"
    "?n div 2 ^ 64 = ?n div 65536 div 65536 div 65536 div 65536"
    "?n div 2 ^ 80 = ?n div 65536 div 65536 div 65536 div 65536 div 65536"
    "?n div 2 ^ 96 = ?n div 65536 div 65536 div 65536 div 65536 div 65536 div 65536"
    "?n div 2 ^ 112 = ?n div 65536 div 65536 div 65536 div 65536 div 65536 div 65536 div 65536"
    by (simp_all add: div_mult2_eq [symmetric])
  have "foldl (\<lambda>a g. a * 65536 + g) 0 (groups6 w) = ?n"
    using top by (simp only: groups6_def list.map foldl.simps d p) simp
  then show ?thesis by (simp add: word_of_groups_def)
qed

lemma no_percent:
  assumes "CHR ''%'' \<notin> set s"
  shows "split_zone s = Some (s, [])"
proof -
  from assms have "takeWhile (\<lambda>c. c \<noteq> CHR ''%'') s = s" "dropWhile (\<lambda>c. c \<noteq> CHR ''%'') s = []"
    by (simp_all add: takeWhile_eq_all_conv dropWhile_eq_Nil_conv) auto
  then show ?thesis by (simp add: split_zone_def)
qed

lemma foldl_zeros: "foldl (\<lambda>a g. a * 65536 + g) 0 (replicate n 0) = (0::nat)"
  by (induction n) simp_all

lemma percent_not_in_groups: "CHR ''%'' \<notin> set (hex_groups gs)"
  using hex_groups_chars hex_not_special(3) by force

lemma parse_ipv6_groups:
  assumes "length gs = 8" "\<forall>g \<in> set gs. g < 65536"
  shows "parse_ipv6 (hex_groups gs) = Some (A6 (word_of_groups gs) [])"
proof -
  have ne: "gs \<noteq> []" using assms by auto
  then have "hd (hex_groups gs) \<noteq> CHR '':''" using hex_groups_hd [of gs] hex_not_special(1) by blast
  then have "\<not> prefix ''::'' (hex_groups gs)" by (cases "hex_groups gs") auto
  then show ?thesis using assms ne
    by (simp add: parse_ipv6_def no_percent percent_not_in_groups v6_groups_plain v6_expand_def Let_def
        del: v6_groups.simps)
qed

lemma parse_ipv6_run:
  assumes "length gs = 8" "\<forall>g \<in> set gs. g < 65536" "run_ok gs (zs, ze)" "zs \<noteq> 255"
  shows "parse_ipv6 (hex_groups (take zs gs) @ '':'' @ '':'' @ hex_groups (drop ze gs)) =
    Some (A6 (word_of_groups gs) [])"
proof -
  from assms(3,4,1) have r: "zs + 2 \<le> ze" "ze \<le> 8" "\<forall>i. zs \<le> i \<and> i < ze \<longrightarrow> gs ! i = 0"
    by (auto simp: run_ok_def)
  let ?l = "take zs gs" and ?r = "drop ze gs"
  have b: "\<forall>g \<in> set (?l @ ?r). g < 65536" "length ?l = zs" "length ?r = 8 - ze"
    using assms(1,2) r by (auto dest: in_set_takeD in_set_dropD)
  have e: "?l @ replicate (8 - (length ?l + length ?r)) 0 @ ?r = gs"
    using drop_run [of zs ze gs] r b assms(1) by simp
  have np: "CHR ''%'' \<notin> set (hex_groups ?l @ '':'' @ '':'' @ hex_groups ?r)"
    using percent_not_in_groups by auto
  show ?thesis
  proof (cases "zs = 0")
    case True
    then have zs: "zs = 0" and "?l = []" by simp_all
    show ?thesis
    proof (cases "?r = []")
      case True
      from e [unfolded True \<open>?l = []\<close>] have gs: "replicate 8 0 = gs"
        by (simp only: list.size append_Nil append_Nil2 add_0_right diff_zero)
      have "word_of_groups gs = 0" unfolding gs [symmetric] word_of_groups_def foldl_zeros by simp
      moreover have "parse_ipv6 ([] @ '':'' @ '':'' @ []) = Some (A6 0 [])"
        by (simp add: parse_ipv6_def split_zone_def)
      ultimately show ?thesis unfolding True \<open>?l = []\<close> hex_groups_simps(1) by simp
    next
      case False
      have "v6_groups 8 (hex_groups ?r) [] (Some 0) = Some ([], ?r, Some 0)"
        using v6_groups_plain [of ?r 8 "[]" "Some 0"] False b by simp
      moreover have "hex_groups ?r \<noteq> []" using hex_groups_hd False by blast
      moreover have "replicate (8 - length ?r) 0 @ ?r = gs" using e zs by simp
      ultimately show ?thesis using zs np b r
        by (simp add: parse_ipv6_def no_percent v6_expand_def Let_def del: v6_groups.simps)
    qed
  next
    case False
    with assms(1) have False: "?l \<noteq> []" by auto
    let ?t = "hex_groups ?l @ '':'' @ '':'' @ hex_groups ?r"
    have "hd ?t \<noteq> CHR '':''" "?t \<noteq> []" using hex_groups_hd [OF False] hex_not_special(1) by auto
    then have "\<not> prefix ''::'' ?t" by (cases ?t) auto
    moreover have "v6_groups 8 ?t [] None = Some ([], ?l @ ?r, Some zs)"
      using v6_groups_gap [of ?l ?r 8 "[]"] False b r by simp
    moreover have "v6_expand (?l @ ?r) (Some zs) = Some gs"
      using e b r by (simp add: v6_expand_def)
    ultimately show ?thesis using np no_percent [OF np]
      by (simp add: parse_ipv6_def Let_def del: v6_groups.simps)
  qed
qed

lemma parse_ipv6_string6: "parse_ipv6 (string6 w) = Some (A6 w [])"
proof -
  obtain zs ze where z: "zero_run (groups6 w) = (zs, ze)" by fastforce
  have r: "run_ok (groups6 w) (zs, ze)" using zero_run_ok [of "groups6 w"] groups6_bounds z by simp
  show ?thesis
    using parse_ipv6_groups [of "groups6 w"] parse_ipv6_run [OF groups6_bounds r] groups6_bounds
    by (simp add: string6_def z word_of_groups6 hex_groups_def Let_def)
qed

section \<open>IPv4-mapped addresses\<close>

lemma octets_value: "foldl (\<lambda>a b. a * 256 + b) 0 (octets v) = unat v"
proof -
  have "unat v < 2 ^ 32" using unsigned_less [of v] by simp
  moreover have "unat (drop_bit k v) = unat v div 2 ^ k" for k
    unfolding unat_drop_bit_eq by (rule drop_bit_eq_div)
  ultimately show ?thesis
    using nat_octets [of "unat v"] by (simp only: octets_def list.map foldl.simps) simp
qed

lemma hex_run_octet:
  assumes "n < 256" "hex_val (hd rest) = None"
  shows "\<exists>v. hex_run (itoa n @ rest) 0 0 = Some (length (itoa n), v, rest)"
proof -
  have stop: "hex_run rest k a = Some (k, a, rest)" for k a
    using assms(2) by (cases rest) auto
  show ?thesis using assms(1) by (auto simp: itoa_octet hex_digit stop)
qed

lemma parse_ipv6_mapped:
  assumes "drop_bit 32 w = 0xFFFF"
  shows "parse_ipv6 (''::ffff:'' @ string4 (ucast w)) = Some (A6 (w :: 128 word) [])"
proof -
  let ?v = "ucast w :: 32 word"
  obtain a b c d where o: "octets ?v = [a, b, c, d]" by (simp add: octets_def)
  with octets_bounds [of ?v] have l: "a < 256" "b < 256" "c < 256" "d < 256" by auto
  define rest where "rest = CHR ''.'' # itoa b @ CHR ''.'' # itoa c @ CHR ''.'' # itoa d"
  have s: "string4 ?v = itoa a @ rest" by (simp add: string4_def o rest_def)
  have dot: "hex_val (hd rest) = None" by (simp add: rest_def hex_val_def char_class_defs)
  obtain x where x: "hex_run (string4 ?v) 0 0 = Some (length (itoa a), x, rest)"
    using hex_run_octet [OF l(1) dot] by (auto simp: s)
  have "hex_val (hd (string4 ?v)) \<noteq> None"
  proof -
    have "is_digit (hd (itoa a))" using itoa_digits [of a] by (simp add: hd_in_set)
    then show ?thesis by (simp add: s hex_val_def hd_append)
  qed
  then have hd4: "hd (string4 ?v) \<noteq> CHR '':''" using hex_not_special(1) by blast
  have ne: "string4 ?v \<noteq> []" by (simp add: s)
  have g: "v6_groups 8 (''ffff:'' @ string4 ?v) [] (Some 0) =
      Some ([], [65535, a * 256 + b, c * 256 + d], Some 0)"
  proof -
    have f: "hex_str 65535 = ''ffff''" by (simp add: hex_str_group digit_char_def)
    have "v6_groups (Suc (Suc 6)) (hex_str 65535 @ CHR '':'' # string4 ?v) [] (Some 0) =
        v6_groups (Suc 6) (string4 ?v) [65535] (Some 0)"
      using v6_groups_colon [of 65535 "string4 ?v" "Suc 6" "[]" "Some 0"] ne hd4 by simp
    also have "\<dots> = Some ([], [65535, a * 256 + b, c * 256 + d], Some 0)"
      using x v4_fields_string4 [of ?v] by (subst v6_groups.simps(2)) (simp add: o rest_def)
    finally show ?thesis by (simp add: f)
  qed
  have "unat w = 65535 * 2 ^ 32 + unat ?v"
  proof -
    have "unat (drop_bit 32 w) = unat w div 2 ^ 32" unfolding unat_drop_bit_eq by (rule drop_bit_eq_div)
    then have "unat w div 2 ^ 32 = 65535" using assms by simp
    moreover have "unat ?v = unat w mod 2 ^ 32" by (simp add: unsigned_ucast_eq take_bit_eq_mod)
    ultimately show ?thesis using div_mult_mod_eq [of "unat w" "2 ^ 32"] by simp
  qed
  moreover have "unat ?v = ((a * 256 + b) * 256 + c) * 256 + d"
    using octets_value [of ?v, unfolded o] by (simp only: foldl.simps mult_zero_left add_0_left)
  ultimately have "foldl (\<lambda>a g. a * 65536 + g) 0 (replicate 5 0 @ [65535, a * 256 + b, c * 256 + d]) = unat w"
    unfolding foldl_append foldl_zeros by simp
  then have "word_of_groups (replicate 5 0 @ [65535, a * 256 + b, c * 256 + d]) = w"
    by (simp only: word_of_groups_def) simp
  moreover have "CHR ''%'' \<notin> set (string4 ?v)"
    using itoa_digits [of a] itoa_digits [of b] itoa_digits [of c] itoa_digits [of d]
    by (force simp: s rest_def char_class_defs)
  ultimately show ?thesis using g
    by (simp add: parse_ipv6_def no_percent v6_expand_def Let_def del: v6_groups.simps)
qed

section \<open>Addresses and prefixes\<close>

lemma addr_kind_hex: "\<forall>c \<in> set xs. hex_val c \<noteq> None \<Longrightarrow> addr_kind (xs @ ys) = addr_kind ys"
  using hex_not_special by (induction xs) auto

lemma addr_kind_groups: "2 \<le> length gs \<Longrightarrow> addr_kind (hex_groups gs @ ys) = Some (CHR '':'')"
  by (cases gs rule: remdups_adj.cases) (simp_all add: addr_kind_hex hex_str_digits)

lemma addr_kind_string6: "addr_kind (string6 w) = Some (CHR '':'')"
proof -
  obtain zs ze where z: "zero_run (groups6 w) = (zs, ze)" by fastforce
  have "addr_kind (hex_groups gs @ CHR '':'' # ys) = Some (CHR '':'')" for gs ys
    by (cases gs rule: remdups_adj.cases) (simp_all add: addr_kind_hex hex_str_digits)
  then show ?thesis using addr_kind_groups [of "groups6 w" "[]"] groups6_bounds(1) [of w]
    by (simp add: string6_def z hex_groups_def [symmetric] Let_def)
qed

lemma parse_addr_string:
  assumes "a \<noteq> AInvalid" "\<not> has_zone a"
  shows "parse_addr (addr_string a) = Some a"
proof (cases a)
  case (A6 w z)
  then show ?thesis using assms
    by (simp add: parse_addr_def addr_kind_string6 parse_ipv6_string6 parse_ipv6_mapped [simplified])
qed (use assms in simp_all)

lemma parse_prefix_string:
  assumes "prefix_valid p" "\<not> has_zone (paddr p)"
  shows "parse_prefix (prefix_string p) = Some p"
proof -
  obtain n where n: "pbits p = int n" "n \<le> bit_len (paddr p)" "paddr p \<noteq> AInvalid"
    using assms(1) by (metis prefix_valid_def nat_0_le nat_le_iff of_nat_le_iff)
  have "\<not> (1 < length (itoa n) \<and> (byte (hd (itoa n)) < 49 \<or> 57 < byte (hd (itoa n))))"
    using itoa_hd [of n] by auto
  moreover have "p = Prefix (paddr p) (int n)" using n(1) by (cases p) simp
  ultimately show ?thesis using assms n parse_addr_string [of "paddr p"]
    by (simp add: prefix_string_def parse_prefix_def cut_last_append slash_not_in_itoa)
qed

lemma has_zone_masked [simp]: "\<not> has_zone (paddr (masked p))"
  by (cases "paddr p") (auto simp: masked_def zero_prefix_def)

lemma parse_masked_string:
  "prefix_valid p \<Longrightarrow> parse_prefix (prefix_string (masked p)) = Some (masked p)"
  by (simp add: parse_prefix_string)

end
