(* ===== verification/Claims_Inv.thy ===== *)
theory Claims_Inv
  imports Claims Netip_Text
begin

text \<open>
  The invariants of the claim tables and the proof that every operation of \<^verbatim>\<open>Claims\<close> keeps them,
  whatever call fails. \<open>in_flight\<close> relates the database before and after a statement inside a
  transaction, \<open>claims_tx\<close> before and after an operation; both are preorders and interpret the locale
  \<^verbatim>\<open>frame_order\<close>, whose rules carry the proofs.
\<close>

section \<open>Well-formed tables\<close>

definition claim_ok :: "claim \<Rightarrow> bool" where
  "claim_ok c \<longleftrightarrow> validate_claim (c_address c) (c_family c) = None \<and> validate_claim_metadata c = None"

definition claims_table_ok :: "db \<Rightarrow> bool" where
  "claims_table_ok d \<longleftrightarrow> 0 \<le> claim_seq d \<and> distinct (map c_id (claims d)) \<and>
     (\<forall>c \<in> set (claims d). claim_ok c \<and> 0 < c_id c \<and> c_id c \<le> claim_seq d)"

definition audits_ok :: "db \<Rightarrow> bool" where
  "audits_ok d \<longleftrightarrow> sorted_wrt (<) (map au_id (audits d)) \<and>
     (\<forall>i \<in> set (map au_id (audits d)). audit_seq d - max_audit_rows < i \<and> i \<le> audit_seq d)"

definition integrations_ok :: "db \<Rightarrow> bool" where
  "integrations_ok d \<longleftrightarrow> distinct (map is_name (integrations d)) \<and>
     (\<forall>r \<in> set (integrations d). 0 \<le> is_count r)"

definition publication_ok :: "db \<Rightarrow> bool" where
  "publication_ok d \<longleftrightarrow> (\<exists>p. publication d = Some p \<and> p_applied p \<le> p_desired p)"

definition tables_ok :: "db \<Rightarrow> bool" where
  "tables_ok d \<longleftrightarrow> claims_table_ok d \<and> audits_ok d \<and> integrations_ok d \<and> publication_ok d"

lemmas table_defs = tables_ok_def claims_table_ok_def audits_ok_def integrations_ok_def publication_ok_def

lemma audits_bounded:
  assumes "audits_ok d"
  shows "length (audits d) \<le> 10000"
proof -
  have "distinct (map au_id (audits d))" using assms strict_sorted_iff by (auto simp: audits_ok_def)
  then have "length (audits d) = card (set (map au_id (audits d)))" by (metis distinct_card length_map)
  also have "\<dots> \<le> card {audit_seq d - max_audit_rows <.. audit_seq d}"
    using assms by (intro card_mono) (auto simp: audits_ok_def)
  finally show ?thesis by (simp add: max_audit_rows_def)
qed

section \<open>Preorders on the database\<close>

definition outside :: "('k, 'x) world \<Rightarrow> ('k, 'x) world \<Rightarrow> bool" where
  "outside w w' \<longleftrightarrow> w_disk w' = w_disk w \<and> w_kernel w' = w_kernel w"

text \<open>Statements of a transaction: the publication row and the generations stay.\<close>

definition in_flight :: "('k, 'x) world \<Rightarrow> ('k, 'x) world \<Rightarrow> bool" where
  "in_flight w w' \<longleftrightarrow> outside w w' \<and> (tables_ok (w_db w) \<longrightarrow> tables_ok (w_db w')) \<and>
     gens (w_db w') = gens (w_db w) \<and> publication (w_db w') = publication (w_db w)"

text \<open>A call that reads only.\<close>

definition reads :: "('k, 'x) world \<Rightarrow> ('k, 'x) world \<Rightarrow> bool" where
  "reads w w' \<longleftrightarrow> outside w w' \<and> w_db w' = w_db w"

text \<open>Operations: the desired revision never falls, and rises when the claims change.\<close>

definition revision_moved :: "db \<Rightarrow> db \<Rightarrow> bool" where
  "revision_moved d d' \<longleftrightarrow>
     (\<forall>p. publication d = Some p \<longrightarrow>
        (\<exists>p'. publication d' = Some p' \<and> p_desired p \<le> p_desired p' \<and>
              (claims d' \<noteq> claims d \<longrightarrow> p_desired p < p_desired p')))"

definition claims_tx :: "('k, 'x) world \<Rightarrow> ('k, 'x) world \<Rightarrow> bool" where
  "claims_tx w w' \<longleftrightarrow> outside w w' \<and> (tables_ok (w_db w) \<longrightarrow> tables_ok (w_db w')) \<and>
     gens (w_db w') = gens (w_db w) \<and> revision_moved (w_db w) (w_db w')"

interpretation outside: frame_order outside
  by unfold_locales (auto simp: outside_def)

interpretation in_flight: frame_order in_flight
  by unfold_locales (auto simp: in_flight_def outside_def)

interpretation reads: frame_order reads
  by unfold_locales (auto simp: reads_def outside_def)

lemma revision_moved_trans: "revision_moved a b \<Longrightarrow> revision_moved b c \<Longrightarrow> revision_moved a c"
  unfolding revision_moved_def
proof (intro allI impI)
  fix p
  assume ab: "\<forall>p. publication a = Some p \<longrightarrow> (\<exists>p'. publication b = Some p' \<and> p_desired p \<le> p_desired p' \<and>
      (claims b \<noteq> claims a \<longrightarrow> p_desired p < p_desired p'))"
    and bc: "\<forall>p. publication b = Some p \<longrightarrow> (\<exists>p'. publication c = Some p' \<and> p_desired p \<le> p_desired p' \<and>
      (claims c \<noteq> claims b \<longrightarrow> p_desired p < p_desired p'))" and p: "publication a = Some p"
  from ab p obtain q where q: "publication b = Some q" "p_desired p \<le> p_desired q"
    "claims b \<noteq> claims a \<longrightarrow> p_desired p < p_desired q" by blast
  with bc obtain r where "publication c = Some r" "p_desired q \<le> p_desired r"
    "claims c \<noteq> claims b \<longrightarrow> p_desired q < p_desired r" by blast
  with q show "\<exists>p'. publication c = Some p' \<and> p_desired p \<le> p_desired p' \<and>
      (claims c \<noteq> claims a \<longrightarrow> p_desired p < p_desired p')" by fastforce
qed

interpretation claims_tx: frame_order claims_tx
proof unfold_locales
  show "claims_tx w w" for w by (auto simp: claims_tx_def outside_def revision_moved_def)
  show "claims_tx a c" if "claims_tx a b" "claims_tx b c" for a b c
    using that revision_moved_trans [of "w_db a" "w_db b" "w_db c"] by (auto simp: claims_tx_def outside_def)
qed

lemma reads_in_flight: "reads w w' \<Longrightarrow> in_flight w w'" and reads_claims_tx: "reads w w' \<Longrightarrow> claims_tx w w'"
  by (auto simp: reads_def in_flight_def claims_tx_def outside_def revision_moved_def)

lemma obeys_mono: "obeys R m \<Longrightarrow> (\<And>w w'. R w w' \<Longrightarrow> S w w') \<Longrightarrow> obeys S m"
  by (simp add: obeys_def)

section \<open>The calls\<close>

lemma reads_ext [simp]: "reads w (w\<lparr>w_ext := x\<rparr>)" "reads (w\<lparr>w_ext := x\<rparr>) w' = reads w w'"
  by (auto simp: reads_def outside_def)

lemma in_flight_ext [simp]: "in_flight w (w\<lparr>w_ext := x\<rparr>)" "in_flight (w\<lparr>w_ext := x\<rparr>) w' = in_flight w w'"
  by (auto simp: in_flight_def outside_def)

lemma reads_io: "obeys reads (io env l)"
  by (auto simp: obeys_def io_def split: prod.splits option.splits)

lemma reads_time_now: "obeys reads (time_now env)"
  by (auto simp: obeys_def time_now_def split: prod.splits)

lemma reads_query: "obeys reads (query env l f)"
  by (simp add: query_def reads.frame_rules reads_io)

lemma reads_rows_affected: "obeys reads (rows_affected env n)"
  by (simp add: rows_affected_def reads.frame_rules reads_io)

lemma reads_sync_database: "obeys reads (sync_database env)"
  by (simp add: sync_database_def reads.frame_rules reads_io)

lemmas reads_calls = reads_io reads_time_now reads_query reads_rows_affected reads_sync_database

lemma reads_flight_mono: "obeys reads m \<Longrightarrow> obeys in_flight m"
  by (erule obeys_mono) (rule reads_in_flight)

lemmas flight_reads = reads_calls [THEN reads_flight_mono]

lemma outside_exec: "obeys outside (exec env l f)"
  by (auto simp: obeys_def exec_def io_def thenP_def bindP_def outside_def split: prod.splits option.splits sum.splits)

lemma reads_outside: "obeys reads m \<Longrightarrow> obeys outside m"
  by (erule obeys_mono) (simp add: reads_def)

lemmas outside_calls = reads_calls [THEN reads_outside] outside_exec

lemma exec_flight:
  assumes "\<And>d v d'. f d = Inr (v, d') \<Longrightarrow> tables_ok d \<Longrightarrow> tables_ok d'"
    and "\<And>d v d'. f d = Inr (v, d') \<Longrightarrow> gens d' = gens d \<and> publication d' = publication d"
  shows "obeys in_flight (exec env l f)"
  using assms
  by (auto simp: obeys_def exec_def io_def thenP_def bindP_def in_flight_def outside_def
      split: prod.splits option.splits sum.splits)

lemma wp_flight:
  assumes "obeys R m" "frame_order R" "R w0 w" "\<And>x w'. R w0 w' \<Longrightarrow> Q x w'" "\<And>e w'. R w0 w' \<Longrightarrow> E e w'"
  shows "wp m Q E w"
  using assms(1,3-) frame_order.frame_trans [OF assms(2)]
  by (intro wpI) (metis obeys_run)+

section \<open>The statements\<close>

lemma sql_insert_claim_tables:
  assumes "claim_ok c" "sql_insert_claim c d = Inr (i, d')" "tables_ok d"
  shows "tables_ok d'"
proof -
  have "c_id x < claim_seq d + 1" if "x \<in> set (claims d)" for x
    using assms(3) that by (fastforce simp: table_defs)
  moreover have "claim_ok (c\<lparr>c_id := k\<rparr>)" for k
    using assms(1) by (simp add: claim_ok_def validate_claim_metadata_def)
  ultimately show ?thesis using assms
    by (fastforce simp: table_defs sql_insert_claim_def Let_def split: if_splits)
qed

lemma sql_insert_claim_id_tables:
  assumes "claim_ok c" "0 < c_id c" "sql_insert_claim_id c d = Inr (u, d')" "tables_ok d"
  shows "tables_ok d'"
  using assms by (fastforce simp: table_defs sql_insert_claim_id_def split: if_splits)

lemma sql_delete_claims_tables: "sql_delete_claims P d = Inr (n, d') \<Longrightarrow> tables_ok d \<Longrightarrow> tables_ok d'"
  by (auto simp: table_defs sql_delete_claims_def distinct_map_filter)

lemma sql_audit_tables:
  assumes "sql_audit now a e t d = Inr (u, d')" "tables_ok d"
  shows "tables_ok d'"
proof -
  have f: "sorted_wrt (<) (map au_id (filter P xs))" if "sorted_wrt (<) (map au_id xs)" for P xs
    using that by (auto simp: sorted_wrt_map intro: sorted_wrt_filter)
  have "i \<le> audit_seq d + 1" if "i \<in> set (map au_id (audits d))" for i
    using assms(2) that by (fastforce simp: table_defs)
  with assms show ?thesis
    by (auto simp: table_defs sql_audit_def Let_def sorted_wrt_append intro!: f split: if_splits)
qed

lemma sql_upsert_tables:
  assumes "sql_upsert row upd d = Inr (u, d')" "tables_ok d"
    and "\<And>r. is_name r = is_name row \<Longrightarrow> is_name (upd r) = is_name row" "\<And>r. 0 \<le> is_count (upd r)"
  shows "tables_ok d'"
proof -
  have "is_name (if is_name r = is_name row then upd r else r) = is_name r" for r using assms(3) by simp
  with assms show ?thesis
    by (auto simp: table_defs sql_upsert_def comp_def split: if_splits)
qed

lemma exec_insert_claim: "claim_ok c \<Longrightarrow> obeys in_flight (exec env l (sql_insert_claim c))"
  by (rule exec_flight, erule (2) sql_insert_claim_tables)
    (auto simp: sql_insert_claim_def Let_def split: if_splits)

lemma exec_insert_claim_id:
  "claim_ok c \<Longrightarrow> 0 < c_id c \<Longrightarrow> obeys in_flight (exec env l (sql_insert_claim_id c))"
  by (rule exec_flight, erule (3) sql_insert_claim_id_tables)
    (auto simp: sql_insert_claim_id_def split: if_splits)

lemma exec_delete_claims: "obeys in_flight (exec env l (sql_delete_claims P))"
  by (rule exec_flight, erule (1) sql_delete_claims_tables) (auto simp: sql_delete_claims_def)

lemma exec_audit: "obeys in_flight (exec env l (sql_audit now a e t))"
  by (rule exec_flight, erule (1) sql_audit_tables) (auto simp: sql_audit_def Let_def split: if_splits)

lemma exec_upsert:
  assumes "\<And>r. is_name r = is_name row \<Longrightarrow> is_name (upd r) = is_name row" "\<And>r. 0 \<le> is_count (upd r)"
  shows "obeys in_flight (exec env l (sql_upsert row upd))"
  by (rule exec_flight, erule (1) sql_upsert_tables [OF _ _ assms])
    (auto simp: sql_upsert_def split: if_splits)

lemma exec_retire_states:
  "obeys in_flight (exec env l (\<lambda>d. Ok (u, d\<lparr>integrations := filter P (integrations d)\<rparr>)))"
  by (rule exec_flight) (auto simp: table_defs distinct_map_filter)

lemma flight_degraded: "obeys in_flight (mark_runtime_claims_degraded env now)"
  unfolding mark_runtime_claims_degraded_def
  by (intro in_flight.frame_rules flight_reads exec_upsert) auto

lemmas flight_calls = flight_reads exec_delete_claims exec_audit exec_retire_states flight_degraded

section \<open>Transactions\<close>

text \<open>The rest of a transaction: it is reached with the tables in flight and moves the revision.\<close>

definition claims_body :: "(('k, 'x) world, 'a) prog \<Rightarrow> bool" where
  "claims_body m \<longleftrightarrow> (\<forall>w0 w. in_flight w0 w \<longrightarrow> wp m (\<lambda>_. claims_tx w0) (\<lambda>_ _. True) w)"

lemma body_bind: "obeys in_flight m \<Longrightarrow> (\<And>x. claims_body (f x)) \<Longrightarrow> claims_body (bindP m f)"
  by (auto simp: claims_body_def intro: wp_flight [OF _ in_flight.frame_order_axioms])

lemma body_then: "obeys in_flight m \<Longrightarrow> claims_body k \<Longrightarrow> claims_body (thenP m k)"
  by (simp add: thenP_def body_bind)

lemma body_ret: "claims_body m \<Longrightarrow> claims_body (thenP m (ret x))"
  by (simp add: claims_body_def)

lemma exec_bump:
  assumes "\<And>p x. publication (w_db w) = Some p \<Longrightarrow>
       Q 1 (w\<lparr>w_ext := x, w_db := (w_db w)\<lparr>publication := Some (p\<lparr>p_desired := p_desired p + 1\<rparr>)\<rparr>\<rparr>)"
    and "\<And>x. Q 0 (w\<lparr>w_ext := x\<rparr>)"
  shows "wp (exec env l sql_bump) Q (\<lambda>_ _. True) w"
proof (rule wp_exec)
  fix x v d'
  assume "sql_bump (w_db w) = Inr (v, d')"
  then consider "publication (w_db w) = None" "v = 0" "d' = w_db w"
    | p where "publication (w_db w) = Some p" "v = 1"
        "d' = (w_db w)\<lparr>publication := Some (p\<lparr>p_desired := p_desired p + 1\<rparr>)\<rparr>"
    by (auto simp: sql_bump_def split: option.splits)
  then show "Q v (w\<lparr>w_ext := x, w_db := d'\<rparr>)"
  proof cases
    case 1
    with assms(2) [of x] show ?thesis by simp
  next
    case (2 p)
    from assms(1) [OF 2(1), of x] show ?thesis by (simp only: 2)
  qed
qed simp

lemma bump_claims_tx:
  assumes "in_flight w0 w" "publication (w_db w) = Some p"
    "in_flight (w\<lparr>w_ext := x, w_db := (w_db w)\<lparr>publication := Some (p\<lparr>p_desired := p_desired p + 1\<rparr>)\<rparr>\<rparr>) w'"
  shows "claims_tx w0 w'"
proof -
  let ?d = "(w_db w)\<lparr>publication := Some (p\<lparr>p_desired := p_desired p + 1\<rparr>)\<rparr>"
  have "tables_ok (w_db w) \<Longrightarrow> tables_ok ?d" using assms(2) by (simp add: table_defs)
  moreover have "publication (w_db w0) = Some p" "publication (w_db w') = publication ?d"
    using assms by (simp_all add: in_flight_def)
  then have "revision_moved (w_db w0) (w_db w')" by (simp add: revision_moved_def)
  ultimately show ?thesis using assms(1,3) by (simp add: in_flight_def claims_tx_def outside_def)
qed

lemma body_dirty: "claims_body (mark_claim_publication_dirty env now)"
  unfolding claims_body_def mark_claim_publication_dirty_def
proof (intro allI impI)
  fix w0 w :: "('a, 'b) world"
  assume f: "in_flight w0 w"
  have tail: "wp (bindP (rows_affected env n) (\<lambda>u. thenP (refuseP (u \<noteq> 1) e) (mark_runtime_claims_degraded env now)))
      (\<lambda>_. claims_tx w0) (\<lambda>_ _. True) v"
    if "\<And>w'. in_flight v w' \<Longrightarrow> n = 1 \<Longrightarrow> claims_tx w0 w'" for n e and v :: "('a, 'b) world"
  proof -
    have r: "wp (rows_affected env n) (\<lambda>u w'. u = n \<and> in_flight v w') (\<lambda>_ _. True) v"
      by (auto simp: rows_affected_def in_flight.frame_refl intro!: wp_io)
    show ?thesis
      by (auto intro!: wp_mono [OF r] wp_flight [OF flight_degraded in_flight.frame_order_axioms] that)
  qed
  show "wp (bindP (exec env ''UPDATE runtime_claim_publication'' sql_bump) (\<lambda>n. bindP (rows_affected env n)
      (\<lambda>updated. thenP (refuseP (updated \<noteq> 1) (Errorf ''runtime claim publication state is missing'' []))
        (mark_runtime_claims_degraded env now)))) (\<lambda>_. claims_tx w0) (\<lambda>_ _. True) w"
    unfolding wp_bindP [of "exec env _ sql_bump"]
    by (rule exec_bump; rule tail) (simp_all add: bump_claims_tx [OF f])
qed

text \<open>An operation: it stays within the tables, and when it fails they are as before.\<close>

definition safe_op :: "(('k, 'x) world, 'a) prog \<Rightarrow> bool" where
  "safe_op m \<longleftrightarrow> obeys outside m \<and> (\<forall>w. wp m (\<lambda>_. claims_tx w) (\<lambda>_ w'. w_db w' = w_db w) w)"

lemma obeys_in_tx: "obeys outside body \<Longrightarrow> obeys outside (in_tx env body)"
proof -
  assume b: "obeys outside body"
  let ?m = "thenP (io env ''BEGIN'') (bindP body (\<lambda>x. thenP (io env ''COMMIT'') (ret x)))"
  have "obeys outside ?m" by (intro outside.frame_rules outside_calls b)
  then show ?thesis
    by (auto simp: obeys_def in_tx_def outside_def split: prod.splits sum.splits) (metis snd_conv)+
qed

lemma in_tx_safe:
  assumes "obeys outside body" "\<And>w. wp body (\<lambda>_. claims_tx w) (\<lambda>_ _. True) w"
  shows "safe_op (in_tx env body)"
proof -
  have e: "claims_tx w (v\<lparr>w_ext := y\<rparr>)" if "claims_tx (w\<lparr>w_ext := x\<rparr>) v" for w v x y
    using that by (auto simp: claims_tx_def outside_def)
  show ?thesis unfolding safe_op_def
    by (auto intro!: obeys_in_tx assms(1) wp_in_tx wp_mono [OF assms(2)] e)
qed

lemma body_safe: "obeys outside body \<Longrightarrow> claims_body body \<Longrightarrow> safe_op (in_tx env body)"
  by (rule in_tx_safe) (auto simp: claims_body_def in_flight.frame_refl)

lemma safe_bind:
  assumes "obeys reads m" "\<And>x. safe_op (f x)"
  shows "safe_op (bindP m f)"
proof -
  have "wp (bindP m f) (\<lambda>_. claims_tx w) (\<lambda>_ w'. w_db w' = w_db w) w" for w
  proof -
    have "wp (f x) (\<lambda>_. claims_tx w) (\<lambda>_ w'. w_db w' = w_db w) v" if r: "reads w v" for x v
    proof (rule wp_mono)
      show "wp (f x) (\<lambda>_. claims_tx v) (\<lambda>_ w'. w_db w' = w_db v) v"
        using assms(2) [of x] by (simp add: safe_op_def)
    qed (use r claims_tx.frame_trans [OF reads_claims_tx [OF r]] in \<open>simp_all add: reads_def\<close>)
    then show ?thesis
      by (auto intro!: wp_flight [OF assms(1) reads.frame_order_axioms reads.frame_refl] simp: reads_def)
  qed
  moreover have "obeys outside (bindP m f)"
    by (rule outside.obeys_bindP) (use assms in \<open>simp_all add: safe_op_def reads_outside\<close>)
  ultimately show ?thesis by (simp add: safe_op_def del: wp_bindP)
qed

lemma safe_then: "obeys reads m \<Longrightarrow> safe_op k \<Longrightarrow> safe_op (thenP m k)"
  by (simp add: thenP_def safe_bind)

lemma safe_reads: "obeys reads m \<Longrightarrow> safe_op m"
  by (auto simp: safe_op_def intro!: reads_outside wp_flight [OF _ reads.frame_order_axioms reads.frame_refl]
      reads_claims_tx) (simp add: reads_def)

lemma safe_frame: "safe_op m \<Longrightarrow> obeys claims_tx m"
proof -
  assume s: "safe_op m"
  have "claims_tx w w'" if "outside w w'" "w_db w' = w_db w" for w w' :: "('a, 'b) world"
    using that by (auto simp: claims_tx_def revision_moved_def)
  with s show ?thesis
    by (auto simp: safe_op_def wp_def obeys_def split: prod.splits sum.splits) (metis old.sum.exhaust surj_pair snd_conv)
qed

section \<open>The operations\<close>

lemmas read_rules = reads.frame_rules reads_calls
lemmas outside_rules = outside.frame_rules outside_calls

lemma outside_degraded: "obeys outside (mark_runtime_claims_degraded env now)"
  unfolding mark_runtime_claims_degraded_def by (intro outside_rules)

lemma outside_dirty: "obeys outside (mark_claim_publication_dirty env now)"
  unfolding mark_claim_publication_dirty_def by (intro outside_rules outside_degraded)

lemmas out_rules = outside_rules outside_dirty outside_degraded

lemma body_dirty_ret: "claims_body (thenP (mark_claim_publication_dirty env now) (ret x))"
  by (intro body_ret body_dirty)

lemmas body_rules = body_bind body_then body_dirty body_dirty_ret in_flight.frame_rules flight_calls

lemma claim_ok_added:
  assumes "validate_claim (c_address c) (c_family c) = None" "validate_claim_metadata c = None"
    "r = c_reason c \<or> length r \<le> 1024"
  shows "claim_ok (c\<lparr>c_reason := r, c_created := t\<rparr>)"
  using assms by (auto simp: claim_ok_def validate_claim_metadata_def)

lemma safe_failp: "safe_op (failp e)"
  by (simp add: safe_reads reads.obeys_failp)

lemma safe_check: "(oe = None \<Longrightarrow> safe_op k) \<Longrightarrow> safe_op (thenP (check oe) k)"
  by (cases oe) (simp_all add: check_def safe_failp)

lemma safe_refuse: "(\<not> b \<Longrightarrow> safe_op k) \<Longrightarrow> safe_op (thenP (refuseP b e) k)"
  by (cases b) (simp_all add: refuseP_def safe_failp)

lemma safe_of_result: "(\<And>x. r = Inr x \<Longrightarrow> safe_op (f x)) \<Longrightarrow> safe_op (bindP (of_result r) f)"
proof -
  assume s: "\<And>x. r = Inr x \<Longrightarrow> safe_op (f x)"
  have "bindP (of_result r) f = (case r of Inl e \<Rightarrow> failp e | Inr x \<Rightarrow> f x)"
    by (auto simp: fun_eq_iff bindP_def of_result_def failp_def split: sum.splits)
  then show ?thesis using s by (cases r) (simp_all add: safe_failp)
qed

lemma safe_add_claim_bounded: "safe_op (add_claim_bounded env c bound)"
proof -
  have a: "safe_op (in_tx env
        (thenP (if 0 < bound
                then bindP (query env ''SELECT COUNT(*) FROM claims'' (\<lambda>d. Ok (live_count now d))) (\<lambda>cnt.
                     refuseP (bound \<le> int cnt) e)
                else ret ())
        (bindP (exec env ''INSERT INTO claims'' (sql_insert_claim c')) (\<lambda>i.
         thenP (io env ''LastInsertId'')
         (thenP (exec env ''INSERT INTO audit'' (sql_audit now a ev (t i)))
         (thenP (mark_claim_publication_dirty env now) (ret i)))))))" if "claim_ok c'" for c' now e a ev t
    by (rule body_safe) (intro out_rules | intro body_rules exec_insert_claim that)+
  show ?thesis unfolding add_claim_bounded_def Let_def
    by (intro safe_check safe_bind reads_calls a claim_ok_added) auto
qed

lemma outside_claim_removed: "obeys outside (claim_removed env actor i)"
  unfolding claim_removed_def by (intro out_rules)

lemma body_claim_removed: "claims_body (claim_removed env actor i)"
  unfolding claim_removed_def by (intro body_rules)

lemma safe_remove_claim: "safe_op (remove_claim env i actor)"
  unfolding remove_claim_def
  by (intro safe_refuse body_safe)
    (intro out_rules outside_claim_removed | intro body_rules body_claim_removed)+

lemma safe_remove_operator_claim: "safe_op (remove_operator_claim env i actor kind)"
  unfolding remove_operator_claim_def
  by (intro safe_refuse body_safe)
    (intro out_rules outside_claim_removed | intro body_rules body_claim_removed)+

lemma safe_restore_claim: "safe_op (restore_claim env c actor)"
proof -
  have "safe_op (in_tx env
       (thenP (exec env ''INSERT INTO claims'' (sql_insert_claim_id c))
       (bindP (time_now env) (\<lambda>now.
        thenP (exec env ''INSERT INTO audit'' (sql_audit now actor ev t))
          (mark_claim_publication_dirty env now)))))" if "claim_ok c" "0 < c_id c" for ev t
    by (rule body_safe) (intro out_rules | intro body_rules exec_insert_claim_id that)+
  then show ?thesis unfolding restore_claim_def
    by (intro safe_check safe_refuse) (simp add: claim_ok_def)
qed

section \<open>Statements that leave the claims\<close>

definition settled :: "('k, 'x) world \<Rightarrow> ('k, 'x) world \<Rightarrow> bool" where
  "settled w w' \<longleftrightarrow> in_flight w w' \<and> claims (w_db w') = claims (w_db w)"

interpretation settled: frame_order settled
  by unfold_locales (auto simp: settled_def intro: in_flight.frame_refl in_flight.frame_trans)

lemma settled_claims_tx: "settled w w' \<Longrightarrow> claims_tx w w'"
  by (auto simp: settled_def in_flight_def claims_tx_def revision_moved_def)

lemma reads_settled: "reads w w' \<Longrightarrow> settled w w'"
  by (simp add: settled_def reads_in_flight) (simp add: reads_def)

lemma exec_settled:
  assumes "obeys in_flight (exec env l f :: (('k, 'x) world, 'a) prog)" "\<And>d v d'. f d = Inr (v, d') \<Longrightarrow> claims d' = claims d"
  shows "obeys settled (exec env l f :: (('k, 'x) world, 'a) prog)"
  unfolding obeys_def settled_def
proof (intro allI conjI obeysD [OF assms(1)])
  fix w :: "('k, 'x) world"
  show "claims (w_db (snd (exec env l f w))) = claims (w_db w)"
    using assms(2) [of "w_db w"]
    by (auto simp: exec_def io_def thenP_def bindP_def split: prod.splits option.splits sum.splits)
qed

lemma settled_audit: "obeys settled (exec env l (sql_audit now a e t))"
  by (rule exec_settled [OF exec_audit]) (auto simp: sql_audit_def Let_def split: if_splits)

lemma settled_upsert:
  "(\<And>r. is_name r = is_name row \<Longrightarrow> is_name (upd r) = is_name row) \<Longrightarrow> (\<And>r. 0 \<le> is_count (upd r)) \<Longrightarrow>
    obeys settled (exec env l (sql_upsert row upd))"
  by (rule exec_settled [OF exec_upsert]) (auto simp: sql_upsert_def split: if_splits)

lemma settled_retire_states:
  "obeys settled (exec env l (\<lambda>d. Ok (u, d\<lparr>integrations := filter P (integrations d)\<rparr>)))"
  by (rule exec_settled [OF exec_retire_states]) auto

lemma reads_settled_mono: "obeys reads m \<Longrightarrow> obeys settled m"
  by (erule obeys_mono) (rule reads_settled)

lemmas settled_reads = reads_calls [THEN reads_settled_mono]

lemma settled_degraded: "obeys settled (mark_runtime_claims_degraded env now)"
  unfolding mark_runtime_claims_degraded_def
  by (intro settled.frame_rules settled_reads settled_upsert) auto

lemmas settled_rules = settled.frame_rules settled_reads settled_audit settled_retire_states settled_degraded

section \<open>Programs that end well\<close>

definition claims_run :: "(('k, 'x) world, 'a) prog \<Rightarrow> bool" where
  "claims_run m \<longleftrightarrow> (\<forall>w. wp m (\<lambda>_. claims_tx w) (\<lambda>_ _. True) w)"

lemma run_frame: "obeys claims_tx m \<Longrightarrow> claims_run m"
  unfolding claims_run_def using obeys_wp [of claims_tx m] by (auto intro: wp_mono)

lemma run_settled: "obeys settled m \<Longrightarrow> claims_run m"
  by (rule run_frame) (erule obeys_mono, rule settled_claims_tx)

lemma run_reads: "obeys reads m \<Longrightarrow> claims_run m"
  by (rule run_settled) (erule obeys_mono, rule reads_settled)

lemma run_body: "claims_body m \<Longrightarrow> claims_run m"
  by (auto simp: claims_run_def claims_body_def in_flight.frame_refl)

lemma run_bind:
  assumes "claims_run m" "\<And>x. claims_run (f x)"
  shows "claims_run (bindP m f)"
  unfolding claims_run_def
proof
  fix w
  have "wp m (\<lambda>_. claims_tx w) (\<lambda>_ _. True) w" using assms(1) by (simp add: claims_run_def)
  moreover have "wp (f x) (\<lambda>_. claims_tx w) (\<lambda>_ _. True) v" if "claims_tx w v" for x v
    by (rule wp_mono [of "f x" "\<lambda>_. claims_tx v" "\<lambda>_ _. True"])
      (use assms(2) that claims_tx.frame_trans in \<open>auto simp: claims_run_def\<close>)
  ultimately show "wp (bindP m f) (\<lambda>_. claims_tx w) (\<lambda>_ _. True) w"
    unfolding wp_bindP by (rule wp_mono) simp_all
qed

lemma run_then: "claims_run m \<Longrightarrow> claims_run k \<Longrightarrow> claims_run (thenP m k)"
  by (simp add: thenP_def run_bind)

lemma run_if: "claims_run m \<Longrightarrow> claims_run n \<Longrightarrow> claims_run (if b then m else n)"
  by simp

lemma run_safe: "obeys outside body \<Longrightarrow> claims_run body \<Longrightarrow> safe_op (in_tx env body)"
  by (rule in_tx_safe) (auto simp: claims_run_def)

lemma safe_exec:
  assumes "obeys settled (exec env l f :: (('k, 'x) world, 'a) prog)"
  shows "safe_op (exec env l f :: (('k, 'x) world, 'a) prog)"
  unfolding safe_op_def
proof (intro conjI allI outside_exec)
  fix w :: "('k, 'x) world"
  have "wp (exec env l f) (\<lambda>_ _. True) (\<lambda>_ w'. w_db w' = w_db w) w"
    by (rule wp_exec) simp_all
  moreover have "obeys claims_tx (exec env l f :: (('k, 'x) world, 'a) prog)"
    by (rule obeys_mono [OF assms]) (rule settled_claims_tx)
  note wp_conj [OF obeys_wp [OF this]]
  ultimately have "wp (exec env l f) (\<lambda>_ v. claims_tx w v \<and> True) (\<lambda>_ v. claims_tx w v \<and> w_db v = w_db w) w"
    by (intro wp_conj obeys_wp) (rule \<open>obeys claims_tx _\<close>)
  then
  show "wp (exec env l f) (\<lambda>_. claims_tx w) (\<lambda>_ w'. w_db w' = w_db w) w"
    by (rule wp_mono) simp_all
qed

section \<open>The remaining operations\<close>

lemma replacement_prefix_valid: "replacement_prefix raw = Inr p \<Longrightarrow> prefix_valid p"
proof -
  have "parse_addr a = Some ip \<Longrightarrow> ip \<noteq> AInvalid" for a ip
    by (auto simp: parse_addr_def parse_ipv4_def parse_ipv6_def Let_def split: option.splits if_splits prod.splits)
  moreover have "ip \<noteq> AInvalid \<Longrightarrow> prefix_valid (prefix_from ip (int (bit_len ip)))" for ip
    by (cases ip) (auto simp: prefix_from_def prefix_valid_def)
  ultimately show "replacement_prefix raw = Inr p \<Longrightarrow> prefix_valid p"
    by (auto simp: replacement_prefix_def parse_prefix_valid split: option.splits)
qed

definition canonical_address :: "string \<Rightarrow> bool" where
  "canonical_address a \<longleftrightarrow> (\<exists>p. prefix_valid p \<and> pbits p \<noteq> 0 \<and> a = prefix_string (masked p))"

lemma canonical_addresses_ok:
  assumes "canonical_addresses raws = Inr vs"
  shows "distinct vs \<and> sorted vs \<and> (\<forall>a \<in> set vs. canonical_address a)"
proof -
  obtain us where us: "foldE canonical_step [] raws = Inr us" "vs = sort us"
    using assms by (auto simp: canonical_addresses_def bindE_eq_Ok)
  have "distinct us \<and> (\<forall>a \<in> set us. canonical_address a)"
    by (rule foldE_invariant [OF us(1)])
      (auto simp: canonical_step_def bindE_eq_Ok Let_def canonical_address_def
        dest!: replacement_prefix_valid split: if_splits)
  with us(2) show ?thesis by simp
qed

lemma pbits_masked [simp]: "prefix_valid p \<Longrightarrow> pbits (masked p) = pbits p"
  by (simp add: masked_def)

lemma canonical_valid: "canonical_address a \<Longrightarrow> validate_claim a (address_family a) = None"
proof -
  assume "canonical_address a"
  then obtain p where p: "prefix_valid p" "pbits p \<noteq> 0" "a = prefix_string (masked p)"
    by (auto simp: canonical_address_def)
  have "paddr (masked p) \<noteq> AInvalid" using p(1) by (auto simp: masked_def prefix_valid_def)
  then have "is4 (paddr (masked p)) \<or> is6 (paddr (masked p))" by (cases "paddr (masked p)") auto
  with p show ?thesis by (auto simp: validate_claim_def address_family_def parse_masked_string)
qed

lemma replacement_claim_ok:
  assumes "replace_guard source reason0 actor = None" "canonical_address a"
    "reason = reason0 \<or> length reason \<le> 1024"
  shows "claim_ok (replacement_claim source reason actor now a)"
  using assms canonical_valid [OF assms(2)]
  by (auto simp: claim_ok_def replacement_claim_def replace_guard_def validate_claim_metadata_def)

lemma body_forP: "(\<And>x. x \<in> set xs \<Longrightarrow> obeys in_flight (f x)) \<Longrightarrow> claims_body k \<Longrightarrow> claims_body (thenP (forP f xs) k)"
  by (rule body_then [OF in_flight.obeys_forP])

lemma safe_replace_source_claims_bounded:
  "safe_op (replace_source_claims_bounded env source reason0 actor addresses bound)"
proof -
  let ?reason = "if reason0 = [] then ''integration'' else reason0"
  have a: "safe_op (in_tx env (replace_tx env source ?reason actor canonical bound))"
    if g: "replace_guard source reason0 actor = None" and c: "canonical_addresses addresses = Inr canonical"
    for canonical
  proof -
    have "claim_ok (replacement_claim source ?reason actor now a)" if "a \<in> set canonical" for now a
      using replacement_claim_ok [OF g] canonical_addresses_ok [OF c] that by auto
    then show ?thesis unfolding replace_tx_def
      by (intro body_safe) (intro out_rules | intro body_rules exec_insert_claim | assumption)+
  qed
  show ?thesis unfolding replace_source_claims_bounded_def Let_def
    by (intro safe_check safe_of_result a) auto
qed

lemma wp_delete_claims:
  "wp (exec env l (sql_delete_claims P)) (\<lambda>n w'. in_flight w w' \<and> (n = 0 \<longrightarrow> settled w w')) (\<lambda>_ _. True) w"
proof -
  have "wp (exec env l (sql_delete_claims P))
      (\<lambda>n w'. n = 0 \<longrightarrow> claims (w_db w') = claims (w_db w)) (\<lambda>_ _. True) w"
    by (rule wp_exec) (auto simp: sql_delete_claims_def filter_empty_conv intro: filter_True)
  from wp_conj [OF obeys_wp [OF exec_delete_claims] this] show ?thesis
    by (rule wp_mono) (auto simp: settled_def)
qed

lemma wp_rows_affected: "(\<And>x. Q n (w\<lparr>w_ext := x\<rparr>)) \<Longrightarrow> wp (rows_affected env n) Q (\<lambda>_ _. True) w"
  by (auto simp: rows_affected_def intro!: wp_io)

lemma settled_ext [simp]: "settled w (w'\<lparr>w_ext := x\<rparr>) = settled w w'" "in_flight w (w'\<lparr>w_ext := x\<rparr>) = in_flight w w'"
  by (auto simp: settled_def in_flight_def outside_def)

lemma body_purge: "claims_body (thenP (exec env l (sql_audit now a e t)) (mark_claim_publication_dirty env now))"
  by (intro body_rules)

lemma safe_purge_expired_claims:
  fixes env :: "('x, 'z) env_scheme"
  shows "safe_op (purge_expired_claims env now :: (('k, 'x) world, nat) prog)"
proof -
  let ?tail = "\<lambda>cnt :: nat. thenP (if 0 < cnt
               then thenP (exec env ''INSERT INTO audit'' (sql_audit now ''system'' ''expired_claims_purged''
                             (''count='' @ itoa cnt)))
                      (mark_claim_publication_dirty env now)
               else ret ()) (ret cnt)"
  have t: "wp (?tail n) (\<lambda>_. claims_tx w) (\<lambda>_ _. True) v" if "in_flight w v" "n = 0 \<longrightarrow> settled w v"
    for n and w v :: "('k, 'x) world"
  proof (cases "n = 0")
    case True
    with that show ?thesis by (simp add: settled_claims_tx)
  next
    case False
    with that(1) body_purge [unfolded claims_body_def, rule_format, OF that(1)] show ?thesis by simp
  qed
  show ?thesis unfolding purge_expired_claims_def
  proof (rule in_tx_safe)
    show "wp (bindP (exec env ''DELETE FROM claims''
                 (sql_delete_claims (\<lambda>c. case c_expires c of None \<Rightarrow> False | Some e \<Rightarrow> \<not> text_after e now))) (\<lambda>n.
        bindP (rows_affected env n) ?tail)) (\<lambda>_. claims_tx w) (\<lambda>_ _. True) w" for w :: "('k, 'x) world"
      unfolding wp_bindP
      by (rule wp_mono [OF wp_delete_claims], rule wp_rows_affected, rule t) simp_all
  qed (intro out_rules)
qed

lemma wp_retire_sources:
  "in_flight w0 w \<Longrightarrow> k = 0 \<longrightarrow> settled w0 w \<Longrightarrow>
    wp (retire_sources env ss k) (\<lambda>r w'. in_flight w0 w' \<and> (r = 0 \<longrightarrow> settled w0 w')) (\<lambda>_ _. True) w"
proof (induction ss arbitrary: k w)
  case Nil
  then show ?case by (simp add: retire_sources_def)
next
  case (Cons s ss)
  have r: "retire_sources env (s # ss) k =
      bindP (exec env ''DELETE FROM claims'' (sql_delete_claims (\<lambda>c. c_source c = s))) (\<lambda>m.
      bindP (rows_affected env m) (\<lambda>cnt. retire_sources env ss (k + cnt)))"
    by (simp add: retire_sources_def)
  show ?case unfolding r wp_bindP
    by (rule wp_mono [OF wp_delete_claims])
      (use Cons.prems in \<open>auto intro!: wp_rows_affected Cons.IH intro: in_flight.frame_trans settled.frame_trans\<close>)
qed

lemma outside_retire_sources: "obeys outside (retire_sources env ss k)"
  by (induction ss arbitrary: k) (auto simp: retire_sources_def intro!: outside_rules)

lemma settled_forP_scan: "obeys settled (forP (\<lambda>_. io env l) xs)"
  by (intro settled_rules)

lemma body_settled_end:
  assumes "in_flight w0 w" "n = 0 \<longrightarrow> settled w0 w"
  shows "wp (thenP (if 0 < (n::nat) then mark_claim_publication_dirty env now else ret ()) (ret ()))
    (\<lambda>_. claims_tx w0) (\<lambda>_ _. True) w"
  using assms body_dirty [unfolded claims_body_def, rule_format, OF assms(1)]
  by (cases "n = 0") (simp_all add: settled_claims_tx)

lemma outside_forP_io: "obeys outside (forP (\<lambda>_. io env l) xs)"
  by (intro outside_rules)

lemma settled_retire: "obeys settled (retire_states env states)"
  unfolding retire_states_def by (intro settled_rules)

lemma outside_retire_states: "obeys outside (retire_states env states)"
  unfolding retire_states_def by (intro outside_rules)

lemma exec_mark_applied: "obeys claims_tx (exec env l (sql_mark_applied revision))"
  by (auto simp: obeys_def exec_def io_def thenP_def bindP_def sql_mark_applied_def claims_tx_def
      outside_def revision_moved_def table_defs split: prod.splits option.splits sum.splits)

lemma safe_mark_claims_published: "safe_op (mark_claims_published env revision cnt)"
proof -
  have u: "claims_run (exec env l (sql_upsert row (\<lambda>r. r\<lparr>is_status := s, is_count := cnt, is_last := t, is_updated := now\<rparr>)))"
    if "\<not> cnt < 0" for l row s t now
    by (rule run_settled) (rule settled_upsert, use that in auto)
  show ?thesis unfolding mark_claims_published_def
    by (intro safe_refuse run_safe)
      (intro out_rules | intro run_bind run_then run_frame [OF exec_mark_applied] run_reads read_rules u | assumption)+
qed

lemma safe_prepare_claim_publication: "safe_op (prepare_claim_publication env)"
  unfolding prepare_claim_publication_def
  by (intro run_safe)
    (intro out_rules | intro run_bind run_then run_if run_body [OF body_dirty] run_settled [OF settled_degraded]
      run_reads read_rules)+

lemma safe_audit: "safe_op (audit env actor event detail)"
  unfolding audit_def by (intro safe_of_result safe_bind reads_calls safe_exec settled_audit)

lemma safe_set_integration_state: "safe_op (set_integration_state env name status cnt success)"
  unfolding set_integration_state_def Let_def
  by (intro safe_refuse safe_bind safe_exec settled_upsert read_rules) auto

lemma settled_flight: "obeys settled m \<Longrightarrow> obeys in_flight m"
  by (erule obeys_mono) (simp add: settled_def)

lemma body_then_settled:
  assumes "claims_body (m :: (('k, 'x) world, unit) prog)" "obeys settled k"
  shows "claims_body (thenP m k)"
  unfolding claims_body_def
proof (intro allI impI)
  fix w0 w :: "('k, 'x) world"
  assume "in_flight w0 w"
  then have "wp m (\<lambda>_. claims_tx w0) (\<lambda>_ _. True) w" using assms(1) by (simp add: claims_body_def)
  then show "wp (thenP m k) (\<lambda>_. claims_tx w0) (\<lambda>_ _. True) w"
    unfolding wp_thenP
    by (rule wp_mono) (auto intro: wp_flight [OF obeys_mono [OF assms(2) settled_claims_tx] claims_tx.frame_order_axioms])
qed

lemma body_retire_finish: "n \<noteq> 0 \<Longrightarrow> claims_body (retire_finish env active inactive n)"
  unfolding retire_finish_def Let_def
  by (simp, intro body_bind body_then body_then_settled [OF body_dirty] flight_calls in_flight.frame_rules
      settled_flight [OF settled_retire] settled_rules)

lemma settled_retire_finish: "obeys settled (retire_finish env active inactive 0)"
  unfolding retire_finish_def Let_def by simp (intro settled_rules settled_retire)

lemma wp_retire_finish:
  assumes "in_flight w v" "n = 0 \<longrightarrow> settled w v"
  shows "wp (retire_finish env active inactive n) (\<lambda>_. claims_tx w) (\<lambda>_ _. True) v"
proof (cases "n = 0")
  case True
  show ?thesis unfolding True
    by (rule wp_flight [OF settled_retire_finish settled.frame_order_axioms])
      (use assms True in \<open>auto intro: settled_claims_tx\<close>)
next
  case False
  from body_retire_finish [OF False, unfolded claims_body_def, rule_format, OF assms(1)] show ?thesis .
qed

lemma wp_retire_both:
  assumes "settled w v"
  shows "wp (retire_sources env inactive 0) (\<lambda>n. wp (retire_finish env active inactive n) (\<lambda>_. claims_tx w) (\<lambda>_ _. True))
    (\<lambda>_ _. True) v"
proof (rule wp_mono [OF wp_retire_sources])
  show "in_flight w v" "(0::nat) = 0 \<longrightarrow> settled w v" using assms by (simp_all add: settled_def)
qed (rule wp_retire_finish, simp_all)

lemma outside_retire_finish: "obeys outside (retire_finish env active inactive n)"
  unfolding retire_finish_def Let_def by (intro out_rules outside_retire_states)

lemma safe_retire_inactive_integrations: "safe_op (retire_inactive_integrations env active)"
  unfolding retire_inactive_integrations_def Let_def
proof (rule in_tx_safe)
  show "wp (bindP (query env ''SELECT DISTINCT source FROM claims'' (\<lambda>d. Ok (managed_sources d))) (\<lambda>sources.
      thenP (forP (\<lambda>_. io env ''rows.Scan'') sources)
      (thenP (io env ''rows.Err'') (thenP (io env ''rows.Close'')
       (bindP (retire_sources env (filter (\<lambda>s. \<not> active s) sources) 0)
         (retire_finish env active (filter (\<lambda>s. \<not> active s) sources))))))) (\<lambda>_. claims_tx w) (\<lambda>_ _. True) w" for w
    unfolding wp_bindP wp_thenP
    by (rule wp_flight [OF settled_reads(3) settled.frame_order_axioms settled.frame_refl],
        rule wp_flight [OF settled_forP_scan settled.frame_order_axioms], assumption,
        (rule wp_flight [OF settled_reads(1) settled.frame_order_axioms], assumption)+, rule wp_retire_both, assumption)
      simp_all
qed (intro out_rules outside_retire_sources outside_retire_finish)

section \<open>Reading operations\<close>

lemma reads_scan_claims: "obeys reads (scan_claims env rows)"
  unfolding scan_claims_def by (intro read_rules)

lemma reads_in_tx: "obeys reads body \<Longrightarrow> obeys reads (in_tx env body)"
proof -
  assume b: "obeys reads body"
  let ?m = "thenP (io env ''BEGIN'') (bindP body (\<lambda>x. thenP (io env ''COMMIT'') (ret x)))"
  have "obeys reads ?m" by (intro read_rules b)
  then show ?thesis
    by (auto simp: obeys_def in_tx_def reads_def outside_def split: prod.splits sum.splits) (metis snd_conv)+
qed

lemma reads_claims:
  "obeys reads (claims_at env now)" "obeys reads (claims_page env now limit offset)"
  "obeys reads (claims_with_publication env now)" "obeys reads (claim_publication_state env)"
  "obeys reads (recent_audit env n)" "obeys reads (integration_states env)"
  unfolding claims_at_def claims_page_def claims_with_publication_def claim_publication_state_def
    recent_audit_def integration_states_def Let_def
  by (intro read_rules reads_scan_claims reads_in_tx)+

end
