(* ===== verification/Claims_Props.thy ===== *)
theory Claims_Props
  imports Claims_Inv
begin

text \<open>
  What the claim operations of the store promise, over every sequence of calls and every failure of the
  database: the properties of \<^verbatim>\<open>Claims\<close> and their witnesses.
\<close>

section \<open>Sequences of operations\<close>

text \<open>The calls that write the claim tables, with their arguments.\<close>

datatype claim_op =
    OpAdd claim int
  | OpRemove int string
  | OpRemoveOperator int string string
  | OpReplace string string string "string list" int
  | OpRestore claim string
  | OpPurge gotime
  | OpPrepare
  | OpPublished nat int
  | OpAudit string string string
  | OpSetState string string int bool
  | OpRetire "string \<Rightarrow> bool"

definition discard :: "('w, 'a) prog \<Rightarrow> ('w, unit) prog" where
  "discard m = bindP m (\<lambda>_. ret ())"

fun run_op :: "('x, 'z) env_scheme \<Rightarrow> claim_op \<Rightarrow> (('k, 'x) world, unit) prog" where
  "run_op env (OpAdd c bound) = discard (add_claim_bounded env c bound)"
| "run_op env (OpRemove i actor) = remove_claim env i actor"
| "run_op env (OpRemoveOperator i actor kind) = remove_operator_claim env i actor kind"
| "run_op env (OpReplace source reason actor addresses bound) =
     discard (replace_source_claims_bounded env source reason actor addresses bound)"
| "run_op env (OpRestore c actor) = restore_claim env c actor"
| "run_op env (OpPurge now) = discard (purge_expired_claims env now)"
| "run_op env OpPrepare = discard (prepare_claim_publication env)"
| "run_op env (OpPublished revision cnt) = mark_claims_published env revision cnt"
| "run_op env (OpAudit actor event detail) = audit env actor event detail"
| "run_op env (OpSetState name status cnt success) = set_integration_state env name status cnt success"
| "run_op env (OpRetire active) = discard (retire_inactive_integrations env active)"

text \<open>One step: a call of this process, or the outside moves on.\<close>

inductive claims_step :: "('x, 'z) env_scheme \<Rightarrow> ('k, 'x) world \<Rightarrow> ('k, 'x) world \<Rightarrow> bool"
  for env :: "('x, 'z) env_scheme" where
  call: "claims_step env w (snd (run_op env op w))"
| durable: "claims_step env w (snd (audit_durable env actor event detail w))"
| elsewhere: "claims_step env w (w\<lparr>w_ext := x\<rparr>)"

inductive_cases claims_stepE: "claims_step env w w'"

text \<open>The tables that the migrations create in an empty database.\<close>

definition fresh_db :: "gotime \<Rightarrow> db" where
  "fresh_db t =
     \<lparr>gens = [], claims = [], claim_seq = 0, audits = [], audit_seq = 0,
      integrations = [\<lparr>is_name = runtime_claims, is_status = ''degraded'', is_count = 0, is_last = None,
                       is_updated = t\<rparr>],
      publication = Some \<lparr>p_desired = 1, p_applied = 0\<rparr>\<rparr>"

lemma fresh_db_ok: "tables_ok (fresh_db t)"
  by (simp add: table_defs fresh_db_def)

lemma safe_opD: "safe_op m \<Longrightarrow> wp m (\<lambda>_. claims_tx w) (\<lambda>_ w'. w_db w' = w_db w) w"
  by (simp add: safe_op_def)

lemma safe_discard: "safe_op m \<Longrightarrow> safe_op (discard m)"
  unfolding safe_op_def discard_def by (simp add: outside.frame_rules)

lemma safe_run_op: "safe_op (run_op env op)"
  by (cases op)
    (simp_all add: safe_discard safe_add_claim_bounded safe_remove_claim safe_remove_operator_claim
      safe_replace_source_claims_bounded safe_restore_claim safe_purge_expired_claims
      safe_prepare_claim_publication safe_mark_claims_published safe_audit safe_set_integration_state
      safe_retire_inactive_integrations)

lemma frame_sync_database: "obeys claims_tx (sync_database env)"
  by (rule obeys_mono [OF reads_sync_database]) (rule reads_claims_tx)

lemma frame_audit_durable: "obeys claims_tx (audit_durable env actor event detail)"
proof -
  have s: "safe_op (in_tx env (bindP (time_now env) (\<lambda>now. exec env l (sql_audit now actor event t))))" for l t
    by (intro run_safe) (intro out_rules | intro run_bind run_settled [OF settled_audit] run_reads read_rules)+
  show ?thesis unfolding audit_durable_def
    by (intro claims_tx.obeys_bindP claims_tx.obeys_of_result claims_tx.obeys_thenP frame_sync_database
        safe_frame [OF s])
qed

lemma claims_step_tx: "claims_step env w w' \<Longrightarrow> claims_tx w w'"
proof (erule claims_stepE)
  show "w' = snd (run_op env op w) \<Longrightarrow> claims_tx w w'" for op
    using obeysD [OF safe_frame [OF safe_run_op]] by simp
  show "w' = snd (audit_durable env a e t w) \<Longrightarrow> claims_tx w w'" for a e t
    using obeysD [OF frame_audit_durable] by simp
  show "w' = w\<lparr>w_ext := x\<rparr> \<Longrightarrow> claims_tx w w'" for x
    by (simp add: claims_tx_def outside_def revision_moved_def)
qed

lemma claims_steps_tx: "(claims_step env)\<^sup>*\<^sup>* w w' \<Longrightarrow> claims_tx w w'"
  by (induction rule: rtranclp_induct) (auto intro: claims_tx.frame_refl claims_tx.frame_trans claims_step_tx)

section \<open>The tables stay well formed\<close>

text \<open>C13. Starting from the tables of a fresh database, and whatever the calls and their failures
  are, the tables stay well formed: every stored claim passes \<^verbatim>\<open>ValidateClaim\<close> and
  \<^verbatim>\<open>validateClaimMetadata\<close>, ids are unique and never reused, names of integrations are unique, the
  applied revision never passes the desired one, and the audit table never holds more than 10,000
  rows.\<close>

theorem claim_tables_invariant:
  assumes "w_db w = fresh_db t" "(claims_step env)\<^sup>*\<^sup>* w w'"
  shows "tables_ok (w_db w') \<and> (\<forall>c \<in> set (claims (w_db w')). scan_claim c = None) \<and>
    length (audits (w_db w')) \<le> 10000"
proof -
  have "tables_ok (w_db w')"
    using claims_steps_tx [OF assms(2)] assms(1) fresh_db_ok by (simp add: claims_tx_def)
  moreover from this have "scan_claim c = None" if "c \<in> set (claims (w_db w'))" for c
    using that by (auto simp: table_defs claim_ok_def scan_claim_def)
  ultimately show ?thesis using audits_bounded by (auto simp: tables_ok_def)
qed

text \<open>C15. A call that returns an error leaves the database as it was: no claim, audit record,
  integration state or revision of a failed operation is visible afterwards.\<close>

theorem failed_claim_operation:
  assumes "run_op env op w = (Inl e, w')"
  shows "w_db w' = w_db w"
  using wp_Err [OF safe_opD [OF safe_run_op] assms] .

section \<open>Publication\<close>

lemma claims_with_publication_Ok:
  assumes "claims_with_publication env now w = (Inr (cs, p), w')"
  shows "cs = live_claims now (w_db w) \<and> publication (w_db w) = Some p \<and> w_db w' = w_db w"
proof -
  have s: "wp (scan_claims env rows) (\<lambda>x v. x = rows \<and> w_db v = w_db u) (\<lambda>_ v. w_db v = w_db u) u" for rows u
  proof -
    have "wp (scan_claims env rows) (\<lambda>x _. x = rows) (\<lambda>_ _. True) u"
      unfolding scan_claims_def by simp (rule wp_mono [OF wp_True], auto intro!: wp_io)
    from wp_conj [OF this obeys_wp [OF reads_scan_claims]] show ?thesis
      by (rule wp_mono) (auto simp: reads_def)
  qed
  have "wp (claims_with_publication env now)
      (\<lambda>r w'. fst r = live_claims now (w_db w) \<and> publication (w_db w) = Some (snd r)) (\<lambda>_ _. True) w"
    unfolding claims_with_publication_def
    by (rule wp_in_tx)
      (auto intro!: wp_query wp_mono [OF s] wp_io simp: sql_publication_def split: option.splits sum.splits)
  from wp_Ok [OF this assms] obeys_run [OF reads_claims(3) assms] show ?thesis by (simp add: reads_def)
qed

lemma mark_claims_published_Ok:
  assumes "mark_claims_published env revision cnt w = (Inr u, w')"
  shows "\<exists>p. publication (w_db w) = Some p \<and> p_desired p = revision \<and> claims (w_db w') = claims (w_db w) \<and>
    publication (w_db w') = Some (p\<lparr>p_applied := revision\<rparr>)"
proof -
  have "wp (mark_claims_published env revision cnt)
      (\<lambda>_ w'. \<exists>p. publication (w_db w) = Some p \<and> p_desired p = revision \<and> claims (w_db w') = claims (w_db w) \<and>
        publication (w_db w') = Some (p\<lparr>p_applied := revision\<rparr>)) (\<lambda>_ _. True) w"
    unfolding mark_claims_published_def
    by (auto intro!: wp_in_tx wp_time_now wp_exec wp_rows_affected
        simp: sql_mark_applied_def sql_upsert_def split: option.splits if_splits)
  from wp_Ok [OF this assms] show ?thesis .
qed

text \<open>C12. No change of the claims is lost: when a publication read the claims together with their
  revision, any calls were made meanwhile, and the publication was then recorded as applied, the
  claims are still the ones it read. A publication that missed a change is refused.\<close>

theorem publication_not_lost:
  assumes read: "claims_with_publication env now w0 = (Inr (cs, p), w1)"
    and meanwhile: "(claims_step env)\<^sup>*\<^sup>* w1 w2"
    and recorded: "mark_claims_published env (p_desired p) cnt w2 = (Inr u, w3)"
  shows "claims (w_db w3) = claims (w_db w0) \<and> cs = live_claims now (w_db w3) \<and>
    (\<exists>q. publication (w_db w3) = Some q \<and> p_applied q = p_desired q)"
proof -
  from claims_with_publication_Ok [OF read]
  have r: "cs = live_claims now (w_db w0)" "publication (w_db w1) = Some p" "w_db w1 = w_db w0" by auto
  from mark_claims_published_Ok [OF recorded] obtain q where
    q: "publication (w_db w2) = Some q" "p_desired q = p_desired p" "claims (w_db w3) = claims (w_db w2)"
    "publication (w_db w3) = Some (q\<lparr>p_applied := p_desired p\<rparr>)" by blast
  from claims_steps_tx [OF meanwhile] r(2) q(1,2) have "claims (w_db w2) = claims (w_db w1)"
    by (auto simp: claims_tx_def revision_moved_def)
  with q r show ?thesis by (simp add: live_claims_def)
qed

section \<open>Replacing the claims of an integration\<close>

lemma sql_insert_claim_append:
  "sql_insert_claim c d = Inr (i, d') \<Longrightarrow> \<exists>k. claims d' = claims d @ [c\<lparr>c_id := k\<rparr>]"
  by (auto simp: sql_insert_claim_def Let_def split: if_splits)

lemma wp_insert_all:
  "wp (forP (\<lambda>a. bindP (exec env l (sql_insert_claim (f a))) (\<lambda>_. ret ())) as)
     (\<lambda>_ w'. \<exists>cs. claims (w_db w') = claims (w_db w) @ cs \<and>
        map (\<lambda>c. c\<lparr>c_id := 0\<rparr>) cs = map (\<lambda>a. (f a)\<lparr>c_id := 0\<rparr>) as) (\<lambda>_ _. True) w"
proof (induction as arbitrary: w)
  case (Cons a as)
  show ?case
    by simp (rule wp_exec, rule wp_mono [OF Cons.IH], use sql_insert_claim_append in fastforce, simp_all)
qed simp

lemma dirty_claims:
  "wp (mark_claim_publication_dirty env now) (\<lambda>_ w'. claims (w_db w') = claims (w_db w)) (\<lambda>_ _. True) w"
  unfolding mark_claim_publication_dirty_def mark_runtime_claims_degraded_def
  by (auto intro!: wp_exec wp_rows_affected wp_query simp: sql_bump_def sql_upsert_def split: option.splits if_splits)

lemma exec_audit_claims:
  "wp (exec env l (sql_audit now a e t)) (\<lambda>_ w'. claims (w_db w') = claims (w_db w)) (\<lambda>_ _. True) w"
  by (rule wp_exec) (auto simp: sql_audit_def Let_def split: if_splits)

text \<open>The claims that a successful replacement leaves.\<close>

definition replaced ::
  "string \<Rightarrow> string \<Rightarrow> string \<Rightarrow> string list \<Rightarrow> claim list \<Rightarrow> claim list \<Rightarrow> bool" where
  "replaced source reason actor addresses old new \<longleftrightarrow>
     (\<exists>now cs. new = filter (\<lambda>c. c_source c \<noteq> source) old @ cs \<and>
        map (\<lambda>c. c\<lparr>c_id := 0\<rparr>) cs = map (replacement_claim source reason actor now) addresses)"

lemma wp_clock: "(\<And>x y. Q (fst (clock env y)) (w\<lparr>w_ext := x\<rparr>)) \<Longrightarrow> wp (time_now env) Q E w"
  by (simp add: wp_def time_now_def split: prod.splits) (metis fst_conv)

definition within_limit :: "('x, 'z) env_scheme \<Rightarrow> int \<Rightarrow> claim list \<Rightarrow> nat \<Rightarrow> bool" where
  "within_limit env bound cs k \<longleftrightarrow>
     (0 < bound \<longrightarrow> (\<exists>y. int (length (filter (sql_live (fst (clock env y))) cs) + k) \<le> bound))"

lemma replaced_limit:
  assumes "replaced source reason actor vs old new" "within_limit env bound (filter (\<lambda>c. c_source c \<noteq> source) old) (length vs)"
  shows "within_limit env bound new 0"
proof -
  from assms(1) obtain now cs where n: "new = filter (\<lambda>c. c_source c \<noteq> source) old @ cs"
    "map (\<lambda>c. c\<lparr>c_id := 0\<rparr>) cs = map (replacement_claim source reason actor now) vs"
    by (auto simp: replaced_def)
  have "map c_expires cs = map (\<lambda>_. None) vs"
    using arg_cong [OF n(2), of "map c_expires"] by (simp add: comp_def replacement_claim_def)
  then have "c_expires c = None" if "c \<in> set cs" for c
  proof -
    have "c_expires c \<in> set (map c_expires cs)" using that by simp
    then show ?thesis unfolding \<open>map c_expires cs = _\<close> by auto
  qed
  then have "filter (sql_live t) cs = cs" for t by (simp add: sql_live_def)
  moreover have "length cs = length vs" using n(2) by (metis length_map)
  ultimately show ?thesis using assms(2) by (simp add: within_limit_def n(1))
qed

lemma wp_replace_tail:
  assumes "claims (w_db v) = filter (\<lambda>c. c_source c \<noteq> source) old"
  shows "wp (bindP (time_now env) (\<lambda>now.
      thenP (forP (\<lambda>a. bindP (exec env l (sql_insert_claim (replacement_claim source r actor now a))) (\<lambda>_. ret ())) vs)
      (thenP (exec env l' (sql_audit now actor ev t))
      (thenP (io env l'') (thenP (mark_claim_publication_dirty env now) (ret n))))))
    (\<lambda>m w'. m = n \<and> replaced source r actor vs old (claims (w_db w'))) (\<lambda>_ _. True) v"
proof -
  have i: "(replacement_claim source r actor now a)\<lparr>c_id := 0\<rparr> = replacement_claim source r actor now a" for now a
    by (simp add: replacement_claim_def)
  show ?thesis
    by simp (rule wp_time_now, rule wp_mono [OF wp_insert_all], rule wp_mono [OF exec_audit_claims], rule wp_io,
        rule wp_mono [OF dirty_claims], use assms i in \<open>auto simp: replaced_def\<close>)
qed

lemma wp_replace_limit:
  "wp (if 0 < bound
       then bindP (time_now env) (\<lambda>t.
            bindP (query env l (\<lambda>d. Ok (live_count t d))) (\<lambda>remaining.
            refuseP (bound < int (remaining + k)) e))
       else ret ())
     (\<lambda>_ w'. w_db w' = w_db w \<and> within_limit env bound (claims (w_db w)) k) (\<lambda>_ _. True) w"
  by (auto intro!: wp_clock wp_query simp: within_limit_def live_count_def not_less)

text \<open>C14. A successful replacement leaves the claims of every other source as they were, in their
  order, and gives the source exactly the canonical forms of the feed's addresses, once each and
  without expiry; with a limit, the live claims do not exceed it.\<close>

theorem replace_source_exact:
  assumes "replace_source_claims_bounded env source reason actor addresses bound w = (Inr n, w')"
  shows "\<exists>vs. canonical_addresses addresses = Inr vs \<and> n = length vs \<and>
    replaced source (if reason = [] then ''integration'' else reason) actor vs (claims (w_db w)) (claims (w_db w')) \<and>
    within_limit env bound (claims (w_db w')) 0"
proof -
  let ?r = "if reason = [] then ''integration'' else reason"
  define post where "post m v \<longleftrightarrow> (\<exists>vs. canonical_addresses addresses = Inr vs \<and> m = length vs \<and>
    replaced source ?r actor vs (claims (w_db w)) (claims (w_db v)) \<and> within_limit env bound (claims (w_db v)) 0)"
    for m and v :: "('a, 'b) world"
  have t: "wp (in_tx env (replace_tx env source ?r actor vs bound)) post (\<lambda>_ _. True) w"
    if c: "canonical_addresses addresses = Inr vs" for vs
    by (rule wp_in_tx, unfold replace_tx_def wp_bindP [of "exec _ _ _"] wp_thenP [of "if _ then _ else _"],
        rule wp_exec, rule wp_mono [OF wp_replace_limit], rule wp_mono [OF wp_replace_tail])
      (auto simp: sql_delete_claims_def post_def c intro: replaced_limit)
  have "wp (replace_source_claims_bounded env source reason actor addresses bound) post (\<lambda>_ _. True) w"
    unfolding replace_source_claims_bounded_def Let_def
    by (cases "reason = []") (use t in \<open>simp_all split: option.splits sum.splits\<close>)
  from wp_Ok [OF this assms] show ?thesis by (simp add: post_def)
qed

section \<open>Adding and removing single claims\<close>

lemma remove_tail_claims:
  "wp (claim_removed env actor i) (\<lambda>_ w'. claims (w_db w') = claims (w_db w)) (\<lambda>_ _. True) w"
  unfolding claim_removed_def
  by simp (rule wp_time_now, rule wp_mono [OF exec_audit_claims], rule wp_mono [OF dirty_claims], simp_all)

lemma operator_sources:
  "operator_may_remove kind s \<Longrightarrow>
    kind = ''block'' \<and> s = ''manual'' \<or> kind = ''allow'' \<and> (s = ''allow'' \<or> take 6 s = ''allow/'')"
  by (auto simp: operator_may_remove_def is_allow_source_def has_prefix_def prefix_def)

text \<open>C16. The control API removes a claim only as what it is: as a \<^verbatim>\<open>block\<close> a claim whose source is
  \<^verbatim>\<open>manual\<close>, as an \<^verbatim>\<open>allow\<close> a claim whose source is \<^verbatim>\<open>allow\<close> or starts with \<^verbatim>\<open>allow/\<close>. A successful removal
  takes exactly that claim out; the claims of the integrations, whose sources are none of these, cannot be
  removed this way.\<close>

theorem operator_removes_own_claims:
  assumes "remove_operator_claim env i actor kind w = (Inr u, w')"
  shows "\<exists>c \<in> set (claims (w_db w)). c_id c = i \<and>
    (kind = ''block'' \<and> c_source c = ''manual'' \<or>
     kind = ''allow'' \<and> (c_source c = ''allow'' \<or> take 6 (c_source c) = ''allow/'')) \<and>
    claims (w_db w') = filter (\<lambda>c. c_id c \<noteq> i) (claims (w_db w))"
proof -
  have s: "sql_claim_source i d = Inr src \<Longrightarrow> \<exists>c \<in> set (claims d). c_id c = i \<and> c_source c = src" for d src
    by (auto simp: sql_claim_source_def find_Some_iff split: option.splits)
  have "wp (remove_operator_claim env i actor kind)
      (\<lambda>_ w'. (\<exists>c \<in> set (claims (w_db w)). c_id c = i \<and> operator_may_remove kind (c_source c)) \<and>
        claims (w_db w') = filter (\<lambda>c. c_id c \<noteq> i) (claims (w_db w))) (\<lambda>_ _. True) w"
    unfolding remove_operator_claim_def
    by (auto intro!: wp_in_tx wp_query wp_exec wp_mono [OF remove_tail_claims]
        simp: sql_delete_claims_def dest!: s) blast
  from wp_Ok [OF this assms] show ?thesis using operator_sources by blast
qed

lemma sql_insert_claim_last:
  "sql_insert_claim c' d = Inr (k, d') \<Longrightarrow> tables_ok d \<Longrightarrow>
    claims d' = claims d @ [c'\<lparr>c_id := k\<rparr>] \<and> (\<forall>x \<in> set (claims d). c_id x < k)"
  by (auto simp: sql_insert_claim_def Let_def table_defs split: if_splits)

lemma wp_add_tail:
  assumes "tables_ok (w_db v)"
  shows "wp (bindP (exec env l (sql_insert_claim c')) (\<lambda>i. thenP (io env l')
      (thenP (exec env l'' (sql_audit now a e (t i))) (thenP (mark_claim_publication_dirty env now) (ret i)))))
    (\<lambda>i w'. claims (w_db w') = claims (w_db v) @ [c'\<lparr>c_id := i\<rparr>] \<and> (\<forall>x \<in> set (claims (w_db v)). c_id x < i))
    (\<lambda>_ _. True) v"
  by simp (rule wp_exec, rule wp_io, rule wp_mono [OF exec_audit_claims], rule wp_mono [OF dirty_claims],
      use sql_insert_claim_last [OF _ assms] in auto)

lemma wp_add_limit:
  "wp (if 0 < bound
       then bindP (query env l (\<lambda>d. Ok (live_count now d))) (\<lambda>cnt. refuseP (bound \<le> int cnt) e)
       else ret ())
     (\<lambda>_ w'. w_db w' = w_db w \<and>
        (0 < bound \<longrightarrow> int (length (filter (sql_live now) (claims (w_db w)))) < bound)) (\<lambda>_ _. True) w"
  by (auto intro!: wp_query simp: live_count_def not_le)

text \<open>C17. Adding a claim under a limit: the claim gets an id above every stored id, the other claims
  stay, and the live claims, the new one included, do not exceed the limit.\<close>

theorem add_claim_bounded_limit:
  assumes "add_claim_bounded env c bound w = (Inr i, w')" "0 < bound" "tables_ok (w_db w)"
  shows "\<exists>c'. claims (w_db w') = claims (w_db w) @ [c'] \<and> c_id c' = i \<and> c_address c' = c_address c \<and>
    (\<forall>d \<in> set (claims (w_db w)). c_id d < i) \<and> within_limit env bound (claims (w_db w')) 0"
proof -
  define post where "post i w' \<longleftrightarrow> (\<exists>c'. claims (w_db w') = claims (w_db w) @ [c'] \<and> c_id c' = i \<and>
    c_address c' = c_address c \<and> (\<forall>d \<in> set (claims (w_db w)). c_id d < i) \<and>
    within_limit env bound (claims (w_db w')) 0)" for i and w' :: "('a, 'b) world"
  have lim: "within_limit env bound (claims (w_db w) @ [x]) 0"
    if "int (length (filter (sql_live (fst (clock env y))) (claims (w_db w)))) < bound" for x y
  proof -
    have "length (filter (sql_live (fst (clock env y))) (claims (w_db w) @ [x]))
        \<le> length (filter (sql_live (fst (clock env y))) (claims (w_db w))) + 1" by simp
    with that show ?thesis unfolding within_limit_def by (intro impI exI [of _ y]) linarith
  qed
  have tx: "wp (in_tx env
      (thenP (if 0 < bound
              then bindP (query env l (\<lambda>d. Ok (live_count now d))) (\<lambda>cnt. refuseP (bound \<le> int cnt) er)
              else ret ())
        (bindP (exec env l2 (sql_insert_claim c')) (\<lambda>i. thenP (io env l')
          (thenP (exec env l'' (sql_audit now a e (t i))) (thenP (mark_claim_publication_dirty env now) (ret i)))))))
      post (\<lambda>_ _. True) (w\<lparr>w_ext := x\<rparr>)"
    if "now = fst (clock env y)" "c_address c' = c_address c" for l now er l2 c' l' l'' a e t x y
    by (rule wp_in_tx, unfold wp_thenP [of "if _ then _ else _"], rule wp_mono [OF wp_add_limit],
        rule wp_mono [OF wp_add_tail]) (use assms(2,3) that lim in \<open>auto simp: post_def\<close>)
  have "wp (add_claim_bounded env c bound) post (\<lambda>_ _. True) w"
    unfolding add_claim_bounded_def Let_def
    unfolding wp_thenP wp_check wp_bindP [of "time_now _"]
    by (auto split: option.split intro!: wp_clock tx)
  from wp_Ok [OF this assms(1)] show ?thesis by (simp add: post_def)
qed

section \<open>The effective addresses\<close>

text \<open>C18. Canonical form is a fixed point: the addresses a feed is reduced to, given to the same
  reduction again, come back as they are. What is printed into the table parses back to the same
  masked prefix, IPv4 and IPv6 alike.\<close>

theorem canonical_addresses_idempotent:
  assumes "canonical_addresses raws = Inr vs"
  shows "canonical_addresses vs = Inr vs"
proof -
  have f: "replacement_prefix a = Inr (masked p)" if "prefix_valid p" "a = prefix_string (masked p)" for a p
    using that by (simp add: replacement_prefix_def parse_masked_string)
  have m: "masked (masked p) = masked p" if v: "prefix_valid p" for p
  proof (cases p)
    case (Prefix a b)
    have "mask_addr (mask_addr a n) n = mask_addr a n" for n
      by (cases a) (simp_all add: drop_push_drop)
    moreover have "prefix_valid (Prefix (mask_addr a (nat b)) b)"
      using prefix_valid_masked [of p] v Prefix by (simp add: masked_def)
    ultimately show ?thesis using v Prefix by (simp add: masked_def)
  qed
  have step: "canonical_step seen a = Inr (if a \<in> set seen then seen else seen @ [a])"
    if c: "canonical_address a" for seen a
    using c f m by (auto simp: canonical_address_def canonical_step_def Let_def)
  have "foldE canonical_step seen as = Inr (seen @ as)"
    if "\<forall>a \<in> set as. canonical_address a" "distinct (seen @ as)" for seen as
    using that by (induction as arbitrary: seen) (simp_all add: step)
  from this [of vs "[]"] canonical_addresses_ok [OF assms] show ?thesis
    by (simp add: canonical_addresses_def sorted_sort_id)
qed

section \<open>Witnesses\<close>

definition block_claim :: claim where
  "block_claim = \<lparr>c_id = 0, c_address = ''192.0.2.7'', c_family = ''ipv4'', c_source = ''manual'',
     c_reason = ''scan'', c_actor = ''root'', c_created = zero_time, c_expires = None\<rparr>"

definition idle :: "(unit, unit) world" where
  "idle = \<lparr>w_db = fresh_db 0,
     w_disk = \<lparr>d_scripts = \<lambda>_. None, d_snapshots = \<lambda>_. None, d_marker = None, d_temp = None\<rparr>, w_kernel = (), w_ext = ()\<rparr>"

definition blocked :: "(unit, unit) world" where
  "blocked = snd (run_op quiet (OpAdd block_claim 10) idle)"

lemmas claims_defs =
  source_char_def claim_source_pattern_def is_allow_source_def validate_claim_def validate_claim_metadata_def
  sql_live_def live_count_def sql_insert_claim_def sql_insert_claim_id_def sql_delete_claims_def sql_upsert_def
  sql_bump_def sql_publication_def rows_affected_def runtime_claims_def mark_runtime_claims_degraded_def
  mark_claim_publication_dirty_def revision_invalid_def sql_mark_applied_def mark_claims_published_def
  add_claim_bounded_def claim_removed_def remove_claim_def sql_claim_source_def operator_may_remove_def
  remove_operator_claim_def replacement_prefix_def canonical_step_def canonical_addresses_def address_family_def
  replacement_claim_def replace_guard_def replace_tx_def replace_source_claims_bounded_def claim_less_def
  live_claims_def scan_claim_def scan_claims_def claims_at_def claims_with_publication_def
  effective_addresses_def discard_def fresh_db_def

lemma block_claim_valid: "validate_claim ''192.0.2.7'' ''ipv4'' = None" "validate_claim_metadata block_claim = None"
  by (simp_all add: validate_claim_def validate_claim_metadata_def block_claim_def claim_source_pattern_def
      is_allow_source_def source_char_def go_eval)

lemma blocked_run:
  "add_claim_bounded quiet block_claim 10 idle = (Inr 1, blocked)"
  "claims (w_db blocked) = [block_claim\<lparr>c_id := 1, c_created := 1700000000000000000\<rparr>]"
  "publication (w_db blocked) = Some \<lparr>p_desired = 2, p_applied = 0\<rparr>"
  using block_claim_valid
  by (simp_all add: blocked_def idle_def block_claim_def claims_defs prog_run zero_time_def Let_def)

theorem claim_tables_invariant_witness:
  "tables_ok (w_db blocked) \<and> length (audits (w_db blocked)) \<le> 10000 \<and> claims (w_db blocked) \<noteq> []"
proof -
  have "w_db idle = fresh_db 0" by (simp add: idle_def)
  moreover have "(claims_step quiet)\<^sup>*\<^sup>* idle blocked"
    unfolding blocked_def by (intro r_into_rtranclp claims_step.call)
  ultimately show ?thesis using claim_tables_invariant [of idle 0 quiet blocked] blocked_run(2) by simp
qed

theorem failed_claim_operation_witness:
  "w_db (snd (run_op quiet (OpRemove 7 ''root'') blocked)) = w_db blocked"
proof -
  have "run_op quiet (OpRemove 7 ''root'') blocked = (Inl ErrNoRows, snd (run_op quiet (OpRemove 7 ''root'') blocked))"
    by (simp add: prog_run claims_defs blocked_run(2) block_claim_def)
  from failed_claim_operation [OF this] show ?thesis .
qed

lemma claim_tables_scan: "scan_claim (block_claim\<lparr>c_id := 1, c_created := 1700000000000000000\<rparr>) = None"
  using block_claim_valid by (simp add: scan_claim_def validate_claim_metadata_def block_claim_def)

theorem publication_not_lost_witness:
  "claims (w_db (snd (mark_claims_published quiet 2 1 blocked))) = claims (w_db blocked) \<and>
    claims (w_db blocked) \<noteq> []"
proof -
  let ?p = "\<lparr>p_desired = 2, p_applied = 0\<rparr>"
  have r: "claims_with_publication quiet 0 blocked =
      (Inr ([block_claim\<lparr>c_id := 1, c_created := 1700000000000000000\<rparr>], ?p), blocked)"
    using claim_tables_scan
    by (simp add: prog_run claims_with_publication_def live_claims_def scan_claims_def sql_live_def sql_publication_def
        revision_invalid_def blocked_run block_claim_def sort_slice_def)
  have m: "mark_claims_published quiet (p_desired ?p) 1 blocked =
      (Inr (), snd (mark_claims_published quiet 2 1 blocked))"
    by (simp add: prog_run claims_defs blocked_run(3))
  from publication_not_lost [OF r rtranclp.rtrancl_refl m, THEN conjunct1]
  show ?thesis using blocked_run(2) by simp
qed

lemma feed_canonical:
  "canonical_addresses [''10.1.2.3/8'', ''192.0.2.9'', ''10.0.0.0/8''] = Inr [''10.0.0.0/8'', ''192.0.2.9/32'']"
  by (simp add: canonical_addresses_def canonical_step_def replacement_prefix_def go_eval string_eval Let_def)

theorem canonical_addresses_idempotent_witness:
  "canonical_addresses [''10.0.0.0/8'', ''192.0.2.9/32''] = Inr [''10.0.0.0/8'', ''192.0.2.9/32'']"
  by (rule canonical_addresses_idempotent [OF feed_canonical])

lemma blocked_seq: "claim_seq (w_db blocked) = 1" "audit_seq (w_db blocked) = 1"
  using block_claim_valid
  by (simp_all add: blocked_def idle_def block_claim_def claims_defs prog_run zero_time_def Let_def)

lemma feed_families: "address_family ''10.0.0.0/8'' = ''ipv4''" "address_family ''192.0.2.9/32'' = ''ipv4''"
  by (simp_all add: address_family_def go_eval)

theorem replace_source_exact_witness:
  "\<exists>vs w'. replace_source_claims_bounded quiet ''geo/x'' [] ''system'' [''10.1.2.3/8'', ''192.0.2.9'', ''10.0.0.0/8''] 5 blocked
      = (Inr 2, w') \<and> length vs = 2 \<and>
    replaced ''geo/x'' ''integration'' ''system'' vs (claims (w_db blocked)) (claims (w_db w'))"
proof -
  let ?m = "replace_source_claims_bounded quiet ''geo/x'' [] ''system'' [''10.1.2.3/8'', ''192.0.2.9'', ''10.0.0.0/8''] 5"
  have g: "replace_guard ''geo/x'' [] ''system'' = None"
    by (simp add: replace_guard_def claim_source_pattern_def is_allow_source_def source_char_def go_eval)
  have "?m blocked = (Inr 2, snd (?m blocked))"
    by (simp add: replace_source_claims_bounded_def g feed_canonical replace_tx_def prog_run blocked_run block_claim_def
        sql_delete_claims_def live_count_def sql_live_def sql_insert_claim_def replacement_claim_def feed_families blocked_seq
        mark_claim_publication_dirty_def sql_bump_def rows_affected_def mark_runtime_claims_degraded_def sql_upsert_def Let_def)
  from this replace_source_exact [OF this] show ?thesis by auto
qed

theorem operator_removes_own_claims_witness:
  "claims (w_db (snd (remove_operator_claim quiet 1 ''root'' ''block'' blocked))) = []"
proof -
  have "remove_operator_claim quiet 1 ''root'' ''block'' blocked =
      (Inr (), snd (remove_operator_claim quiet 1 ''root'' ''block'' blocked))"
    by (simp add: prog_run claims_defs blocked_run blocked_seq block_claim_def Let_def)
  from operator_removes_own_claims [OF this] show ?thesis by (simp add: blocked_run(2))
qed

theorem add_claim_bounded_limit_witness:
  "\<exists>c'. claims (w_db blocked) = claims (w_db idle) @ [c'] \<and> c_id c' = 1 \<and>
    within_limit quiet 10 (claims (w_db blocked)) 0"
proof -
  have "tables_ok (w_db idle)" by (simp add: idle_def fresh_db_ok)
  from add_claim_bounded_limit [OF blocked_run(1) _ this] show ?thesis by auto
qed

section \<open>Timestamps compared as text\<close>

text \<open>\<^verbatim>\<open>time.RFC3339Nano\<close> drops trailing zeros of the fraction, so that within one second the order of the
  texts is not the order of the times: a claim that expires half a second from now, at a full second,
  already counts as expired.\<close>

lemmas itoa_numeral = itoa.simps [of 0] itoa.simps [of 1] itoa.simps [of "Suc 0"] itoa.simps [of "numeral k" for k]

lemma civil_epoch: "civil 0 = (1970, 1, 1)"
  by code_simp

lemma rfc3339nano_epoch:
  "rfc3339nano 0 = ''1970-01-01T00:00:00Z''" "rfc3339nano 500000000 = ''1970-01-01T00:00:00.5Z''"
  by (simp_all add: rfc3339nano_def civil_epoch ns_per_s_def padded_def pad_zero_def strip_zeros_def
      itoa_numeral digit_char_def)

lemma expiry_text_order:
  "(0::int) < 500000000 \<and> \<not> text_after 500000000 0 \<and> text_after 0 500000000"
  by (simp add: text_after_def rfc3339nano_epoch)

end
