(* ===== verification/Json.thy ===== *)
theory Json
  imports Go_Base
begin

text \<open>
  \<^verbatim>\<open>encoding/json\<close>, as far as the program uses it: a parser of JSON texts into values (\<open>json_decode\<close>), the
  decoding of a value into the fields of a struct (\<open>decode_fields\<close>, \<open>get_string\<close>, \<open>get_uint\<close>) and the
  encoding of strings (\<open>json_quote\<close>). Strings are bytes; invalid UTF-8 becomes the replacement character,
  field names match up to case, \<^verbatim>\<open>null\<close> leaves a field as it is. A number keeps its text.

  The parser calls itself with one unit of fuel less at every step and each step consumes a byte, so the
  length of the text is enough fuel. The second bound is the nesting depth of 10000 at which
  \<^verbatim>\<open>encoding/json\<close> gives up.
\<close>

datatype json =
    JNull
  | JBool bool
  | JNum string
  | JStr string
  | JArr "json list"
  | JObj "(string \<times> json) list"

section \<open>UTF-8\<close>

definition between :: "nat \<Rightarrow> nat \<Rightarrow> char \<Rightarrow> bool" where
  "between lo hi c \<longleftrightarrow> lo \<le> byte c \<and> byte c \<le> hi"

text \<open>The length of the first character of the text, 0 when it is not well formed.\<close>

definition utf8_len :: "string \<Rightarrow> nat" where
  "utf8_len s =
     (case s of
        [] \<Rightarrow> 0
      | a # t \<Rightarrow>
          let tail = (\<lambda>n. n \<le> length t \<and> list_all (between 128 191) (take n t)); b = (case t of [] \<Rightarrow> CHR 0x00 | x # _ \<Rightarrow> x) in
          if byte a < 128 then 1
          else if between 194 223 a \<and> tail 1 then 2
          else if between 224 239 a \<and> tail 2 \<and> (byte a = 224 \<longrightarrow> 160 \<le> byte b) \<and> (byte a = 237 \<longrightarrow> byte b \<le> 159) then 3
          else if between 240 244 a \<and> tail 3 \<and> (byte a = 240 \<longrightarrow> 144 \<le> byte b) \<and> (byte a = 244 \<longrightarrow> byte b \<le> 143) then 4
          else 0)"

definition chr :: "nat \<Rightarrow> char" where "chr n = char_of n"

definition utf8 :: "nat \<Rightarrow> string" where
  "utf8 r =
     (if r < 128 then [chr r]
      else if r < 2048 then [chr (192 + r div 64), chr (128 + r mod 64)]
      else if r < 65536 then [chr (224 + r div 4096), chr (128 + r div 64 mod 64), chr (128 + r mod 64)]
      else [chr (240 + r div 262144), chr (128 + r div 4096 mod 64), chr (128 + r div 64 mod 64), chr (128 + r mod 64)])"

definition replacement :: string where "replacement = utf8 65533"

section \<open>Strings\<close>

fun hex4 :: "string \<Rightarrow> nat option" where
  "hex4 (a # b # c # d # s) =
     (case (hex_val a, hex_val b, hex_val c, hex_val d) of
        (Some w, Some x, Some y, Some z) \<Rightarrow> Some (((w * 16 + x) * 16 + y) * 16 + z)
      | _ \<Rightarrow> None)"
| "hex4 s = None"

definition surrogate :: "nat \<Rightarrow> bool" where
  "surrogate u \<longleftrightarrow> 55296 \<le> u \<and> u < 57344"

text \<open>The character of a surrogate pair \<open>u\<close>, \<open>\uXXXX\<close>, when the text goes on with the second half.\<close>

definition surrogate_pair :: "nat \<Rightarrow> string \<Rightarrow> nat option" where
  "surrogate_pair u s =
     (if 55296 \<le> u \<and> u < 56320 \<and> take 2 s = [CHR 0x5C, CHR ''u''] then
        (case hex4 (drop 2 s) of
           None \<Rightarrow> None
         | Some v \<Rightarrow> if 56320 \<le> v \<and> v < 57344 then Some ((u - 55296) * 1024 + (v - 56320) + 65536) else None)
      else None)"

definition unescape :: "char \<Rightarrow> char option" where
  "unescape c =
     map_of [(CHR 0x22, CHR 0x22), (CHR 0x5C, CHR 0x5C), (CHR ''/'', CHR ''/''), (CHR ''b'', CHR 0x08),
             (CHR ''f'', CHR 0x0C), (CHR ''n'', CHR 0x0A), (CHR ''r'', CHR 0x0D), (CHR ''t'', CHR 0x09)] c"

definition put_front :: "string \<Rightarrow> (string \<times> 'a) option \<Rightarrow> (string \<times> 'a) option" where
  "put_front p r = map_option (\<lambda>(t, s). (p @ t, s)) r"

text \<open>The rest of a string literal, after the opening quote.\<close>

function json_string :: "string \<Rightarrow> (string \<times> string) option" where
  "json_string [] = None"
| "json_string (c # s) =
     (if c = CHR 0x22 then Some ([], s)
      else if byte c < 32 then None
      else if c = CHR 0x5C then
        (case s of
           [] \<Rightarrow> None
         | e # r \<Rightarrow>
             if e = CHR ''u'' then
               (case hex4 r of
                  None \<Rightarrow> None
                | Some u \<Rightarrow>
                    (case surrogate_pair u (drop 4 r) of
                       Some p \<Rightarrow> put_front (utf8 p) (json_string (drop 10 r))
                     | None \<Rightarrow> put_front (if surrogate u then replacement else utf8 u) (json_string (drop 4 r))))
             else
               (case unescape e of None \<Rightarrow> None | Some b \<Rightarrow> put_front [b] (json_string r)))
      else if utf8_len (c # s) = 0 then put_front replacement (json_string s)
      else put_front (take (utf8_len (c # s)) (c # s)) (json_string (drop (utf8_len (c # s) - 1) s)))"
  by pat_completeness auto
termination by (relation "measure length") auto

section \<open>Values\<close>

definition json_space :: "char \<Rightarrow> bool" where
  "json_space c \<longleftrightarrow> c \<in> {CHR '' '', CHR 0x09, CHR 0x0A, CHR 0x0D}"

definition skip :: "string \<Rightarrow> string" where
  "skip s = dropWhile json_space s"

definition number_char :: "char \<Rightarrow> bool" where
  "number_char c \<longleftrightarrow> is_digit c \<or> c \<in> {CHR ''-'', CHR ''+'', CHR ''.'', CHR ''e'', CHR ''E''}"

definition json_digits :: "string \<Rightarrow> string option" where
  "json_digits s = (if takeWhile is_digit s = [] then None else Some (dropWhile is_digit s))"

definition strip_char :: "(char \<Rightarrow> bool) \<Rightarrow> string \<Rightarrow> string" where
  "strip_char P s = (case s of [] \<Rightarrow> [] | c # r \<Rightarrow> if P c then r else s)"

text \<open>\<^verbatim>\<open>-? (0 | [1-9][0-9]*) (. [0-9]+)? ([eE] [+-]? [0-9]+)?\<close>\<close>

definition json_number :: "string \<Rightarrow> bool" where
  "json_number lit =
     (let s = strip_char (\<lambda>c. c = CHR ''-'') lit in
      case (case s of [] \<Rightarrow> None | c # r \<Rightarrow> if c = CHR ''0'' then Some r else json_digits s) of
        None \<Rightarrow> False
      | Some r \<Rightarrow>
          (case (case r of [] \<Rightarrow> Some [] | c # q \<Rightarrow> if c = CHR ''.'' then json_digits q else Some r) of
             None \<Rightarrow> False
           | Some q \<Rightarrow>
               (case q of
                  [] \<Rightarrow> True
                | c # p \<Rightarrow> (c = CHR ''e'' \<or> c = CHR ''E'') \<and>
                            json_digits (strip_char (\<lambda>x. x = CHR ''+'' \<or> x = CHR ''-'') p) = Some [])))"

definition literal :: "string \<Rightarrow> json \<Rightarrow> string \<Rightarrow> (json \<times> string) option" where
  "literal word v s = (if has_prefix s word then Some (v, drop (length word) s) else None)"

fun json_value :: "nat \<Rightarrow> nat \<Rightarrow> string \<Rightarrow> (json \<times> string) option"
  and json_elems :: "nat \<Rightarrow> nat \<Rightarrow> string \<Rightarrow> (json list \<times> string) option"
  and json_members :: "nat \<Rightarrow> nat \<Rightarrow> string \<Rightarrow> ((string \<times> json) list \<times> string) option" where
  "json_value 0 d s = None"
| "json_value (Suc n) d s =
     (case skip s of
        [] \<Rightarrow> None
      | c # r \<Rightarrow>
          if c = CHR ''{'' then
            (if d = 0 then None
             else if take 1 (skip r) = ''}'' then Some (JObj [], drop 1 (skip r))
             else map_option (\<lambda>(ms, t). (JObj ms, t)) (json_members n (d - 1) r))
          else if c = CHR ''['' then
            (if d = 0 then None
             else if take 1 (skip r) = '']'' then Some (JArr [], drop 1 (skip r))
             else map_option (\<lambda>(vs, t). (JArr vs, t)) (json_elems n (d - 1) r))
          else if c = CHR 0x22 then map_option (\<lambda>(t, q). (JStr t, q)) (json_string r)
          else if c = CHR ''t'' then literal ''true'' (JBool True) (c # r)
          else if c = CHR ''f'' then literal ''false'' (JBool False) (c # r)
          else if c = CHR ''n'' then literal ''null'' JNull (c # r)
          else let lit = takeWhile number_char (c # r) in
               if json_number lit then Some (JNum lit, dropWhile number_char (c # r)) else None)"
| "json_elems 0 d s = None"
| "json_elems (Suc n) d s =
     (case json_value n d s of
        None \<Rightarrow> None
      | Some (v, r) \<Rightarrow>
          (case skip r of
             [] \<Rightarrow> None
           | c # q \<Rightarrow>
               if c = CHR '']'' then Some ([v], q)
               else if c = CHR '','' then map_option (\<lambda>(vs, t). (v # vs, t)) (json_elems n d q)
               else None))"
| "json_members 0 d s = None"
| "json_members (Suc n) d s =
     (case skip s of
        [] \<Rightarrow> None
      | c # r \<Rightarrow>
          if c \<noteq> CHR 0x22 then None
          else
            (case json_string r of
               None \<Rightarrow> None
             | Some (k, t) \<Rightarrow>
                 if take 1 (skip t) \<noteq> '':'' then None
                 else
                   (case json_value n d (drop 1 (skip t)) of
                      None \<Rightarrow> None
                    | Some (v, q) \<Rightarrow>
                        (case skip q of
                           [] \<Rightarrow> None
                         | e # p \<Rightarrow>
                             if e = CHR ''}'' then Some ([(k, v)], p)
                             else if e = CHR '','' then map_option (\<lambda>(ms, z). ((k, v) # ms, z)) (json_members n d p)
                             else None))))"

definition max_nesting :: nat where "max_nesting = 10000"

definition json_decode :: "string \<Rightarrow> json option" where
  "json_decode s =
     (case json_value (Suc (length s)) max_nesting s of
        None \<Rightarrow> None
      | Some (v, r) \<Rightarrow> if skip r = [] then Some v else None)"

section \<open>Structs\<close>

text \<open>Field names match after Unicode simple case folding: of the characters outside ASCII only the long
  s and the Kelvin sign fold to a letter.\<close>

fun fold_name :: "string \<Rightarrow> string" where
  "fold_name [] = []"
| "fold_name (c # s) =
     (if c = CHR 0xC5 \<and> take 1 s = [CHR 0xBF] then CHR ''s'' # fold_name (drop 1 s)
      else if c = CHR 0xE2 \<and> take 2 s = [CHR 0x84, CHR 0xAA] then CHR ''k'' # fold_name (drop 2 s)
      else (if is_upper c then chr (byte c + 32) else c) # fold_name s)"

definition type_error :: goerr where
  "type_error = Errorf ''json: cannot unmarshal value'' []"

text \<open>One field of a struct: its name and how a value changes the struct. Fields are decoded in the order
  of the text, an unknown field is an error when \<open>strict\<close>.\<close>

type_synonym 's decoder = "(string \<times> (json \<Rightarrow> 's \<Rightarrow> 's result)) list"

definition decode_fields :: "bool \<Rightarrow> 's decoder \<Rightarrow> json \<Rightarrow> 's \<Rightarrow> 's result" where
  "decode_fields strict fs v s =
     (case v of
        JNull \<Rightarrow> Ok s
      | JObj ms \<Rightarrow>
          foldE (\<lambda>st (k, x).
            case map_of fs (fold_name k) of
              None \<Rightarrow> if strict then Err (Errorf ''json: unknown field %q'' [k]) else Ok st
            | Some f \<Rightarrow> f x st) s ms
      | _ \<Rightarrow> Err type_error)"

definition get_string :: "(string \<Rightarrow> 's \<Rightarrow> 's) \<Rightarrow> json \<Rightarrow> 's \<Rightarrow> 's result" where
  "get_string put v s = (case v of JNull \<Rightarrow> Ok s | JStr t \<Rightarrow> Ok (put t s) | _ \<Rightarrow> Err type_error)"

text \<open>An unsigned integer of the given width: digits only.\<close>

definition uint_of :: "nat \<Rightarrow> string \<Rightarrow> nat option" where
  "uint_of w lit = (case dec_value lit of None \<Rightarrow> None | Some n \<Rightarrow> if int n < 2 ^ w then Some n else None)"

definition get_uint :: "nat \<Rightarrow> (nat \<Rightarrow> 's \<Rightarrow> 's) \<Rightarrow> json \<Rightarrow> 's \<Rightarrow> 's result" where
  "get_uint w put v s =
     (case v of
        JNull \<Rightarrow> Ok s
      | JNum lit \<Rightarrow> (case uint_of w lit of None \<Rightarrow> Err type_error | Some n \<Rightarrow> Ok (put n s))
      | _ \<Rightarrow> Err type_error)"

text \<open>\<^verbatim>\<open>map[string]json.RawMessage\<close>: the last of several members with one name counts.\<close>

definition members :: "json \<Rightarrow> (string \<times> json) list result" where
  "members v = (case v of JNull \<Rightarrow> Ok [] | JObj ms \<Rightarrow> Ok ms | _ \<Rightarrow> Err type_error)"

definition member :: "string \<Rightarrow> (string \<times> json) list \<Rightarrow> json option" where
  "member k ms = map_of (rev ms) k"

definition member_names :: "(string \<times> json) list \<Rightarrow> string list" where
  "member_names ms = remdups (map fst ms)"

section \<open>Encoding\<close>

definition html_safe :: "char \<Rightarrow> bool" where
  "html_safe c \<longleftrightarrow> between 32 127 c \<and> c \<notin> {CHR 0x22, CHR 0x5C, CHR ''<'', CHR ''>'', CHR ''&''}"

definition short_escape :: "char \<Rightarrow> char option" where
  "short_escape c =
     map_of [(CHR 0x22, CHR 0x22), (CHR 0x5C, CHR 0x5C), (CHR 0x08, CHR ''b''), (CHR 0x0C, CHR ''f''),
             (CHR 0x0A, CHR ''n''), (CHR 0x0D, CHR ''r''), (CHR 0x09, CHR ''t'')] c"

definition json_escape :: "char \<Rightarrow> string" where
  "json_escape c =
     (if html_safe c then [c]
      else (case short_escape c of
              Some e \<Rightarrow> [CHR 0x5C, e]
            | None \<Rightarrow> [CHR 0x5C] @ ''u00'' @ [digit_char (byte c div 16), digit_char (byte c mod 16)]))"

function json_chars :: "string \<Rightarrow> string" where
  "json_chars [] = []"
| "json_chars (c # s) =
     (if byte c < 128 then json_escape c @ json_chars s
      else let n = utf8_len (c # s) in
        if n = 0 then [CHR 0x5C] @ ''ufffd'' @ json_chars s
        else if take n (c # s) = utf8 8232 then [CHR 0x5C] @ ''u2028'' @ json_chars (drop (n - 1) s)
        else if take n (c # s) = utf8 8233 then [CHR 0x5C] @ ''u2029'' @ json_chars (drop (n - 1) s)
        else take n (c # s) @ json_chars (drop (n - 1) s))"
  by pat_completeness auto
termination by (relation "measure length") auto

definition json_quote :: "string \<Rightarrow> string" where
  "json_quote s = dquote @ json_chars s @ dquote"

section \<open>What is written is read back\<close>

lemma put_front_Some [simp]: "put_front p (Some (t, s)) = Some (p @ t, s)" "put_front p None = None"
  by (simp_all add: put_front_def)

lemma byte_256 [simp]: "byte c < 256"
  by (simp add: byte_def)

lemma chr_byte [simp]: "chr (byte c) = c"
  by (simp add: chr_def byte_def)

lemma less_16: "d < 16 \<longleftrightarrow> d \<in> {0, 1, 2, 3, 4, 5, 6, 7, 8, 9, 10, 11, 12, 13, 14, 15 :: nat}"
  by (simp only: insert_iff empty_iff) presburger

lemma hex_val_digit_char [simp]: "d < 16 \<Longrightarrow> hex_val (digit_char d) = Some d"
  unfolding less_16 by (elim insertE) (simp_all add: number_defs char_class_defs)

lemma hex4_u00:
  assumes "byte c < 128"
  shows "hex4 (CHR ''0'' # CHR ''0'' # digit_char (byte c div 16) # digit_char (byte c mod 16) # t) = Some (byte c)"
proof -
  have "hex_val (CHR ''0'') = Some 0" by (simp add: number_defs char_class_defs)
  moreover have "byte c div 16 < 16" using assms by simp
  ultimately show ?thesis by simp
qed

lemma json_string_u:
  assumes "byte c < 128"
  shows "json_string (CHR 0x5C # CHR ''u'' # CHR ''0'' # CHR ''0'' # digit_char (byte c div 16) #
           digit_char (byte c mod 16) # t) = put_front [c] (json_string t)"
proof -
  have "surrogate_pair (byte c) t = None" "\<not> surrogate (byte c)" "utf8 (byte c) = [c]"
    using assms by (simp_all add: surrogate_pair_def surrogate_def utf8_def)
  then show ?thesis using assms hex4_u00 [OF assms, of t]
    by (simp add: byte_def del: hex4.simps)
qed

lemma json_string_short:
  assumes "short_escape c = Some e"
  shows "json_string (CHR 0x5C # e # t) = put_front [c] (json_string t)"
proof -
  have "unescape e = Some c \<and> e \<noteq> CHR ''u''"
    using assms by (auto simp: short_escape_def unescape_def split: if_splits)
  then show ?thesis by (simp add: byte_def)
qed

lemma json_string_escape:
  assumes "byte c < 128"
  shows "json_string (json_escape c @ t) = put_front [c] (json_string t)"
proof (cases "html_safe c")
  case True
  then show ?thesis using assms
    by (auto simp: json_escape_def html_safe_def between_def utf8_len_def Let_def)
next
  case False
  then show ?thesis using assms
    by (cases "short_escape c") (simp_all del: json_string.simps add: json_escape_def json_string_u json_string_short)
qed

definition ascii :: "string \<Rightarrow> bool" where
  "ascii s \<longleftrightarrow> list_all (\<lambda>c. byte c < 128) s"

lemma json_string_chars: "ascii s \<Longrightarrow> json_string (json_chars s @ CHR 0x22 # t) = Some (s, t)"
  by (induction s) (simp_all add: ascii_def json_string_escape del: json_string.simps(2),
      simp)

lemma skip_solid [simp]: "\<not> json_space c \<Longrightarrow> skip (c # s) = c # s"
  by (simp add: skip_def)

lemma json_space_simps [simp]:
  "\<not> json_space (CHR 0x22)" "\<not> json_space (CHR '':'')" "\<not> json_space (CHR '','')" "\<not> json_space (CHR ''{'')"
  "\<not> json_space (CHR ''}'')"
  by (simp_all add: json_space_def)

lemma value_string: "ascii s \<Longrightarrow> json_value (Suc n) d (json_quote s @ t) = Some (JStr s, t)"
  by (simp add: json_quote_def json_string_chars del: json_string.simps)

lemma members_more:
  assumes "ascii k" "json_value n d rest = Some (v, CHR '','' # q)" "json_members n d q = Some (ms, z)"
  shows "json_members (Suc n) d (json_quote k @ CHR '':'' # rest) = Some ((k, v) # ms, z)"
  using assms by (simp add: json_quote_def json_string_chars del: json_string.simps)

lemma members_last:
  assumes "ascii k" "json_value n d rest = Some (v, CHR ''}'' # q)"
  shows "json_members (Suc n) d (json_quote k @ CHR '':'' # rest) = Some ([(k, v)], q)"
  using assms by (simp add: json_quote_def json_string_chars del: json_string.simps)

lemma value_object:
  assumes "json_members n (d - 1) (json_quote k @ r) = Some (ms, t)" "0 < d"
  shows "json_value (Suc n) d (CHR ''{'' # json_quote k @ r) = Some (JObj ms, t)"
  using assms by (simp add: json_quote_def del: json_members.simps)

lemma itoa_head: "0 < n \<Longrightarrow> hd (itoa n) \<noteq> CHR ''0''"
proof (induction n rule: itoa.induct)
  case (1 n)
  show ?case
  proof (cases "n < 10")
    case True
    then have "n \<in> {1, 2, 3, 4, 5, 6, 7, 8, 9}" using 1(2) by auto
    then show ?thesis using True by (auto simp: itoa.simps digit_char_def)
  next
    case False
    then show ?thesis using 1 by (subst itoa.simps) simp
  qed
qed

lemma json_number_itoa: "json_number (itoa n)"
proof -
  obtain c r where cr: "itoa n = c # r" by (meson itoa_nonempty neq_Nil_conv)
  have digits: "\<forall>x \<in> set (itoa n). is_digit x" by (rule itoa_digits)
  have "json_digits (itoa n) = Some []"
    using digits by (simp add: json_digits_def takeWhile_eq_all_conv [THEN iffD2] dropWhile_eq_Nil_conv [THEN iffD2])
  moreover have "c \<noteq> CHR ''-''" using digits by (auto simp: cr char_class_defs byte_def)
  moreover have "r = []" if "c = CHR ''0''"
    using that itoa_head [of n] cr by (cases "n = 0") (auto simp: itoa.simps)
  ultimately show ?thesis by (simp add: json_number_def strip_char_def cr)
qed

lemma value_number:
  assumes "t = [] \<or> \<not> number_char (hd t)"
  shows "json_value (Suc n) d (itoa i @ t) = Some (JNum (itoa i), t)"
proof -
  obtain c r where cr: "itoa i = c # r" by (meson itoa_nonempty neq_Nil_conv)
  have digits: "\<forall>x \<in> set (itoa i). is_digit x" by (rule itoa_digits)
  then have c: "is_digit c" by (simp add: cr)
  have all: "\<forall>x \<in> set (itoa i). number_char x" using digits by (simp add: number_char_def)
  have "takeWhile number_char (itoa i @ t) = itoa i" "dropWhile number_char (itoa i @ t) = t"
    using all assms by (cases t; simp add: takeWhile_append dropWhile_append)+
  moreover have "\<not> json_space c" "c \<noteq> CHR ''{''" "c \<noteq> CHR ''[''" "c \<noteq> CHR 0x22" "c \<noteq> CHR ''t''" "c \<noteq> CHR ''f''" "c \<noteq> CHR ''n''"
    using c by (auto simp: json_space_def char_class_defs)
  ultimately show ?thesis using json_number_itoa [of i] by (simp add: cr Let_def)
qed

lemma uint_of_itoa: "int n < 2 ^ w \<Longrightarrow> uint_of w (itoa n) = Some n"
  by (simp add: uint_of_def)

end
