(* ===== verification/Active.thy ===== *)
theory Active
  imports World Json
begin

text \<open>
  Immutable generation snapshots and the enforcement pointer, \<^verbatim>\<open>src/internal/state/active.go\<close>, and the
  boot id, \<^verbatim>\<open>src/internal/state/boot.go\<close>.

  A file is its content or absent. The checks of type, owner and mode before a file is read are the
  fault of the reading call. \<^verbatim>\<open>os.CreateTemp\<close>, \<^verbatim>\<open>Chmod\<close>, \<^verbatim>\<open>Write\<close>, \<^verbatim>\<open>Sync\<close> and \<^verbatim>\<open>Close\<close> of a temporary file
  are one call; the link or rename that publishes it is the next one, the syncs after it the last.
\<close>

section \<open>Checksums\<close>

fun hex_decode :: "string \<Rightarrow> nat list option" where
  "hex_decode [] = Some []"
| "hex_decode [c] = None"
| "hex_decode (a # b # s) =
     (case (hex_val a, hex_val b, hex_decode s) of
        (Some x, Some y, Some bs) \<Rightarrow> Some ((x * 16 + y) # bs)
      | _ \<Rightarrow> None)"

definition hex_encode :: "string \<Rightarrow> string" where
  "hex_encode bs = concat (map (\<lambda>c. [digit_char (byte c div 16), digit_char (byte c mod 16)]) bs)"

definition valid_checksum :: "string \<Rightarrow> bool" where
  "valid_checksum s = (case hex_decode s of None \<Rightarrow> False | Some bs \<Rightarrow> length bs = 32)"

definition valid_script_checksum :: "('x, 'z) env_scheme \<Rightarrow> string \<Rightarrow> string \<Rightarrow> bool" where
  "valid_script_checksum env script checksum \<longleftrightarrow>
     valid_checksum checksum \<and> hex_decode checksum = Some (map byte (sha256 env script))"

section \<open>Pointers and snapshots\<close>

definition pointer_schema :: string where "pointer_schema = ''nftfw.enforcement-pointer.v1''"
definition snapshot_schema :: string where "snapshot_schema = ''nftfw.generation-snapshot.v1''"
definition max_active_snapshot :: nat where "max_active_snapshot = 33554432"

definition pointer_valid :: "enforcement_pointer \<Rightarrow> bool" where
  "pointer_valid p \<longleftrightarrow> ep_schema p = pointer_schema \<and> 0 < ep_generation p \<and>
     valid_checksum (ep_snapshot_sum p) \<and> valid_checksum (ep_policy_sum p)"

definition pointer_equal :: "enforcement_pointer \<Rightarrow> enforcement_pointer option \<Rightarrow> bool" where
  "pointer_equal p other =
     (case other of None \<Rightarrow> False
      | Some q \<Rightarrow> ep_schema p = ep_schema q \<and> ep_generation p = ep_generation q \<and>
                  ep_snapshot_sum p = ep_snapshot_sum q \<and> ep_policy_sum p = ep_policy_sum q)"

definition encode_generation_snapshot :: "('x, 'z) env_scheme \<Rightarrow> generation_snapshot \<Rightarrow> string result" where
  "encode_generation_snapshot env s = bindE (json_snapshot env s) (\<lambda>b. Ok (b @ NL))"

definition snapshot_pointer :: "('x, 'z) env_scheme \<Rightarrow> generation_snapshot \<Rightarrow> enforcement_pointer" where
  "snapshot_pointer env s =
     \<lparr>ep_schema = pointer_schema, ep_generation = sn_generation s,
      ep_snapshot_sum = hex_encode (sha256 env (case encode_generation_snapshot env s of Inl _ \<Rightarrow> [] | Inr b \<Rightarrow> b)),
      ep_policy_sum = sn_checksum s\<rparr>"

fun manifest_ok :: "string list \<Rightarrow> 8 word list \<Rightarrow> assignment list \<Rightarrow> bool" where
  "manifest_ok names ids [] = True"
| "manifest_ok names ids (a # as) =
     (a_name a \<noteq> [] \<and> id_in_range (a_id a) \<and> a_name a \<notin> set names \<and> a_id a \<notin> set ids \<and>
      manifest_ok (a_name a # names) (a_id a # ids) as)"

definition validate_snapshot :: "('x, 'z) env_scheme \<Rightarrow> generation_snapshot \<Rightarrow> goerr option" where
  "validate_snapshot env s =
     first_err
       [refuse (sn_schema s \<noteq> snapshot_schema \<or> sn_generation s = 0)
          (Errorf ''generation snapshot schema or id is invalid'' []),
        refuse (\<not> valid_script_checksum env (sn_script s) (sn_checksum s))
          (Errorf ''generation snapshot script checksum is invalid'' []),
        refuse (case sn_previous s of None \<Rightarrow> False
                | Some p \<Rightarrow> \<not> pointer_valid p \<or> ep_generation p = sn_generation s)
          (Errorf ''generation snapshot prior pointer is invalid'' []),
        refuse (sn_boot s = []) (Errorf ''generation snapshot boot id is empty'' []),
        refuse (sn_provenance s = []) (Errorf ''generation snapshot provenance manifest is empty'' []),
        refuse (\<not> manifest_ok [] [] (sn_provenance s))
          (Errorf ''generation snapshot provenance manifest is invalid'' [])]"

section \<open>The text of a pointer\<close>

definition encode_pointer :: "enforcement_pointer \<Rightarrow> string" where
  "encode_pointer p =
     ''{'' @ json_quote ''schema'' @ '':'' @ json_quote (ep_schema p) @
     '','' @ json_quote ''generation'' @ '':'' @ itoa (ep_generation p) @
     '','' @ json_quote ''snapshot_checksum'' @ '':'' @ json_quote (ep_snapshot_sum p) @
     '','' @ json_quote ''policy_checksum'' @ '':'' @ json_quote (ep_policy_sum p) @ ''}''"

definition pointer_fields :: "enforcement_pointer decoder" where
  "pointer_fields =
     [(''schema'', get_string (\<lambda>v. ep_schema_update (\<lambda>_. v))),
      (''generation'', get_uint 64 (\<lambda>v. ep_generation_update (\<lambda>_. v))),
      (''snapshot_checksum'', get_string (\<lambda>v. ep_snapshot_sum_update (\<lambda>_. v))),
      (''policy_checksum'', get_string (\<lambda>v. ep_policy_sum_update (\<lambda>_. v)))]"

text \<open>\<^verbatim>\<open>decodeOneJSON\<close>: one value, unknown fields refused.\<close>

definition decode_one :: "'s decoder \<Rightarrow> 's \<Rightarrow> string \<Rightarrow> 's result" where
  "decode_one fs zero b =
     (case json_decode b of
        None \<Rightarrow> Err (Errorf ''invalid JSON'' [])
      | Some v \<Rightarrow> decode_fields True fs v zero)"

definition parse_pointer :: "string \<Rightarrow> enforcement_pointer result" where
  "parse_pointer b =
     decode_one pointer_fields \<lparr>ep_schema = [], ep_generation = 0, ep_snapshot_sum = [], ep_policy_sum = []\<rparr> b"

lemma pointer_names [simp]: "ascii ''schema''" "ascii ''generation''" "ascii ''snapshot_checksum''" "ascii ''policy_checksum''"
  by (simp_all add: ascii_def char_class_defs)

lemma fold_names [simp]: "fold_name ''schema'' = ''schema''" "fold_name ''generation'' = ''generation''" "fold_name ''snapshot_checksum'' = ''snapshot_checksum''" "fold_name ''policy_checksum'' = ''policy_checksum''"
  by (simp_all add: char_class_defs)

lemma json_decode_pointer:
  assumes "ascii (ep_schema p)" "ascii (ep_snapshot_sum p)" "ascii (ep_policy_sum p)"
  shows "json_decode (encode_pointer p @ NL) =
    Some (JObj [(''schema'', JStr (ep_schema p)), (''generation'', JNum (itoa (ep_generation p))),
                (''snapshot_checksum'', JStr (ep_snapshot_sum p)), (''policy_checksum'', JStr (ep_policy_sum p))])"
proof -
  let ?s = "encode_pointer p @ NL"
  obtain n where n: "length ?s = Suc (Suc (Suc (Suc (Suc n))))"
    by (rule that [of "length ?s - 5"]) (simp add: encode_pointer_def json_quote_def)
  have m4: "json_members (Suc (Suc n)) d (json_quote ''policy_checksum'' @ CHR '':'' # json_quote (ep_policy_sum p) @ CHR ''}'' # NL) =
      Some ([(''policy_checksum'', JStr (ep_policy_sum p))], NL)" for d
    by (rule members_last) (simp, rule value_string, rule assms)
  have m3: "json_members (Suc (Suc (Suc n))) d (json_quote ''snapshot_checksum'' @ CHR '':'' # json_quote (ep_snapshot_sum p) @ CHR '','' # json_quote ''policy_checksum'' @ CHR '':'' # json_quote (ep_policy_sum p) @ CHR ''}'' # NL) =
      Some ([(''snapshot_checksum'', JStr (ep_snapshot_sum p)), (''policy_checksum'', JStr (ep_policy_sum p))], NL)" for d
    by (rule members_more [OF _ _ m4]) (simp, rule value_string, rule assms)
  have m2: "json_members (Suc (Suc (Suc (Suc n)))) d (json_quote ''generation'' @ CHR '':'' # itoa (ep_generation p) @ CHR '','' # json_quote ''snapshot_checksum'' @ CHR '':'' # json_quote (ep_snapshot_sum p) @ CHR '','' # json_quote ''policy_checksum'' @ CHR '':'' # json_quote (ep_policy_sum p) @ CHR ''}'' # NL) =
      Some ([(''generation'', JNum (itoa (ep_generation p))), (''snapshot_checksum'', JStr (ep_snapshot_sum p)), (''policy_checksum'', JStr (ep_policy_sum p))], NL)" for d
    by (rule members_more [OF _ _ m3]) (simp, rule value_number, simp add: number_char_def char_class_defs)
  have m1: "json_members (Suc (Suc (Suc (Suc (Suc n))))) d (json_quote ''schema'' @ CHR '':'' # json_quote (ep_schema p) @ CHR '','' # json_quote ''generation'' @ CHR '':'' # itoa (ep_generation p) @ CHR '','' # json_quote ''snapshot_checksum'' @ CHR '':'' # json_quote (ep_snapshot_sum p) @ CHR '','' # json_quote ''policy_checksum'' @ CHR '':'' # json_quote (ep_policy_sum p) @ CHR ''}'' # NL) =
      Some ([(''schema'', JStr (ep_schema p)), (''generation'', JNum (itoa (ep_generation p))), (''snapshot_checksum'', JStr (ep_snapshot_sum p)), (''policy_checksum'', JStr (ep_policy_sum p))], NL)" for d
    by (rule members_more [OF _ _ m2]) (simp, rule value_string, rule assms)
  have "json_value (Suc (length ?s)) max_nesting ?s =
      Some (JObj [(''schema'', JStr (ep_schema p)), (''generation'', JNum (itoa (ep_generation p))),
                (''snapshot_checksum'', JStr (ep_snapshot_sum p)), (''policy_checksum'', JStr (ep_policy_sum p))], NL)"
    unfolding n using value_object [OF m1, of max_nesting]
    by (simp add: encode_pointer_def max_nesting_def del: json_value.simps json_members.simps)
  then show ?thesis by (simp add: json_decode_def skip_def json_space_def)
qed

lemma parse_pointer_encode:
  assumes "ascii (ep_schema p)" "ascii (ep_snapshot_sum p)" "ascii (ep_policy_sum p)" "ep_generation p < 2 ^ 64"
  shows "parse_pointer (encode_pointer p @ NL) = Ok p"
proof -
  have u: "uint_of 64 (itoa (ep_generation p)) = Some (ep_generation p)"
    using assms(4) by (intro uint_of_itoa) (metis of_nat_less_iff of_nat_numeral of_nat_power)
  show ?thesis
    unfolding parse_pointer_def decode_one_def json_decode_pointer [OF assms(1-3)] option.case
    by (simp add: decode_fields_def pointer_fields_def get_string_def get_uint_def u
        del: fold_name.simps uint_of_def)
qed

section \<open>Reading and writing files\<close>

text \<open>A file that exists is never reported as absent.\<close>

definition unsafe_file :: "goerr \<Rightarrow> goerr" where
  "unsafe_file e = (if errors_is e ErrNotExist then Errorf ''file type, permissions, or size is unsafe'' [] else e)"

definition secure_active_file ::
  "('x, 'z) env_scheme \<Rightarrow> string \<Rightarrow> (disk \<Rightarrow> string option) \<Rightarrow> nat \<Rightarrow> (('k, 'x) world, string) prog" where
  "secure_active_file env l sel bound =
     bindP (getP (\<lambda>w. sel (w_disk w))) (\<lambda>content.
     case content of
       None \<Rightarrow> failp ErrNotExist
     | Some b \<Rightarrow>
         thenP (wrapP unsafe_file (io env l))
         (thenP (refuseP (bound < length b) (Errorf ''file type, permissions, or size is unsafe'' []))
            (ret b)))"

definition secure_active_directory :: "('x, 'z) env_scheme \<Rightarrow> (('k, 'x) world, unit) prog" where
  "secure_active_directory env = io env ''secureActiveDirectory''"

definition secure_generations_directory :: "('x, 'z) env_scheme \<Rightarrow> (('k, 'x) world, unit) prog" where
  "secure_generations_directory env = io env ''secureGenerationsDirectory''"

definition put_disk :: "(disk \<Rightarrow> disk) \<Rightarrow> (('k, 'x) world, unit) prog" where
  "put_disk f w = (Ok (), w\<lparr>w_disk := f (w_disk w)\<rparr>)"

text \<open>\<^verbatim>\<open>writeImmutable\<close>: the temporary file is linked to its final name, which must not exist.\<close>

definition write_immutable ::
  "('x, 'z) env_scheme \<Rightarrow> (disk \<Rightarrow> string option) \<Rightarrow> (disk \<Rightarrow> disk) \<Rightarrow> (('k, 'x) world, unit) prog" where
  "write_immutable env sel put =
     thenP (io env ''write temporary file'')
     (thenP (io env ''link'')
     (bindP (getP (\<lambda>w. sel (w_disk w))) (\<lambda>old.
      thenP (refuseP (old \<noteq> None) (External ''link: file exists''))
      (thenP (put_disk put)
      (thenP (io env ''remove temporary file'') (io env ''sync directory''))))))"

section \<open>Snapshots\<close>

definition generation_file :: "('x, 'z) env_scheme \<Rightarrow> nat \<Rightarrow> string \<Rightarrow> string" where
  "generation_file env i ext = state_dir env @ ''/generations/'' @ pad_zero 20 (itoa i) @ ext"

definition script_path :: "('x, 'z) env_scheme \<Rightarrow> nat \<Rightarrow> string" where
  "script_path env i = generation_file env i ''.nft''"

definition generation_snapshot_path :: "('x, 'z) env_scheme \<Rightarrow> nat \<Rightarrow> string" where
  "generation_snapshot_path env i = generation_file env i ''.snapshot.json''"

definition write_generation_snapshot ::
  "('x, 'z) env_scheme \<Rightarrow> generation_snapshot \<Rightarrow> (('k, 'x) world, string) prog" where
  "write_generation_snapshot env s =
     (let i = sn_generation s; path = generation_snapshot_path env i in
      thenP (secure_active_directory env)
      (thenP (check (validate_snapshot env s))
      (bindP (of_result (encode_generation_snapshot env s)) (\<lambda>encoded.
       thenP (refuseP (max_active_snapshot < length encoded) (Errorf ''generation snapshot exceeds 32 MiB'' []))
       (thenP (secure_generations_directory env)
       (bindP (attempt (secure_active_file env ''read snapshot'' (\<lambda>d. d_snapshots d i) max_active_snapshot)) (\<lambda>old.
        case old of
          Inr b \<Rightarrow>
            if b = encoded then ret path
            else failp (Errorf ''immutable generation snapshot %d already exists with different content'' [itoa i])
        | Inl e \<Rightarrow>
            if \<not> errors_is e ErrNotExist then failp e
            else thenP (wrapP (Wrapf ''publish immutable generation snapshot: %w'' [])
                    (write_immutable env (\<lambda>d. d_snapshots d i)
                      (\<lambda>d. d\<lparr>d_snapshots := (d_snapshots d)(i \<mapsto> encoded)\<rparr>)))
                  (ret path))))))))"

definition load_generation_snapshot :: "('x, 'z) env_scheme \<Rightarrow> nat \<Rightarrow> (('k, 'x) world, generation_snapshot) prog" where
  "load_generation_snapshot env i =
     thenP (secure_active_directory env)
     (thenP (refuseP (i = 0) (Errorf ''generation snapshot id must be positive'' []))
     (thenP (secure_generations_directory env)
     (bindP (secure_active_file env ''read snapshot'' (\<lambda>d. d_snapshots d i) max_active_snapshot) (\<lambda>b.
      bindP (wrapP (Wrapf ''decode generation snapshot: %w'' []) (of_result (parse_snapshot env b))) (\<lambda>s.
      thenP (check (validate_snapshot env s))
      (thenP (refuseP (sn_generation s \<noteq> i) (Errorf ''generation snapshot filename/id mismatch'' []))
         (ret s)))))))"

definition open_ledger :: "('x, 'z) env_scheme \<Rightarrow> (('k, 'x) world, ledger) prog" where
  "open_ledger env w = (case ledger_file env (w_ext w) of (r, x) \<Rightarrow> (r, w\<lparr>w_ext := x\<rparr>))"

definition validate_snapshot_provenance ::
  "('x, 'z) env_scheme \<Rightarrow> generation_snapshot \<Rightarrow> (('k, 'x) world, unit) prog" where
  "validate_snapshot_provenance env s =
     bindP (wrapP (Wrapf ''open monotonic provenance ledger: %w'' []) (open_ledger env)) (\<lambda>l.
     bindP (getP w_ext) (\<lambda>x.
     wrapP (Wrapf ''validate generation provenance: %w'' [])
       (check (validate_required (\<lambda>n. fst (fault env n x)) l (sn_provenance s)))))"

definition load_verified_generation_snapshot ::
  "('x, 'z) env_scheme \<Rightarrow> nat \<Rightarrow> (('k, 'x) world, generation_snapshot) prog" where
  "load_verified_generation_snapshot env i =
     bindP (load_generation_snapshot env i) (\<lambda>s. thenP (validate_snapshot_provenance env s) (ret s))"

section \<open>The enforcement pointer\<close>

definition read_enforcement_pointer :: "('x, 'z) env_scheme \<Rightarrow> (('k, 'x) world, enforcement_pointer option) prog" where
  "read_enforcement_pointer env =
     thenP (secure_active_directory env)
     (bindP (attempt (secure_active_file env ''read pointer'' d_marker 4096)) (\<lambda>r.
      case r of
        Inl e \<Rightarrow> if errors_is e ErrNotExist then ret None else failp (Wrapf ''enforcement pointer: %w'' [] e)
      | Inr b \<Rightarrow>
          bindP (wrapP (Wrapf ''decode enforcement pointer: %w'' []) (of_result (parse_pointer b))) (\<lambda>p.
          thenP (refuseP (\<not> pointer_valid p) (Errorf ''enforcement pointer is invalid'' []))
            (ret (Some p)))))"

definition prepare_enforcement_pointer ::
  "('x, 'z) env_scheme \<Rightarrow> enforcement_pointer \<Rightarrow> (('k, 'x) world, unit) prog" where
  "prepare_enforcement_pointer env p =
     thenP (secure_active_directory env)
     (thenP (refuseP (\<not> pointer_valid p) (Errorf ''enforcement pointer is invalid'' []))
     (thenP (io env ''write temporary pointer'')
     (thenP (io env ''sync directory'')
        (put_disk (\<lambda>d. d\<lparr>d_temp := Some (encode_pointer p @ NL)\<rparr>)))))"

text \<open>\<^verbatim>\<open>os.Remove\<close>, with an absent file accepted; whether there was one.\<close>

definition remove_file ::
  "('x, 'z) env_scheme \<Rightarrow> string \<Rightarrow> (disk \<Rightarrow> string option) \<Rightarrow> (disk \<Rightarrow> disk) \<Rightarrow> (('k, 'x) world, bool) prog" where
  "remove_file env l sel del =
     bindP (getP (\<lambda>w. sel (w_disk w))) (\<lambda>old.
     bindP (attempt (io env l)) (\<lambda>r.
     case r of
       Inl e \<Rightarrow> if errors_is e ErrNotExist then ret False else failp e
     | Inr _ \<Rightarrow> thenP (put_disk del) (ret (old \<noteq> None))))"

definition cancel_prepared_pointer :: "('x, 'z) env_scheme \<Rightarrow> (('k, 'x) world, unit) prog" where
  "cancel_prepared_pointer env =
     bindP (getP (\<lambda>w. d_temp (w_disk w))) (\<lambda>t.
     case t of
       None \<Rightarrow> ret ()
     | Some _ \<Rightarrow>
         bindP (remove_file env ''remove temporary pointer'' d_temp (\<lambda>d. d\<lparr>d_temp := None\<rparr>)) (\<lambda>removed.
         if removed then io env ''sync directory'' else ret ()))"

text \<open>The rename is the first call; what fails after it leaves the pointer published.\<close>

definition publish_prepared_pointer ::
  "('x, 'z) env_scheme \<Rightarrow> enforcement_pointer \<Rightarrow> (('k, 'x) world, unit) prog" where
  "publish_prepared_pointer env p =
     bindP (getP (\<lambda>w. d_temp (w_disk w))) (\<lambda>t.
     thenP (refuseP (t = None \<or> \<not> pointer_valid p) (Errorf ''prepared enforcement pointer is invalid'' []))
     (thenP (io env ''rename'')
     (thenP (put_disk (\<lambda>d. d\<lparr>d_marker := t, d_temp := None\<rparr>))
     (thenP (io env ''sync pointer'') (io env ''sync directory'')))))"

definition ensure_published_generation_durable ::
  "('x, 'z) env_scheme \<Rightarrow> enforcement_pointer \<Rightarrow> (('k, 'x) world, generation_snapshot) prog" where
  "ensure_published_generation_durable env expected =
     bindP (read_enforcement_pointer env) (\<lambda>pointer.
     thenP (refuseP (\<not> pointer_equal expected pointer)
              (Errorf ''published enforcement pointer changed during recovery'' []))
     (bindP (load_verified_generation_snapshot env (ep_generation expected)) (\<lambda>s.
      thenP (refuseP (\<not> pointer_equal (snapshot_pointer env s) pointer)
               (Errorf ''published enforcement pointer does not match immutable snapshot'' []))
      (thenP (wrapP (Wrapf ''sync immutable generation snapshot: %w'' []) (io env ''sync snapshot''))
      (thenP (wrapP (Wrapf ''sync generation snapshot directory: %w'' []) (io env ''sync directory''))
      (thenP (wrapP (Wrapf ''sync enforcement pointer: %w'' []) (io env ''sync pointer''))
      (thenP (wrapP (Wrapf ''sync enforcement pointer directory: %w'' []) (io env ''sync directory''))
        (ret s))))))))"

definition load_active_snapshot :: "('x, 'z) env_scheme \<Rightarrow> (('k, 'x) world, string option) prog" where
  "load_active_snapshot env =
     bindP (read_enforcement_pointer env) (\<lambda>pointer.
     case pointer of
       None \<Rightarrow> ret None
     | Some p \<Rightarrow>
         bindP (wrapP (Wrapf ''active generation snapshot: %w'' [])
                  (load_verified_generation_snapshot env (ep_generation p))) (\<lambda>s.
         thenP (refuseP (\<not> pointer_equal (snapshot_pointer env s) pointer)
                  (Errorf ''enforcement pointer does not match generation snapshot'' []))
           (ret (Some (sn_script s)))))"

definition clear_active :: "('x, 'z) env_scheme \<Rightarrow> (('k, 'x) world, unit) prog" where
  "clear_active env =
     thenP (secure_active_directory env)
     (bindP (remove_file env ''remove pointer'' d_marker (\<lambda>d. d\<lparr>d_marker := None\<rparr>)) (\<lambda>_.
      bindP (remove_file env ''remove legacy snapshot'' (\<lambda>_. None) id) (\<lambda>_.
      io env ''sync directory'')))"

section \<open>The boot id\<close>

definition lower_hex :: "char \<Rightarrow> bool" where
  "lower_hex c \<longleftrightarrow> is_digit c \<or> 97 \<le> byte c \<and> byte c \<le> 102"

definition boot_id_pattern :: "string \<Rightarrow> bool" where
  "boot_id_pattern s \<longleftrightarrow> map length (split_on (CHR ''-'') s) = [8, 4, 4, 4, 12] \<and>
     list_all (list_all lower_hex) (split_on (CHR ''-'') s)"

definition current_boot_id :: "('x, 'z) env_scheme \<Rightarrow> (('k, 'x) world, string) prog" where
  "current_boot_id env w =
     (case boot_file env (w_ext w) of
        (Inl e, x) \<Rightarrow> (Err e, w\<lparr>w_ext := x\<rparr>)
      | (Inr content, x) \<Rightarrow>
          (let v = trim_space (take 128 content) in
           (if boot_id_pattern v then Ok v else Err (Errorf ''kernel boot id is malformed'' []), w\<lparr>w_ext := x\<rparr>)))"

end
