(* ===== verification/Generations.thy ===== *)
theory Generations
  imports Active
begin

text \<open>
  The generations of the state store: the \<^verbatim>\<open>generations\<close> table and its methods in
  \<^verbatim>\<open>src/internal/state/store.go\<close>. A generation is saved as pending with its script and snapshot, applied,
  prepared for commit, committed by the publication of the enforcement pointer, or rolled back.

  Shown here: the effect of each statement on the rows. That no row is removed, that what identifies a
  generation never changes and that its status moves along the edges of the protocol only is shown in
  \<^verbatim>\<open>Store_Protocol\<close> and \<^verbatim>\<open>Manager_Protocol\<close>, where every operation is a sequence of steps
  of the abstract protocol \<open>proto_step\<close> of \<^verbatim>\<open>Protocol\<close>.
\<close>

section \<open>Statements\<close>

text \<open>\<^verbatim>\<open>database/sql\<close> refuses a \<^verbatim>\<open>uint64\<close> with the high bit set.\<close>

definition sql_arg :: "nat \<Rightarrow> goerr option" where
  "sql_arg i = refuse (max_int64 < int i) (External ''uint64 values with high bit set are not supported'')"

definition max_generation :: "db \<Rightarrow> nat" where
  "max_generation d = foldr (\<lambda>g m. max (g_id g) m) (gens d) 0"

text \<open>\<^verbatim>\<open>ORDER BY id DESC LIMIT 1\<close>.\<close>

fun newest :: "(generation \<Rightarrow> bool) \<Rightarrow> generation list \<Rightarrow> generation option" where
  "newest P [] = None"
| "newest P (g # gs) =
     (case newest P gs of
        None \<Rightarrow> if P g then Some g else None
      | Some h \<Rightarrow> if P g \<and> g_id h < g_id g then Some g else Some h)"

definition row_of :: "nat \<Rightarrow> generation list \<Rightarrow> generation option" where
  "row_of i gs = find (\<lambda>g. g_id g = i) gs"

text \<open>The primary key and the foreign key of \<^verbatim>\<open>previous_id\<close>.\<close>

definition sql_insert_generation :: "generation \<Rightarrow> db \<Rightarrow> (unit \<times> db) result" where
  "sql_insert_generation g d =
     (if g_id g \<in> g_id ` set (gens d) then Err (External ''UNIQUE constraint failed: generations.id'')
      else if (case g_previous g of None \<Rightarrow> False | Some p \<Rightarrow> p \<noteq> g_id g \<and> p \<notin> g_id ` set (gens d))
      then Err (External ''FOREIGN KEY constraint failed'')
      else Ok ((), d\<lparr>gens := gens d @ [g]\<rparr>))"

definition sql_generations :: "(generation \<Rightarrow> bool) \<Rightarrow> (generation \<Rightarrow> generation) \<Rightarrow> db \<Rightarrow> (nat \<times> db) result" where
  "sql_generations P f d = (case sql_update P f (gens d) of (n, gs) \<Rightarrow> Ok (n, d\<lparr>gens := gs\<rparr>))"

definition open_status :: "gen_status \<Rightarrow> bool" where
  "open_status s \<longleftrightarrow> s \<in> {Pending, Applied, CommitPrepared}"

section \<open>Reading\<close>

definition scan_generation :: "generation \<Rightarrow> generation result" where
  "scan_generation g =
     (if g_previous g = Some 0 then Err (Errorf ''generation has an invalid previous generation reference'' [])
      else if g_prior g = Some 0 then Err (Errorf ''generation has an invalid prepared prior generation reference'' [])
      else Ok g)"

definition scan_row :: "generation option \<Rightarrow> generation result" where
  "scan_row r = (case r of None \<Rightarrow> Err ErrNoRows | Some g \<Rightarrow> scan_generation g)"

definition next_generation :: "('x, 'z) env_scheme \<Rightarrow> (('k, 'x) world, nat) prog" where
  "next_generation env = query env ''SELECT MAX(id) FROM generations'' (\<lambda>d. Ok (max_generation d + 1))"

definition pending_generation :: "('x, 'z) env_scheme \<Rightarrow> (('k, 'x) world, generation) prog" where
  "pending_generation env =
     query env ''SELECT pending generation'' (\<lambda>d. scan_row (newest (\<lambda>g. open_status (g_status g)) (gens d)))"

definition last_known_good :: "('x, 'z) env_scheme \<Rightarrow> (('k, 'x) world, generation) prog" where
  "last_known_good env =
     query env ''SELECT committed generation'' (\<lambda>d. scan_row (newest (\<lambda>g. g_status g = Committed) (gens d)))"

definition generation_by_id :: "('x, 'z) env_scheme \<Rightarrow> nat \<Rightarrow> (('k, 'x) world, generation) prog" where
  "generation_by_id env i =
     thenP (check (sql_arg i)) (query env ''SELECT generation'' (\<lambda>d. scan_row (row_of i (gens d))))"

definition row_pointer :: "generation \<Rightarrow> enforcement_pointer" where
  "row_pointer g = \<lparr>ep_schema = pointer_schema, ep_generation = g_id g,
                    ep_snapshot_sum = g_snapshot_checksum g, ep_policy_sum = g_checksum g\<rparr>"

definition expected_generation :: "('x, 'z) env_scheme \<Rightarrow> (('k, 'x) world, generation) prog" where
  "expected_generation env =
     bindP (attempt (pending_generation env)) (\<lambda>r.
     case r of
       Inl e \<Rightarrow> if \<not> errors_is e ErrNoRows then failp e else last_known_good env
     | Inr g \<Rightarrow>
         if g_status g = Applied then ret g
         else if g_status g = CommitPrepared then
           bindP (read_enforcement_pointer env) (\<lambda>pointer.
           if pointer_equal (row_pointer g) pointer then ret g else last_known_good env)
         else last_known_good env)"

definition prepared_deadline :: "('x, 'z) env_scheme \<Rightarrow> nat \<Rightarrow> (('k, 'x) world, gotime option) prog" where
  "prepared_deadline env i =
     thenP (check (sql_arg i))
       (query env ''SELECT rollback_deadline'' (\<lambda>d.
          case find (\<lambda>g. g_id g = i \<and> g_status g = CommitPrepared) (gens d) of
            None \<Rightarrow> Err ErrNoRows | Some g \<Rightarrow> Ok (g_deadline g)))"

definition read_script :: "('x, 'z) env_scheme \<Rightarrow> generation \<Rightarrow> (('k, 'x) world, string) prog" where
  "read_script env g =
     thenP (secure_generations_directory env)
     (thenP (refuseP (g_script_path g \<noteq> script_path env (g_id g))
               (Errorf ''generation script path escapes the state directory'' []))
     (bindP (getP (\<lambda>w. d_scripts (w_disk w) (g_id g))) (\<lambda>content.
      case content of
        None \<Rightarrow> failp ErrNotExist
      | Some b \<Rightarrow>
          thenP (refuseP (max_active_snapshot < length b) (Errorf ''generation script has unsafe type or permissions'' []))
          (thenP (io env ''read script'')
          (thenP (refuseP (\<not> valid_checksum (g_checksum g)) (Errorf ''generation checksum is malformed'' []))
          (thenP (refuseP (\<not> valid_script_checksum env b (g_checksum g)) (Errorf ''generation script checksum mismatch'' []))
             (ret b)))))))"

section \<open>Saving\<close>

record generation_metadata =
  md_boot :: string
  md_provenance :: "assignment list"

definition save_guard ::
  "('x, 'z) env_scheme \<Rightarrow> nat \<Rightarrow> string \<Rightarrow> string \<Rightarrow> generation_metadata \<Rightarrow> goerr option" where
  "save_guard env i checksum script md =
     first_err
       [refuse (i = 0) (Errorf ''generation id must be positive'' []),
        refuse (max_active_snapshot < length script) (Errorf ''generation script exceeds 32 MiB'' []),
        refuse (\<not> valid_script_checksum env script checksum) (Errorf ''generation script checksum is invalid'' []),
        refuse (md_boot md = []) (Errorf ''generation boot id is required'' []),
        refuse (md_provenance md = []) (Errorf ''generation provenance manifest is required'' []),
        map_option (Wrapf ''generation provenance manifest: %w'' []) (validate_active (md_provenance md))]"

definition save_script :: "('x, 'z) env_scheme \<Rightarrow> nat \<Rightarrow> string \<Rightarrow> (('k, 'x) world, unit) prog" where
  "save_script env i script =
     bindP (attempt (secure_active_file env ''read script'' (\<lambda>d. d_scripts d i) max_active_snapshot)) (\<lambda>r.
     case r of
       Inr old \<Rightarrow>
         refuseP (old \<noteq> script)
           (Errorf ''immutable generation script %d already exists with different content'' [itoa i])
     | Inl e \<Rightarrow>
         if errors_is e ErrNotExist
         then write_immutable env (\<lambda>d. d_scripts d i) (\<lambda>d. d\<lparr>d_scripts := (d_scripts d)(i \<mapsto> script)\<rparr>)
         else failp e)"

definition prior_pointer :: "('x, 'z) env_scheme \<Rightarrow> nat \<Rightarrow> (('k, 'x) world, enforcement_pointer) prog" where
  "prior_pointer env p =
     wrapP (Wrapf ''read prior committed generation: %w'' [])
       (thenP (check (sql_arg p))
         (query env ''SELECT prior checksums'' (\<lambda>d.
            case find (\<lambda>g. g_id g = p \<and> g_status g = Committed) (gens d) of
              None \<Rightarrow> Err ErrNoRows | Some g \<Rightarrow> Ok (row_pointer g))))"

definition new_row ::
  "('x, 'z) env_scheme \<Rightarrow> generation_snapshot \<Rightarrow> nat option \<Rightarrow> gotime option \<Rightarrow> gotime \<Rightarrow> generation" where
  "new_row env s previous deadline now =
     \<lparr>g_id = sn_generation s, g_checksum = sn_checksum s,
      g_snapshot_checksum = ep_snapshot_sum (snapshot_pointer env s), g_observed_hash = [],
      g_script_path = script_path env (sn_generation s),
      g_snapshot_path = generation_snapshot_path env (sn_generation s),
      g_status = Pending, g_created = now, g_deadline = deadline, g_previous = previous,
      g_boot = sn_boot s, g_prepared_at = None, g_prior = None, g_prior_sum = [], g_prior_snapshot_sum = []\<rparr>"

definition save_generation ::
  "('x, 'z) env_scheme \<Rightarrow> nat \<Rightarrow> string \<Rightarrow> string \<Rightarrow> nat option \<Rightarrow> gotime option \<Rightarrow> generation_metadata \<Rightarrow>
   (('k, 'x) world, unit) prog" where
  "save_generation env i checksum script previous deadline md =
     thenP (check (save_guard env i checksum script md))
     (thenP (secure_generations_directory env)
     (thenP (save_script env i script)
     (bindP (case previous of None \<Rightarrow> ret None | Some p \<Rightarrow> bindP (prior_pointer env p) (\<lambda>q. ret (Some q))) (\<lambda>prior.
      let s = \<lparr>sn_schema = snapshot_schema, sn_generation = i, sn_checksum = checksum, sn_script = script,
               sn_provenance = md_provenance md, sn_previous = prior, sn_boot = md_boot md\<rparr> in
      bindP (write_generation_snapshot env s) (\<lambda>_.
      bindP (time_now env) (\<lambda>now.
      thenP (check (sql_arg i))
      (thenP (exec env ''INSERT INTO generations'' (sql_insert_generation (new_row env s previous deadline now)))
         (sync_database env))))))))"

section \<open>Status changes\<close>

definition change_generation ::
  "('x, 'z) env_scheme \<Rightarrow> string \<Rightarrow> nat \<Rightarrow> (gen_status \<Rightarrow> bool) \<Rightarrow> (generation \<Rightarrow> generation) \<Rightarrow>
   (('k, 'x) world, nat) prog" where
  "change_generation env l i P f =
     thenP (check (sql_arg i)) (exec env l (sql_generations (\<lambda>g. g_id g = i \<and> P (g_status g)) f))"

text \<open>\<^verbatim>\<open>requireOneRow(result)\<close>.\<close>

definition one_row :: "('x, 'z) env_scheme \<Rightarrow> nat \<Rightarrow> (('k, 'x) world, unit) prog" where
  "one_row env n = thenP (io env ''RowsAffected'') (check (require_one_row n))"

definition mark_applied :: "('x, 'z) env_scheme \<Rightarrow> nat \<Rightarrow> (('k, 'x) world, unit) prog" where
  "mark_applied env i =
     bindP (change_generation env ''UPDATE applied'' i (\<lambda>s. s = Pending) (g_status_update (\<lambda>_. Applied))) (\<lambda>n.
     thenP (wrapP (Wrapf ''mark generation applied: %w'' []) (one_row env n))
       (sync_database env))"

definition set_observed_hash :: "('x, 'z) env_scheme \<Rightarrow> nat \<Rightarrow> string \<Rightarrow> (('k, 'x) world, unit) prog" where
  "set_observed_hash env i hash =
     thenP (refuseP (\<not> valid_checksum hash) (Errorf ''observed nftables hash is malformed'' []))
     (bindP (change_generation env ''UPDATE observed_hash'' i (\<lambda>_. True) (g_observed_hash_update (\<lambda>_. hash))) (\<lambda>n.
      thenP (one_row env n) (sync_database env)))"

definition prepared_row :: "enforcement_pointer option \<Rightarrow> gotime \<Rightarrow> generation \<Rightarrow> generation" where
  "prepared_row previous now g =
     g\<lparr>g_status := CommitPrepared, g_prepared_at := Some now,
       g_prior := map_option ep_generation previous,
       g_prior_sum := (case previous of None \<Rightarrow> [] | Some p \<Rightarrow> ep_policy_sum p),
       g_prior_snapshot_sum := (case previous of None \<Rightarrow> [] | Some p \<Rightarrow> ep_snapshot_sum p)\<rparr>"

definition prepare_commit :: "('x, 'z) env_scheme \<Rightarrow> nat \<Rightarrow> (('k, 'x) world, generation) prog" where
  "prepare_commit env i =
     bindP (generation_by_id env i) (\<lambda>g.
     thenP (refuseP (g_status g \<noteq> Applied)
              (Errorf ''generation %d status %s cannot enter commit_prepared'' [itoa i, status_text (g_status g)]))
     (bindP (wrapP (Wrapf ''read immutable generation snapshot: %w'' []) (load_generation_snapshot env i)) (\<lambda>s.
      let p = snapshot_pointer env s in
      thenP (refuseP (g_checksum g \<noteq> ep_policy_sum p \<or> g_snapshot_checksum g \<noteq> ep_snapshot_sum p)
               (Errorf ''generation database checksums disagree with immutable snapshot'' []))
      (bindP (time_now env) (\<lambda>now.
       thenP (check (case sn_previous s of None \<Rightarrow> None | Some q \<Rightarrow> sql_arg (ep_generation q)))
       (bindP (change_generation env ''UPDATE commit_prepared'' i (\<lambda>s. s = Applied) (prepared_row (sn_previous s) now)) (\<lambda>n.
        thenP (wrapP (Wrapf ''prepare generation commit: %w'' []) (one_row env n))
        (thenP (sync_database env) (generation_by_id env i)))))))))"

definition committed_row :: "generation \<Rightarrow> generation" where
  "committed_row g = g\<lparr>g_status := Committed, g_deadline := None, g_prepared_at := None\<rparr>"

definition rolled_back_row :: "generation \<Rightarrow> generation" where
  "rolled_back_row g = g\<lparr>g_status := RolledBack, g_prepared_at := None\<rparr>"

definition audit_now :: "('x, 'z) env_scheme \<Rightarrow> string \<Rightarrow> string \<Rightarrow> (('k, 'x) world, unit) prog" where
  "audit_now env event detail =
     bindP (time_now env) (\<lambda>now. exec env ''INSERT INTO audit'' (sql_audit now ''system'' event detail))"

definition finalize_commit :: "('x, 'z) env_scheme \<Rightarrow> nat \<Rightarrow> (('k, 'x) world, unit) prog" where
  "finalize_commit env i =
     thenP (in_tx env
       (thenP (check (sql_arg i))
       (bindP (exec env ''UPDATE others'' (sql_generations
                 (\<lambda>g. g_status g \<in> {Pending, Applied} \<and> g_id g \<noteq> i) (g_status_update (\<lambda>_. RolledBack)))) (\<lambda>_.
        bindP (change_generation env ''UPDATE committed'' i (\<lambda>s. s = CommitPrepared) committed_row) (\<lambda>n.
        thenP (wrapP (Wrapf ''finalize generation commit: %w'' []) (one_row env n))
          (audit_now env ''generation_committed'' (''generation='' @ itoa i)))))))
     (sync_database env)"

definition mark_rolled_back :: "('x, 'z) env_scheme \<Rightarrow> nat \<Rightarrow> (('k, 'x) world, unit) prog" where
  "mark_rolled_back env i =
     bindP (change_generation env ''UPDATE rolled_back'' i (\<lambda>s. s \<noteq> RolledBack) rolled_back_row) (\<lambda>n.
     thenP (one_row env n) (sync_database env))"

definition finalize_recovery_rollback :: "('x, 'z) env_scheme \<Rightarrow> nat \<Rightarrow> string \<Rightarrow> (('k, 'x) world, unit) prog" where
  "finalize_recovery_rollback env i detail =
     thenP (in_tx env
       (bindP (change_generation env ''UPDATE rolled_back'' i open_status rolled_back_row) (\<lambda>n.
        thenP (wrapP (Wrapf ''finalize recovered generation rollback: %w'' []) (one_row env n))
          (audit_now env ''generation_recovery_rolled_back'' detail))))
     (sync_database env)"

text \<open>\<^verbatim>\<open>current\<close> and \<^verbatim>\<open>exists\<close> against the predecessor that the snapshot records.\<close>

definition pointer_matches_previous :: "enforcement_pointer option \<Rightarrow> enforcement_pointer option \<Rightarrow> bool" where
  "pointer_matches_previous previous observed =
     (case previous of None \<Rightarrow> observed = None | Some p \<Rightarrow> pointer_equal p observed)"

definition expired :: "gotime option \<Rightarrow> gotime \<Rightarrow> bool" where
  "expired deadline now = (case deadline of None \<Rightarrow> False | Some d \<Rightarrow> \<not> now < d)"

definition commit_generation :: "('x, 'z) env_scheme \<Rightarrow> nat \<Rightarrow> (('k, 'x) world, unit) prog" where
  "commit_generation env i =
     bindP (load_generation_snapshot env i) (\<lambda>s.
     bindP (read_enforcement_pointer env) (\<lambda>current.
     thenP (refuseP (\<not> pointer_matches_previous (sn_previous s) current)
              (Errorf ''cannot commit from an unexpected enforcement pointer'' []))
     (bindP (prepare_commit env i) (\<lambda>_.
      thenP (prepare_enforcement_pointer env (snapshot_pointer env s))
      (deferP (cancel_prepared_pointer env)
        (bindP (prepared_deadline env i) (\<lambda>deadline.
         bindP (case deadline of None \<Rightarrow> ret False
                | Some _ \<Rightarrow> bindP (time_now env) (\<lambda>now. ret (expired deadline now))) (\<lambda>late.
         if late then
           thenP (mark_rolled_back env i)
             (failp (Errorf ''generation %d expired before pointer publication'' [itoa i]))
         else
           thenP (publish_prepared_pointer env (snapshot_pointer env s)) (finalize_commit env i)))))))))"

end
