(* ===== verification/Backend.thy ===== *)
theory Backend
  imports Generations Netip Config
begin

text \<open>
  The nftables backend, \<^verbatim>\<open>src/internal/nft/backend.go\<close>, \<^verbatim>\<open>leases.go\<close> and \<^verbatim>\<open>fallback.go\<close>: the only code
  that changes the kernel ruleset.

  The \<^verbatim>\<open>nft\<close> program is the parameter \<open>nft_process\<close> of the environment: for a command it gives the pieces
  that the process writes to its two output pipes, its exit error and the ruleset after it. A command that
  runs a script carries the content of the temporary file. The mutex of the backend is the fault
  \<^verbatim>\<open>nft mutation lock\<close>; \<^verbatim>\<open>context.Context\<close> is the record \<open>ctx\<close> of the two marks that the program puts into it.
\<close>

section \<open>The nft process\<close>

record table =
  t_family :: string
  t_name :: string

datatype nft_command =
    Nft_check string
  | Nft_file string
  | Nft_list_tables
  | Nft_list_table table
  | Nft_list_ruleset

text \<open>The backend's state and the live ruleset.\<close>

record 'n kernel =
  protect_first_use :: bool
  live :: 'n

type_synonym ('n, 'x) node = "('n kernel, 'x) world"

record ('n, 'x) benv = "'x env" +
  nft_process :: "nft_command \<Rightarrow> 'n \<times> 'x \<Rightarrow> (string list \<times> string list \<times> goerr option) \<times> 'n \<times> 'x"
  map_order :: "string list \<Rightarrow> string list"
  float_text :: "string \<Rightarrow> string option"

record ctx =
  mutation_lock :: bool
  preflight_done :: bool

record bounded_writer =
  bw_text :: string
  bw_remaining :: nat
  bw_exceeded :: bool

definition bounded_write :: "bounded_writer \<Rightarrow> string \<Rightarrow> bounded_writer" where
  "bounded_write w p =
     (let over = bw_remaining w < length p; q = (if over then take (bw_remaining w) p else p) in
      w\<lparr>bw_text := bw_text w @ q, bw_remaining := bw_remaining w - length q,
        bw_exceeded := bw_exceeded w \<or> over\<rparr>)"

definition bounded_output :: "nat \<Rightarrow> string list \<Rightarrow> bounded_writer" where
  "bounded_output n ps = foldl bounded_write \<lparr>bw_text = [], bw_remaining = n, bw_exceeded = False\<rparr> ps"

definition max_nft_stdout :: nat where "max_nft_stdout = 33554432"
definition max_nft_stderr :: nat where "max_nft_stderr = 1048576"

definition os_runner ::
  "('n, 'x, 'z) benv_scheme \<Rightarrow> nft_command \<Rightarrow> (('n, 'x) node, string \<times> string \<times> goerr option) prog" where
  "os_runner env c w =
     (case nft_process env c (live (w_kernel w), w_ext w) of
        ((ps, es, err), n, x) \<Rightarrow>
          let out = bounded_output max_nft_stdout ps; errout = bounded_output max_nft_stderr es in
          (Ok (bw_text out, bw_text errout,
               if bw_exceeded out \<or> bw_exceeded errout
               then Some (Errorf ''nft command output exceeded its safety limit'' []) else err),
           w\<lparr>w_kernel := (w_kernel w)\<lparr>live := n\<rparr>, w_ext := x\<rparr>))"

text \<open>A command whose failure is reported with what it wrote to standard error.\<close>

definition run_nft ::
  "('n, 'x, 'z) benv_scheme \<Rightarrow> nft_command \<Rightarrow> string \<Rightarrow> (('n, 'x) node, string) prog" where
  "run_nft env c msg =
     bindP (os_runner env c) (\<lambda>(out, errout, err).
     thenP (check (map_option (Wrapf msg [trim_space errout]) err)) (ret out))"

section \<open>Owned tables\<close>

definition filter_table :: string where "filter_table = ''nftfw_filter''"
definition nat_table :: string where "nat_table = ''nftfw_nat''"
definition filter6 :: string where "filter6 = ''nftfw_filter6''"

definition owned_tables :: "table list" where
  "owned_tables =
     [\<lparr>t_family = ''inet'', t_name = filter_table\<rparr>, \<lparr>t_family = ''ip'', t_name = nat_table\<rparr>,
      \<lparr>t_family = ''ip6'', t_name = filter6\<rparr>]"

definition table_key :: "table \<Rightarrow> string" where
  "table_key t = t_family t @ ''/'' @ t_name t"

definition is_owned_family_name :: "string \<Rightarrow> string \<Rightarrow> bool" where
  "is_owned_family_name family name \<longleftrightarrow> list_ex (\<lambda>t. t_family t = family \<and> t_name t = name) owned_tables"

section \<open>What a script may contain\<close>

text \<open>\<^verbatim>\<open>strings.Trim(token, "{};,")\<close>.\<close>

definition nft_identifier :: "string \<Rightarrow> string" where
  "nft_identifier t =
     (let punct = one_of ''{};,'' in rev (dropWhile punct (rev (dropWhile punct t))))"

text \<open>\<^verbatim>\<open>strings.ToLower\<close>, up to the letters outside ASCII whose lower case is outside ASCII too: they are not
  part of any word that a token is compared with.\<close>

fun lower_word :: "string \<Rightarrow> string" where
  "lower_word [] = []"
| "lower_word (c # s) =
     (if c = CHR 0xC4 \<and> take 1 s = [CHR 0xB0] then CHR ''i'' # lower_word (drop 1 s)
      else if c = CHR 0xE2 \<and> take 2 s = [CHR 0x84, CHR 0xAA] then CHR ''k'' # lower_word (drop 2 s)
      else lower_char c # lower_word s)"

definition nft_keyword :: "string \<Rightarrow> string" where
  "nft_keyword t = lower_word (nft_identifier t)"

definition nft_management_commands :: "string list" where
  "nft_management_commands =
     [''add'', ''create'', ''delete'', ''destroy'', ''flush'', ''get'', ''insert'', ''list'', ''rename'',
      ''replace'', ''reset'', ''import'', ''export'', ''monitor'', ''describe'']"

definition nft_directives :: "string list" where
  "nft_directives = [''include'', ''define'', ''redefine'']"

definition nft_mutation_commands :: "string list" where
  "nft_mutation_commands =
     [''add'', ''create'', ''delete'', ''destroy'', ''flush'', ''insert'', ''rename'', ''replace'', ''reset'']"

definition nft_managed_objects :: "string list" where
  "nft_managed_objects =
     [''table'', ''chain'', ''rule'', ''set'', ''map'', ''element'', ''counter'', ''quota'', ''limit'',
      ''flowtable'', ''synproxy'']"

definition nft_plural_objects :: "(string \<times> string) list" where
  "nft_plural_objects =
     [(''tables'', ''table''), (''chains'', ''chain''), (''rules'', ''rule''), (''sets'', ''set''),
      (''maps'', ''map''), (''elements'', ''element''), (''counters'', ''counter''), (''quotas'', ''quota''),
      (''limits'', ''limit''), (''flowtables'', ''flowtable''), (''synproxies'', ''synproxy'')]"

definition nft_object :: "string \<Rightarrow> string" where
  "nft_object t = (case map_of nft_plural_objects (nft_keyword t) of None \<Rightarrow> nft_keyword t | Some s \<Rightarrow> s)"

definition is_object_command :: "string \<Rightarrow> string \<Rightarrow> bool" where
  "is_object_command c ob \<longleftrightarrow> c \<in> set nft_mutation_commands \<and> ob \<in> set nft_managed_objects"

text \<open>Quoted text becomes \<^verbatim>\<open>"_"\<close>, comments go; a line continuation or an open string is an error.\<close>

definition continuation :: "string \<Rightarrow> bool" where
  "continuation s \<longleftrightarrow> take 1 s = NL \<or> take 2 s = [CHR 0x0D, CHR 0x0A]"

definition push :: "string \<Rightarrow> string result \<Rightarrow> string result" where
  "push p r = bindE r (\<lambda>s. Ok (p @ s))"

function (sequential) strip_plain :: "string \<Rightarrow> string result" and strip_quoted :: "string \<Rightarrow> string result" where
  "strip_plain [] = Ok []"
| "strip_plain (c # s) =
     (if c = CHR 0x5C \<and> continuation s then Err (Errorf ''nft line continuations are forbidden'' [])
      else if c = CHR 0x22 then push (dquote @ ''_'') (strip_quoted s)
      else if c = CHR ''#'' then strip_plain (dropWhile (\<lambda>x. x \<noteq> CHR 0x0A) s)
      else push [c] (strip_plain s))"
| "strip_quoted [] = Err (Errorf ''unterminated quoted nft string'' [])"
| "strip_quoted (c # s) =
     (if c = CHR 0x0A then Err (Errorf ''newline in quoted nft string is forbidden'' [])
      else if c = CHR 0x22 then push dquote (strip_plain s)
      else strip_quoted s)"
  by pat_completeness auto
termination
  by (relation "measure (case_sum length length)") (auto simp: le_imp_less_Suc length_dropWhile_le)

definition strip_nft_comments :: "string \<Rightarrow> string result" where
  "strip_nft_comments script = strip_plain script"

fun adjacent :: "('a \<Rightarrow> 'a \<Rightarrow> bool) \<Rightarrow> 'a list \<Rightarrow> bool" where
  "adjacent P (a # b # xs) = (P a b \<or> adjacent P (b # xs))"
| "adjacent P xs = False"

definition flushes_ruleset :: "string \<Rightarrow> bool" where
  "flushes_ruleset clean =
     adjacent (\<lambda>a b. nft_keyword a = ''flush'' \<and> nft_keyword b = ''ruleset'')
       (Go_Base.fields (map (\<lambda>c. if c = CHR '';'' then CHR '' '' else c) clean))"

text \<open>\<^verbatim>\<open>strings.FieldsFunc\<close> at line breaks and semicolons, without the blank statements.\<close>

definition statements :: "string \<Rightarrow> string list list" where
  "statements clean =
     filter (\<lambda>p. p \<noteq> []) (map Go_Base.fields (concat (map (split_on (CHR '';'')) (split_on (CHR 0x0A) clean))))"

text \<open>The tokens of a statement: directives, and the table that \<^verbatim>\<open>table\<close> names.\<close>

fun check_tokens :: "string list \<Rightarrow> goerr option" where
  "check_tokens [] = None"
| "check_tokens (t # ts) =
     (if nft_keyword t \<in> set nft_directives
      then Some (Errorf ''nft directive %q is forbidden'' [nft_keyword t])
      else if nft_keyword t = ''table'' \<and>
              (length ts < 2 \<or> \<not> is_owned_family_name (nft_keyword (ts ! 0)) (nft_identifier (ts ! 1)))
      then Some (Errorf ''script addresses malformed or unowned table'' [])
      else check_tokens ts)"

definition check_statement :: "string list \<Rightarrow> goerr option" where
  "check_statement parts =
     (let command = nft_keyword (hd parts);
          object = (if 1 < length parts then nft_object (parts ! 1) else []) in
      first_err
        [refuse (command \<in> set nft_management_commands \<and> command \<notin> set nft_mutation_commands)
           (Errorf ''nft management command %q is forbidden'' [command]),
         refuse (command \<in> set nft_management_commands \<and> (length parts < 4 \<or> object \<notin> set nft_managed_objects))
           (Errorf ''nft mutation command %q has an unsupported or malformed object'' [command]),
         check_tokens parts,
         refuse (4 \<le> length parts \<and> is_object_command command object \<and>
                 \<not> is_owned_family_name (nft_keyword (parts ! 2)) (nft_identifier (parts ! 3)))
           (Errorf ''script command addresses unowned table %s/%s'' [nft_keyword (parts ! 2), nft_identifier (parts ! 3)]),
         refuse (4 \<le> length parts \<and> is_object_command command object \<and> command = ''rename'' \<and> object = ''table'')
           (Errorf ''renaming an owned table is forbidden'' [])])"

definition validate_script :: "string \<Rightarrow> goerr option" where
  "validate_script script =
     (if trim_space script = [] then Some (Errorf ''empty nft script'' [])
      else
        (case strip_nft_comments script of
           Inl e \<Rightarrow> Some e
         | Inr clean \<Rightarrow>
             if flushes_ruleset clean then Some (Errorf ''flush ruleset is forbidden'' [])
             else checks check_statement (statements clean)))"


section \<open>The emergency policy\<close>

definition tab :: string where "tab = replicate 4 (CHR '' '')"

definition emergency_deny_script :: string where
  "emergency_deny_script =
     ''table inet nftfw_filter {'' @ NL @
     tab @ ''chain input {'' @ NL @
     tab @ tab @ ''type filter hook input priority filter; policy drop;'' @ NL @
     tab @ tab @ ''iifname '' @ dquote @ ''lo'' @ dquote @ '' accept comment '' @ dquote @ ''nftfw:emergency-loopback'' @ dquote @ NL @
     tab @ tab @ ''counter drop comment '' @ dquote @ ''nftfw:input-default-deny'' @ dquote @ NL @
     tab @ ''}'' @ NL @
     tab @ ''chain output {'' @ NL @
     tab @ tab @ ''type filter hook output priority filter; policy drop;'' @ NL @
     tab @ tab @ ''oifname '' @ dquote @ ''lo'' @ dquote @ '' accept comment '' @ dquote @ ''nftfw:emergency-loopback'' @ dquote @ NL @
     tab @ tab @ ''counter drop comment '' @ dquote @ ''nftfw:output-default-deny'' @ dquote @ NL @
     tab @ ''}'' @ NL @
     tab @ ''chain forward {'' @ NL @
     tab @ tab @ ''type filter hook forward priority filter; policy drop;'' @ NL @
     tab @ tab @ ''counter drop comment '' @ dquote @ ''nftfw:forward-default-deny'' @ dquote @ NL @
     tab @ ''}'' @ NL @
     ''}'' @ NL @
     ''table ip nftfw_nat {'' @ NL @
     tab @ ''chain prerouting {'' @ NL @
     tab @ tab @ ''type nat hook prerouting priority dstnat; policy accept;'' @ NL @
     tab @ tab @ ''counter comment '' @ dquote @ ''nftfw:dnat-chain'' @ dquote @ NL @
     tab @ ''}'' @ NL @
     tab @ ''chain postrouting {'' @ NL @
     tab @ tab @ ''type nat hook postrouting priority srcnat; policy accept;'' @ NL @
     tab @ tab @ ''counter comment '' @ dquote @ ''nftfw:vpn-only-nat'' @ dquote @ NL @
     tab @ ''}'' @ NL @
     ''}'' @ NL @
     ''table ip6 nftfw_filter6 {'' @ NL @
     tab @ ''chain input {'' @ NL @
     tab @ tab @ ''type filter hook input priority -300; policy drop;'' @ NL @
     tab @ tab @ ''iifname '' @ dquote @ ''lo'' @ dquote @ '' accept comment '' @ dquote @ ''nftfw:ipv6-mode-disabled'' @ dquote @ NL @
     tab @ ''}'' @ NL @
     tab @ ''chain output {'' @ NL @
     tab @ tab @ ''type filter hook output priority -300; policy drop;'' @ NL @
     tab @ tab @ ''oifname '' @ dquote @ ''lo'' @ dquote @ '' accept comment '' @ dquote @ ''nftfw:ipv6-loopback'' @ dquote @ NL @
     tab @ ''}'' @ NL @
     tab @ ''chain forward {'' @ NL @
     tab @ tab @ ''type filter hook forward priority -300; policy drop;'' @ NL @
     tab @ tab @ ''counter drop comment '' @ dquote @ ''nftfw:ipv6-emergency-deny'' @ dquote @ NL @
     tab @ ''}'' @ NL @
     ''}'' @ NL"

section \<open>Reading the tables\<close>

text \<open>\<^verbatim>\<open>[]map[string]json.RawMessage\<close> decoded into a slice that may hold values already: a map that is there
  keeps its members, \<^verbatim>\<open>null\<close> clears it.\<close>

fun merge_maps :: "(string \<times> json) list list \<Rightarrow> json list \<Rightarrow> (string \<times> json) list list result" where
  "merge_maps old [] = Ok []"
| "merge_maps old (v # vs) =
     bindE (members v) (\<lambda>ms.
     bindE (merge_maps (tl old) vs) (\<lambda>rest.
     Ok ((if v = JNull \<or> old = [] then ms else hd old @ ms) # rest)))"

definition get_maps :: "json \<Rightarrow> (string \<times> json) list list \<Rightarrow> (string \<times> json) list list result" where
  "get_maps v old = (case v of JNull \<Rightarrow> Ok [] | JArr vs \<Rightarrow> merge_maps old vs | _ \<Rightarrow> Err type_error)"

definition nft_objects :: "string \<Rightarrow> (string \<times> json) list list result" where
  "nft_objects out =
     (case json_decode out of
        None \<Rightarrow> Err (Errorf ''invalid JSON'' [])
      | Some v \<Rightarrow> decode_fields False [(''nftables'', get_maps)] v [])"

definition empty_table :: table where "empty_table = \<lparr>t_family = [], t_name = []\<rparr>"

definition table_fields :: "table decoder" where
  "table_fields = [(''family'', get_string (\<lambda>v. t_family_update (\<lambda>_. v))), (''name'', get_string (\<lambda>v. t_name_update (\<lambda>_. v)))]"

definition object_table :: "(string \<times> json) list \<Rightarrow> table option" where
  "object_table ob =
     (case member ''table'' ob of
        None \<Rightarrow> None
      | Some raw \<Rightarrow>
          (case decode_fields False table_fields raw empty_table of
             Inl _ \<Rightarrow> None
           | Inr t \<Rightarrow> if t \<in> set owned_tables then Some t else None))"

definition list_owned :: "('n, 'x, 'z) benv_scheme \<Rightarrow> (('n, 'x) node, table list) prog" where
  "list_owned env =
     bindP (run_nft env Nft_list_tables ''nft list tables: %s: %w'') (\<lambda>out.
     bindP (wrapP (Wrapf ''decode nft JSON: %w'' []) (of_result (nft_objects out))) (\<lambda>obs.
     ret (List.map_filter object_table obs)))"

definition existing_owned :: "('n, 'x, 'z) benv_scheme \<Rightarrow> (('n, 'x) node, string list) prog" where
  "existing_owned env = bindP (list_owned env) (\<lambda>ts. ret (remdups (map table_key ts)))"

section \<open>Changing the ruleset\<close>

definition require_global_mutation_lock :: "ctx \<Rightarrow> goerr option" where
  "require_global_mutation_lock c =
     refuse (\<not> mutation_lock c) (Errorf ''nft mutation requires the held global mutation lock'' [])"

definition acquire_mutation_lock :: "('x, 'z) env_scheme \<Rightarrow> (('k, 'x) world, unit) prog" where
  "acquire_mutation_lock env = wrapP (Wrapf ''wait for nft mutation lock: %w'' []) (io env ''nft mutation lock'')"

definition temp_script :: "('x, 'z) env_scheme \<Rightarrow> (('k, 'x) world, unit) prog" where
  "temp_script env = io env ''write temporary script''"

definition prepend_destroy :: "string \<Rightarrow> string list \<Rightarrow> string" where
  "prepend_destroy script existing =
     concat (map (\<lambda>t. if table_key t \<in> set existing
                      then ''destroy table '' @ t_family t @ '' '' @ t_name t @ NL else []) owned_tables) @ script"

definition first_use_collision :: "string list \<Rightarrow> goerr option" where
  "first_use_collision existing =
     (let names = filter (\<lambda>k. k \<in> set existing) (map table_key owned_tables) in
      refuse (names \<noteq> [])
        (Errorf ''first-use nft table collision: refusing to adopt or destroy %s'' [join_str '', '' (sort names)]))"

definition set_protect :: "bool \<Rightarrow> (('n, 'x) node, unit) prog" where
  "set_protect b w = (Ok (), w\<lparr>w_kernel := (w_kernel w)\<lparr>protect_first_use := b\<rparr>\<rparr>)"

definition protect_first_use_op :: "('n, 'x, 'z) benv_scheme \<Rightarrow> (('n, 'x) node, unit) prog" where
  "protect_first_use_op env =
     thenP (acquire_mutation_lock env)
     (bindP (wrapP (Wrapf ''inspect first-use nft table collisions: %w'' []) (existing_owned env)) (\<lambda>existing.
      thenP (check (first_use_collision existing)) (set_protect True)))"

definition check_script :: "('n, 'x, 'z) benv_scheme \<Rightarrow> string \<Rightarrow> (('n, 'x) node, unit) prog" where
  "check_script env script =
     thenP (check (validate_script script))
     (thenP (temp_script env)
     (bindP (run_nft env (Nft_check script) ''nft --check failed: %s: %w'') (\<lambda>_. ret ())))"

text \<open>The part that \<^verbatim>\<open>Apply\<close> and \<^verbatim>\<open>CheckCandidate\<close> share.\<close>

definition candidate_transaction :: "('n, 'x, 'z) benv_scheme \<Rightarrow> string \<Rightarrow> (('n, 'x) node, string) prog" where
  "candidate_transaction env script =
     thenP (acquire_mutation_lock env)
     (thenP (check (validate_script script))
     (bindP (wrapP (Wrapf ''inspect owned nft tables: %w'' []) (existing_owned env)) (\<lambda>owned.
      bindP (getP (\<lambda>w. protect_first_use (w_kernel w))) (\<lambda>armed.
      thenP (check (if armed then first_use_collision owned else None))
      (let tx = prepend_destroy script owned in
       thenP (check (validate_script tx))
       (thenP (check_script env tx) (ret tx)))))))"

definition check_candidate :: "('n, 'x, 'z) benv_scheme \<Rightarrow> string \<Rightarrow> (('n, 'x) node, unit) prog" where
  "check_candidate env script = bindP (candidate_transaction env script) (\<lambda>_. ret ())"

definition backend_apply :: "('n, 'x, 'z) benv_scheme \<Rightarrow> ctx \<Rightarrow> string \<Rightarrow> (('n, 'x) node, unit) prog" where
  "backend_apply env c script =
     thenP (check (require_global_mutation_lock c))
     (bindP (candidate_transaction env script) (\<lambda>tx.
      thenP (temp_script env)
      (thenP (wrapP ApplyExecutionError
                (bindP (run_nft env (Nft_file tx) ''nft apply failed: %s: %w'') (\<lambda>_. ret ())))
         (set_protect False))))"

fun mutation_attempted :: "goerr \<Rightarrow> bool" where
  "mutation_attempted (ApplyExecutionError e) = True"
| "mutation_attempted (Wrapf f as e) = mutation_attempted e"
| "mutation_attempted (Joined a b) = (mutation_attempted a \<or> mutation_attempted b)"
| "mutation_attempted _ = False"

definition run_file :: "('n, 'x, 'z) benv_scheme \<Rightarrow> string \<Rightarrow> string \<Rightarrow> (('n, 'x) node, unit) prog" where
  "run_file env script msg =
     thenP (temp_script env) (bindP (run_nft env (Nft_file script) msg) (\<lambda>_. ret ()))"

definition destroy_owned :: "('n, 'x, 'z) benv_scheme \<Rightarrow> ctx \<Rightarrow> (('n, 'x) node, unit) prog" where
  "destroy_owned env c =
     thenP (check (require_global_mutation_lock c))
     (thenP (acquire_mutation_lock env)
     (bindP (existing_owned env) (\<lambda>existing.
      let script = prepend_destroy [] existing in
      if script = [] then ret ()
      else run_file env script ''destroy owned tables failed: %s: %w'')))"

section \<open>Sets\<close>

definition allowed_sets :: "(string \<times> string) list" where
  "allowed_sets =
     [(''blocked_v4'', ''ipv4''), (''blocked_v6'', ''ipv6''), (''trusted_v4'', ''ipv4''), (''trusted_v6'', ''ipv6''),
      (''wg_bootstrap_v4'', ''ipv4''), (''wg_bootstrap_v6'', ''ipv6''), (''docker_nets'', ''ipv4''), (''docker_nets6'', ''ipv6'')]"

definition check_element :: "string \<Rightarrow> string \<Rightarrow> string \<Rightarrow> goerr option" where
  "check_element name family raw =
     (case parse_prefix raw of
        None \<Rightarrow> Some (Errorf ''invalid set element %q'' [raw])
      | Some p \<Rightarrow>
          first_err
            [refuse (pbits p = 0) (Errorf ''invalid set element %q'' [raw]),
             refuse (family = ''ipv4'' \<and> \<not> is4 (paddr p) \<or> family = ''ipv6'' \<and> \<not> is6 (paddr p))
               (Errorf ''set %s contains wrong-family element %q'' [name, raw]),
             refuse (has_prefix name ''wg_bootstrap_'' \<and> pbits p \<noteq> int (bit_len (paddr p)))
               (Errorf ''set %s requires host-prefix elements'' [name])])"

definition element_command :: "string \<Rightarrow> string \<Rightarrow> string list \<Rightarrow> string" where
  "element_command verb target values = verb @ '' element '' @ target @ '' { '' @ join_str '', '' values @ '' }'' @ NL"

definition in_filter :: "string \<Rightarrow> string" where
  "in_filter name = ''inet '' @ filter_table @ '' '' @ name"

definition flush_and_fill :: "string \<Rightarrow> string list \<Rightarrow> string" where
  "flush_and_fill target values =
     ''flush set '' @ target @ NL @ (if values = [] then [] else element_command ''add'' target values)"

definition check_and_run :: "('n, 'x, 'z) benv_scheme \<Rightarrow> string \<Rightarrow> string \<Rightarrow> (('n, 'x) node, unit) prog" where
  "check_and_run env script msg = thenP (check_script env script) (run_file env script msg)"

definition update_set ::
  "('n, 'x, 'z) benv_scheme \<Rightarrow> ctx \<Rightarrow> string \<Rightarrow> bool \<Rightarrow> string list \<Rightarrow> (('n, 'x) node, unit) prog" where
  "update_set env c name add elements =
     thenP (check (require_global_mutation_lock c))
     (thenP (acquire_mutation_lock env)
     (case map_of allowed_sets name of
        None \<Rightarrow> failp (Errorf ''set %q is not owned'' [name])
      | Some family \<Rightarrow>
          if elements = [] then ret ()
          else
            thenP (check (checks (check_element name family) elements))
            (let script = element_command (if add then ''add'' else ''delete'') (in_filter name) elements in
             thenP (check (validate_script script))
               (check_and_run env script ''nft set update failed: %s: %w''))))"

definition replace_sets_script :: "(string \<times> string list) list \<Rightarrow> string list \<Rightarrow> string result" where
  "replace_sets_script sets names =
     foldE (\<lambda>script name.
       let values = sort (case map_of sets name of None \<Rightarrow> [] | Some vs \<Rightarrow> vs);
           family = (case map_of allowed_sets name of None \<Rightarrow> [] | Some f \<Rightarrow> f) in
       case checks (check_element name family) values of
         Some e \<Rightarrow> Err e
       | None \<Rightarrow> Ok (script @ flush_and_fill (in_filter name) values)) [] names"

definition replace_sets ::
  "('n, 'x, 'z) benv_scheme \<Rightarrow> ctx \<Rightarrow> (string \<times> string list) list \<Rightarrow> (('n, 'x) node, unit) prog" where
  "replace_sets env c sets =
     thenP (check (require_global_mutation_lock c))
     (thenP (acquire_mutation_lock env)
     (thenP (check (checks (\<lambda>n. refuse (map_of allowed_sets n = None) (Errorf ''set %q is not owned'' [n]))
               (map_order env (map fst sets))))
     (bindP (of_result (replace_sets_script sets (sort (map fst sets)))) (\<lambda>script.
      if script = [] then ret ()
      else check_and_run env script ''nft set replacement failed: %s: %w''))))"

definition check_container_network :: "bool \<Rightarrow> string \<Rightarrow> goerr option" where
  "check_container_network ipv4 raw =
     refuse (case parse_prefix raw of None \<Rightarrow> True | Some p \<Rightarrow> pbits p = 0 \<or> is4 (paddr p) \<noteq> ipv4)
       (Errorf ''invalid container network %q'' [raw])"

definition container_networks_script :: "string list \<Rightarrow> string list \<Rightarrow> string result" where
  "container_networks_script v4 v6 =
     foldE (\<lambda>script (target, values, ipv4).
       case checks (check_container_network ipv4) (sort values) of
         Some e \<Rightarrow> Err e
       | None \<Rightarrow> Ok (script @ flush_and_fill target (sort values))) []
       [(in_filter ''docker_nets'', v4, True), (in_filter ''docker_nets6'', v6, False),
        (''ip '' @ nat_table @ '' docker_nets_nat'', v4, True)]"

definition replace_container_networks ::
  "('n, 'x, 'z) benv_scheme \<Rightarrow> ctx \<Rightarrow> string list \<Rightarrow> string list \<Rightarrow> (('n, 'x) node, unit) prog" where
  "replace_container_networks env c v4 v6 =
     thenP (check (require_global_mutation_lock c))
     (thenP (acquire_mutation_lock env)
     (bindP (of_result (container_networks_script v4 v6)) (\<lambda>script.
      check_and_run env script ''nft container set replacement failed: %s: %w'')))"

section \<open>Claim sets with timeouts\<close>

record timed_element =
  te_prefix :: string
  te_timeout :: int

definition validate_set_prefix :: "string \<Rightarrow> string \<Rightarrow> goerr option" where
  "validate_set_prefix raw family =
     (case parse_prefix raw of
        None \<Rightarrow> Some (Errorf ''invalid set element %q'' [raw])
      | Some p \<Rightarrow>
          first_err
            [refuse (pbits p = 0) (Errorf ''invalid set element %q'' [raw]),
             refuse (family = ''ipv4'' \<and> \<not> is4 (paddr p) \<or> family = ''ipv6'' \<and> \<not> is6 (paddr p))
               (Errorf ''wrong-family set element %q'' [raw])])"

definition max_timeout :: int where "max_timeout = 31536000"

definition check_timed :: "string \<Rightarrow> string \<Rightarrow> timed_element \<Rightarrow> goerr option" where
  "check_timed name family e =
     first_err
       [map_option (Wrapf ''set %s: %w'' [name]) (validate_set_prefix (te_prefix e) family),
        refuse (te_timeout e < 0 \<or> max_timeout < te_timeout e) (Errorf ''set %s has invalid timeout'' [name])]"

definition timed_text :: "timed_element \<Rightarrow> string" where
  "timed_text e = te_prefix e @ (if 0 < te_timeout e then '' timeout '' @ itoa_int (te_timeout e) @ ''s'' else [])"

datatype claim_set = Plain string string "string list" | Timed string string "timed_element list"

fun claim_set_script :: "claim_set \<Rightarrow> string result" where
  "claim_set_script (Plain name family values) =
     (case checks (\<lambda>v. map_option (Wrapf ''set %s: %w'' [name]) (validate_set_prefix v family)) (sort values) of
        Some e \<Rightarrow> Err e
      | None \<Rightarrow> Ok (flush_and_fill (in_filter name) (sort values)))"
| "claim_set_script (Timed name family es) =
     (let sorted = sort_slice (\<lambda>a b. te_prefix a < te_prefix b) es in
      case checks (check_timed name family) sorted of
        Some e \<Rightarrow> Err e
      | None \<Rightarrow> Ok (flush_and_fill (in_filter name) (map timed_text sorted)))"

definition claim_sets_script ::
  "string list \<Rightarrow> string list \<Rightarrow> timed_element list \<Rightarrow> timed_element list \<Rightarrow> string result" where
  "claim_sets_script blocked4 blocked6 trusted4 trusted6 =
     foldE (\<lambda>script cs. bindE (claim_set_script cs) (\<lambda>s. Ok (script @ s))) []
       [Plain ''blocked_v4'' ''ipv4'' blocked4, Plain ''blocked_v6'' ''ipv6'' blocked6,
        Timed ''trusted_v4'' ''ipv4'' trusted4, Timed ''trusted_v6'' ''ipv6'' trusted6]"

definition replace_claim_sets ::
  "('n, 'x, 'z) benv_scheme \<Rightarrow> ctx \<Rightarrow> string list \<Rightarrow> string list \<Rightarrow> timed_element list \<Rightarrow> timed_element list \<Rightarrow>
   (('n, 'x) node, unit) prog" where
  "replace_claim_sets env c blocked4 blocked6 trusted4 trusted6 =
     thenP (check (require_global_mutation_lock c))
     (thenP (acquire_mutation_lock env)
     (bindP (of_result (claim_sets_script blocked4 blocked6 trusted4 trusted6)) (\<lambda>script.
      check_and_run env script ''nft runtime set replacement failed: %s: %w'')))"

end
