(* ===== verification/Inspect.thy ===== *)
theory Inspect
  imports Backend
begin

text \<open>
  What is read back from the kernel: the structural integrity check of the owned tables
  (\<^verbatim>\<open>src/internal/nft/backend.go\<close>), their fingerprint (\<^verbatim>\<open>fingerprint.go\<close>) and the one-snapshot status
  inspection (\<^verbatim>\<open>status.go\<close>). Go iterates over a map in an arbitrary order: \<open>map_order\<close> of the environment
  gives it.
\<close>

section \<open>Integrity\<close>

record observed_chain =
  oc_family :: string
  oc_table :: string
  oc_name :: string
  oc_type :: string
  oc_hook :: string
  oc_policy :: string
  oc_comment :: string

record observed_rule =
  or_family :: string
  or_table :: string
  or_chain :: string
  or_comment :: string

definition chain_fields :: "observed_chain decoder" where
  "chain_fields =
     [(''family'', get_string (\<lambda>v. oc_family_update (\<lambda>_. v))), (''table'', get_string (\<lambda>v. oc_table_update (\<lambda>_. v))),
      (''name'', get_string (\<lambda>v. oc_name_update (\<lambda>_. v))), (''type'', get_string (\<lambda>v. oc_type_update (\<lambda>_. v))),
      (''hook'', get_string (\<lambda>v. oc_hook_update (\<lambda>_. v))), (''policy'', get_string (\<lambda>v. oc_policy_update (\<lambda>_. v))),
      (''comment'', get_string (\<lambda>v. oc_comment_update (\<lambda>_. v)))]"

definition rule_fields :: "observed_rule decoder" where
  "rule_fields =
     [(''family'', get_string (\<lambda>v. or_family_update (\<lambda>_. v))), (''table'', get_string (\<lambda>v. or_table_update (\<lambda>_. v))),
      (''chain'', get_string (\<lambda>v. or_chain_update (\<lambda>_. v))), (''comment'', get_string (\<lambda>v. or_comment_update (\<lambda>_. v)))]"

definition decode_chain :: "json \<Rightarrow> observed_chain result" where
  "decode_chain v = decode_fields False chain_fields v
     \<lparr>oc_family = [], oc_table = [], oc_name = [], oc_type = [], oc_hook = [], oc_policy = [], oc_comment = []\<rparr>"

definition decode_rule :: "json \<Rightarrow> observed_rule result" where
  "decode_rule v = decode_fields False rule_fields v
     \<lparr>or_family = [], or_table = [], or_chain = [], or_comment = []\<rparr>"

text \<open>The chains of the table, the last of a name first, and the comments of its chains and rules.\<close>

definition observe_object ::
  "table \<Rightarrow> observed_chain list \<times> string list \<Rightarrow> (string \<times> json) list \<Rightarrow> (observed_chain list \<times> string list) result" where
  "observe_object t st ob =
     bindE (case member ''chain'' ob of
        None \<Rightarrow> Ok st
      | Some raw \<Rightarrow>
          (case decode_chain raw of
             Inl e \<Rightarrow> Err (Wrapf ''decode chain: %w'' [] e)
           | Inr c \<Rightarrow>
               Ok (if oc_family c = t_family t \<and> oc_table c = t_name t
                   then (c # fst st, if oc_comment c = [] then snd st else oc_comment c # snd st)
                   else st))) (\<lambda>st'.
     case member ''rule'' ob of
        None \<Rightarrow> Ok st'
      | Some raw \<Rightarrow>
          (case decode_rule raw of
             Inl e \<Rightarrow> Err (Wrapf ''decode rule: %w'' [] e)
           | Inr r \<Rightarrow>
               Ok (if or_family r = t_family t \<and> or_table r = t_name t \<and> or_comment r \<noteq> []
                   then (fst st', or_comment r # snd st')
                   else st')))"

definition key_text :: "table \<Rightarrow> string" where "key_text t = table_key t"

definition require_comment :: "table \<Rightarrow> string list \<Rightarrow> string \<Rightarrow> string option" where
  "require_comment t comments c =
     (if c \<in> set comments then None else Some (''marker '' @ quote c @ '' missing from '' @ key_text t))"

definition comment_suffixes :: "string list \<Rightarrow> string \<Rightarrow> string list" where
  "comment_suffixes comments p =
     remdups (map (drop (length p)) (filter (\<lambda>c. has_prefix c p) comments))"

definition require_base_chain :: "table \<Rightarrow> observed_chain list \<Rightarrow> string \<Rightarrow> string \<Rightarrow> string \<Rightarrow> string \<Rightarrow> string option" where
  "require_base_chain t cbs name typ hook pol =
     (case find (\<lambda>c. oc_name c = name) cbs of
        None \<Rightarrow> Some (''base chain '' @ quote name @ '' missing from '' @ key_text t)
      | Some c \<Rightarrow>
          if oc_type c \<noteq> typ \<or> oc_hook c \<noteq> hook \<or> oc_policy c \<noteq> pol
          then Some (''base chain '' @ quote name @ '' has unsafe type/hook/policy in '' @ key_text t)
          else None)"

text \<open>A check that fails says why.\<close>

fun first_detail :: "string option list \<Rightarrow> string option" where
  "first_detail [] = None"
| "first_detail (None # ds) = first_detail ds"
| "first_detail (Some d # ds) = Some d"

definition required_comments :: "string list" where
  "required_comments =
     [''nftfw:input-default-deny'', ''nftfw:output-default-deny'', ''nftfw:forward-default-deny'',
      ''nftfw:forward-physical-deny'', ''nftfw:input-reply-only'', ''nftfw:vpn-only-egress'']"

definition provenance_markers :: "string list" where
  "provenance_markers =
     [''nftfw:provenance-tag-input:'', ''nftfw:provenance-tag-output:'', ''nftfw:provenance-tag-forward:'',
      ''nftfw:provenance-reply-output:'', ''nftfw:provenance-reply-forward:'']"

definition marker_class :: "table \<Rightarrow> string list \<Rightarrow> string \<Rightarrow> string option" where
  "marker_class t comments p =
     (let n = length (comment_suffixes comments p) in
      if n = 0 \<or> 64 < n
      then Some (''provenance marker class '' @ quote p @ '' is absent or unbounded in '' @ key_text t)
      else None)"

definition same_markers :: "(string list \<Rightarrow> string list) \<Rightarrow> table \<Rightarrow> string list \<Rightarrow> string list \<Rightarrow> string option" where
  "same_markers order t expected observed =
     (if length expected \<noteq> length observed
      then Some (''provenance marker interface sets differ in '' @ key_text t)
      else (case find (\<lambda>n. n = [] \<or> n \<notin> set observed) (order expected) of
              None \<Rightarrow> None
            | Some n \<Rightarrow> Some (''provenance marker for interface '' @ quote n @ '' is incomplete in '' @ key_text t)))"

definition check_markers :: "(string list \<Rightarrow> string list) \<Rightarrow> table \<Rightarrow> string list \<Rightarrow> string option" where
  "check_markers order t comments =
     (let expected = comment_suffixes comments (hd provenance_markers) in
      first_detail
        (marker_class t comments (hd provenance_markers) #
         concat (map (\<lambda>p. [marker_class t comments p, same_markers order t expected (comment_suffixes comments p)])
           (tl provenance_markers))))"

definition filter_base_chains :: "table \<Rightarrow> observed_chain list \<Rightarrow> string option list" where
  "filter_base_chains t cbs =
     map (\<lambda>c. require_base_chain t cbs c ''filter'' c ''drop'') [''input'', ''output'', ''forward'']"

definition ipv6_prefix :: string where "ipv6_prefix = ''nftfw:ipv6-mode-''"

definition check_ipv6 :: "(string list \<Rightarrow> string list) \<Rightarrow> table \<Rightarrow> observed_chain list \<Rightarrow> string list \<Rightarrow> string option" where
  "check_ipv6 order t cbs comments =
     (case find (\<lambda>c. has_prefix c ipv6_prefix) (order (remdups comments)) of
        None \<Rightarrow> Some (''IPv6 mode marker missing from '' @ key_text t)
      | Some c \<Rightarrow>
          (let mode = drop (length ipv6_prefix) c in
           if mode = [] then Some (''IPv6 mode marker missing from '' @ key_text t)
           else if mode = ''disabled'' then first_detail (filter_base_chains t cbs)
           else if mode \<noteq> ''vpn'' \<and> mode \<noteq> ''native'' then Some (''invalid IPv6 mode marker in '' @ key_text t)
           else None))"

definition table_detail ::
  "(string list \<Rightarrow> string list) \<Rightarrow> table \<Rightarrow> observed_chain list \<Rightarrow> string list \<Rightarrow> string option" where
  "table_detail order t cbs comments =
     (if t = \<lparr>t_family = ''inet'', t_name = filter_table\<rparr> then
        first_detail (filter_base_chains t cbs @ map (require_comment t comments) required_comments @
          [check_markers order t comments])
      else if t = \<lparr>t_family = ''ip'', t_name = nat_table\<rparr> then
        first_detail [require_base_chain t cbs ''prerouting'' ''nat'' ''prerouting'' ''accept'',
                      require_comment t comments ''nftfw:dnat-chain'',
                      require_base_chain t cbs ''postrouting'' ''nat'' ''postrouting'' ''accept'']
      else if t = \<lparr>t_family = ''ip6'', t_name = filter6\<rparr> then check_ipv6 order t cbs comments
      else Some (''unexpected owned table '' @ key_text t))"

definition validate_owned_objects ::
  "(string list \<Rightarrow> string list) \<Rightarrow> (string \<times> json) list list result \<Rightarrow> table \<Rightarrow> string option result" where
  "validate_owned_objects order objects t =
     (case objects of
        Inl e \<Rightarrow> Err (Wrapf ''decode nft JSON: %w'' [] e)
      | Inr obs \<Rightarrow>
          bindE (foldE (observe_object t) ([], []) obs) (\<lambda>(cbs, comments).
          Ok (table_detail order t cbs comments)))"

definition validate_owned_table_json :: "(string list \<Rightarrow> string list) \<Rightarrow> string \<Rightarrow> table \<Rightarrow> string option result" where
  "validate_owned_table_json order out t = validate_owned_objects order (nft_objects out) t"

text \<open>\<^verbatim>\<open>Integrity\<close> returns a boolean, a detail and an error: \<open>None\<close> is a passed check, \<open>Some\<close> the detail of a
  failed one.\<close>

definition integrity_table :: "('n, 'x, 'z) benv_scheme \<Rightarrow> table \<Rightarrow> (('n, 'x) node, string option) prog" where
  "integrity_table env t =
     bindP (os_runner env (Nft_list_table t)) (\<lambda>(out, errout, err).
     case err of
       Some e \<Rightarrow> failp e
     | None \<Rightarrow> of_result (validate_owned_table_json (map_order env) out t))"

fun integrity_tables :: "('n, 'x, 'z) benv_scheme \<Rightarrow> table list \<Rightarrow> (('n, 'x) node, string option) prog" where
  "integrity_tables env [] = ret None"
| "integrity_tables env (t # ts) =
     bindP (integrity_table env t) (\<lambda>d. case d of Some m \<Rightarrow> ret (Some m) | None \<Rightarrow> integrity_tables env ts)"

definition integrity :: "('n, 'x, 'z) benv_scheme \<Rightarrow> (('n, 'x) node, string option) prog" where
  "integrity env =
     bindP (existing_owned env) (\<lambda>owned.
     case find (\<lambda>t. table_key t \<notin> set owned) owned_tables of
       Some t \<Rightarrow> ret (Some (''owned table '' @ table_key t @ '' is missing''))
     | None \<Rightarrow> integrity_tables env owned_tables)"

section \<open>Fingerprint\<close>

text \<open>Objects decoded into \<^verbatim>\<open>map[string]any\<close>: the last of several members with one name counts. Their
  members are written in the order of their names, numbers as \<^verbatim>\<open>float64\<close>.\<close>

fun insert_member :: "string \<times> json \<Rightarrow> (string \<times> json) list \<Rightarrow> (string \<times> json) list" where
  "insert_member m [] = [m]"
| "insert_member m (n # ns) =
     (if fst m < fst n then m # n # ns else if fst m = fst n then m # ns else n # insert_member m ns)"

definition as_map :: "(string \<times> json) list \<Rightarrow> (string \<times> json) list" where
  "as_map ms = foldl (\<lambda>acc m. insert_member m acc) [] ms"

fun decode_any :: "json \<Rightarrow> json" where
  "decode_any (JArr vs) = JArr (map decode_any vs)"
| "decode_any (JObj ms) = JObj (as_map (map (\<lambda>(k, v). (k, decode_any v)) ms))"
| "decode_any v = v"

definition without :: "string \<Rightarrow> (string \<times> json) list \<Rightarrow> (string \<times> json) list" where
  "without k ms = filter (\<lambda>m. fst m \<noteq> k) ms"

definition without_counts :: "string \<times> json \<Rightarrow> string \<times> json" where
  "without_counts m =
     (case m of
        (k, JObj cs) \<Rightarrow> (k, if k = ''counter'' then JObj (without ''bytes'' (without ''packets'' cs)) else JObj cs)
      | _ \<Rightarrow> m)"

fun strip_volatile :: "json \<Rightarrow> json" where
  "strip_volatile (JArr vs) = JArr (map strip_volatile vs)"
| "strip_volatile (JObj ms) =
     JObj (without ''handle'' (map (\<lambda>(k, v). without_counts (k, strip_volatile v)) ms))"
| "strip_volatile v = v"

definition same_text :: "json option \<Rightarrow> string \<Rightarrow> bool" where
  "same_text v s \<longleftrightarrow> v = Some (JStr s)"

definition canonical_entry :: "table \<Rightarrow> string \<times> json \<Rightarrow> (string \<times> json) result" where
  "canonical_entry t m =
     (case m of
        (kind, JObj ms) \<Rightarrow>
          if \<not> same_text (map_of ms ''family'') (t_family t) \<or>
             \<not> same_text (map_of ms (if kind = ''table'' then ''name'' else ''table'')) (t_name t)
          then Err (Errorf ''fingerprint JSON contains an unexpected %s object'' [kind])
          else Ok (kind, strip_volatile (JObj (if kind = ''set'' then without ''elem'' ms else ms)))
      | (kind, _) \<Rightarrow> Err (Errorf ''invalid %s object in fingerprint JSON'' [kind]))"

fun canonical_object :: "table \<Rightarrow> (string \<times> json) list \<Rightarrow> (string \<times> json) list result" where
  "canonical_object t [] = Ok []"
| "canonical_object t (m # ms) =
     bindE (canonical_entry t m) (\<lambda>x. bindE (canonical_object t ms) (\<lambda>xs. Ok (x # xs)))"

fun canonical_objects :: "table \<Rightarrow> (string \<times> json) list list \<Rightarrow> (string \<times> json) list list result" where
  "canonical_objects t [] = Ok []"
| "canonical_objects t (ob # obs) =
     (let ms = as_map (map (\<lambda>(k, v). (k, decode_any v)) ob) in
      if map_of ms ''metainfo'' \<noteq> None \<or> map_of ms ''element'' \<noteq> None then canonical_objects t obs
      else bindE (canonical_object t ms) (\<lambda>x. bindE (canonical_objects t obs) (\<lambda>xs. Ok (x # xs))))"

fun json_marshal :: "(string \<Rightarrow> string option) \<Rightarrow> json \<Rightarrow> string option" where
  "json_marshal ft JNull = Some ''null''"
| "json_marshal ft (JBool b) = Some (if b then ''true'' else ''false'')"
| "json_marshal ft (JNum lit) = ft lit"
| "json_marshal ft (JStr s) = Some (json_quote s)"
| "json_marshal ft (JArr vs) =
     map_option (\<lambda>ts. ''['' @ join_str '','' ts @ '']'') (those (map (json_marshal ft) vs))"
| "json_marshal ft (JObj ms) =
     map_option (\<lambda>ts. ''{'' @ join_str '','' ts @ ''}'')
       (those (map (\<lambda>(k, v). map_option (\<lambda>t. json_quote k @ '':'' @ t) (json_marshal ft v)) ms))"

fun numbers_ok :: "(string \<Rightarrow> string option) \<Rightarrow> json \<Rightarrow> bool" where
  "numbers_ok ft (JNum lit) \<longleftrightarrow> ft lit \<noteq> None"
| "numbers_ok ft (JArr vs) \<longleftrightarrow> list_all (numbers_ok ft) vs"
| "numbers_ok ft (JObj ms) \<longleftrightarrow> list_all (\<lambda>(k, v). numbers_ok ft v) ms"
| "numbers_ok ft v \<longleftrightarrow> True"

definition canonical_owned :: "(string \<Rightarrow> string option) \<Rightarrow> (string \<times> json) list list result \<Rightarrow> table \<Rightarrow> string result" where
  "canonical_owned ft objects t =
     bindE (case objects of
        Inl e \<Rightarrow> Err (Wrapf ''decode fingerprint JSON for %s: %w'' [table_key t] e)
      | Inr obs \<Rightarrow> if list_all (\<lambda>ob. numbers_ok ft (JObj ob)) obs then Ok obs
                   else Err (Wrapf ''decode fingerprint JSON for %s: %w'' [table_key t] type_error)) (\<lambda>obs.
     bindE (canonical_objects t obs) (\<lambda>normalized.
     if normalized = [] then Err (Errorf ''fingerprint JSON for %s contains no owned objects'' [table_key t])
     else (case json_marshal ft (JArr (map JObj normalized)) of
             None \<Rightarrow> Err (Errorf ''encode fingerprint JSON'' []) | Some s \<Rightarrow> Ok s)))"

definition canonical_owned_json :: "(string \<Rightarrow> string option) \<Rightarrow> string \<Rightarrow> table \<Rightarrow> string result" where
  "canonical_owned_json ft out t = canonical_owned ft (nft_objects out) t"

fun fingerprint_tables :: "('n, 'x, 'z) benv_scheme \<Rightarrow> table list \<Rightarrow> (('n, 'x) node, string) prog" where
  "fingerprint_tables env [] = ret []"
| "fingerprint_tables env (t # ts) =
     bindP (os_runner env (Nft_list_table t)) (\<lambda>(out, errout, err).
     case err of
       Some e \<Rightarrow> failp (Wrapf ''fingerprint %s: %s: %w'' [table_key t, errout] e)
     | None \<Rightarrow>
         bindP (of_result (canonical_owned_json (float_text env) out t)) (\<lambda>c.
         bindP (fingerprint_tables env ts) (\<lambda>cs. ret (c @ cs))))"

definition fingerprint :: "('n, 'x, 'z) benv_scheme \<Rightarrow> (('n, 'x) node, string) prog" where
  "fingerprint env = bindP (fingerprint_tables env owned_tables) (\<lambda>b. ret (hex_encode (sha256 env b)))"

end
