(* ===== verification/Collision.thy ===== *)
theory Collision
  imports Inspect
begin

text \<open>
  The audit of foreign rules for the reserved byte of the conntrack mark,
  \<^verbatim>\<open>src/internal/nft/provenance_collision.go\<close>, and the status inspection of \<^verbatim>\<open>status.go\<close> that combines it
  with the integrity check and the fingerprint.

  An expression is a JSON value as \<^verbatim>\<open>decode_any\<close> leaves it: the members of an object are distinct and in the
  order of their names. \<open>inspect\<close> returns the first reason for a collision, empty when there is none, and
  the number of nodes visited so far.
\<close>

section \<open>Descriptors\<close>

definition max_audit_depth :: nat where "max_audit_depth = 64"
definition max_audit_nodes :: nat where "max_audit_nodes = 2000000"

definition ct_mark_descriptor :: "(string \<times> json) list \<Rightarrow> (string \<times> json) list option result" where
  "ct_mark_descriptor ms =
     (case map_of ms ''ct'' of
        None \<Rightarrow> Ok None
      | Some (JObj body) \<Rightarrow>
          (case map_of body ''key'' of
             None \<Rightarrow> Err (Errorf ''ct descriptor has no key'' [])
           | Some (JStr k) \<Rightarrow> Ok (if k = ''mark'' then Some body else None)
           | Some _ \<Rightarrow> Err (Errorf ''ct descriptor key is not a string'' []))
      | Some _ \<Rightarrow> Err (Errorf ''ct descriptor is not an object'' []))"

definition ct_mark_descriptor_value :: "json \<Rightarrow> bool result" where
  "ct_mark_descriptor_value v =
     (case v of JObj ms \<Rightarrow> bindE (ct_mark_descriptor ms) (\<lambda>b. Ok (b \<noteq> None)) | _ \<Rightarrow> Ok False)"

definition canonical_ct_mark_read :: "json \<Rightarrow> bool result" where
  "canonical_ct_mark_read v =
     (case v of
        JObj ms \<Rightarrow>
          if length ms \<noteq> 1 then Ok False
          else bindE (ct_mark_descriptor ms) (\<lambda>b.
            case b of
              None \<Rightarrow> Ok False
            | Some body \<Rightarrow> Ok (list_all (\<lambda>m. fst m \<in> {''key'', ''family'', ''dir''}) body))
      | _ \<Rightarrow> Ok False)"

text \<open>\<^verbatim>\<open>strconv.ParseUint\<close> with base 0 after \<^verbatim>\<open>0x\<close>: single underscores between digits.\<close>

fun hex_underscores :: "nat \<Rightarrow> string \<Rightarrow> nat option" where
  "hex_underscores acc [] = Some acc"
| "hex_underscores acc (c # s) =
     (if c = CHR ''_'' then
        (case s of
           [] \<Rightarrow> None
         | d # s' \<Rightarrow> (case hex_val d of None \<Rightarrow> None | Some x \<Rightarrow> hex_underscores (acc * 16 + x) s'))
      else (case hex_val c of None \<Rightarrow> None | Some x \<Rightarrow> hex_underscores (acc * 16 + x) s))"

definition parse_mark_text :: "string \<Rightarrow> nat option" where
  "parse_mark_text s =
     (if has_prefix s ''0x'' \<or> has_prefix s ''0X''
      then (if drop 2 s = [] then None else hex_underscores 0 (drop 2 s))
      else dec_value s)"

definition mark_uint32_constant :: "json \<Rightarrow> 32 word option" where
  "mark_uint32_constant v =
     (case (case v of JNum s \<Rightarrow> Some s | JStr s \<Rightarrow> Some s | _ \<Rightarrow> None) of
        None \<Rightarrow> None
      | Some s \<Rightarrow>
          if s = [] \<or> trim_space s \<noteq> s \<or> has_prefix s ''-'' then None
          else (case parse_mark_text s of
                  None \<Rightarrow> None
                | Some n \<Rightarrow> if int n < 2 ^ 32 then Some (of_nat n) else None))"

section \<open>The scanner\<close>

definition reason_xt :: string where
  "reason_xt = ''foreign xtables-compat expression has unverifiable conntrack-mark semantics''"
definition reason_write :: string where
  "reason_write = ''foreign expression writes the reserved conntrack-mark byte''"
definition reason_read :: string where
  "reason_read = ''foreign expression reads conntrack mark without a disjoint constant mask''"
definition reason_multiple :: string where
  "reason_multiple = ''foreign expression combines multiple conntrack-mark reads in one mask''"
definition reason_mask :: string where
  "reason_mask = ''foreign expression uses an unverifiable conntrack-mark mask''"
definition reason_overlap :: string where
  "reason_overlap = ''foreign expression mask overlaps the reserved conntrack-mark byte''"

text \<open>The position of the mark read among the operands; two of them end the search.\<close>

datatype mark_position = No_mark | Mark_at nat | Several

fun find_mark :: "nat \<Rightarrow> mark_position \<Rightarrow> json list \<Rightarrow> mark_position result" where
  "find_mark i p [] = Ok p"
| "find_mark i p (v # vs) =
     bindE (canonical_ct_mark_read v) (\<lambda>c.
     if \<not> c then find_mark (Suc i) p vs
     else if p = No_mark then find_mark (Suc i) (Mark_at i) vs
     else Ok Several)"

fun check_masks :: "json list \<Rightarrow> string" where
  "check_masks [] = []"
| "check_masks (v # vs) =
     (case mark_uint32_constant v of
        None \<Rightarrow> reason_mask
      | Some m \<Rightarrow> if m AND mark_mask \<noteq> 0 then reason_overlap else check_masks vs)"

definition without_index :: "nat \<Rightarrow> 'a list \<Rightarrow> 'a list" where
  "without_index i xs = take i xs @ drop (Suc i) xs"

definition either_reason :: "string \<Rightarrow> string \<Rightarrow> string" where
  "either_reason a b = (if a = [] then b else a)"

type_synonym scan = "(string \<times> nat) result"

lemma size_only_member: "length ms = Suc 0 \<Longrightarrow> size (snd (hd ms)) < Suc (size_list (size_prod (\<lambda>_. 0) size) ms)"
  by (cases ms) (auto simp: prod.size_gen(1))

function (sequential)
  inspect :: "nat \<Rightarrow> nat \<Rightarrow> json \<Rightarrow> scan"
  and inspect_list :: "nat \<Rightarrow> nat \<Rightarrow> json list \<Rightarrow> scan"
  and inspect_members :: "nat \<Rightarrow> nat \<Rightarrow> (string \<times> json) list \<Rightarrow> scan"
  and inspect_and :: "nat \<Rightarrow> nat \<Rightarrow> json \<Rightarrow> scan"
  and inspect_mangle :: "nat \<Rightarrow> nat \<Rightarrow> json \<Rightarrow> scan" where
  "inspect d n v =
     (if max_audit_nodes < Suc n then Err (Errorf ''expression node count exceeds safety limit'' [])
      else if max_audit_depth < d then Err (Errorf ''expression nesting exceeds safety limit'' [])
      else
        (case v of
           JArr vs \<Rightarrow> inspect_list (Suc d) (Suc n) vs
         | JObj ms \<Rightarrow>
             (if length ms = 1 \<and> fst (hd ms) = ''&'' then inspect_and (Suc d) (Suc n) (snd (hd ms))
              else if map_of ms ''xt'' \<noteq> None then Ok (reason_xt, Suc n)
              else
                bindE (ct_mark_descriptor ms) (\<lambda>b.
                case b of
                  Some body \<Rightarrow> Ok (if map_of body ''set'' \<noteq> None then reason_write else reason_read, Suc n)
                | None \<Rightarrow> inspect_members (Suc d) (Suc n) ms))
         | _ \<Rightarrow> Ok ([], Suc n)))"
| "inspect_list d n [] = Ok ([], n)"
| "inspect_list d n (v # vs) =
     bindE (inspect d n v) (\<lambda>(r, m). bindE (inspect_list d m vs) (\<lambda>(r', m'). Ok (either_reason r r', m')))"
| "inspect_members d n [] = Ok ([], n)"
| "inspect_members d n ((k, v) # ms) =
     bindE (if k = ''mangle'' then inspect_mangle d n v else inspect d n v) (\<lambda>(r, m).
     bindE (inspect_members d m ms) (\<lambda>(r', m'). Ok (either_reason r r', m')))"
| "inspect_and d n v =
     (case v of
        JArr vs \<Rightarrow>
          (if length vs < 2 then inspect (Suc d) n v
           else
             bindE (find_mark 0 No_mark vs) (\<lambda>p.
             case p of
               Several \<Rightarrow> Ok (reason_multiple, n)
             | Mark_at i \<Rightarrow> Ok (check_masks (without_index i vs), n)
             | No_mark \<Rightarrow> inspect_list (Suc d) n vs))
      | _ \<Rightarrow> inspect (Suc d) n v)"
| "inspect_mangle d n v =
     (case v of
        JObj ms \<Rightarrow>
          (case ms of
             [(a, x), (b, y)] \<Rightarrow>
               (if a = ''key'' \<and> b = ''value'' then
                  bindE (ct_mark_descriptor_value x) (\<lambda>mark.
                  bindE (if mark then Ok (reason_write, n) else inspect (Suc d) n x) (\<lambda>(r, m).
                  bindE (inspect (Suc d) m y) (\<lambda>(r', m'). Ok (either_reason r r', m'))))
                else Err (Errorf ''mangle expression must contain exactly key and value'' []))
           | _ \<Rightarrow> Err (Errorf ''mangle expression must contain exactly key and value'' []))
      | _ \<Rightarrow> Err (Errorf ''mangle expression is not an object'' []))"
  by pat_completeness auto
termination
  by (relation "measures
      [case_sum (case_sum (\<lambda>(d, n, v). size v) (\<lambda>(d, n, vs). size_list size vs))
         (case_sum (\<lambda>(d, n, ms). size_list (size_prod (\<lambda>_. 0) size) ms) (case_sum (\<lambda>(d, n, v). size v) (\<lambda>(d, n, v). size v))),
       case_sum (case_sum (\<lambda>_. 0) (\<lambda>_. 1)) (case_sum (\<lambda>_. 1) (case_sum (\<lambda>_. 1) (\<lambda>_. 1)))]")
    (auto simp: size_only_member)

section \<open>Rules\<close>

record rule_location =
  rl_family :: string
  rl_table :: string
  rl_chain :: string
  rl_handle :: "nat option"
  rl_ordinal :: nat

definition location_text :: "rule_location \<Rightarrow> string" where
  "location_text l =
     ''rule '' @ quote (rl_family l) @ ''/'' @ quote (rl_table l) @ ''/'' @ quote (rl_chain l) @
     (case rl_handle l of Some h \<Rightarrow> '' handle='' @ itoa h | None \<Rightarrow> '' ordinal='' @ itoa (rl_ordinal l))"

definition require_string :: "(string \<times> json) list \<Rightarrow> string \<Rightarrow> string result" where
  "require_string ms name =
     (case member name ms of
        None \<Rightarrow> Err (Errorf ''missing %s'' [name])
      | Some v \<Rightarrow>
          bindE (case get_string (\<lambda>s _. s) v [] of Inl _ \<Rightarrow> Err (Errorf ''invalid %s'' [name]) | Inr s \<Rightarrow> Ok s) (\<lambda>s.
          if s = [] then Err (Errorf ''invalid %s'' [name])
          else if 1024 < length s then Err (Errorf ''%s exceeds safety limit'' [name])
          else Ok s))"

definition decode_audit_rule :: "json \<Rightarrow> nat \<Rightarrow> (rule_location \<times> json) result" where
  "decode_audit_rule raw ordinal =
     bindE (members raw) (\<lambda>ms.
     bindE (require_string ms ''family'') (\<lambda>family.
     bindE (require_string ms ''table'') (\<lambda>tbl.
     bindE (require_string ms ''chain'') (\<lambda>chain.
     case member ''expr'' ms of
       None \<Rightarrow> Err (Errorf ''missing expr'' [])
     | Some e \<Rightarrow>
         bindE (case member ''handle'' ms of
                  None \<Rightarrow> Ok None
                | Some h \<Rightarrow> (case get_uint 64 (\<lambda>n _. n) h 0 of
                               Inl _ \<Rightarrow> Err (Errorf ''invalid handle'' []) | Inr n \<Rightarrow> Ok (Some n))) (\<lambda>handle.
         Ok (\<lparr>rl_family = family, rl_table = tbl, rl_chain = chain, rl_handle = handle, rl_ordinal = ordinal\<rparr>, e))))))"

section \<open>The audit\<close>

record foreign_audit =
  fa_foreign :: nat
  fa_owned_ignored :: nat
  fa_colliding :: nat

definition no_rules :: foreign_audit where
  "no_rules = \<lparr>fa_foreign = 0, fa_owned_ignored = 0, fa_colliding = 0\<rparr>"

definition list_ruleset_object_kinds :: "string list" where
  "list_ruleset_object_kinds =
     [''metainfo'', ''table'', ''chain'', ''rule'', ''set'', ''map'', ''element'', ''flowtable'', ''counter'', ''quota'',
      ''ct helper'', ''ct timeout'', ''ct expectation'', ''limit'', ''secmark'', ''synproxy'']"

text \<open>The one member of an object.\<close>

definition sole_member :: "json \<Rightarrow> (string \<times> json) option" where
  "sole_member v =
     (case members v of
        Inl _ \<Rightarrow> None
      | Inr ms \<Rightarrow> (case member_names ms of [k] \<Rightarrow> map_option (\<lambda>b. (k, b)) (member k ms) | _ \<Rightarrow> None))"

definition audit_object :: "nat \<Rightarrow> json \<Rightarrow> (string \<times> json) result" where
  "audit_object i v =
     (case sole_member v of
        None \<Rightarrow> Err (Errorf ''nftables object %d must contain exactly one object kind'' [itoa i])
      | Some (kind, body) \<Rightarrow>
          if kind \<notin> set list_ruleset_object_kinds
          then Err (Errorf ''nftables object %d has unsupported list-ruleset kind %q'' [itoa i, kind])
          else
            (case body of
               JObj ms \<Rightarrow>
                 if kind = ''metainfo'' \<and> member ''json_schema_version'' ms \<noteq> Some (JNum ''1'')
                 then Err (Errorf ''nftables metainfo object %d has unsupported json_schema_version'' [itoa i])
                 else Ok (kind, body)
             | _ \<Rightarrow> Err (Errorf ''decode nftables %s object %d'' [kind, itoa i])))"

fun audit_objects :: "nat \<Rightarrow> json list \<Rightarrow> (string \<times> json) list result" where
  "audit_objects i [] = Ok []"
| "audit_objects i (v # vs) =
     bindE (audit_object i v) (\<lambda>x. bindE (audit_objects (Suc i) vs) (\<lambda>xs. Ok (x # xs)))"

definition ruleset_objects :: "string \<Rightarrow> json list result" where
  "ruleset_objects out =
     (case json_decode out of
        None \<Rightarrow> Err (Errorf ''decode nft ruleset JSON'' [])
      | Some v \<Rightarrow>
          (case v of
             JObj ms \<Rightarrow>
               if length (member_names ms) \<noteq> 1
               then Err (Errorf ''nft ruleset JSON must contain only the nftables document'' [])
               else (case member ''nftables'' ms of
                       None \<Rightarrow> Err (Errorf ''nft ruleset JSON has no nftables array'' [])
                     | Some (JArr vs) \<Rightarrow> Ok vs
                     | Some _ \<Rightarrow> Err (Errorf ''decode nftables array'' []))
           | _ \<Rightarrow> Err (Errorf ''decode nft ruleset JSON'' [])))"

definition location_owned :: "rule_location \<Rightarrow> bool" where
  "location_owned l \<longleftrightarrow> \<lparr>t_family = rl_family l, t_name = rl_table l\<rparr> \<in> set owned_tables"

text \<open>The rules in order: the counts, the first collision, the nodes visited and the number of rules.\<close>

record audit_state =
  as_audit :: foreign_audit
  as_first :: "(rule_location \<times> string) option"
  as_nodes :: nat
  as_ordinal :: nat

definition audit_rule :: "audit_state \<Rightarrow> json \<Rightarrow> audit_state result" where
  "audit_rule st body =
     (let i = Suc (as_ordinal st); a = as_audit st in
      case decode_audit_rule body i of
        Inl e \<Rightarrow> Err (Wrapf ''decode nft rule %d: %w'' [itoa i] e)
      | Inr (l, e) \<Rightarrow>
          if location_owned l
          then Ok (st\<lparr>as_ordinal := i, as_audit := a\<lparr>fa_owned_ignored := Suc (fa_owned_ignored a)\<rparr>\<rparr>)
          else
            (case e of
               JArr vs \<Rightarrow>
                 (case inspect 0 (as_nodes st) (decode_any e) of
                    Inl err \<Rightarrow> Err (Wrapf ''inspect %s: %w'' [location_text l] err)
                  | Inr (r, n) \<Rightarrow>
                      let b = a\<lparr>fa_foreign := Suc (fa_foreign a),
                                fa_colliding := fa_colliding a + (if r = [] then 0 else 1)\<rparr> in
                      Ok (st\<lparr>as_ordinal := i, as_nodes := n, as_audit := b,
                             as_first := (if r \<noteq> [] \<and> as_first st = None then Some (l, r) else as_first st)\<rparr>))
             | _ \<Rightarrow> Err (Errorf ''%s has invalid expr'' [location_text l])))"

definition audit_ruleset :: "string \<Rightarrow> audit_state result" where
  "audit_ruleset out =
     (if max_nft_stdout < length out then Err (Errorf ''nft ruleset JSON exceeds the safety limit'' [])
      else
        bindE (ruleset_objects out) (\<lambda>vs.
        bindE (audit_objects 0 vs) (\<lambda>obs.
        if length (filter (\<lambda>x. fst x = ''metainfo'') obs) \<noteq> 1
        then Err (Errorf ''nft ruleset JSON must contain exactly one schema-v1 metainfo object'' [])
        else foldE audit_rule \<lparr>as_audit = no_rules, as_first = None, as_nodes = 0, as_ordinal = 0\<rparr>
               (map snd (filter (\<lambda>x. fst x = ''rule'') obs)))))"

definition collision_error :: "audit_state \<Rightarrow> goerr option" where
  "collision_error st =
     (if fa_colliding (as_audit st) = 0 then None
      else case as_first st of
             None \<Rightarrow> Some (Errorf ''foreign provenance audit: collision count has no rule location'' [])
           | Some (l, r) \<Rightarrow>
               Some (Errorf ''foreign provenance audit: %d foreign rule(s) collide; first %s: %s''
                       [itoa (fa_colliding (as_audit st)), location_text l, r]))"

definition foreign_audit_from_json :: "string \<Rightarrow> foreign_audit result" where
  "foreign_audit_from_json out =
     (case audit_ruleset out of
        Inl e \<Rightarrow> Err (Wrapf ''foreign provenance audit: %w'' [] e)
      | Inr st \<Rightarrow> (case collision_error st of Some e \<Rightarrow> Err e | None \<Rightarrow> Ok (as_audit st)))"

definition audit_foreign_provenance_mask :: "('n, 'x, 'z) benv_scheme \<Rightarrow> (('n, 'x) node, foreign_audit) prog" where
  "audit_foreign_provenance_mask env =
     bindP (run_nft env Nft_list_ruleset ''foreign provenance audit: list nft ruleset: %s: %w'') (\<lambda>out.
     of_result (foreign_audit_from_json out))"

section \<open>Status\<close>

record identity =
  id_family :: string
  id_table :: string
  id_name :: string

definition decode_identity :: "json \<Rightarrow> identity result" where
  "decode_identity v =
     decode_fields False
       [(''family'', get_string (\<lambda>s. id_family_update (\<lambda>_. s))), (''table'', get_string (\<lambda>s. id_table_update (\<lambda>_. s))),
        (''name'', get_string (\<lambda>s. id_name_update (\<lambda>_. s)))] v \<lparr>id_family = [], id_table = [], id_name = []\<rparr>"

text \<open>The objects of each owned table and the owned tables seen.\<close>

definition place_object ::
  "(table \<Rightarrow> json list) \<times> table list \<Rightarrow> json \<Rightarrow> ((table \<Rightarrow> json list) \<times> table list) result" where
  "place_object st v =
     (case sole_member v of
        None \<Rightarrow> Err (Errorf ''invalid nftables object'' [])
      | Some (kind, body) \<Rightarrow>
          if kind = ''metainfo'' then Ok (\<lambda>t. fst st t @ [v], snd st)
          else
            (case decode_identity body of
               Inl _ \<Rightarrow> Err (Errorf ''invalid %s identity in nftables object'' [kind])
             | Inr i \<Rightarrow>
                 let t = \<lparr>t_family = id_family i, t_name = if kind = ''table'' then id_name i else id_table i\<rparr> in
                 if id_family i = [] then Err (Errorf ''invalid %s identity in nftables object'' [kind])
                 else if t_name t = [] then Err (Errorf ''missing %s table identity in nftables object'' [kind])
                 else if t \<notin> set owned_tables then Ok st
                 else if kind = ''table'' \<and> t \<in> set (snd st)
                 then Err (Errorf ''duplicate owned table object %s'' [table_key t])
                 else Ok ((fst st)(t := fst st t @ [v]), if kind = ''table'' then snd st @ [t] else snd st)))"

definition owned_table_documents :: "string \<Rightarrow> ((table \<Rightarrow> json list) \<times> table list) result" where
  "owned_table_documents out =
     bindE (ruleset_objects out) (\<lambda>vs.
     bindE (foldE place_object (\<lambda>_. [], []) vs) (\<lambda>(docs, seen).
     Ok (docs, filter (\<lambda>t. t \<in> set seen) owned_tables)))"

definition document_objects :: "json list \<Rightarrow> (string \<times> json) list list result" where
  "document_objects vs = merge_maps [] vs"

record status_inspection =
  si_owned :: "table list"
  si_integrity_ok :: bool
  si_detail :: string
  si_fingerprint :: string
  si_foreign :: "foreign_audit result"

fun status_tables ::
  "(string list \<Rightarrow> string list) \<Rightarrow> (table \<Rightarrow> json list) \<Rightarrow> table list \<Rightarrow> table list \<Rightarrow> string option result" where
  "status_tables order docs observed [] = Ok None"
| "status_tables order docs observed (t # ts) =
     (if t \<notin> set observed then Ok (Some (''owned table '' @ table_key t @ '' is missing''))
      else
        (case validate_owned_objects order (document_objects (docs t)) t of
           Inl e \<Rightarrow> Err (Wrapf ''nft status inspection: cannot decode %s: %w'' [table_key t] e)
         | Inr (Some d) \<Rightarrow> Ok (Some d)
         | Inr None \<Rightarrow> status_tables order docs observed ts))"

fun status_canonical :: "(string \<Rightarrow> string option) \<Rightarrow> (table \<Rightarrow> json list) \<Rightarrow> table list \<Rightarrow> string result" where
  "status_canonical ft docs [] = Ok []"
| "status_canonical ft docs (t # ts) =
     (case canonical_owned ft (document_objects (docs t)) t of
        Inl e \<Rightarrow> Err (Wrapf ''nft status inspection: fingerprint %s: %w'' [table_key t] e)
      | Inr c \<Rightarrow> bindE (status_canonical ft docs ts) (\<lambda>cs. Ok (c @ cs)))"

definition status_from_json :: "('n, 'x, 'z) benv_scheme \<Rightarrow> string \<Rightarrow> status_inspection result" where
  "status_from_json env out =
     (case owned_table_documents out of
        Inl e \<Rightarrow> Err (Wrapf ''nft status inspection: %w'' [] e)
      | Inr (docs, observed) \<Rightarrow>
          let base = \<lparr>si_owned = observed, si_integrity_ok = False, si_detail = ''owned table markers intact'',
                      si_fingerprint = [], si_foreign = foreign_audit_from_json out\<rparr> in
          bindE (status_tables (map_order env) docs observed owned_tables) (\<lambda>bad.
          case bad of
            Some d \<Rightarrow> Ok (base\<lparr>si_detail := d\<rparr>)
          | None \<Rightarrow>
              bindE (status_canonical (float_text env) docs owned_tables) (\<lambda>c.
              Ok (base\<lparr>si_integrity_ok := True, si_fingerprint := hex_encode (sha256 env c)\<rparr>))))"

definition inspect_status :: "('n, 'x, 'z) benv_scheme \<Rightarrow> (('n, 'x) node, status_inspection) prog" where
  "inspect_status env =
     bindP (run_nft env Nft_list_ruleset ''nft status inspection: list ruleset: %s: %w'') (\<lambda>out.
     of_result (status_from_json env out))"

end
