(* ===== verification/Reconcile.thy ===== *)
theory Reconcile
  imports Collision Claims Compiler
begin

text \<open>
  The controller of generations, \<^verbatim>\<open>src/internal/reconcile/manager.go\<close>, and the recovery at boot,
  \<^verbatim>\<open>recovery.go\<close>.

  The callbacks of the manager are programs of the environment. The mutex of the manager orders the calls
  of one process; the process lock is taken by \<open>acquire_process_lock\<close> and released on return. A method that
  returns a result together with an error returns the pair; \<open>Inl e\<close> is an error with the zero result.
\<close>

section \<open>The manager\<close>

record ('n, 'x) menv = "('n, 'x) benv" +
  safe_ttl :: int
  lock_dir :: string
  error_text :: "goerr \<Rightarrow> string"
  safe_guard :: "(('n, 'x) node, unit) prog option"
  safe_guard_locked :: "(('n, 'x) node, unit) prog option"
  foreign_mark_guard :: "(('n, 'x) node, unit) prog option"
  health_check :: "(('n, 'x) node, unit) prog option"
  post_restore :: "(('n, 'x) node, unit) prog option"

record apply_result =
  re_generation :: nat
  re_checksum :: string
  re_deadline :: "gotime option"
  re_committed :: bool

record recovery_result =
  rr_generation :: nat
  rr_action :: string
  rr_ready :: bool

record drift =
  dr_owned :: "table list"
  dr_missing :: bool
  dr_repaired :: bool
  dr_detail :: string

definition no_drift :: drift where
  "no_drift = \<lparr>dr_owned = [], dr_missing = False, dr_repaired = False, dr_detail = []\<rparr>"

type_synonym ('n, 'x, 'a) act = "(('n, 'x) node, 'a) prog"

text \<open>\<^verbatim>\<open>state.AcquireMutationLock\<close>.\<close>

definition take_mutation_lock :: "('x, 'z) env_scheme \<Rightarrow> (('k, 'x) world, unit) prog" where
  "take_mutation_lock env =
     thenP (wrapP (Wrapf ''secure mutation lock directory: %w'' []) (io env ''secure lock directory''))
     (thenP (wrapP (Wrapf ''open mutation lock: %w'' []) (io env ''open mutation lock''))
        (wrapP (Wrapf ''lock mutation state: %w'' []) (io env ''flock'')))"

definition acquire_process_lock :: "('n, 'x) menv \<Rightarrow> ctx \<Rightarrow> ('n, 'x, unit) act" where
  "acquire_process_lock env c =
     (if mutation_lock c then ret ()
      else
        thenP (refuseP (lock_dir env = []) (Errorf ''cross-process mutation lock directory is not configured'' []))
          (take_mutation_lock env))"

definition with_lock :: "ctx \<Rightarrow> ctx" where "with_lock c = c\<lparr>mutation_lock := True\<rparr>"

definition audit_foreign_mark_ownership :: "('n, 'x) menv \<Rightarrow> ('n, 'x, unit) act" where
  "audit_foreign_mark_ownership env =
     (case foreign_mark_guard env of
        None \<Rightarrow> failp (Errorf ''foreign conntrack-mark ownership guard is unavailable'' [])
      | Some g \<Rightarrow> wrapP (Wrapf ''foreign conntrack-mark ownership audit: %w'' []) g)"

definition install_owned_generation :: "('n, 'x) menv \<Rightarrow> ctx \<Rightarrow> string \<Rightarrow> ('n, 'x, unit) act" where
  "install_owned_generation env c script =
     thenP (audit_foreign_mark_ownership env) (backend_apply env c script)"

definition preflight_safe_apply :: "('n, 'x) menv \<Rightarrow> ctx \<Rightarrow> ('n, 'x, ctx) act" where
  "preflight_safe_apply env c =
     (case (safe_guard env, safe_guard_locked env) of
        (Some g, Some _) \<Rightarrow>
          thenP (wrapP (Wrapf ''safe apply refused: %w'' []) g) (ret (c\<lparr>preflight_done := True\<rparr>))
      | _ \<Rightarrow> failp (Errorf ''safe apply requires preflight and locked rollback-guard verification'' []))"

definition require_no_pending :: "('x, 'z) env_scheme \<Rightarrow> (('k, 'x) world, unit) prog" where
  "require_no_pending env =
     elseP (pending_generation env)
       (\<lambda>e. if errors_is e ErrNoRows then ret () else failp e)
       (\<lambda>g. failp (Errorf ''generation %d is still pending; commit or roll it back first'' [itoa (g_id g)]))"

definition audit_quietly :: "('x, 'z) env_scheme \<Rightarrow> string \<Rightarrow> string \<Rightarrow> (('k, 'x) world, unit) prog" where
  "audit_quietly env event detail = ignoreP (audit env ''system'' event detail)"

section \<open>Restoring\<close>

definition record_fingerprint :: "('n, 'x) menv \<Rightarrow> nat \<Rightarrow> ('n, 'x, unit) act" where
  "record_fingerprint env i = bindP (fingerprint env) (set_observed_hash env i)"

definition restore_runtime_or_deny :: "('n, 'x) menv \<Rightarrow> ctx \<Rightarrow> ('n, 'x, unit) act" where
  "restore_runtime_or_deny env c =
     (case post_restore env of
        None \<Rightarrow> ret ()
      | Some p \<Rightarrow>
          elseP p
            (\<lambda>e. thenP (audit_quietly env ''runtime_state_restore_failed'' ''emergency default-deny policy requested'')
               (thenP (wrapP (\<lambda>d. Wrapf ''restore runtime state: %w; emergency deny also failed: %v'' [error_text env d] e)
                         (backend_apply env c emergency_deny_script))
                  (failp (Wrapf ''restore runtime state: %w; emergency default-deny policy installed'' [] e))))
            ret)"

definition restore :: "('n, 'x) menv \<Rightarrow> ctx \<Rightarrow> generation option \<Rightarrow> ('n, 'x, unit) act" where
  "restore env c previous =
     (case previous of
        None \<Rightarrow> destroy_owned env c
      | Some g \<Rightarrow>
          bindP (read_script env g) (\<lambda>script.
          thenP (install_owned_generation env c script)
          (thenP (record_fingerprint env (g_id g)) (restore_runtime_or_deny env c))))"

text \<open>Both handlers return the cause, joined with what went wrong with the recovery.\<close>

definition joined :: "goerr \<Rightarrow> string \<Rightarrow> goerr \<Rightarrow> goerr" where
  "joined cause msg e = Joined cause (Wrapf msg [] e)"

definition recover_post_apply_failure ::
  "('n, 'x) menv \<Rightarrow> ctx \<Rightarrow> nat \<Rightarrow> generation option \<Rightarrow> goerr \<Rightarrow> ('n, 'x, 'a) act" where
  "recover_post_apply_failure env c i previous cause =
     thenP (wrapP (joined cause ''restore previous generation: %w'') (restore env c previous))
     (thenP (wrapP (joined cause ''record confirmed rollback: %w'') (mark_rolled_back env i))
        (failp cause))"

definition recover_first_apply_execution_failure :: "('n, 'x) menv \<Rightarrow> nat \<Rightarrow> goerr \<Rightarrow> ('n, 'x, 'a) act" where
  "recover_first_apply_execution_failure env i cause =
     bindP (wrapP (joined cause ''inspect uncertain first apply: %w'') (existing_owned env)) (\<lambda>existing.
     thenP (refuseP (existing \<noteq> [])
              (Joined cause (Errorf ''first apply left unverified product-named nft tables; refusing automatic deletion'' [])))
     (thenP (wrapP (joined cause ''record confirmed empty first apply rollback: %w'') (mark_rolled_back env i))
        (failp cause)))"

section \<open>Checking a generation against its snapshot\<close>

definition script_agrees :: "('n, 'x) menv \<Rightarrow> generation \<Rightarrow> generation_snapshot \<Rightarrow> ('n, 'x, unit) act" where
  "script_agrees env g s =
     bindP (read_script env g) (\<lambda>script.
     refuseP (script \<noteq> sn_script s) (Errorf ''generation script and immutable snapshot disagree'' []))"

definition row_mismatch :: "('n, 'x) menv \<Rightarrow> generation \<Rightarrow> generation_snapshot \<Rightarrow> bool" where
  "row_mismatch env g s \<longleftrightarrow>
     g_id g \<noteq> sn_generation s \<or> g_checksum g \<noteq> sn_checksum s \<or>
     g_snapshot_checksum g \<noteq> ep_snapshot_sum (snapshot_pointer env s) \<or> g_boot g \<noteq> sn_boot s"

definition prior_recorded :: "generation \<Rightarrow> enforcement_pointer \<Rightarrow> bool" where
  "prior_recorded g p \<longleftrightarrow>
     g_prior g = Some (ep_generation p) \<and> g_prior_sum g = ep_policy_sum p \<and>
     g_prior_snapshot_sum g = ep_snapshot_sum p"

definition validate_generation_snapshot ::
  "('n, 'x) menv \<Rightarrow> generation \<Rightarrow> generation_snapshot \<Rightarrow> bool \<Rightarrow> ('n, 'x, unit) act" where
  "validate_generation_snapshot env g s prepared =
     thenP (refuseP (row_mismatch env g s)
              (Errorf ''generation database row does not match its immutable snapshot'' []))
     (thenP (refuseP (g_script_path g \<noteq> script_path env (g_id g) \<or>
                      g_snapshot_path g \<noteq> generation_snapshot_path env (g_id g))
              (Errorf ''generation database paths do not name the immutable generation files'' []))
     (thenP (script_agrees env g s)
     (case sn_previous s of
        None \<Rightarrow>
          refuseP (g_previous g \<noteq> None \<or>
                   prepared \<and> (g_prior g \<noteq> None \<or> g_prior_sum g \<noteq> [] \<or> g_prior_snapshot_sum g \<noteq> []))
            (Errorf ''first generation contains an unexpected predecessor'' [])
      | Some p \<Rightarrow>
          thenP (refuseP (g_previous g \<noteq> Some (ep_generation p))
                   (Errorf ''generation predecessor id disagrees with immutable snapshot'' []))
          (bindP (generation_by_id env (ep_generation p)) (\<lambda>previous.
           thenP (refuseP (g_checksum previous \<noteq> ep_policy_sum p \<or> g_snapshot_checksum previous \<noteq> ep_snapshot_sum p)
                    (Errorf ''generation predecessor checksum disagrees with immutable snapshot'' []))
             (refuseP (prepared \<and> \<not> prior_recorded g p)
                (Errorf ''prepared predecessor tuple disagrees with immutable snapshot'' [])))))))"

definition first_or_later :: "generation_snapshot \<Rightarrow> string \<Rightarrow> string \<Rightarrow> goerr" where
  "first_or_later s a b = Errorf (if sn_previous s = None then a else b) []"

section \<open>Rolling back\<close>

definition open_or_refuse :: "generation \<Rightarrow> goerr option" where
  "open_or_refuse g =
     refuse (g_status g = Committed)
       (Errorf ''generation %d is committed; rollback is restricted to pending safe-apply generations'' [itoa (g_id g)])"

text \<open>The predecessor of a generation that is rolled back, with its script.\<close>

definition rollback_predecessor ::
  "('n, 'x) menv \<Rightarrow> generation \<Rightarrow> generation_snapshot \<Rightarrow> ('n, 'x, string option) act" where
  "rollback_predecessor env g s =
     (case g_previous g of
        None \<Rightarrow> ret None
      | Some i \<Rightarrow>
          bindP (generation_by_id env i) (\<lambda>previous.
          case sn_previous s of
            None \<Rightarrow> failp (Errorf ''rollback predecessor is not the exact committed generation'' [])
          | Some p \<Rightarrow>
              thenP (refuseP (g_status previous \<noteq> Committed)
                       (Errorf ''rollback predecessor is not the exact committed generation'' []))
              (bindP (wrapP (Wrapf ''load durable rollback predecessor snapshot: %w'' [])
                        (ensure_published_generation_durable env p)) (\<lambda>ps.
               thenP (wrapP (Wrapf ''validate rollback predecessor snapshot: %w'' [])
                        (validate_generation_snapshot env previous ps False))
                 (ret (Some (sn_script ps)))))))"

definition finish_rollback :: "('n, 'x) menv \<Rightarrow> ctx \<Rightarrow> nat \<Rightarrow> string option \<Rightarrow> bool \<Rightarrow> ('n, 'x, unit) act" where
  "finish_rollback env c i previous untouched =
     thenP (case previous of
              Some script \<Rightarrow> install_owned_generation env c script
            | None \<Rightarrow> if untouched then ret () else destroy_owned env c)
     (thenP (if previous = None then ret () else restore_runtime_or_deny env c)
     (thenP (mark_rolled_back env i)
     (thenP (if previous = None then wrapP (Wrapf ''clear active boot snapshot: %w'' []) (clear_active env) else ret ())
        (audit env ''system'' ''generation_rolled_back'' (''generation='' @ itoa i)))))"

definition rollback_open :: "('n, 'x) menv \<Rightarrow> ctx \<Rightarrow> nat \<Rightarrow> generation \<Rightarrow> ('n, 'x, unit) act" where
  "rollback_open env c i g =
     bindP (wrapP (Wrapf ''load verified rollback generation snapshot: %w'' [])
              (load_verified_generation_snapshot env i)) (\<lambda>s.
     thenP (wrapP (Wrapf ''validate rollback generation snapshot: %w'' [])
              (validate_generation_snapshot env g s (g_status g = CommitPrepared)))
     (bindP (read_enforcement_pointer env) (\<lambda>current.
      if g_status g = CommitPrepared \<and> pointer_equal (snapshot_pointer env s) current then
        thenP (wrapP (Wrapf ''finalize already-published generation %d: %w'' [itoa i]) (finalize_commit env i))
          (failp (Errorf ''generation %d commit pointer was already published'' [itoa i]))
      else
        thenP (refuseP (\<not> pointer_matches_previous (sn_previous s) current)
                 (first_or_later s ''pending first generation has an unexpected enforcement pointer''
                    ''pending generation predecessor pointer is ambiguous''))
        (let untouched = (g_previous g = None \<and> g_status g = Pending) in
         thenP (if untouched then
                  bindP (wrapP (Wrapf ''inspect ambiguous first-generation pending ownership: %w'' [])
                           (existing_owned env)) (\<lambda>existing.
                  refuseP (existing \<noteq> [])
                    (Errorf ''first-generation pending state has unverified product-named nft tables; refusing automatic deletion'' []))
                else ret ())
         (bindP (rollback_predecessor env g s) (\<lambda>previous.
          finish_rollback env c i previous untouched))))))"

definition rollback_locked :: "('n, 'x) menv \<Rightarrow> ctx \<Rightarrow> nat \<Rightarrow> ('n, 'x, unit) act" where
  "rollback_locked env c i =
     thenP (audit_foreign_mark_ownership env)
     (bindP (generation_by_id env i) (\<lambda>g.
      if g_status g = RolledBack then ret ()
      else thenP (check (open_or_refuse g)) (rollback_open env c i g)))"

definition rollback :: "('n, 'x) menv \<Rightarrow> ctx \<Rightarrow> nat \<Rightarrow> ('n, 'x, unit) act" where
  "rollback env c i = thenP (acquire_process_lock env c) (rollback_locked env (with_lock c) i)"

section \<open>Committing\<close>

definition publish_or_rollback :: "('n, 'x) menv \<Rightarrow> ctx \<Rightarrow> nat \<Rightarrow> enforcement_pointer \<Rightarrow> ('n, 'x, unit) act" where
  "publish_or_rollback env c i p =
     bindP (wrapP (Wrapf ''read final commit deadline: %w'' []) (prepared_deadline env i)) (\<lambda>deadline.
     bindP (case deadline of None \<Rightarrow> ret False
            | Some _ \<Rightarrow> bindP (time_now env) (\<lambda>now. ret (expired deadline now))) (\<lambda>late.
     if late then
       thenP (wrapP (Wrapf ''generation %d expired; cancel prepared pointer: %w'' [itoa i]) (cancel_prepared_pointer env))
       (thenP (wrapP (Wrapf ''generation %d expired and rollback failed: %w'' [itoa i]) (rollback_locked env c i))
          (failp (Errorf ''generation %d expired and was rolled back'' [itoa i])))
     else
       thenP (wrapP (Wrapf ''publish enforcement pointer: %w'' []) (publish_prepared_pointer env p))
         (wrapP (Wrapf ''enforcement pointer published; generation finalization requires recovery: %w'' [])
            (finalize_commit env i))))"

definition commit_locked :: "('n, 'x) menv \<Rightarrow> ctx \<Rightarrow> nat \<Rightarrow> ('n, 'x, unit) act" where
  "commit_locked env c i =
     bindP (generation_by_id env i) (\<lambda>g.
     thenP (refuseP (g_status g \<noteq> Applied)
              (Errorf ''generation %d status %s cannot be committed'' [itoa i, status_text (g_status g)]))
     (bindP (wrapP (Wrapf ''read immutable generation snapshot: %w'' []) (load_generation_snapshot env i)) (\<lambda>s.
      bindP (read_enforcement_pointer env) (\<lambda>current.
      thenP (refuseP (\<not> pointer_matches_previous (sn_previous s) current)
               (first_or_later s ''first commit requires an absent enforcement pointer''
                  ''current enforcement pointer does not match generation's recorded predecessor''))
      (thenP (audit_foreign_mark_ownership env)
      (bindP (wrapP (Wrapf ''durably prepare generation commit: %w'' []) (prepare_commit env i)) (\<lambda>_.
       thenP (wrapP (Wrapf ''prepare enforcement pointer after durable commit state: %w'' [])
                (prepare_enforcement_pointer env (snapshot_pointer env s)))
       (deferP (cancel_prepared_pointer env)
          (publish_or_rollback env c i (snapshot_pointer env s))))))))))"

text \<open>\<^verbatim>\<open>Commit\<close> rolls the generation back when its deadline has passed or the live state is not the one
  that was applied.\<close>

definition rollback_instead ::
  "('n, 'x) menv \<Rightarrow> ctx \<Rightarrow> nat \<Rightarrow> (goerr \<Rightarrow> goerr) \<Rightarrow> goerr \<Rightarrow> ('n, 'x, unit) act" where
  "rollback_instead env c i failed done =
     thenP (wrapP failed (rollback_locked env c i)) (failp done)"

definition commit_expired :: "('n, 'x) menv \<Rightarrow> ctx \<Rightarrow> nat \<Rightarrow> ('n, 'x, unit) act" where
  "commit_expired env c i =
     rollback_instead env c i (Wrapf ''generation %d expired and rollback failed: %w'' [itoa i])
       (Errorf ''generation %d expired and was rolled back'' [itoa i])"

definition commit_corrupt :: "('n, 'x) menv \<Rightarrow> ctx \<Rightarrow> nat \<Rightarrow> ('n, 'x, unit) act" where
  "commit_corrupt env c i =
     rollback_instead env c i
       (\<lambda>e. Errorf ''generation %d integrity verification failed and rollback failed: %v'' [itoa i, error_text env e])
       (Errorf ''generation %d integrity verification failed and was rolled back'' [itoa i])"

definition commit :: "('n, 'x) menv \<Rightarrow> ctx \<Rightarrow> nat \<Rightarrow> ('n, 'x, unit) act" where
  "commit env c0 i =
     thenP (acquire_process_lock env c0)
     (let c = with_lock c0 in
      bindP (pending_generation env) (\<lambda>pending.
      thenP (refuseP (g_id pending \<noteq> i) (Errorf ''generation %d is not pending'' [itoa i]))
      (thenP (refuseP (g_status pending \<noteq> Applied)
                (Errorf ''generation %d was persisted but not applied and cannot be committed'' [itoa i]))
      (bindP (case g_deadline pending of None \<Rightarrow> ret False
              | Some _ \<Rightarrow> bindP (time_now env) (\<lambda>now. ret (expired (g_deadline pending) now))) (\<lambda>late.
       if late then commit_expired env c i
       else
         elseP (fingerprint env)
           (\<lambda>_. commit_corrupt env c i)
           (\<lambda>observed.
              if g_observed_hash pending = [] \<or> observed \<noteq> g_observed_hash pending
              then commit_corrupt env c i
              else commit_locked env c i))))))"

section \<open>Applying\<close>

definition previous_or_first_use :: "('n, 'x) menv \<Rightarrow> ('n, 'x, generation option) act" where
  "previous_or_first_use env =
     elseP (last_known_good env)
       (\<lambda>e. if errors_is e ErrNoRows
            then thenP (wrapP (Wrapf ''first-use ownership check: %w'' []) (protect_first_use_op env)) (ret None)
            else failp e)
       (\<lambda>g. ret (Some g))"

definition ns_90s :: int where "ns_90s = 90000000000"

definition apply_deadline :: "('n, 'x) menv \<Rightarrow> bool \<Rightarrow> ('n, 'x, gotime option) act" where
  "apply_deadline env safe =
     (if safe
      then bindP (time_now env) (\<lambda>now. ret (Some (now + (if safe_ttl env \<le> 0 then ns_90s else safe_ttl env))))
      else ret None)"

definition apply_failed ::
  "('n, 'x) menv \<Rightarrow> ctx \<Rightarrow> nat \<Rightarrow> generation option \<Rightarrow> goerr \<Rightarrow> ('n, 'x, 'a) act" where
  "apply_failed env c i previous e =
     thenP (audit_quietly env ''generation_apply_failed'' (''generation='' @ itoa i @ '' error='' @ error_text env e))
     (if mutation_attempted e then
        (let cause = Wrapf ''apply candidate generation %d: %w'' [itoa i] e in
         case previous of
           None \<Rightarrow> recover_first_apply_execution_failure env i cause
         | Some _ \<Rightarrow> recover_post_apply_failure env c i previous cause)
      else
        thenP (wrapP (joined e ''record non-mutating apply rejection: %w'') (mark_rolled_back env i))
          (failp e))"

definition apply_health :: "('n, 'x) menv \<Rightarrow> ctx \<Rightarrow> nat \<Rightarrow> ('n, 'x, unit) act" where
  "apply_health env c i =
     (case health_check env of
        None \<Rightarrow> ret ()
      | Some h \<Rightarrow>
          elseP h
            (\<lambda>e. bindP (attempt (rollback_locked env c i)) (\<lambda>r.
                 thenP (audit_quietly env ''generation_health_failed'' (''generation='' @ itoa i))
                 (case r of
                    Inl re \<Rightarrow> failp (Wrapf ''candidate health check failed: %w; rollback also failed: %v'' [error_text env re] e)
                  | Inr _ \<Rightarrow> failp (Wrapf ''candidate health check failed and was rolled back: %w'' [] e))))
            ret)"

definition apply_installed ::
  "('n, 'x) menv \<Rightarrow> ctx \<Rightarrow> artifact \<Rightarrow> bool \<Rightarrow> generation option \<Rightarrow> gotime option \<Rightarrow> ('n, 'x, apply_result) act" where
  "apply_installed env c a safe previous deadline =
     (let i = unat (ar_generation a) in
      thenP (elseP (mark_applied env i)
               (\<lambda>e. recover_post_apply_failure env c i previous (Wrapf ''mark generation applied: %w'' [] e)) ret)
      (thenP (elseP (record_fingerprint env i)
                (\<lambda>e. recover_post_apply_failure env c i previous (Wrapf ''record applied nftables fingerprint: %w'' [] e)) ret)
      (thenP (apply_health env c i)
      (thenP (if safe then ret () else commit_locked env c i)
      (thenP (audit_quietly env ''generation_applied'' (''generation='' @ itoa i @ '' safe='' @ (if safe then ''true'' else ''false'')))
         (ret \<lparr>re_generation = i, re_checksum = ar_checksum a, re_deadline = deadline, re_committed = \<not> safe\<rparr>))))))"

definition apply_locked :: "('n, 'x) menv \<Rightarrow> ctx \<Rightarrow> artifact \<Rightarrow> bool \<Rightarrow> ('n, 'x, apply_result) act" where
  "apply_locked env c a safe =
     thenP (require_no_pending env)
     (thenP (if safe
             then (case safe_guard_locked env of
                     None \<Rightarrow> failp (Errorf ''safe apply requires locked rollback-guard verification'' [])
                   | Some g \<Rightarrow> wrapP (Wrapf ''safe apply locked revalidation refused: %w'' []) g)
             else ret ())
     (thenP (audit_foreign_mark_ownership env)
     (bindP (previous_or_first_use env) (\<lambda>previous.
      bindP (apply_deadline env safe) (\<lambda>deadline.
      bindP (wrapP (Wrapf ''read creating boot id: %w'' []) (current_boot_id env)) (\<lambda>boot.
      thenP (wrapP (Wrapf ''persist pending generation: %w'' [])
               (save_generation env (unat (ar_generation a)) (ar_checksum a) (ar_script a)
                  (map_option g_id previous) deadline \<lparr>md_boot = boot, md_provenance = ar_provenance a\<rparr>))
      (thenP (elseP (install_owned_generation env c (ar_script a))
                (apply_failed env c (unat (ar_generation a)) previous) ret)
         (apply_installed env c a safe previous deadline))))))))"

definition apply_artifact :: "('n, 'x) menv \<Rightarrow> ctx \<Rightarrow> artifact \<Rightarrow> bool \<Rightarrow> ('n, 'x, apply_result) act" where
  "apply_artifact env c0 a safe =
     thenP (require_no_pending env)
     (bindP (if safe \<and> \<not> preflight_done c0 then preflight_safe_apply env c0 else ret c0) (\<lambda>c.
      thenP (acquire_process_lock env c) (apply_locked env (with_lock c) a safe)))"

section \<open>Recovery at boot\<close>

definition pending_is_stale :: "('n, 'x) menv \<Rightarrow> generation \<Rightarrow> ('n, 'x, bool) act" where
  "pending_is_stale env g =
     bindP (wrapP (Wrapf ''read current boot id: %w'' []) (current_boot_id env)) (\<lambda>boot.
     thenP (refuseP (g_boot g = []) (Errorf ''pending generation has no creating boot id'' []))
     (if g_boot g \<noteq> boot then ret True
      else (case g_deadline g of
              None \<Rightarrow> ret False
            | Some d \<Rightarrow> bindP (time_now env) (\<lambda>now. ret (expired (Some d) now)))))"

text \<open>The live tables pass the integrity check and have the recorded fingerprint.\<close>

definition already_established :: "('n, 'x) menv \<Rightarrow> generation \<Rightarrow> ('n, 'x, bool) act" where
  "already_established env g =
     elseP (integrity env) (\<lambda>_. ret False) (\<lambda>d.
       if d \<noteq> None then ret False
       else elseP (fingerprint env) (\<lambda>_. ret False) (\<lambda>f. ret (f = g_observed_hash g)))"

definition establish_and_verify :: "('n, 'x) menv \<Rightarrow> ctx \<Rightarrow> generation \<Rightarrow> generation_snapshot \<Rightarrow> ('n, 'x, unit) act" where
  "establish_and_verify env c g s =
     thenP (audit_foreign_mark_ownership env)
     (thenP (refuseP (g_observed_hash g = []) (Errorf ''generation has no persisted observed-state fingerprint'' []))
     (bindP (already_established env g) (\<lambda>ok.
      if ok then ret ()
      else
        thenP (install_owned_generation env c (sn_script s))
        (bindP (integrity env) (\<lambda>d.
         thenP (check (map_option (\<lambda>m. Errorf ''owned nftables integrity failed: %s'' [m]) d))
         (bindP (fingerprint env) (\<lambda>f.
          refuseP (f \<noteq> g_observed_hash g)
            (Errorf ''restored nftables fingerprint does not match durable generation'' []))))))))"

definition require_pointer :: "('x, 'z) env_scheme \<Rightarrow> enforcement_pointer \<Rightarrow> (('k, 'x) world, unit) prog" where
  "require_pointer env expected =
     bindP (read_enforcement_pointer env) (\<lambda>p.
     refuseP (\<not> pointer_equal expected p)
       (Errorf ''authoritative enforcement pointer changed during recovery'' []))"

text \<open>A result and the error that comes with it.\<close>

type_synonym 'a reported = "'a \<times> goerr option"

definition rollback_first_generation_at_boot ::
  "('n, 'x) menv \<Rightarrow> ctx \<Rightarrow> generation \<Rightarrow> ('n, 'x, recovery_result reported) act" where
  "rollback_first_generation_at_boot env c g =
     bindP (wrapP (Wrapf ''inspect first-generation recovery state: %w'' []) (existing_owned env)) (\<lambda>existing.
     thenP (if existing = [] then ret ()
            else
              thenP (refuseP (length existing \<noteq> length owned_tables \<or> g_observed_hash g = [])
                       (Errorf ''first pending generation left ambiguous product-named nftables state'' []))
              (bindP (integrity env) (\<lambda>d.
               thenP (check (map_option (\<lambda>m. Errorf ''first pending generation cannot be safely removed: %s'' [m]) d))
               (bindP (fingerprint env) (\<lambda>f.
                thenP (refuseP (f \<noteq> g_observed_hash g) (Errorf ''first pending generation fingerprint is ambiguous'' []))
                (thenP (wrapP (Wrapf ''remove verified first pending generation: %w'' []) (destroy_owned env c))
                (bindP (existing_owned env) (\<lambda>remaining.
                 refuseP (remaining \<noteq> [])
                   (Errorf ''verified first pending generation remained after removal'' [])))))))))
     (thenP (finalize_recovery_rollback env (g_id g) (''generation='' @ itoa (g_id g) @ '' predecessor=ABSENT''))
        (ret (\<lparr>rr_generation = g_id g, rr_action = ''rolled_back_first_generation'', rr_ready = False\<rparr>,
              Some (Errorf ''first pending generation was rolled back without a committed predecessor; readiness remains blocked'' [])))))"

definition restore_predecessor_and_rollback ::
  "('n, 'x) menv \<Rightarrow> ctx \<Rightarrow> generation \<Rightarrow> generation_snapshot \<Rightarrow> ('n, 'x, recovery_result reported) act" where
  "restore_predecessor_and_rollback env c g s =
     (case sn_previous s of
        None \<Rightarrow> rollback_first_generation_at_boot env c g
      | Some p \<Rightarrow>
          bindP (wrapP (Wrapf ''resolve pending predecessor generation: %w'' []) (generation_by_id env (ep_generation p))) (\<lambda>previous.
          thenP (refuseP (g_status previous \<noteq> Committed \<or> g_checksum previous \<noteq> ep_policy_sum p \<or>
                          g_snapshot_checksum previous \<noteq> ep_snapshot_sum p)
                   (Errorf ''pending predecessor is not the exact committed generation'' []))
          (bindP (ensure_published_generation_durable env p) (\<lambda>ps.
           thenP (validate_generation_snapshot env previous ps False)
           (thenP (wrapP (Wrapf ''restore predecessor generation %d: %w'' [itoa (g_id previous)])
                     (establish_and_verify env c previous ps))
           (thenP (wrapP (Wrapf ''restore predecessor runtime state: %w'' []) (restore_runtime_or_deny env c))
           (thenP (require_pointer env p)
           (thenP (finalize_recovery_rollback env (g_id g)
                     (''generation='' @ itoa (g_id g) @ '' predecessor='' @ itoa (g_id previous)))
              (ret (\<lparr>rr_generation = g_id previous, rr_action = ''rolled_back_to_predecessor'', rr_ready = True\<rparr>, None))))))))))"

definition finalize_prepared ::
  "('n, 'x) menv \<Rightarrow> ctx \<Rightarrow> generation \<Rightarrow> enforcement_pointer \<Rightarrow> ('n, 'x, recovery_result reported) act" where
  "finalize_prepared env c g p =
     bindP (ensure_published_generation_durable env p) (\<lambda>ds.
     thenP (wrapP (Wrapf ''restore published prepared generation %d: %w'' [itoa (g_id g)]) (establish_and_verify env c g ds))
     (thenP (require_pointer env p)
     (thenP (wrapP (Wrapf ''finalize recovered commit: %w'' []) (finalize_commit env (g_id g)))
        (ret (\<lparr>rr_generation = g_id g, rr_action = ''finalized_prepared_commit'', rr_ready = True\<rparr>, None)))))"

definition recover_pending_at_boot ::
  "('n, 'x) menv \<Rightarrow> ctx \<Rightarrow> generation \<Rightarrow> enforcement_pointer option \<Rightarrow> ('n, 'x, recovery_result reported) act" where
  "recover_pending_at_boot env c g pointer =
     bindP (wrapP (Wrapf ''load pending immutable snapshot: %w'' []) (load_verified_generation_snapshot env (g_id g))) (\<lambda>s.
     thenP (validate_generation_snapshot env g s (g_status g = CommitPrepared))
     (if g_status g = CommitPrepared then
        if pointer_equal (snapshot_pointer env s) pointer then finalize_prepared env c g (snapshot_pointer env s)
        else
          thenP (refuseP (\<not> pointer_matches_previous (sn_previous s) pointer)
                   (Errorf ''prepared generation observed an ambiguous third pointer state'' []))
            (restore_predecessor_and_rollback env c g s)
      else
        thenP (refuseP (g_status g \<noteq> Pending \<and> g_status g \<noteq> Applied)
                 (Errorf ''unsupported pending recovery status %s'' [status_text (g_status g)]))
        (thenP (refuseP (\<not> pointer_matches_previous (sn_previous s) pointer)
                  (Errorf ''ordinary pending generation does not match its exact predecessor pointer'' []))
        (bindP (pending_is_stale env g) (\<lambda>stale.
         thenP (refuseP (\<not> stale)
                  (Errorf ''generation %d is still live on its creating boot and before its deadline'' [itoa (g_id g)]))
           (restore_predecessor_and_rollback env c g s))))))"

definition recover_committed ::
  "('n, 'x) menv \<Rightarrow> ctx \<Rightarrow> enforcement_pointer \<Rightarrow> ('n, 'x, recovery_result reported) act" where
  "recover_committed env c p =
     bindP (wrapP (Wrapf ''resolve committed pointer generation: %w'' []) (generation_by_id env (ep_generation p))) (\<lambda>g.
     thenP (refuseP (g_status g \<noteq> Committed)
              (Errorf ''enforcement pointer references generation %d with status %s'' [itoa (g_id g), status_text (g_status g)]))
     (bindP (last_known_good env) (\<lambda>latest.
      thenP (refuseP (g_id latest \<noteq> g_id g) (Errorf ''enforcement pointer is not the latest committed generation'' []))
      (bindP (ensure_published_generation_durable env p) (\<lambda>s.
       thenP (validate_generation_snapshot env g s False)
       (thenP (wrapP (Wrapf ''restore committed generation %d: %w'' [itoa (g_id g)]) (establish_and_verify env c g s))
       (thenP (require_pointer env p)
       (thenP (audit_durable env ''system'' ''generation_boot_restored'' (''generation='' @ itoa (g_id g)))
          (ret (\<lparr>rr_generation = g_id g, rr_action = ''restored_committed'', rr_ready = True\<rparr>, None))))))))))"

definition recover_at_boot_locked :: "('n, 'x) menv \<Rightarrow> ctx \<Rightarrow> ('n, 'x, recovery_result reported) act" where
  "recover_at_boot_locked env c =
     thenP (audit_foreign_mark_ownership env)
     (bindP (wrapP (Wrapf ''read authoritative enforcement pointer: %w'' []) (read_enforcement_pointer env)) (\<lambda>pointer.
      elseP (pending_generation env)
        (\<lambda>e. if \<not> errors_is e ErrNoRows then failp e
             else (case pointer of
                     None \<Rightarrow> failp (Errorf ''no committed enforcement pointer exists'' [])
                   | Some p \<Rightarrow> recover_committed env c p))
        (\<lambda>g. recover_pending_at_boot env c g pointer)))"

definition recover_at_boot :: "('n, 'x) menv \<Rightarrow> ctx \<Rightarrow> ('n, 'x, recovery_result reported) act" where
  "recover_at_boot env c = thenP (acquire_process_lock env c) (recover_at_boot_locked env (with_lock c))"

section \<open>The rollback timer\<close>

definition rolled_back_action :: "recovery_result \<Rightarrow> bool" where
  "rolled_back_action r \<longleftrightarrow> rr_action r \<in> {''rolled_back_to_predecessor'', ''rolled_back_first_generation''}"

definition rollback_expired :: "('n, 'x) menv \<Rightarrow> ctx \<Rightarrow> ('n, 'x, bool reported) act" where
  "rollback_expired env c0 =
     thenP (acquire_process_lock env c0)
     (let c = with_lock c0 in
      thenP (audit_foreign_mark_ownership env)
        (elseP (pending_generation env)
           (\<lambda>e. if errors_is e ErrNoRows then ret (False, None) else failp e)
           (\<lambda>g. bindP (if g_status g = CommitPrepared then ret True else pending_is_stale env g) (\<lambda>due.
              if \<not> due then ret (False, None)
              else bindP (read_enforcement_pointer env) (\<lambda>pointer.
                   bindP (recover_pending_at_boot env c g pointer) (\<lambda>(r, e).
                   ret (rolled_back_action r, e)))))))"

section \<open>Drift\<close>

text \<open>What \<^verbatim>\<open>Reconcile\<close> has observed when it decides: the drift and the expected generation.\<close>

definition drift_tables :: "('n, 'x) menv \<Rightarrow> table list \<Rightarrow> ('n, 'x, drift reported) act" where
  "drift_tables env observed =
     (let d = no_drift\<lparr>dr_owned := observed\<rparr> in
      if length observed \<noteq> length owned_tables
      then ret (d\<lparr>dr_missing := True,
                  dr_detail := ''owned table count '' @ itoa (length observed) @ ''/'' @ itoa (length owned_tables)\<rparr>, None)
      else elseP (integrity env) (\<lambda>e. ret (d, Some e)) (\<lambda>m.
             case m of None \<Rightarrow> ret (d, None) | Some x \<Rightarrow> ret (d\<lparr>dr_missing := True, dr_detail := x\<rparr>, None)))"

definition expected_or_none :: "('x, 'z) env_scheme \<Rightarrow> (('k, 'x) world, generation option reported) prog" where
  "expected_or_none env =
     elseP (expected_generation env)
       (\<lambda>e. ret (None, if errors_is e ErrNoRows then None else Some e)) (\<lambda>g. ret (Some g, None))"

definition drift_fingerprint :: "('n, 'x) menv \<Rightarrow> drift \<Rightarrow> generation option \<Rightarrow> ('n, 'x, drift reported) act" where
  "drift_fingerprint env d expected =
     (case expected of
        None \<Rightarrow> ret (d, None)
      | Some g \<Rightarrow>
          if dr_missing d then ret (d, None)
          else if g_observed_hash g = []
          then ret (d\<lparr>dr_missing := True,
                      dr_detail := ''generation '' @ itoa (g_id g) @ '' lacks an observed-state fingerprint''\<rparr>, None)
          else elseP (fingerprint env) (\<lambda>e. ret (d, Some e)) (\<lambda>f.
                 ret (if f \<noteq> g_observed_hash g
                      then d\<lparr>dr_missing := True,
                             dr_detail := ''owned nftables fingerprint differs from generation '' @ itoa (g_id g)\<rparr>
                      else d, None)))"

text \<open>A step of the repair that fails returns the drift found so far.\<close>

definition repair_step :: "('n, 'x, 'a) act \<Rightarrow> drift \<Rightarrow> ('a \<Rightarrow> ('n, 'x, drift reported) act) \<Rightarrow> ('n, 'x, drift reported) act" where
  "repair_step m d k = elseP m (\<lambda>e. ret (d, Some e)) k"

definition repair_generation :: "('n, 'x) menv \<Rightarrow> ctx \<Rightarrow> drift \<Rightarrow> generation \<Rightarrow> ('n, 'x, drift reported) act" where
  "repair_generation env c d g =
     repair_step (read_script env g) d (\<lambda>script.
     repair_step (install_owned_generation env c script) d (\<lambda>_.
     repair_step (record_fingerprint env (g_id g)) d (\<lambda>_.
     repair_step (restore_runtime_or_deny env c) d (\<lambda>_.
     thenP (audit_quietly env ''drift_repaired'' (dr_detail d)) (ret (d\<lparr>dr_repaired := True\<rparr>, None))))))"

definition repair :: "('n, 'x) menv \<Rightarrow> ctx \<Rightarrow> drift \<Rightarrow> generation option \<Rightarrow> generation option \<Rightarrow> ('n, 'x, drift reported) act" where
  "repair env c d pending expected =
     thenP (audit_quietly env ''drift_detected'' (dr_detail d))
     (case pending of
        Some g \<Rightarrow>
          if g_status g = Applied then
            repair_step (rollback_locked env c (g_id g)) d (\<lambda>_.
            ret (d\<lparr>dr_repaired := True,
                   dr_detail := ''pending generation '' @ itoa (g_id g) @ '' lost integrity and was rolled back''\<rparr>, None))
          else
            (case expected of
               Some x \<Rightarrow> repair_generation env c d x
             | None \<Rightarrow> repair_step (last_known_good env) d (repair_generation env c d))
      | None \<Rightarrow>
          (case expected of
             Some x \<Rightarrow> repair_generation env c d x
           | None \<Rightarrow> repair_step (last_known_good env) d (repair_generation env c d)))"

definition observe_drift :: "('n, 'x) menv \<Rightarrow> ctx \<Rightarrow> bool \<Rightarrow> generation option \<Rightarrow> ('n, 'x, drift reported) act" where
  "observe_drift env c fix pending =
     bindP (list_owned env) (\<lambda>observed.
     bindP (drift_tables env observed) (\<lambda>(d, e).
     if e \<noteq> None then ret (d, e)
     else
       bindP (expected_or_none env) (\<lambda>(expected, e1).
       if e1 \<noteq> None then ret (d, e1)
       else
         bindP (drift_fingerprint env d expected) (\<lambda>(d', e2).
         if e2 \<noteq> None then ret (d', e2)
         else if dr_missing d' \<and> fix then repair env c d' pending expected
         else thenP (if dr_missing d' then audit_quietly env ''drift_detected'' (dr_detail d') else ret ())
                (ret (d', None))))))"

definition reconcile :: "('n, 'x) menv \<Rightarrow> ctx \<Rightarrow> bool \<Rightarrow> ('n, 'x, drift reported) act" where
  "reconcile env c0 fix =
     thenP (acquire_process_lock env c0)
     (let c = with_lock c0 in
      elseP (pending_generation env)
        (\<lambda>e. if errors_is e ErrNoRows then observe_drift env c fix None else failp e)
        (\<lambda>g. if g_status g = Pending then
               let d = no_drift\<lparr>dr_missing := True,
                         dr_detail := ''generation '' @ itoa (g_id g) @ '' was not fully applied before process exit''\<rparr> in
               if fix then repair_step (rollback_locked env c (g_id g)) d (\<lambda>_. ret (d\<lparr>dr_repaired := True\<rparr>, None))
               else ret (d, None)
             else observe_drift env c fix (Some g)))"

end
