(* ===== verification/Backend_Props.thy ===== *)
theory Backend_Props
  imports Reconcile
begin

text \<open>
  What the nftables backend guarantees. \<open>same_host\<close> is the frame of the operations that only read: the
  database, the files, the ruleset and the guard of the first use stay as they are. \<open>one_change\<close> is the
  frame of those that write: at most one \<^verbatim>\<open>nft --file\<close>, whose script satisfies a condition. The lines that the
  backend puts before a script to destroy its own tables never make a valid script invalid.
\<close>

section \<open>Output of a process\<close>

lemma bounded_fold:
  "foldl bounded_write \<lparr>bw_text = t, bw_remaining = n, bw_exceeded = e\<rparr> ps =
     \<lparr>bw_text = t @ take n (concat ps), bw_remaining = n - length (concat ps), bw_exceeded = (e \<or> n < length (concat ps))\<rparr>"
proof (induction ps arbitrary: t n e)
  case Nil
  then show ?case by simp
next
  case (Cons p ps)
  show ?case
    using Cons.IH by (auto simp: bounded_write_def Let_def)
qed

text \<open>What is kept of the output of \<^verbatim>\<open>nft\<close> is its first \<open>n\<close> bytes, however it is split into writes, and
  the limit is reported exactly when a byte was dropped.\<close>

theorem bounded_output_prefix:
  "bw_text (bounded_output n ps) = take n (concat ps) \<and>
   (bw_exceeded (bounded_output n ps) \<longleftrightarrow> n < length (concat ps))"
  by (simp add: bounded_output_def bounded_fold)

section \<open>Reading the ruleset\<close>

text \<open>What is known of \<^verbatim>\<open>nft\<close>: only \<^verbatim>\<open>nft --file\<close> changes the ruleset.\<close>

definition reads_only :: "('n, 'x, 'z) benv_scheme \<Rightarrow> bool" where
  "reads_only env \<longleftrightarrow> (\<forall>c n x. (\<forall>s. c \<noteq> Nft_file s) \<longrightarrow> fst (snd (nft_process env c (n, x))) = n)"

text \<open>Two worlds with the same database, files, ruleset and guard of the first use.\<close>

definition same_host :: "('n, 'x) node \<Rightarrow> ('n, 'x) node \<Rightarrow> bool" where
  "same_host w w' \<longleftrightarrow> w_db w' = w_db w \<and> w_disk w' = w_disk w \<and> w_kernel w' = w_kernel w"

interpretation same_host: frame_order same_host
  by unfold_locales (auto simp: same_host_def)

lemma host_io: "obeys same_host (io env l)"
  by (auto simp: obeys_def io_def same_host_def split: prod.splits option.splits)

lemma host_os_runner:
  fixes env :: "('n, 'x, 'z) benv_scheme"
  assumes "reads_only env" "\<And>s. c \<noteq> Nft_file s"
  shows "obeys same_host (os_runner env c)"
  unfolding obeys_def
proof
  fix w :: "('n, 'x) node"
  obtain ps n x where run: "nft_process env c (live (w_kernel w), w_ext w) = (ps, n, x)"
    by (metis prod_cases3)
  then have "n = live (w_kernel w)"
    using assms by (metis reads_only_def fst_conv snd_conv)
  with run show "same_host w (snd (os_runner env c w))"
    by (simp add: os_runner_def same_host_def Let_def split: prod.splits)
qed

lemma host_run_nft: "reads_only env \<Longrightarrow> (\<And>s. c \<noteq> Nft_file s) \<Longrightarrow> obeys same_host (run_nft env c msg)"
  unfolding run_nft_def by (intro same_host.frame_rules host_os_runner)

lemma host_list_owned: "reads_only env \<Longrightarrow> obeys same_host (list_owned env)"
  unfolding list_owned_def by (intro same_host.frame_rules host_run_nft) auto

lemma host_existing_owned: "reads_only env \<Longrightarrow> obeys same_host (existing_owned env)"
  unfolding existing_owned_def by (intro same_host.frame_rules host_list_owned)

lemma host_mutex: "obeys same_host (acquire_mutation_lock env)"
  unfolding acquire_mutation_lock_def by (intro same_host.frame_rules host_io)

lemma host_temp_script: "obeys same_host (temp_script env)"
  unfolding temp_script_def by (rule host_io)

lemma host_check_script: "reads_only env \<Longrightarrow> obeys same_host (check_script env s)"
  unfolding check_script_def by (intro same_host.frame_rules host_temp_script host_run_nft) auto

lemma host_candidate: "reads_only env \<Longrightarrow> obeys same_host (candidate_transaction env s)"
  unfolding candidate_transaction_def Let_def
  by (intro same_host.frame_rules host_mutex host_existing_owned host_check_script)

lemma host_integrity_tables: "reads_only env \<Longrightarrow> obeys same_host (integrity_tables env ts)"
  by (induction ts)
    (auto intro!: same_host.frame_rules host_os_runner simp: integrity_table_def)

lemma host_integrity: "reads_only env \<Longrightarrow> obeys same_host (integrity env)"
  unfolding integrity_def by (intro same_host.frame_rules host_existing_owned host_integrity_tables)

lemma host_fingerprint_tables: "reads_only env \<Longrightarrow> obeys same_host (fingerprint_tables env ts)"
  by (induction ts) (auto intro!: same_host.frame_rules host_os_runner)

lemma host_fingerprint: "reads_only env \<Longrightarrow> obeys same_host (fingerprint env)"
  unfolding fingerprint_def by (intro same_host.frame_rules host_fingerprint_tables)

lemma host_audit_foreign: "reads_only env \<Longrightarrow> obeys same_host (audit_foreign_provenance_mask env)"
  unfolding audit_foreign_provenance_mask_def by (intro same_host.frame_rules host_run_nft) auto

lemma host_inspect_status: "reads_only env \<Longrightarrow> obeys same_host (inspect_status env)"
  unfolding inspect_status_def by (intro same_host.frame_rules host_run_nft) auto

lemmas host_reads = host_io host_list_owned host_existing_owned host_mutex host_temp_script host_check_script
  host_candidate host_integrity host_fingerprint host_audit_foreign host_inspect_status

text \<open>A call of a sequence that has not touched the host since \<open>w0\<close>.\<close>

lemma wp_host:
  assumes "obeys same_host m" "same_host w0 w" "\<And>x v. same_host w0 v \<Longrightarrow> Q x v" "\<And>e v. same_host w0 v \<Longrightarrow> E e v"
  shows "wp m Q E w"
  by (intro wpI; rule assms(3,4), rule same_host.frame_trans [OF assms(2)], erule obeys_run [OF assms(1)])

lemma wp_host_bind:
  assumes "obeys same_host m" "same_host w0 w" "\<And>x v. same_host w0 v \<Longrightarrow> wp (f x) Q E v"
    and "\<And>e v. same_host w0 v \<Longrightarrow> E e v"
  shows "wp (bindP m f) Q E w"
  unfolding wp_bindP by (rule wp_host [OF assms])

lemma wp_host_then:
  assumes "obeys same_host m" "same_host w0 w" "\<And>v. same_host w0 v \<Longrightarrow> wp k Q E v"
    and "\<And>e v. same_host w0 v \<Longrightarrow> E e v"
  shows "wp (thenP m k) Q E w"
  unfolding wp_thenP by (rule wp_host [OF assms])

lemma wp_get_bind: "wp (f (g w)) Q E w \<Longrightarrow> wp (bindP (getP g) f) Q E w"
  by simp

section \<open>What a candidate transaction has passed\<close>

lemma wp_check_script:
  assumes "reads_only env" "same_host w0 w" "\<And>v. same_host w0 v \<Longrightarrow> validate_script s = None \<Longrightarrow> Q () v"
    and "\<And>e v. same_host w0 v \<Longrightarrow> E e v"
  shows "wp (check_script env s) Q E w"
  unfolding check_script_def
  by (intro wp_check_then assms(2) wp_host_then [OF host_temp_script] wp_host_bind [OF host_run_nft] assms(1))
    (auto intro: assms)

lemma wp_candidate:
  assumes "reads_only env" "same_host w0 w"
    and "\<And>existing v. same_host w0 v \<Longrightarrow> validate_script (prepend_destroy s existing) = None \<Longrightarrow>
           (protect_first_use (w_kernel w0) \<longrightarrow> first_use_collision existing = None) \<Longrightarrow> Q (prepend_destroy s existing) v"
    and "\<And>e v. same_host w0 v \<Longrightarrow> E e v"
  shows "wp (candidate_transaction env s) Q E w"
  unfolding candidate_transaction_def Let_def
  apply (rule wp_host_then [OF host_mutex assms(2)])
   apply (rule wp_check_then)
    apply (rule wp_host_bind [OF same_host.obeys_wrapP [OF host_existing_owned [OF assms(1)]]], assumption)
     apply (rule wp_get_bind)
     apply (rule wp_check_then)
      apply (rule wp_check_then)
       apply (simp only: wp_thenP)
       apply (rule wp_check_script [OF assms(1)], assumption)
        apply (auto intro!: assms(3,4) simp: same_host_def)
  done

section \<open>Scripts of ASCII text\<close>

definition solid :: "char \<Rightarrow> bool" where "solid c \<longleftrightarrow> between 33 126 c"

lemma space_seqs_not_solid: "list_all (\<lambda>q. q \<noteq> [] \<and> list_all (\<lambda>c. \<not> solid c) q) space_seqs"
  by code_simp

lemma solid_not_space: "solid c \<Longrightarrow> q \<in> set space_seqs \<Longrightarrow> c \<notin> set q \<and> q \<noteq> []"
  using space_seqs_not_solid by (auto simp: list_all_iff)

lemma space_len_solid: "solid c \<Longrightarrow> space_len (c # s) = 0"
proof -
  assume "solid c"
  then have "\<not> prefix q (c # s)" if "q \<in> set space_seqs" for q
    using that solid_not_space [of c q] by (cases q) auto
  then show ?thesis by (auto simp: space_len_in_def find_None_iff [THEN iffD2])
qed

lemma space_len_blank: "space_len (CHR '' '' # s) = 1" "space_len (CHR 0x0A # s) = 1"
  by (simp_all add: space_len_in_def space_seqs_def)

lemma fields_aux_solid: "solid c \<Longrightarrow> fields_aux acc (c # s) = fields_aux (c # acc) s"
  by (subst fields_aux.simps) (simp add: space_len_solid)

lemma fields_aux_blank:
  "c = CHR '' '' \<or> c = CHR 0x0A \<Longrightarrow> fields_aux acc (c # s) = (if acc = [] then [] else [rev acc]) @ fields_aux [] s"
  by (subst fields_aux.simps) (auto simp: space_len_blank)

lemma trim_left_keeps:
  assumes "\<forall>q \<in> set seqs. c \<notin> set q"
  shows "trim_left seqs (s @ [c]) \<noteq> []"
proof (induction "length s" arbitrary: s rule: less_induct)
  case less
  show ?case
  proof (cases "space_len_in seqs (s @ [c]) = 0")
    case True
    then show ?thesis by (subst trim_left.simps) simp
  next
    case False
    then obtain q where f: "find (\<lambda>q. prefix q (s @ [c])) seqs = Some q" and l: "space_len_in seqs (s @ [c]) = length q"
      by (auto simp: space_len_in_def split: option.splits)
    from f have "q \<in> set seqs" "prefix q (s @ [c])"
      unfolding find_Some_iff by (metis nth_mem)+
    with l have q: "q \<in> set seqs" "prefix q (s @ [c])" "space_len_in seqs (s @ [c]) = length q" by auto
    then have "c \<notin> set q" "q \<noteq> []" using assms False by auto
    moreover from q(2) obtain z where z: "s @ [c] = q @ z" by (auto simp: prefix_def)
    ultimately obtain z' where z': "s = q @ z'" "z = z' @ [c]"
      by (cases z rule: rev_cases) auto
    have "trim_left seqs (z' @ [c]) \<noteq> []" using z' \<open>q \<noteq> []\<close> by (intro less) auto
    then show ?thesis using False q(3) z' by (subst trim_left.simps) simp
  qed
qed

lemma trim_space_solid: "solid c \<Longrightarrow> trim_space (c # s) \<noteq> []"
proof -
  assume c: "solid c"
  then have "\<forall>q \<in> set (map rev space_seqs). c \<notin> set q"
    using solid_not_space by auto
  from trim_left_keeps [OF this, of "rev s"] show ?thesis
    using c by (subst trim_space_def, subst (2) trim_left.simps) (simp add: space_len_solid)
qed

text \<open>The words of a line and the rest of the text.\<close>

definition plain_word :: "string \<Rightarrow> bool" where
  "plain_word w \<longleftrightarrow> w \<noteq> [] \<and> list_all (\<lambda>c. solid c \<and> c \<notin> {CHR 0x22, CHR 0x5C, CHR ''#'', CHR '';''}) w"

definition text_line :: "string list \<Rightarrow> string" where
  "text_line ws = join_str '' '' ws @ NL"

lemma fields_aux_word: "list_all solid w \<Longrightarrow> fields_aux acc (w @ s) = fields_aux (rev w @ acc) s"
  by (induction w arbitrary: acc) (simp_all add: fields_aux_solid)

lemma fields_words:
  assumes "ws \<noteq> []" "list_all plain_word ws" "t = [] \<or> hd t = CHR 0x0A"
  shows "fields_aux [] (join_str '' '' ws @ t) = ws @ fields_aux [] t"
  using assms
proof (induction ws)
  case Nil
  then show ?case by simp
next
  case (Cons w ws)
  have w: "list_all solid w" "w \<noteq> []" using Cons.prems by (auto simp: plain_word_def list_all_iff)
  have stop: "fields_aux (rev w) t = w # fields_aux [] t"
    using Cons.prems(3) w(2) by (cases t) (simp_all add: fields_aux.simps [of _ "[]"] fields_aux_blank)
  show ?case
  proof (cases ws)
    case Nil
    then show ?thesis using w stop by (simp add: fields_aux_word)
  next
    case (Cons v vs)
    then show ?thesis using w Cons.IH Cons.prems by (simp add: fields_aux_word fields_aux_blank)
  qed
qed

lemma fields_line:
  assumes "ws \<noteq> []" "list_all plain_word ws"
  shows "Go_Base.fields (text_line ws @ s) = ws @ Go_Base.fields s" "Go_Base.fields (join_str '' '' ws) = ws"
  using fields_words [OF assms, of "NL @ s"] fields_words [OF assms, of "[]"]
  by (simp_all add: Go_Base.fields_def text_line_def fields_aux.simps [of _ "[]"] fields_aux_blank)

lemma strip_word: "list_all (\<lambda>c. c \<noteq> CHR 0x22 \<and> c \<noteq> CHR 0x5C \<and> c \<noteq> CHR ''#'') t \<Longrightarrow>
    strip_plain (t @ s) = push t (strip_plain s)"
  by (induction t) (auto simp: push_def bindE_eq_Ok split: sum.splits, (cases "strip_plain s"; simp)+)

lemma split_on_line: "sep \<notin> set a \<Longrightarrow> split_on sep (a @ sep # s) = a # split_on sep s"
  by (induction a) auto

lemma word_chars:
  assumes "list_all plain_word ws" "c \<in> set (join_str '' '' ws)"
  shows "c = CHR '' '' \<or> solid c \<and> c \<notin> {CHR 0x22, CHR 0x5C, CHR ''#'', CHR '';''}"
  using assms by (induction "'' ''" ws rule: join_str.induct) (auto simp: plain_word_def list_all_iff)

lemma line_chars:
  assumes "list_all plain_word ws" "c \<in> set (text_line ws)"
  shows "c \<notin> {CHR 0x22, CHR 0x5C, CHR ''#'', CHR '';''}"
  using assms word_chars [of ws c] by (auto simp: text_line_def)

lemma strip_line: "list_all plain_word ws \<Longrightarrow> strip_plain (text_line ws @ s) = push (text_line ws) (strip_plain s)"
  using line_chars [of ws] by (intro strip_word) (auto simp: list_all_iff)

lemma newline_not_solid: "\<not> solid (CHR 0x0A)"
  by (simp add: solid_def between_def byte_def)

lemma statements_line:
  assumes "ws \<noteq> []" "list_all plain_word ws"
  shows "statements (text_line ws @ s) = ws # statements s"
proof -
  have nl: "CHR 0x0A \<notin> set (join_str '' '' ws)" using word_chars [OF assms(2)] newline_not_solid by fastforce
  have semi: "CHR '';'' \<notin> set (join_str '' '' ws)" using word_chars [OF assms(2)] by fastforce
  have "Go_Base.fields (join_str '' '' ws) = ws"
    by (rule fields_line(2) [OF assms])
  then show ?thesis using assms(1)
    by (simp add: statements_def text_line_def split_on_line [OF nl] split_on_none [OF semi])
qed

lemma adjacent_skip: "(\<And>b. \<not> P a b) \<Longrightarrow> adjacent P (a # ts) = adjacent P ts"
  by (cases ts) simp_all

lemma flushes_line:
  assumes "ws \<noteq> []" "list_all plain_word ws" "list_all (\<lambda>w. nft_keyword w \<noteq> ''flush'') ws"
  shows "flushes_ruleset (text_line ws @ s) = flushes_ruleset s"
proof -
  have id: "map (\<lambda>c. if c = CHR '';'' then CHR '' '' else c) (text_line ws) = text_line ws"
    using line_chars [OF assms(2)] by (intro map_idI) auto
  have adj: "adjacent (\<lambda>a b. nft_keyword a = ''flush'' \<and> nft_keyword b = r) (ws @ ts) =
      adjacent (\<lambda>a b. nft_keyword a = ''flush'' \<and> nft_keyword b = r) ts" for r ts
    using assms(3) by (induction ws) (simp_all add: adjacent_skip)
  show ?thesis
    by (simp add: flushes_ruleset_def id fields_line(1) [OF assms(1,2)] adj)
qed

definition destroy_words :: "table \<Rightarrow> string list" where
  "destroy_words t = [''destroy'', ''table'', t_family t, t_name t]"

lemma destroy_words_ok:
  "list_all (\<lambda>t. list_all plain_word (destroy_words t) \<and> check_statement (destroy_words t) = None \<and>
     list_all (\<lambda>w. nft_keyword w \<noteq> ''flush'') (destroy_words t)) owned_tables"
  by code_simp

lemma validate_destroy_line:
  assumes "t \<in> set owned_tables" "s = [] \<or> validate_script s = None"
  shows "validate_script (text_line (destroy_words t) @ s) = None"
proof -
  have ok: "list_all plain_word (destroy_words t)" "check_statement (destroy_words t) = None"
    "list_all (\<lambda>w. nft_keyword w \<noteq> ''flush'') (destroy_words t)" "destroy_words t \<noteq> []"
    using assms(1) destroy_words_ok by (auto simp: list_all_iff destroy_words_def)
  obtain clean where clean: "strip_plain s = Ok clean" "\<not> flushes_ruleset clean" "checks check_statement (statements clean) = None"
  proof (cases "s = []")
    case True
    have "\<not> flushes_ruleset []" "statements [] = []"
      by (simp_all add: flushes_ruleset_def statements_def Go_Base.fields_def fields_aux.simps)
    with True show ?thesis by (intro that [of "[]"]) auto
  next
    case False
    with assms(2) obtain clean' where "strip_plain s = Ok clean'" "\<not> flushes_ruleset clean'"
      "checks check_statement (statements clean') = None"
      by (auto simp: validate_script_def strip_nft_comments_def split: sum.splits if_splits)
    then show ?thesis by (rule that)
  qed
  have solid: "trim_space (text_line (destroy_words t) @ s) \<noteq> []"
    by (simp add: text_line_def destroy_words_def trim_space_solid solid_def between_def byte_def)
  show ?thesis
    unfolding validate_script_def strip_nft_comments_def strip_line [OF ok(1)] clean(1)
    using solid ok clean
    by (simp add: push_def statements_line flushes_line)
qed

lemma prepend_destroy_lines:
  "prepend_destroy s existing =
     concat (map (\<lambda>t. if table_key t \<in> set existing then text_line (destroy_words t) else []) owned_tables) @ s"
proof -
  have "text_line (destroy_words t) = ''destroy table '' @ t_family t @ '' '' @ t_name t @ NL" for t
    by (simp add: text_line_def destroy_words_def)
  then show ?thesis by (simp only: prepend_destroy_def)
qed

lemma validate_prepend:
  assumes "s = [] \<or> validate_script s = None"
  shows "prepend_destroy s existing = [] \<or> validate_script (prepend_destroy s existing) = None"
proof -
  obtain f where f: "f = (\<lambda>t. if table_key t \<in> set existing then text_line (destroy_words t) else [])" by simp
  have "set ts \<subseteq> set owned_tables \<Longrightarrow> concat (map f ts) @ s = [] \<or> validate_script (concat (map f ts) @ s) = None" for ts
  proof (induction ts)
    case (Cons t ts)
    then have t: "t \<in> set owned_tables" "concat (map f ts) @ s = [] \<or> validate_script (concat (map f ts) @ s) = None"
      by simp_all
    have "f t = [] \<or> f t = text_line (destroy_words t)" by (simp add: f)
    then show ?case using validate_destroy_line [OF t] t(2) by (elim disjE) (simp_all only: list.map concat.simps append_assoc append_Nil simp_thms)
  next
    case Nil
    then show ?case using assms by simp
  qed
  from this [OF subset_refl] show ?thesis unfolding prepend_destroy_lines f .
qed

section \<open>Changing the ruleset\<close>

text \<open>The world after at most one \<^verbatim>\<open>nft --file\<close>, with a script that satisfies \<open>S\<close>.\<close>

definition one_change ::
  "('n, 'x, 'z) benv_scheme \<Rightarrow> (string \<Rightarrow> bool) \<Rightarrow> ('n, 'x) node \<Rightarrow> ('n, 'x) node \<Rightarrow> bool" where
  "one_change env S w w' \<longleftrightarrow> w_db w' = w_db w \<and> w_disk w' = w_disk w \<and>
     (live (w_kernel w') = live (w_kernel w) \<or>
      (\<exists>s x. S s \<and> live (w_kernel w') = fst (snd (nft_process env (Nft_file s) (live (w_kernel w), x)))))"

lemma same_one_change: "same_host w v \<Longrightarrow> one_change env S w v"
  by (simp add: same_host_def one_change_def)

lemma one_change_protect [simp]:
  "one_change env S w (v\<lparr>w_kernel := (w_kernel v)\<lparr>protect_first_use := b\<rparr>\<rparr>) = one_change env S w v"
  by (simp add: one_change_def)

lemma one_change_mono: "one_change env S w v \<Longrightarrow> (\<And>s. S s \<Longrightarrow> T s) \<Longrightarrow> one_change env T w v"
  by (auto simp: one_change_def)

lemma wp_os_runner_file:
  assumes "same_host w0 w" "S s" "\<And>r v. one_change env S w0 v \<Longrightarrow> protect_first_use (w_kernel v) = protect_first_use (w_kernel w0) \<Longrightarrow> Q r v"
  shows "wp (os_runner env (Nft_file s)) Q E w"
proof -
  obtain ps n x where run: "nft_process env (Nft_file s) (live (w_kernel w), w_ext w) = (ps, n, x)"
    by (metis prod_cases3)
  have "one_change env S w0 (w\<lparr>w_kernel := (w_kernel w)\<lparr>live := n\<rparr>, w_ext := x\<rparr>)"
    using assms(1,2) run by (auto simp: one_change_def same_host_def) (metis fst_conv snd_conv)
  moreover have "protect_first_use (w_kernel w) = protect_first_use (w_kernel w0)"
    using assms(1) by (simp add: same_host_def)
  ultimately show ?thesis using run
    by (auto simp: wp_def os_runner_def Let_def intro!: assms(3) split: prod.splits)
qed

lemma wp_run_nft_file:
  assumes "same_host w0 w" "S s" "\<And>r v. one_change env S w0 v \<Longrightarrow> protect_first_use (w_kernel v) = protect_first_use (w_kernel w0) \<Longrightarrow> Q r v"
    and "\<And>e v. one_change env S w0 v \<Longrightarrow> protect_first_use (w_kernel v) = protect_first_use (w_kernel w0) \<Longrightarrow> E e v"
  shows "wp (run_nft env (Nft_file s) msg) Q E w"
  unfolding run_nft_def wp_bindP
  by (rule wp_os_runner_file [where S = S, OF assms(1,2)]) (auto intro: assms(3,4) split: option.splits)

lemma wp_run_file:
  assumes "same_host w0 w" "S s" "\<And>v. one_change env S w0 v \<Longrightarrow> Q () v" "\<And>e v. one_change env S w0 v \<Longrightarrow> E e v"
  shows "wp (run_file env s msg) Q E w"
  unfolding run_file_def
  by (rule wp_host_then [OF host_temp_script assms(1)])
    (auto intro!: wp_run_nft_file [where S = S and ?w0.0 = w0] assms(2-) same_one_change)

lemma wp_check_and_run:
  assumes "reads_only env" "same_host w0 w" "validate_script s = None \<Longrightarrow> S s"
    and "\<And>v. one_change env S w0 v \<Longrightarrow> Q () v" "\<And>e v. one_change env S w0 v \<Longrightarrow> E e v"
  shows "wp (check_and_run env s msg) Q E w"
  unfolding check_and_run_def wp_thenP
  by (rule wp_check_script [OF assms(1,2)])
    (auto intro!: wp_run_file [where S = S and ?w0.0 = w0] assms(3-) same_one_change)

lemma wp_backend_apply:
  assumes "reads_only env" "same_host w0 w"
    and "\<And>v. one_change env S w0 v \<Longrightarrow> mutation_lock c \<Longrightarrow> \<not> protect_first_use (w_kernel v) \<Longrightarrow> Q () v"
    and "\<And>e v. one_change env S w0 v \<Longrightarrow> protect_first_use (w_kernel v) = protect_first_use (w_kernel w0) \<Longrightarrow>
           (\<not> mutation_attempted e \<longrightarrow> same_host w0 v) \<Longrightarrow> (mutation_attempted e \<longrightarrow> mutation_lock c \<or> same_host w0 v) \<Longrightarrow> E e v"
    and "\<And>existing. mutation_lock c \<Longrightarrow> validate_script (prepend_destroy s existing) = None \<Longrightarrow>
           (protect_first_use (w_kernel w0) \<longrightarrow> first_use_collision existing = None) \<Longrightarrow> S (prepend_destroy s existing)"
  shows "wp (backend_apply env c s) Q E w"
proof -
  have quiet: "E e v" if "same_host w0 v" for e v
    by (rule assms(4) [OF same_one_change [OF that]]) (use that in \<open>auto simp: same_host_def\<close>)
  show ?thesis
  proof (cases "mutation_lock c")
    case False
    then show ?thesis
      by (simp add: backend_apply_def require_global_mutation_lock_def quiet [OF assms(2)])
  next
    case True
    have run: "wp (run_nft env (Nft_file tx) m) (\<lambda>_. wp (set_protect False) Q E) (\<lambda>e. E (ApplyExecutionError e)) v"
      if "same_host w0 v" "S tx" for tx m v
      by (rule wp_run_nft_file [where S = S, OF that])
        (auto simp: wp_def set_protect_def True intro!: assms(3,4))
    show ?thesis
      unfolding backend_apply_def require_global_mutation_lock_def
      using True
      by (auto intro!: wp_candidate [OF assms(1,2)] wp_host [OF host_temp_script] run quiet assms(5))
  qed
qed

section \<open>Every operation\<close>

datatype backend_op =
    Apply_script string
  | Destroy_tables
  | Update_set string bool "string list"
  | Replace_sets "(string \<times> string list) list"
  | Replace_networks "string list" "string list"
  | Replace_claims "string list" "string list" "timed_element list" "timed_element list"
  | Check_candidate string
  | Protect_first_use
  | Read_tables
  | Read_integrity
  | Read_fingerprint
  | Read_foreign
  | Read_status

definition discard :: "('w, 'a) prog \<Rightarrow> ('w, unit) prog" where
  "discard m = bindP m (\<lambda>_. ret ())"

fun backend_run :: "('n, 'x, 'z) benv_scheme \<Rightarrow> ctx \<Rightarrow> backend_op \<Rightarrow> (('n, 'x) node, unit) prog" where
  "backend_run env c (Apply_script s) = backend_apply env c s"
| "backend_run env c Destroy_tables = destroy_owned env c"
| "backend_run env c (Update_set name add es) = update_set env c name add es"
| "backend_run env c (Replace_sets sets) = replace_sets env c sets"
| "backend_run env c (Replace_networks v4 v6) = replace_container_networks env c v4 v6"
| "backend_run env c (Replace_claims b4 b6 t4 t6) = replace_claim_sets env c b4 b6 t4 t6"
| "backend_run env c (Check_candidate s) = check_candidate env s"
| "backend_run env c Protect_first_use = protect_first_use_op env"
| "backend_run env c Read_tables = discard (list_owned env)"
| "backend_run env c Read_integrity = discard (integrity env)"
| "backend_run env c Read_fingerprint = discard (fingerprint env)"
| "backend_run env c Read_foreign = discard (audit_foreign_provenance_mask env)"
| "backend_run env c Read_status = discard (inspect_status env)"

lemma wp_locked:
  assumes "same_host w0 w" "\<And>e v. same_host w0 v \<Longrightarrow> E e v"
    and "\<And>v. same_host w0 v \<Longrightarrow> mutation_lock c \<Longrightarrow> wp m Q E v"
  shows "wp (thenP (check (require_global_mutation_lock c)) (thenP (acquire_mutation_lock env) m)) Q E w"
  using assms
  by (cases "mutation_lock c")
    (auto simp: require_global_mutation_lock_def intro!: wp_host [OF host_mutex assms(1)])

lemma wp_set_protect:
  "wp (set_protect b) Q E w = Q () (w\<lparr>w_kernel := (w_kernel w)\<lparr>protect_first_use := b\<rparr>\<rparr>)"
  by (simp add: wp_def set_protect_def)

lemma read_one_change:
  assumes "obeys same_host m"
  shows "wp (discard m) (\<lambda>_. one_change env S w) (\<lambda>_. one_change env S w) w"
  unfolding discard_def by (auto intro!: wp_host [OF assms same_host.frame_refl] same_one_change)

section \<open>Which scripts an operation may run\<close>

text \<open>Written independently of the functions of the backend that build the scripts. The sets of the program
  are named with their address families, and \<open>element_ok\<close> says what an element of one of them is: a network of
  the family that is not the whole address space, and a single address where the set holds endpoints.\<close>

definition program_sets :: "(string \<times> bool) list" where
  "program_sets =
     [(''blocked_v4'', True), (''blocked_v6'', False), (''trusted_v4'', True), (''trusted_v6'', False),
      (''wg_bootstrap_v4'', True), (''wg_bootstrap_v6'', False), (''docker_nets'', True), (''docker_nets6'', False)]"

definition network_of :: "bool \<Rightarrow> string \<Rightarrow> bool" where
  "network_of v4 e \<longleftrightarrow>
     (\<exists>p. parse_prefix e = Some p \<and> pbits p \<noteq> 0 \<and> (if v4 then is4 (paddr p) else is6 (paddr p)))"

definition element_ok :: "string \<Rightarrow> string \<Rightarrow> bool" where
  "element_ok name e \<longleftrightarrow>
     (\<exists>v4. (name, v4) \<in> set program_sets \<and> network_of v4 e \<and>
        (name \<in> {''wg_bootstrap_v4'', ''wg_bootstrap_v6''} \<longrightarrow>
           (\<exists>p. parse_prefix e = Some p \<and> pbits p = (if v4 then 32 else 128))))"

definition element_line :: "string \<Rightarrow> string \<Rightarrow> string list \<Rightarrow> string" where
  "element_line verb target es = verb @ '' element '' @ target @ '' { '' @ join_str '', '' es @ '' }'' @ NL"

definition content_lines :: "string \<Rightarrow> string list \<Rightarrow> string" where
  "content_lines target es =
     ''flush set '' @ target @ NL @ (if es = [] then [] else element_line ''add'' target es)"

definition destroy_lines :: "string list" where
  "destroy_lines =
     [''destroy table inet nftfw_filter'' @ NL, ''destroy table ip nftfw_nat'' @ NL, ''destroy table ip6 nftfw_filter6'' @ NL]"

definition lease_text :: "timed_element \<Rightarrow> string" where
  "lease_text e =
     (if te_timeout e = 0 then te_prefix e else te_prefix e @ '' timeout '' @ itoa_int (te_timeout e) @ ''s'')"

definition lease_ok :: "bool \<Rightarrow> timed_element \<Rightarrow> bool" where
  "lease_ok v4 e \<longleftrightarrow> network_of v4 (te_prefix e) \<and> 0 \<le> te_timeout e \<and> te_timeout e \<le> 365 * 24 * 60 * 60"

definition set_content :: "(string \<times> string list) list \<Rightarrow> string \<Rightarrow> string list" where
  "set_content sets name = (case map_of sets name of None \<Rightarrow> [] | Some vs \<Rightarrow> vs)"

fun permitted :: "backend_op \<Rightarrow> string \<Rightarrow> bool" where
  "permitted (Apply_script t) s = (\<exists>ds. subseq ds destroy_lines \<and> s = concat ds @ t)"
| "permitted Destroy_tables s = (\<exists>ds. subseq ds destroy_lines \<and> ds \<noteq> [] \<and> s = concat ds)"
| "permitted (Update_set name add es) s =
     (es \<noteq> [] \<and> (\<forall>e \<in> set es. element_ok name e) \<and>
      s = element_line (if add then ''add'' else ''delete'') (''inet nftfw_filter '' @ name) es)"
| "permitted (Replace_sets sets) s =
     ((\<forall>name \<in> fst ` set sets. name \<in> fst ` set program_sets \<and> (\<forall>e \<in> set (set_content sets name). element_ok name e)) \<and>
      s = concat (map (\<lambda>name. content_lines (''inet nftfw_filter '' @ name) (sort (set_content sets name))) (sort (map fst sets))))"
| "permitted (Replace_networks v4 v6) s =
     ((\<forall>e \<in> set v4. network_of True e) \<and> (\<forall>e \<in> set v6. network_of False e) \<and>
      s = content_lines ''inet nftfw_filter docker_nets'' (sort v4) @ content_lines ''inet nftfw_filter docker_nets6'' (sort v6) @
          content_lines ''ip nftfw_nat docker_nets_nat'' (sort v4))"
| "permitted (Replace_claims b4 b6 t4 t6) s =
     ((\<forall>e \<in> set b4. network_of True e) \<and> (\<forall>e \<in> set b6. network_of False e) \<and>
      (\<forall>e \<in> set t4. lease_ok True e) \<and> (\<forall>e \<in> set t6. lease_ok False e) \<and>
      (\<exists>l4 l6. mset l4 = mset t4 \<and> mset l6 = mset t6 \<and>
         s = content_lines ''inet nftfw_filter blocked_v4'' (sort b4) @ content_lines ''inet nftfw_filter blocked_v6'' (sort b6) @
             content_lines ''inet nftfw_filter trusted_v4'' (map lease_text l4) @
             content_lines ''inet nftfw_filter trusted_v6'' (map lease_text l6)))"
| "permitted _ s = False"

text \<open>The code's texts and checks against that.\<close>

lemma element_command_line: "element_command verb t es = element_line verb t es"
  by (simp add: element_command_def element_line_def)

lemma flush_and_fill_lines: "flush_and_fill t es = content_lines t es"
  by (simp add: flush_and_fill_def content_lines_def element_command_line)

lemma in_filter_text: "in_filter name = ''inet nftfw_filter '' @ name"
  by (simp add: in_filter_def filter_table_def)

lemma not_none_family:
  assumes "parse_prefix raw = Some p"
  shows "is4 (paddr p) \<or> is6 (paddr p)"
  using parse_prefix_valid [OF assms] by (cases "paddr p") (auto simp: prefix_valid_def is_valid_addr_def)

lemma check_element_ok:
  assumes "map_of allowed_sets name = Some f" "check_element name f e = None"
  shows "element_ok name e"
proof -
  obtain p where p: "parse_prefix e = Some p" "pbits p \<noteq> 0" "f = ''ipv4'' \<Longrightarrow> is4 (paddr p)" "f = ''ipv6'' \<Longrightarrow> is6 (paddr p)"
      "has_prefix name ''wg_bootstrap_'' \<Longrightarrow> pbits p = int (bit_len (paddr p))"
    using assms(2) by (auto simp: check_element_def split: option.splits)
  have f: "(name, f = ''ipv4'') \<in> set program_sets" "f = ''ipv4'' \<or> f = ''ipv6''"
    using assms(1) by (auto simp: allowed_sets_def program_sets_def split: if_splits)
  have bl: "is4 (paddr p) \<Longrightarrow> bit_len (paddr p) = 32" "is6 (paddr p) \<Longrightarrow> bit_len (paddr p) = 128"
    by (cases "paddr p"; simp)+
  have "name \<in> {''wg_bootstrap_v4'', ''wg_bootstrap_v6''} \<Longrightarrow> has_prefix name ''wg_bootstrap_''"
    by (auto simp: has_prefix_def)
  with p f bl show ?thesis
    unfolding element_ok_def network_of_def by (intro exI [of _ "f = ''ipv4''"] conjI) auto
qed

lemma set_prefix_ok: "validate_set_prefix e ''ipv4'' = None \<Longrightarrow> network_of True e"
    "validate_set_prefix e ''ipv6'' = None \<Longrightarrow> network_of False e"
  by (auto simp: validate_set_prefix_def network_of_def split: option.splits)

lemma prepend_subseq: "\<exists>ds. subseq ds destroy_lines \<and> prepend_destroy s existing = concat ds @ s"
proof -
  have "\<exists>ds. subseq ds (map g ts) \<and> concat (map (\<lambda>t. if P t then g t else []) ts) = concat ds" for g :: "table \<Rightarrow> string" and P ts
  proof (induction ts)
    case (Cons t ts)
    then obtain ds where "subseq ds (map g ts)" "concat (map (\<lambda>t. if P t then g t else []) ts) = concat ds" by blast
    then show ?case by (intro exI [of _ "if P t then g t # ds else ds"]) (auto intro: list_emb_Cons)
  next
    case Nil
    show ?case by (intro exI [of _ "[]"]) simp
  qed
  moreover have "map (\<lambda>t. ''destroy table '' @ t_family t @ '' '' @ t_name t @ NL) owned_tables = destroy_lines"
    by (simp add: owned_tables_def destroy_lines_def filter_table_def nat_table_def filter6_def)
  moreover obtain g where g: "g = (\<lambda>t :: table. ''destroy table '' @ t_family t @ '' '' @ t_name t @ NL)" by blast
  ultimately have "\<exists>ds. subseq ds destroy_lines \<and> concat (map (\<lambda>t. if table_key t \<in> set existing then g t else []) owned_tables) = concat ds"
    by metis
  then show ?thesis unfolding prepend_destroy_def g by auto
qed


lemma foldE_texts:
  "foldE (\<lambda>script n. case chk n of Some e \<Rightarrow> Err e | None \<Rightarrow> Ok (script @ txt n)) u ns = Inr t \<Longrightarrow>
     t = u @ concat (map txt ns) \<and> (\<forall>n \<in> set ns. chk n = None)"
proof (induction ns arbitrary: u)
  case (Cons n ns)
  then have c: "chk n = None" by (cases "chk n") simp_all
  with Cons.prems have "foldE (\<lambda>script n. case chk n of Some e \<Rightarrow> Err e | None \<Rightarrow> Ok (script @ txt n)) (u @ txt n) ns = Inr t"
    by simp
  from Cons.IH [OF this] c show ?case by simp
qed simp

lemma replace_sets_lines:
  assumes "replace_sets_script sets names = Inr s"
  shows "s = concat (map (\<lambda>name. content_lines (''inet nftfw_filter '' @ name) (sort (set_content sets name))) names) \<and>
    (\<forall>name \<in> set names. \<forall>e \<in> set (set_content sets name).
       check_element name (case map_of allowed_sets name of None \<Rightarrow> [] | Some f \<Rightarrow> f) e = None)"
  using foldE_texts [OF assms [unfolded replace_sets_script_def Let_def]]
  by (simp add: set_content_def flush_and_fill_lines in_filter_text)

lemma replace_sets_permitted:
  assumes "\<forall>n \<in> fst ` set sets. map_of allowed_sets n \<noteq> None"
    and "replace_sets_script sets (sort (map fst sets)) = Inr s"
  shows "permitted (Replace_sets sets) s"
proof -
  note parts = replace_sets_lines [OF assms(2)]
  have "name \<in> fst ` set program_sets \<and> (\<forall>e \<in> set (set_content sets name). element_ok name e)" if n: "name \<in> fst ` set sets" for name
  proof -
    from assms(1) n obtain f where f: "map_of allowed_sets name = Some f" by blast
    from n have "name \<in> set (sort (map fst sets))" by simp
    with parts f have "\<forall>e \<in> set (set_content sets name). check_element name f e = None" by auto
    with f check_element_ok have "\<forall>e \<in> set (set_content sets name). element_ok name e" by blast
    moreover have "name \<in> fst ` set program_sets"
      using f by (auto simp: allowed_sets_def program_sets_def split: if_splits)
    ultimately show ?thesis by blast
  qed
  with parts show ?thesis by simp
qed

lemma container_network_ok: "check_container_network v4 e = None \<Longrightarrow> network_of v4 e"
  using not_none_family [of e]
  by (cases v4; auto simp: check_container_network_def network_of_def split: option.splits; metis)

lemma replace_networks_permitted:
  assumes "container_networks_script v4 v6 = Inr s"
  shows "permitted (Replace_networks v4 v6) s"
  using assms
  by (auto simp: container_networks_script_def flush_and_fill_lines in_filter_text nat_table_def container_network_ok
      simp del: checks_None split: option.splits simp: checks_None [THEN iffD1])

lemma timed_lease: "0 \<le> te_timeout e \<Longrightarrow> timed_text e = lease_text e"
  by (simp add: timed_text_def lease_text_def)

lemma check_timed_ok:
  "check_timed name ''ipv4'' e = None \<Longrightarrow> lease_ok True e"
  "check_timed name ''ipv6'' e = None \<Longrightarrow> lease_ok False e"
  by (auto simp: check_timed_def lease_ok_def max_timeout_def set_prefix_ok)

lemma timed_script:
  assumes "claim_set_script (Timed name f es) = Inr s" "f = (if v4 then ''ipv4'' else ''ipv6'')"
  shows "(\<forall>e \<in> set es. lease_ok v4 e) \<and>
    (\<exists>l. mset l = mset es \<and> s = content_lines (''inet nftfw_filter '' @ name) (map lease_text l))"
proof -
  let ?l = "sort_slice (\<lambda>a b. te_prefix a < te_prefix b) es"
  have c: "checks (check_timed name f) ?l = None" and s: "s = flush_and_fill (in_filter name) (map timed_text ?l)"
    using assms(1) by (auto simp: Let_def simp del: checks_None split: option.splits)
  from c have ok: "\<forall>e \<in> set es. lease_ok v4 e" using assms(2) check_timed_ok by (auto split: if_splits)
  then have "map timed_text ?l = map lease_text ?l" by (auto simp: lease_ok_def timed_lease)
  with ok s show ?thesis
    by (intro conjI exI [of _ ?l]) (simp_all add: flush_and_fill_lines in_filter_text)
qed

lemma plain_script:
  assumes "claim_set_script (Plain name f es) = Inr s" "f = (if v4 then ''ipv4'' else ''ipv6'')"
  shows "(\<forall>e \<in> set es. network_of v4 e) \<and> s = content_lines (''inet nftfw_filter '' @ name) (sort es)"
proof -
  have c: "checks (\<lambda>v. map_option (Wrapf ''set %s: %w'' [name]) (validate_set_prefix v f)) (sort es) = None"
    and s: "s = flush_and_fill (in_filter name) (sort es)"
    using assms(1) by (auto simp: Let_def simp del: checks_None split: option.splits)
  from c have "\<forall>e \<in> set es. network_of v4 e" using assms(2) set_prefix_ok by (auto split: if_splits)
  with s show ?thesis by (simp add: flush_and_fill_lines in_filter_text)
qed

lemma replace_claims_permitted:
  assumes "claim_sets_script b4 b6 t4 t6 = Inr s"
  shows "permitted (Replace_claims b4 b6 t4 t6) s"
proof -
  obtain s1 s2 s3 s4 where "claim_set_script (Plain ''blocked_v4'' ''ipv4'' b4) = Inr s1"
    "claim_set_script (Plain ''blocked_v6'' ''ipv6'' b6) = Inr s2" "claim_set_script (Timed ''trusted_v4'' ''ipv4'' t4) = Inr s3"
    "claim_set_script (Timed ''trusted_v6'' ''ipv6'' t6) = Inr s4" "s = s1 @ s2 @ s3 @ s4"
    using assms unfolding claim_sets_script_def foldE_Cons_Ok by (auto simp: bindE_eq_Ok)
  then have parts: "claim_set_script (Plain ''blocked_v4'' ''ipv4'' b4) = Inr s1"
    "claim_set_script (Plain ''blocked_v6'' ''ipv6'' b6) = Inr s2" "claim_set_script (Timed ''trusted_v4'' ''ipv4'' t4) = Inr s3"
    "claim_set_script (Timed ''trusted_v6'' ''ipv6'' t6) = Inr s4" "s = s1 @ s2 @ s3 @ s4" .
  have p: "(\<forall>e \<in> set b4. network_of True e) \<and> s1 = content_lines (''inet nftfw_filter '' @ ''blocked_v4'') (sort b4)"
    "(\<forall>e \<in> set b6. network_of False e) \<and> s2 = content_lines (''inet nftfw_filter '' @ ''blocked_v6'') (sort b6)"
    by (rule plain_script [OF parts(1)], simp) (rule plain_script [OF parts(2)], simp)
  obtain l4 where l4: "\<forall>e \<in> set t4. lease_ok True e" "mset l4 = mset t4"
      "s3 = content_lines (''inet nftfw_filter '' @ ''trusted_v4'') (map lease_text l4)"
    using timed_script [OF parts(3), of True] by auto
  obtain l6 where l6: "\<forall>e \<in> set t6. lease_ok False e" "mset l6 = mset t6"
      "s4 = content_lines (''inet nftfw_filter '' @ ''trusted_v6'') (map lease_text l6)"
    using timed_script [OF parts(4), of False] by auto
  show ?thesis
    unfolding permitted.simps
    by (intro conjI exI [of _ l4] exI [of _ l6]) (use p l4 l6 parts(5) in simp_all)
qed

section \<open>What every operation does to the ruleset\<close>

definition lawful :: "ctx \<Rightarrow> backend_op \<Rightarrow> string \<Rightarrow> bool" where
  "lawful c op s \<longleftrightarrow> mutation_lock c \<and> permitted op s \<and> validate_script s = None"

lemma wp_lawful_run:
  assumes "reads_only env" "same_host w0 w" "mutation_lock c" "permitted op s"
  shows "wp (check_and_run env s msg) (\<lambda>_. one_change env (lawful c op) w0) (\<lambda>_. one_change env (lawful c op) w0) w"
  by (rule wp_check_and_run [where S = "lawful c op", OF assms(1,2)]) (use assms(3,4) in \<open>auto simp: lawful_def\<close>)

lemma wp_destroy_lawful:
  assumes "reads_only env"
  shows "wp (destroy_owned env c) (\<lambda>_. one_change env (lawful c Destroy_tables) w) (\<lambda>_. one_change env (lawful c Destroy_tables) w) w"
proof (cases "mutation_lock c")
  case False
  then show ?thesis
    by (simp add: destroy_owned_def require_global_mutation_lock_def same_one_change [OF same_host.frame_refl])
next
  case True
  have ok: "lawful c Destroy_tables (prepend_destroy [] existing)" if "prepend_destroy [] existing \<noteq> []" for existing
    using that validate_prepend [of "[]" existing] prepend_subseq [of "[]" existing] True by (auto simp: lawful_def)
  have run: "wp (run_file env (prepend_destroy [] existing) m) (\<lambda>_. one_change env (lawful c Destroy_tables) w)
      (\<lambda>_. one_change env (lawful c Destroy_tables) w) v"
    if "same_host w v" "prepend_destroy [] existing \<noteq> []" for existing m v
    using ok [OF that(2)] by (intro wp_run_file [where S = "lawful c Destroy_tables", OF that(1)])
  show ?thesis
    unfolding destroy_owned_def require_global_mutation_lock_def
    using True
    by (auto simp: Let_def intro!: wp_host [OF host_mutex same_host.frame_refl] wp_host [OF host_existing_owned [OF assms]]
        run same_one_change)
qed

lemma backend_lawful:
  assumes "reads_only env" "\<And>xs. set (map_order env xs) = set xs"
  shows "wp (backend_run env c op) (\<lambda>_. one_change env (lawful c op) w) (\<lambda>_. one_change env (lawful c op) w) w"
proof (cases op)
  case (Apply_script s)
  then show ?thesis
    using prepend_subseq [of s]
    by (auto simp: lawful_def intro!: wp_backend_apply [where S = "lawful c op", OF assms(1) same_host.frame_refl])
next
  case Destroy_tables
  then show ?thesis by (simp add: wp_destroy_lawful [OF assms(1)])
next
  case (Update_set name add es)
  have "permitted (Update_set name True es) (element_command ''add'' (in_filter name) es)"
    "permitted (Update_set name False es) (element_command ''delete'' (in_filter name) es)"
    if "map_of allowed_sets name = Some f" "es \<noteq> []" "\<forall>x \<in> set es. check_element name f x = None" for f
    using that check_element_ok [OF that(1)] by (simp_all add: element_command_line in_filter_text)
  note ok = this
  show ?thesis
    unfolding Update_set backend_run.simps update_set_def Let_def
    by (rule wp_locked [OF same_host.frame_refl], cases add)
      (auto intro!: same_one_change wp_lawful_run [OF assms(1)] intro: ok simp del: permitted.simps split: option.splits)
next
  case (Replace_sets sets)
  have ok: "permitted op s"
    if "checks (\<lambda>n. refuse (map_of allowed_sets n = None) (Errorf ''set %q is not owned'' [n])) (map_order env (map fst sets)) = None"
      "replace_sets_script sets (sort (map fst sets)) = Inr s" for s
    using that assms(2) unfolding Replace_sets by (intro replace_sets_permitted) auto
  show ?thesis
    unfolding Replace_sets backend_run.simps replace_sets_def
    by (rule wp_locked [OF same_host.frame_refl])
      (auto intro!: same_one_change wp_lawful_run [OF assms(1)] ok [unfolded Replace_sets] simp del: permitted.simps checks_None split: option.splits sum.splits)
next
  case (Replace_networks v4 v6)
  show ?thesis
    unfolding Replace_networks backend_run.simps replace_container_networks_def
    by (rule wp_locked [OF same_host.frame_refl])
      (auto intro!: same_one_change wp_lawful_run [OF assms(1)] replace_networks_permitted simp del: permitted.simps split: sum.splits)
next
  case (Replace_claims b4 b6 t4 t6)
  show ?thesis
    unfolding Replace_claims backend_run.simps replace_claim_sets_def
    by (rule wp_locked [OF same_host.frame_refl])
      (auto intro!: same_one_change wp_lawful_run [OF assms(1)] replace_claims_permitted simp del: permitted.simps split: sum.splits)
next
  case (Check_candidate s)
  have "obeys same_host (check_candidate env s)"
    unfolding check_candidate_def by (intro same_host.frame_rules host_candidate assms)
  then show ?thesis using Check_candidate
    by (auto intro!: wp_host [OF _ same_host.frame_refl] same_one_change)
next
  case Protect_first_use
  then show ?thesis
    by (auto simp: protect_first_use_op_def wp_set_protect
        intro!: wp_host [OF host_mutex same_host.frame_refl] wp_host [OF host_existing_owned [OF assms(1)]] same_one_change
        split: option.splits)
qed (auto intro!: read_one_change host_reads assms)

text \<open>C3. The ruleset is changed only by a caller that holds the mutation lock and only by \<^verbatim>\<open>nft --file\<close> on
  a script that the validation accepts and that the operation permits: for \<^verbatim>\<open>Apply\<close> the given script behind
  lines that destroy tables of the program, for the set operations the text that puts the given elements into a
  set of the program, each of them a network of the set's family that is not the whole address space (a single
  address where the set holds tunnel endpoints, a lease of at most a year where it holds leases). The database and
  the state files stay as they are, whatever faults occur.\<close>

theorem only_validated_scripts:
  fixes env :: "('n, 'x, 'z) benv_scheme"
  assumes "reads_only env" and "\<And>xs. set (map_order env xs) = set xs" and "backend_run env c op w = (r, w')"
  shows "w_db w' = w_db w \<and> w_disk w' = w_disk w \<and>
    (live (w_kernel w') = live (w_kernel w) \<or>
     (\<exists>s x. mutation_lock c \<and> permitted op s \<and> validate_script s = None \<and>
            live (w_kernel w') = fst (snd (nft_process env (Nft_file s) (live (w_kernel w), x)))))"
  using backend_lawful [OF assms(1,2), of c op w] assms(3)
  by (cases r) (auto simp: wp_def one_change_def lawful_def)

text \<open>C33. What \<^verbatim>\<open>Apply\<close> promises. An error that is not an \<^verbatim>\<open>ApplyExecutionError\<close> means that the ruleset was
  not touched. While the guard of the first use is armed, the only script that reaches the kernel is the one
  given, with no table removed, and the guard is disarmed by a successful call only.\<close>

theorem Apply_contract:
  fixes env :: "('n, 'x, 'z) benv_scheme"
  assumes "reads_only env" and "backend_apply env c s w = (r, w')"
  shows "(\<forall>e. r = Err e \<and> \<not> mutation_attempted e \<longrightarrow> w_kernel w' = w_kernel w) \<and>
    (r = Ok () \<longrightarrow> mutation_lock c \<and> \<not> protect_first_use (w_kernel w')) \<and>
    (protect_first_use (w_kernel w) \<longrightarrow>
       (r \<noteq> Ok () \<longrightarrow> protect_first_use (w_kernel w')) \<and>
       (live (w_kernel w') = live (w_kernel w) \<or>
        validate_script s = None \<and>
        (\<exists>x. live (w_kernel w') = fst (snd (nft_process env (Nft_file s) (live (w_kernel w), x))))))"
proof -
  let ?S = "\<lambda>t. protect_first_use (w_kernel w) \<longrightarrow> t = s \<and> validate_script s = None"
  have same: "prepend_destroy s existing = s" if "first_use_collision existing = None" for existing
  proof -
    from that have "filter (\<lambda>k. k \<in> set existing) (map table_key owned_tables) = []"
      by (simp add: first_use_collision_def Let_def)
    then show ?thesis by (auto simp: prepend_destroy_def filter_empty_conv)
  qed
  have "wp (backend_apply env c s)
      (\<lambda>_ v. one_change env ?S w v \<and> mutation_lock c \<and> \<not> protect_first_use (w_kernel v))
      (\<lambda>e v. one_change env ?S w v \<and> protect_first_use (w_kernel v) = protect_first_use (w_kernel w) \<and>
             (\<not> mutation_attempted e \<longrightarrow> same_host w v)) w"
    by (rule wp_backend_apply [where S = ?S, OF assms(1) same_host.frame_refl]) (auto simp: same)
  with assms(2) show ?thesis
    by (cases r) (auto simp: wp_def one_change_def same_host_def)
qed

section \<open>Concrete runs\<close>

text \<open>An \<^verbatim>\<open>nft\<close> that accepts every script, lists nothing and counts the scripts that it has run.\<close>

definition counting :: "(nat, unit) benv" where
  "counting = \<lparr>fault = \<lambda>_ x. (None, x), clock = \<lambda>x. (1700000000000000000, x),
     boot_file = \<lambda>x. (Err ErrNotExist, x), ledger_file = \<lambda>x. (Err ErrNotExist, x),
     sha256 = \<lambda>_. [], json_snapshot = \<lambda>_. Ok [], parse_snapshot = \<lambda>_. Err ErrNotExist, state_dir = [],
     nft_process = \<lambda>c (n, x). ((if c = Nft_list_tables then [''{ \"nftables\": [] }''] else [], [], None), case c of Nft_file _ \<Rightarrow> n + 1 | _ \<Rightarrow> n, x),
     map_order = id, float_text = \<lambda>_. None\<rparr>"

definition bare_host :: "(nat, unit) node" where
  "bare_host = \<lparr>w_db = \<lparr>gens = [], claims = [], claim_seq = 0, audits = [], audit_seq = 0, integrations = [], publication = None\<rparr>,
     w_disk = \<lparr>d_scripts = (\<lambda>_. None), d_snapshots = (\<lambda>_. None), d_marker = None, d_temp = None\<rparr>,
     w_kernel = \<lparr>protect_first_use = True, live = 0\<rparr>, w_ext = ()\<rparr>"

definition locked_ctx :: ctx where
  "locked_ctx = \<lparr>mutation_lock = True, preflight_done = False\<rparr>"

lemma bounded_output_small:
  "length (concat ps) \<le> n \<Longrightarrow>
     bounded_output n ps = \<lparr>bw_text = concat ps, bw_remaining = n - length (concat ps), bw_exceeded = False\<rparr>"
  by (simp add: bounded_output_def bounded_fold)

lemma counting_reads_only: "reads_only counting"
  by (auto simp: reads_only_def counting_def split: nft_command.splits)

lemma counting_io [simp]: "io counting l w = (Inr (), w)"
  by (simp add: io_def counting_def)

lemma counting_runner:
  "os_runner counting c w =
     (Inr (if c = Nft_list_tables then ''{ \"nftables\": [] }'' else [], [], None),
      w\<lparr>w_kernel := (w_kernel w)\<lparr>live := case c of Nft_file _ \<Rightarrow> live (w_kernel w) + 1 | _ \<Rightarrow> live (w_kernel w)\<rparr>\<rparr>)"
  by (simp add: os_runner_def counting_def bounded_output_small max_nft_stdout_def max_nft_stderr_def Let_def)

lemma counting_nft [simp]:
  "run_nft counting c m w =
     (Inr (if c = Nft_list_tables then ''{ \"nftables\": [] }'' else []),
      w\<lparr>w_kernel := (w_kernel w)\<lparr>live := case c of Nft_file _ \<Rightarrow> live (w_kernel w) + 1 | _ \<Rightarrow> live (w_kernel w)\<rparr>\<rparr>)"
  by (simp add: run_nft_def counting_runner prog_defs)

lemma no_objects: "nft_objects ''{ \"nftables\": [] }'' = Inr []"
  by code_simp

lemma counting_existing [simp]: "existing_owned counting w = (Inr [], w)"
  by (simp add: existing_owned_def list_owned_def prog_defs no_objects List.map_filter_def)

abbreviation block_net :: string where
  "block_net \<equiv> element_command ''add'' (in_filter ''blocked_v4'') [''192.0.2.0/24'']"

lemma block_net_script: "validate_script block_net = None"
  by code_simp

lemma block_net_element: "check_element ''blocked_v4'' ''ipv4'' ''192.0.2.0/24'' = None"
  by (simp add: check_element_def go_eval)

lemma block_net_family: "map_of allowed_sets ''blocked_v4'' = Some ''ipv4''"
  by (simp add: allowed_sets_def)

lemmas block_net_valid = block_net_script block_net_element block_net_family

abbreviation one_update :: "unit result \<times> (nat, unit) node" where
  "one_update \<equiv>
     backend_run counting locked_ctx (Update_set ''blocked_v4'' True [''192.0.2.0/24'']) bare_host"

lemma counting_update: "fst one_update = Inr () \<and> live (w_kernel (snd one_update)) = 1"
  by (simp add: update_set_def locked_ctx_def require_global_mutation_lock_def acquire_mutation_lock_def block_net_valid
      check_and_run_def check_script_def run_file_def temp_script_def prog_defs bare_host_def)

abbreviation one_apply :: "unit result \<times> (nat, unit) node" where
  "one_apply \<equiv> backend_apply counting locked_ctx block_net bare_host"

lemma nothing_to_destroy: "prepend_destroy s [] = s" "first_use_collision [] = None"
  by (simp_all add: prepend_destroy_def first_use_collision_def)

lemma counting_apply: "fst one_apply = Inr () \<and> live (w_kernel (snd one_apply)) = 1"
  by (simp add: backend_apply_def candidate_transaction_def locked_ctx_def require_global_mutation_lock_def
      acquire_mutation_lock_def block_net_valid nothing_to_destroy check_script_def temp_script_def set_protect_def
      prog_defs bare_host_def)

lemma counting_order: "set (map_order counting xs) = set xs"
  by (simp add: counting_def)

theorem only_validated_scripts_witness:
  "\<exists>s x. s = ''add element inet nftfw_filter blocked_v4 { 192.0.2.0/24 }'' @ NL \<and> validate_script s = None \<and>
     live (w_kernel (snd one_update)) = fst (snd (nft_process counting (Nft_file s) (0, x)))"
proof -
  have "backend_run counting locked_ctx (Update_set ''blocked_v4'' True [''192.0.2.0/24'']) bare_host =
      (fst one_update, snd one_update)" by (rule surjective_pairing)
  from only_validated_scripts [OF counting_reads_only counting_order this] counting_update show ?thesis
    by (simp only: bare_host_def world.simps kernel.simps permitted.simps element_line_def simp_thms if_True
        join_str.simps append.simps) auto
qed

theorem Apply_contract_witness:
  "\<not> protect_first_use (w_kernel (snd one_apply)) \<and>
   (\<exists>x. live (w_kernel (snd one_apply)) =
      fst (snd (nft_process counting (Nft_file block_net) (0, x))))"
  using Apply_contract [OF counting_reads_only, of locked_ctx _ bare_host "fst one_apply" "snd one_apply"]
    counting_apply by (simp add: bare_host_def)

end
