(* ===== verification/Collision_Props.thy ===== *)
theory Collision_Props
  imports Collision
begin

text \<open>
  What the audit of the foreign rules guarantees: non-interference. \<open>eval\<close> is a semantics of foreign
  expressions that leaves open everything but the conntrack mark; \<open>blind\<close> says of an expression that it does
  not write the mark and has the same value for any two marks that differ in the reserved byte only. The
  scanner accepts blind expressions only (\<open>inspect_blind\<close>, by induction over its five functions), and the
  audit lifts this to every rule of the ruleset.
\<close>

section \<open>The meaning of a foreign rule\<close>

text \<open>How the kernel evaluates an expression, as far as the conntrack mark is concerned. What it makes of
  anything else is a parameter: a scalar, an array, an object of evaluated members, the value of a read of
  the whole mark, and the value of a mark masked by constants.\<close>

record 'a meaning =
  of_scalar :: "json \<Rightarrow> 'a"
  of_list :: "'a list \<Rightarrow> 'a"
  of_object :: "(string \<times> 'a) list \<Rightarrow> 'a"
  of_mark :: "(string \<times> json) list \<Rightarrow> 32 word \<Rightarrow> 'a"
  of_masked :: "32 word \<Rightarrow> 'a"

text \<open>The shapes of libnftables that name the mark. They are written out here and do not refer to the program.\<close>

definition names_mark :: "(string \<times> json) list \<Rightarrow> bool" where
  "names_mark ms \<longleftrightarrow> (\<exists>b. map_of ms ''ct'' = Some (JObj b) \<and> map_of b ''key'' = Some (JStr ''mark''))"

text \<open>\<^verbatim>\<open>{"ct": {"key": "mark"}}\<close>, perhaps with a family or a direction, and with nothing else.\<close>

definition plain_read :: "json \<Rightarrow> bool" where
  "plain_read v \<longleftrightarrow>
     (\<exists>b. v = JObj [(''ct'', JObj b)] \<and> map_of b ''key'' = Some (JStr ''mark'') \<and>
        fst ` set b \<subseteq> {''key'', ''family'', ''dir''})"

text \<open>The 32-bit constants: a number or a string with decimal digits, or with hexadecimal ones after \<^verbatim>\<open>0x\<close>.\<close>

definition positional :: "nat \<Rightarrow> string \<Rightarrow> nat" where
  "positional b s = foldl (\<lambda>n c. b * n + the (hex_val c)) 0 s"

definition number_text :: "string \<Rightarrow> nat option" where
  "number_text s =
     (let ds = filter (\<lambda>c. c \<noteq> CHR ''_'') (drop 2 s) in
      if (has_prefix s ''0x'' \<or> has_prefix s ''0X'') \<and> ds \<noteq> [] \<and> (\<forall>c \<in> set ds. hex_val c \<noteq> None) then Some (positional 16 ds)
      else if s \<noteq> [] \<and> (\<forall>c \<in> set s. is_digit c) then Some (positional 10 s)
      else None)"

definition mask_constant :: "json \<Rightarrow> 32 word option" where
  "mask_constant v =
     (case (case v of JNum s \<Rightarrow> number_text s | JStr s \<Rightarrow> number_text s | _ \<Rightarrow> None) of
        Some n \<Rightarrow> if n < 4294967296 then Some (of_nat n) else None
      | None \<Rightarrow> None)"

text \<open>The constants of \<^verbatim>\<open>{"&": [ct mark, c1, c2, ...]}\<close>.\<close>

definition mark_masks :: "(string \<times> json) list \<Rightarrow> 32 word list option" where
  "mark_masks ms =
     (case ms of
        [(k, JArr vs)] \<Rightarrow>
          if k = ''&'' \<and> 2 \<le> length vs \<and> length (filter plain_read vs) = 1
          then those (map mask_constant (filter (\<lambda>v. \<not> plain_read v) vs)) else None
      | _ \<Rightarrow> None)"

fun eval :: "'a meaning \<Rightarrow> 32 word \<Rightarrow> json \<Rightarrow> 'a"
  and eval_members :: "'a meaning \<Rightarrow> 32 word \<Rightarrow> (string \<times> json) list \<Rightarrow> (string \<times> 'a) list" where
  "eval S m (JArr vs) = of_list S (map (eval S m) vs)"
| "eval S m (JObj ms) =
     (case mark_masks ms of
        Some cs \<Rightarrow> of_masked S (foldl (AND) m cs)
      | None \<Rightarrow> if names_mark ms then of_mark S ms m else of_object S (eval_members S m ms))"
| "eval S m v = of_scalar S v"
| "eval_members S m [] = []"
| "eval_members S m ((k, v) # ms) = (k, eval S m v) # eval_members S m ms"

text \<open>A statement that may write the mark: an xtables extension, \<^verbatim>\<open>ct mark set\<close>, \<^verbatim>\<open>mangle\<close> with the mark as
  its key. The masked read of a mark is a value and no statement.\<close>

definition mangles_mark :: "json \<Rightarrow> bool" where
  "mangles_mark v \<longleftrightarrow>
     (\<exists>ms k. v = JObj ms \<and> map_of ms ''key'' = Some (JObj k) \<and> names_mark k)"

definition object_writes :: "(string \<times> json) list \<Rightarrow> bool" where
  "object_writes ms \<longleftrightarrow> map_of ms ''xt'' \<noteq> None \<or>
     (\<exists>b. map_of ms ''ct'' = Some (JObj b) \<and> map_of b ''key'' = Some (JStr ''mark'') \<and> map_of b ''set'' \<noteq> None)"

fun writes_mark :: "json \<Rightarrow> bool"
  and members_write :: "(string \<times> json) list \<Rightarrow> bool" where
  "writes_mark (JArr vs) = list_ex writes_mark vs"
| "writes_mark (JObj ms) = (mark_masks ms = None \<and> (object_writes ms \<or> members_write ms))"
| "writes_mark v = False"
| "members_write [] = False"
| "members_write ((k, v) # ms) = (k = ''mangle'' \<and> mangles_mark v \<or> writes_mark v \<or> members_write ms)"

text \<open>Two marks that differ in the reserved byte only.\<close>

definition agree :: "32 word \<Rightarrow> 32 word \<Rightarrow> bool" where
  "agree m m' \<longleftrightarrow> m AND NOT mark_mask = m' AND NOT mark_mask"

definition blind :: "'a meaning \<Rightarrow> json \<Rightarrow> bool" where
  "blind S v \<longleftrightarrow> \<not> writes_mark v \<and> (\<forall>m m'. agree m m' \<longrightarrow> eval S m v = eval S m' v)"

section \<open>The program recognises the shapes\<close>

lemma descriptor_names: "ct_mark_descriptor ms = Inr b \<Longrightarrow> names_mark ms \<longleftrightarrow> b \<noteq> None"
  by (auto simp: ct_mark_descriptor_def names_mark_def split: option.splits json.splits if_splits)

lemma canonical_plain: "canonical_ct_mark_read v = Inr c \<Longrightarrow> plain_read v \<longleftrightarrow> c"
proof (cases "\<exists>ms. v = JObj ms \<and> length ms = 1")
  case True
  then obtain k x where v: "v = JObj [(k, x)]" by (auto simp: length_Suc_conv)
  assume "canonical_ct_mark_read v = Inr c"
  then show ?thesis
    by (auto simp: v canonical_ct_mark_read_def ct_mark_descriptor_def plain_read_def list_all_iff image_subset_iff
        split: if_splits option.splits json.splits)
next
  case False
  moreover assume "canonical_ct_mark_read v = Inr c"
  ultimately show ?thesis by (cases v) (auto simp: canonical_ct_mark_read_def plain_read_def)
qed

lemma dec_digits_positional: "dec_digits n s = Some k \<Longrightarrow> (\<forall>c \<in> set s. is_digit c) \<and> k = foldl (\<lambda>n c. 10 * n + the (hex_val c)) n s"
  by (induction n s rule: dec_digits.induct) (auto simp: hex_val_def digit_val_def mult.commute split: if_splits)

lemma hex_val_underscore [simp]: "hex_val CHR ''_'' = None"
  by code_simp

lemma hex_underscores_positional:
  assumes "hex_underscores n s = Some k"
  shows "(\<forall>c \<in> set (filter (\<lambda>c. c \<noteq> CHR ''_'') s). hex_val c \<noteq> None) \<and>
     k = foldl (\<lambda>n c. 16 * n + the (hex_val c)) n (filter (\<lambda>c. c \<noteq> CHR ''_'') s)"
  using assms
proof (induction n s rule: hex_underscores.induct)
  case (2 n c s)
  show ?case
  proof (cases "c = CHR ''_''")
    case True
    with "2.prems" obtain d t x where t: "s = d # t" "hex_val d = Some x" "hex_underscores (n * 16 + x) t = Some k"
      by (auto split: list.splits option.splits)
    then have "d \<noteq> CHR ''_''" by auto
    with "2.IH"(1) [OF True t] True t(1,2) show ?thesis by (simp add: mult.commute)
  next
    case False
    with "2.prems" obtain x where x: "hex_val c = Some x" "hex_underscores (n * 16 + x) s = Some k"
      by (auto split: option.splits)
    with "2.IH"(2) [OF False x] False show ?thesis by (simp add: mult.commute)
  qed
qed simp

lemma mark_constant:
  assumes "mark_uint32_constant v = Some c"
  shows "mask_constant v = Some c"
proof -
  obtain s n where s: "v = JNum s \<or> v = JStr s" "s \<noteq> []" "parse_mark_text s = Some n" "int n < 2 ^ 32" "c = of_nat n"
    using assms by (cases v) (auto simp: mark_uint32_constant_def split: if_splits option.splits)
  have "number_text s = Some n"
  proof (cases "has_prefix s ''0x'' \<or> has_prefix s ''0X''")
    case True
    with s(3) have h: "drop 2 s \<noteq> []" "hex_underscores 0 (drop 2 s) = Some n"
      by (auto simp: parse_mark_text_def split: if_splits)
    then have "filter (\<lambda>c. c \<noteq> CHR ''_'') (drop 2 s) \<noteq> []"
      by (cases "drop 2 s") (auto split: if_splits list.splits option.splits simp: hex_val_def is_digit_def byte_def)
    with hex_underscores_positional [OF h(2)] True show ?thesis by (auto simp: number_text_def positional_def Let_def)
  next
    case False
    with s(3) have "dec_value s = Some n" by (simp add: parse_mark_text_def)
    then have "dec_digits 0 s = Some n" using s(2) by (simp add: dec_value_def)
    from dec_digits_positional [OF this] False s(2) show ?thesis by (auto simp: number_text_def positional_def Let_def)
  qed
  moreover have "n < 4294967296" using s(4) by simp
  ultimately show ?thesis using s(1,5) by (auto simp: mask_constant_def)
qed

section \<open>Masks\<close>

lemma agree_mask:
  assumes "agree m m'" "c AND mark_mask = 0"
  shows "m AND c = m' AND c"
proof -
  have "c AND NOT mark_mask = c"
  proof (rule bit_word_eqI)
    fix n
    have "bit (c AND mark_mask) n = bit (0 :: 32 word) n" by (simp only: assms(2))
    then show "n < LENGTH(32) \<Longrightarrow> bit (c AND NOT mark_mask) n = bit c n"
      by (auto simp: bit_simps)
  qed
  then have step: "x AND c = (x AND NOT mark_mask) AND c" for x
    by (simp only: and.assoc and.commute [of "NOT mark_mask"])
  show ?thesis
    by (subst (1 2) step) (simp only: assms(1) [unfolded agree_def])
qed

lemma agree_masks:
  assumes "agree m m'" "cs \<noteq> []" "\<forall>c \<in> set cs. c AND mark_mask = 0"
  shows "foldl (AND) m cs = foldl (AND) m' cs"
  using assms(2,3)
  by (cases cs) (auto simp: agree_mask [OF assms(1)])

lemma check_masks_constants:
  "check_masks vs = [] \<Longrightarrow> \<exists>cs. those (map mask_constant vs) = Some cs \<and> length cs = length vs \<and>
     (\<forall>c \<in> set cs. c AND mark_mask = 0)"
  by (induction vs) (auto simp: reason_mask_def reason_overlap_def mark_constant split: option.splits if_splits)

section \<open>The position of the mark\<close>

lemma find_mark_Several: "find_mark i (Mark_at j) vs = Inr (Mark_at k) \<Longrightarrow> k = j \<and> filter plain_read vs = []"
  by (induction vs arbitrary: i) (auto simp: bindE_eq_Ok canonical_plain split: if_splits)

lemma find_mark_at:
  "find_mark i No_mark vs = Inr (Mark_at k) \<Longrightarrow> i \<le> k \<and> k < i + length vs \<and> length (filter plain_read vs) = 1 \<and>
     filter (\<lambda>v. \<not> plain_read v) vs = without_index (k - i) vs"
proof (induction vs arbitrary: i)
  case Nil
  then show ?case by simp
next
  case (Cons v vs)
  then obtain c where c: "canonical_ct_mark_read v = Inr c"
    by (auto simp: bindE_eq_Ok split: sum.splits)
  show ?case
  proof (cases c)
    case True
    with Cons.prems c have "find_mark (Suc i) (Mark_at i) vs = Inr (Mark_at k)"
      by (simp add: bindE_eq_Ok)
    from find_mark_Several [OF this] True c show ?thesis
      by (auto simp: canonical_plain without_index_def filter_empty_conv filter_id_conv)
  next
    case False
    with Cons.prems c have "find_mark (Suc i) No_mark vs = Inr (Mark_at k)"
      by (simp add: bindE_eq_Ok)
    from Cons.IH [OF this] False c show ?thesis
      by (cases k) (auto simp: canonical_plain without_index_def Suc_diff_le)
  qed
qed

lemma find_mark_none: "find_mark i No_mark vs = Inr No_mark \<Longrightarrow> filter plain_read vs = []"
proof (induction vs arbitrary: i)
  case (Cons v vs)
  have "find_mark j (Mark_at k) vs \<noteq> Inr No_mark" for j k
    by (induction vs arbitrary: j) (auto simp: bindE_eq_Ok split: sum.splits)
  with Cons show ?case by (auto simp: bindE_eq_Ok canonical_plain split: if_splits)
qed simp

section \<open>What the scanner accepts\<close>

lemma either_reason_Nil [simp]: "either_reason a b = [] \<longleftrightarrow> a = [] \<and> b = []"
  by (simp add: either_reason_def)

lemma reasons [simp]:
  "reason_xt \<noteq> []" "reason_write \<noteq> []" "reason_read \<noteq> []" "reason_multiple \<noteq> []"
  by (simp_all add: reason_xt_def reason_write_def reason_read_def reason_multiple_def)

definition blind_members :: "'a meaning \<Rightarrow> (string \<times> json) list \<Rightarrow> bool" where
  "blind_members S ms \<longleftrightarrow> (\<forall>(k, v) \<in> set ms. blind S v \<and> (k = ''mangle'' \<longrightarrow> \<not> mangles_mark v))"

lemma blind_members_simps [simp]:
  "blind_members S []"
  "blind_members S ((k, v) # ms) \<longleftrightarrow> blind S v \<and> (k = ''mangle'' \<longrightarrow> \<not> mangles_mark v) \<and> blind_members S ms"
  by (auto simp: blind_members_def)

lemma blind_scalar [simp]: "blind S JNull" "blind S (JBool b)" "blind S (JNum s)" "blind S (JStr s)"
  by (simp_all add: blind_def)

lemma blind_list: "list_all (blind S) vs \<Longrightarrow> blind S (JArr vs)"
  by (auto simp: blind_def list_all_iff list_ex_iff) (metis map_eq_conv)

lemma members_writeI: "blind_members S ms \<Longrightarrow> \<not> members_write ms"
  by (induction ms) (auto simp: blind_members_def blind_def)

lemma eval_members_agree: "blind_members S ms \<Longrightarrow> agree m m' \<Longrightarrow> eval_members S m ms = eval_members S m' ms"
  by (induction ms) (auto simp: blind_members_def blind_def)

lemma blind_object:
  assumes "blind_members S ms" "mark_masks ms = None" "ct_mark_descriptor ms = Inr None" "map_of ms ''xt'' = None"
  shows "blind S (JObj ms)"
proof -
  from assms(3) have "\<not> names_mark ms" by (simp add: descriptor_names)
  with assms members_writeI [OF assms(1)] eval_members_agree [OF assms(1)] show ?thesis
    by (auto simp: blind_def object_writes_def names_mark_def)
qed

lemma mark_masks_other: "\<not> (length ms = 1 \<and> fst (hd ms) = ''&'') \<Longrightarrow> mark_masks ms = None"
  by (auto simp: mark_masks_def split: list.splits prod.splits json.splits)

lemma and_object: "ct_mark_descriptor [(''&'', v)] = Inr None" "map_of [(''&'', v)] ''xt'' = None"
  by (simp_all add: ct_mark_descriptor_def)

lemma blind_and:
  assumes "blind S v" "mark_masks [(''&'', v)] = None"
  shows "blind S (JObj [(''&'', v)])"
  using assms by (intro blind_object and_object) (simp_all add: blind_members_def)

lemma blind_masked:
  assumes "find_mark 0 No_mark vs = Inr (Mark_at i)" "check_masks (without_index i vs) = []" "2 \<le> length vs"
  shows "blind S (JObj [(''&'', JArr vs)])"
proof -
  from find_mark_at [OF assms(1)] have at: "length (filter plain_read vs) = 1"
    "filter (\<lambda>v. \<not> plain_read v) vs = without_index i vs" by auto
  from check_masks_constants [OF assms(2)] obtain cs where
    cs: "those (map mask_constant (without_index i vs)) = Some cs" "length cs = length (without_index i vs)"
      "\<forall>c \<in> set cs. c AND mark_mask = 0" by blast
  have len: "length vs = length (filter plain_read vs) + length (without_index i vs)"
    using sum_length_filter_compl [of plain_read vs] at(2) by simp
  have masks: "mark_masks [(''&'', JArr vs)] = Some cs"
    using at cs assms(3) by (simp add: mark_masks_def)
  have "cs \<noteq> []" using cs(2) len at(1) assms(3) by auto
  with masks agree_masks [OF _ _ cs(3)] show ?thesis
    by (auto simp: blind_def intro: arg_cong)
qed

declare inspect.simps [simp del] inspect_and.simps [simp del] inspect_mangle.simps [simp del]

lemma mangle_shape:
  assumes "inspect_mangle d n v = Inr ([], n')"
  obtains x y where "v = JObj [(''key'', x), (''value'', y)]"
proof (cases v)
  case (JObj ms)
  show ?thesis
  proof (cases "length ms = 2")
    case True
    then obtain a x b y where "ms = [(a, x), (b, y)]"
      by (auto simp: numeral_2_eq_2 length_Suc_conv)
    with assms JObj that show ?thesis
      by (simp add: inspect_mangle.simps split: if_splits)
  next
    case False
    then have "inspect_mangle d n v = Err (Errorf ''mangle expression must contain exactly key and value'' [])"
      by (cases ms; cases "tl ms"; cases "tl (tl ms)") (auto simp: JObj inspect_mangle.simps)
    with assms show ?thesis by simp
  qed
qed (use assms in \<open>simp_all add: inspect_mangle.simps\<close>)

lemma mangle_accepted:
  assumes "inspect_mangle d n (JObj [(''key'', x), (''value'', y)]) = Inr ([], n')"
  shows "ct_mark_descriptor_value x = Inr False \<and>
    (\<exists>m. inspect (Suc d) n x = Inr ([], m) \<and> inspect (Suc d) m y = Inr ([], n'))"
proof (cases "ct_mark_descriptor_value x")
  case (Inl e)
  with assms show ?thesis by (simp add: inspect_mangle.simps)
next
  case (Inr b)
  with assms show ?thesis
    by (cases b) (auto simp: inspect_mangle.simps bindE_eq_Ok)
qed

lemma inspect_blind:
  "inspect d n v = Inr ([], n') \<Longrightarrow> blind S v"
  "inspect_list d n vs = Inr ([], n') \<Longrightarrow> list_all (blind S) vs"
  "inspect_members d n ms = Inr ([], n') \<Longrightarrow> blind_members S ms"
  "inspect_and d n v = Inr ([], n') \<Longrightarrow> blind S (JObj [(''&'', v)])"
  "inspect_mangle d n v = Inr ([], n') \<Longrightarrow> blind S v \<and> \<not> mangles_mark v"
proof (induction d n v and d n vs and d n ms and d n v and d n v arbitrary: n' and n' and n' and n' and n'
    rule: inspect_inspect_list_inspect_members_inspect_and_inspect_mangle.induct)
  case (1 d n v)
  show ?case
  proof (cases v)
    case (JArr vs)
    then show ?thesis using 1 by (auto simp: inspect.simps intro!: blind_list split: if_splits)
  next
    case (JObj ms)
    show ?thesis
    proof (cases "length ms = 1 \<and> fst (hd ms) = ''&''")
      case True
      then obtain x where "ms = [(''&'', x)]" by (cases ms) auto
      with "1.prems" JObj "1.IH"(2) [of "[(''&'', x)]" n'] show ?thesis
        by (auto simp: inspect.simps split: if_splits)
    next
      case False
      with "1.prems" JObj obtain b where b: "ct_mark_descriptor ms = Inr b" "map_of ms ''xt'' = None"
        by (auto simp: inspect.simps bindE_eq_Ok split: if_splits)
      have "b = None"
        using "1.prems" JObj False b by (cases b) (auto simp: inspect.simps split: if_splits)
      moreover from this have "inspect_members (Suc d) (Suc n) ms = Inr ([], n')"
        using "1.prems" JObj False b by (auto simp: inspect.simps split: if_splits)
      ultimately show ?thesis
        using "1.IH"(3) [of ms n'] JObj False b "1.prems" mark_masks_other [OF False]
        by (auto intro!: blind_object simp: inspect.simps split: if_splits)
    qed
  qed auto
next
  case (4 d n)
  then show ?case by simp
next
  case (5 d n k v ms)
  then show ?case
    by (auto simp: bindE_eq_Ok split: if_splits)
next
  case (6 d n v)
  show ?case
  proof (cases "\<exists>vs. v = JArr vs \<and> 2 \<le> length vs")
    case True
    then obtain vs where v: "v = JArr vs" "2 \<le> length vs" by blast
    with "6.prems" obtain p where p: "find_mark 0 No_mark vs = Inr p"
      by (auto simp: inspect_and.simps bindE_eq_Ok)
    show ?thesis
    proof (cases p)
      case No_mark
      with p have "filter plain_read vs = []" by (simp add: find_mark_none)
      then have "mark_masks [(''&'', v)] = None" by (simp add: v(1) mark_masks_def)
      with 6 v p No_mark show ?thesis by (auto simp: inspect_and.simps intro!: blind_and blind_list)
    next
      case (Mark_at i)
      with "6.prems" v p show ?thesis by (auto simp: inspect_and.simps intro: blind_masked)
    next
      case Several
      with "6.prems" v p show ?thesis by (simp add: inspect_and.simps)
    qed
  next
    case False
    then have none: "mark_masks [(''&'', v)] = None"
      by (auto simp: mark_masks_def split: json.splits)
    from False "6.prems" have "inspect (Suc d) n v = Inr ([], n')"
      by (auto simp: inspect_and.simps split: json.splits)
    with "6.IH" False have "blind S v" by (cases v) auto
    then show ?thesis using none by (rule blind_and)
  qed
next
  case (7 d n v)
  from "7.prems" obtain x y where v: "v = JObj [(''key'', x), (''value'', y)]"
    by (rule mangle_shape)
  from mangle_accepted [OF "7.prems" [unfolded v]] obtain m where x: "ct_mark_descriptor_value x = Inr False"
    and parts: "inspect (Suc d) n x = Inr ([], m)" "inspect (Suc d) m y = Inr ([], n')"
    by blast
  have "blind S x"
    by (rule "7.IH"(1) [OF v refl refl refl refl refl _ _ parts(1)]) auto
  moreover have "blind S y"
    by (rule "7.IH"(2) [OF v refl refl refl refl refl _ parts(2)]) auto
  ultimately have "blind S x" "blind S y" by simp_all
  then show ?case
    using x by (auto simp: v mangles_mark_def mark_masks_other ct_mark_descriptor_def ct_mark_descriptor_value_def
        bindE_eq_Ok descriptor_names intro!: blind_object)
qed (auto simp: bindE_eq_Ok)

section \<open>The audit\<close>

lemma audit_rule_keeps:
  assumes "audit_rule st body = Inr st'"
  shows "fa_colliding (as_audit st) \<le> fa_colliding (as_audit st')"
  using assms
  by (auto simp: audit_rule_def Let_def split: sum.splits prod.splits if_splits json.splits)

lemma audit_rules_keep:
  "foldE audit_rule st bodies = Inr st' \<Longrightarrow> fa_colliding (as_audit st) \<le> fa_colliding (as_audit st')"
proof (induction bodies arbitrary: st)
  case (Cons b bodies)
  then obtain st1 where "audit_rule st b = Inr st1" "foldE audit_rule st1 bodies = Inr st'"
    by (auto split: sum.splits)
  with Cons.IH audit_rule_keeps show ?case using order_trans by blast
qed simp

lemma audit_rule_blind:
  assumes "audit_rule st body = Inr st'" "fa_colliding (as_audit st') = fa_colliding (as_audit st)"
  shows "\<exists>l e. decode_audit_rule body (Suc (as_ordinal st)) = Inr (l, e) \<and> (location_owned l \<or> blind S (decode_any e))"
  using assms inspect_blind(1)
  by (fastforce simp: audit_rule_def Let_def split: sum.splits prod.splits if_splits json.splits)

lemma audit_rules_blind:
  assumes "foldE audit_rule st bodies = Inr st'" "fa_colliding (as_audit st') = 0" "body \<in> set bodies"
  shows "\<exists>i l e. decode_audit_rule body i = Inr (l, e) \<and> (location_owned l \<or> blind S (decode_any e))"
  using assms
proof (induction bodies arbitrary: st)
  case (Cons b bodies)
  from Cons.prems(1) obtain st1 where st1: "audit_rule st b = Inr st1" "foldE audit_rule st1 bodies = Inr st'"
    by (auto split: sum.splits)
  with Cons.prems(2) have "fa_colliding (as_audit st1) = 0" "fa_colliding (as_audit st) = 0"
    using audit_rules_keep [OF st1(2)] audit_rule_keeps [OF st1(1)] by auto
  with Cons st1 audit_rule_blind [OF st1(1), where S = S] show ?case by auto
qed simp

lemma audit_passes:
  assumes "foreign_audit_from_json out = Inr a"
  obtains vs obs st where "ruleset_objects out = Inr vs" "audit_objects 0 vs = Inr obs"
    "foldE audit_rule \<lparr>as_audit = no_rules, as_first = None, as_nodes = 0, as_ordinal = 0\<rparr>
       (map snd (filter (\<lambda>x. fst x = ''rule'') obs)) = Inr st"
    "fa_colliding (as_audit st) = 0" "as_audit st = a"
  using assms
  by (auto simp: foreign_audit_from_json_def audit_ruleset_def collision_error_def bindE_eq_Ok
      split: sum.splits if_splits option.splits)

lemma map_of_rev_names: "map_of (rev ms) k = Some v \<Longrightarrow> k \<in> set (member_names ms)"
  by (auto simp: member_names_def dest!: map_of_SomeD intro: rev_image_eqI)

lemma audit_objects_member:
  "audit_objects i vs = Inr obs \<Longrightarrow> JObj ms \<in> set vs \<Longrightarrow> member ''rule'' ms = Some body \<Longrightarrow> (''rule'', body) \<in> set obs"
proof (induction vs arbitrary: i obs)
  case (Cons v vs)
  from Cons.prems(1) obtain x xs where x: "audit_object i v = Inr x" "audit_objects (Suc i) vs = Inr xs" "obs = x # xs"
    by (auto simp: bindE_eq_Ok)
  show ?case
  proof (cases "v = JObj ms")
    case True
    have "''rule'' \<in> set (member_names ms)" using Cons.prems(3) map_of_rev_names by (simp add: member_def)
    with x(1) True Cons.prems(3) have "x = (''rule'', body)"
      by (auto simp: audit_object_def sole_member_def members_def split: option.splits list.splits json.splits if_splits)
    with x(3) show ?thesis by simp
  next
    case False
    with Cons x show ?thesis by auto
  qed
qed simp

lemma audited_rule_parts:
  assumes "decode_audit_rule body i = Inr (l, e)"
  shows "\<exists>rs. body = JObj rs \<and> member ''expr'' rs = Some e \<and> member ''family'' rs = Some (JStr (rl_family l)) \<and>
    member ''table'' rs = Some (JStr (rl_table l))"
proof -
  have name: "member k rs = Some (JStr s)" if "require_string rs k = Inr s" for rs k s
    using that by (auto simp: require_string_def get_string_def bindE_eq_Ok split: option.splits json.splits if_splits sum.splits)
  show ?thesis
    using assms
    by (cases body) (auto simp: decode_audit_rule_def members_def bindE_eq_Ok require_string_def [of "[]"] member_def
        split: option.splits dest!: name)
qed

text \<open>C2. An audit that passes means that the reserved byte of the conntrack mark belongs to the firewall:
  every rule of the ruleset that is not in an owned table neither writes the mark nor depends on the reserved
  byte. Whatever the kernel makes of the other parts of a rule, its value is the same for two marks that
  differ in that byte only. The rules, their tables, the reads and writes of the mark and the constants are those of the
  JSON text, read off its shapes and not by the functions of the audit.\<close>

theorem foreign_rules_ignore_reserved_byte:
  assumes "foreign_audit_from_json out = Inr a" "json_decode out = Some (JObj doc)"
    "map_of (rev doc) ''nftables'' = Some (JArr vs)" "JObj ms \<in> set vs" "map_of (rev ms) ''rule'' = Some body"
  shows "\<exists>rs e family tbl. body = JObj rs \<and> map_of (rev rs) ''expr'' = Some e \<and>
    map_of (rev rs) ''family'' = Some (JStr family) \<and> map_of (rev rs) ''table'' = Some (JStr tbl) \<and>
    ((family, tbl) \<in> {(''inet'', ''nftfw_filter''), (''ip'', ''nftfw_nat''), (''ip6'', ''nftfw_filter6'')} \<or>
     \<not> writes_mark (decode_any e) \<and>
     (\<forall>m m'. m AND NOT 0xff000000 = m' AND NOT 0xff000000 \<longrightarrow> eval S m (decode_any e) = eval S m' (decode_any e)))"
proof -
  from audit_passes [OF assms(1)] obtain vs' obs st where
    st: "ruleset_objects out = Inr vs'" "audit_objects 0 vs' = Inr obs"
      "foldE audit_rule \<lparr>as_audit = no_rules, as_first = None, as_nodes = 0, as_ordinal = 0\<rparr>
       (map snd (filter (\<lambda>x. fst x = ''rule'') obs)) = Inr st" "fa_colliding (as_audit st) = 0"
    by metis
  from st(1) assms(2,3) have "vs' = vs" by (auto simp: ruleset_objects_def member_def split: if_splits)
  with st(2) assms(4,5) have "(''rule'', body) \<in> set obs" using audit_objects_member by (simp add: member_def)
  then have "body \<in> set (map snd (filter (\<lambda>x. fst x = ''rule'') obs))" by force
  from audit_rules_blind [OF st(3,4) this, of S] obtain i l e where
    d: "decode_audit_rule body i = Inr (l, e)" and safe: "location_owned l \<or> blind S (decode_any e)" by blast
  from safe have "(rl_family l, rl_table l) \<in> {(''inet'', ''nftfw_filter''), (''ip'', ''nftfw_nat''), (''ip6'', ''nftfw_filter6'')} \<or>
     \<not> writes_mark (decode_any e) \<and>
     (\<forall>m m'. m AND NOT 0xff000000 = m' AND NOT 0xff000000 \<longrightarrow> eval S m (decode_any e) = eval S m' (decode_any e))"
    by (auto simp: location_owned_def owned_tables_def filter_table_def nat_table_def filter6_def blind_def agree_def mark_mask_def)
  with audited_rule_parts [OF d] show ?thesis unfolding member_def by blast
qed

text \<open>A foreign rule that matches the low byte of the mark, \<^verbatim>\<open>ct mark and 0xff == 1\<close>.\<close>

definition low_byte_expr :: json where
  "low_byte_expr = JArr [JObj [(''match'', JObj [(''op'', JStr ''==''),
     (''left'', JObj [(''&'', JArr [JObj [(''ct'', JObj [(''key'', JStr ''mark'')])], JNum ''255''])]),
     (''right'', JNum ''1'')])]]"

definition low_byte_rule :: json where
  "low_byte_rule = JObj [(''family'', JStr ''ip''), (''table'', JStr ''t''), (''chain'', JStr ''c''), (''expr'', low_byte_expr)]"

abbreviation low_byte_ruleset :: string where
  "low_byte_ruleset \<equiv>
     ''{\"nftables\":[{\"metainfo\":{\"json_schema_version\":1}},{\"rule\":{\"family\":\"ip\",\"table\":\"t\",\"chain\":\"c\",\"expr\":[{\"match\":{\"op\":\"==\",\"left\":{\"&\":[{\"ct\":{\"key\":\"mark\"}},255]},\"right\":1}}]}}]}''"

lemma low_byte_objects:
  "ruleset_objects low_byte_ruleset =
     Inr [JObj [(''metainfo'', JObj [(''json_schema_version'', JNum ''1'')])], JObj [(''rule'', low_byte_rule)]]"
  by code_simp

lemma low_byte_kinds:
  "audit_objects 0 [JObj [(''metainfo'', JObj [(''json_schema_version'', JNum ''1'')])], JObj [(''rule'', low_byte_rule)]] =
     Inr [(''metainfo'', JObj [(''json_schema_version'', JNum ''1'')]), (''rule'', low_byte_rule)]"
  by code_simp

lemma low_byte_decode:
  "decode_audit_rule low_byte_rule (Suc 0) =
     Inr (\<lparr>rl_family = ''ip'', rl_table = ''t'', rl_chain = ''c'', rl_handle = None, rl_ordinal = Suc 0\<rparr>, low_byte_expr)"
  "decode_any low_byte_expr =
    JArr [JObj [(''match'', JObj [(''left'', JObj [(''&'', JArr [JObj [(''ct'', JObj [(''key'', JStr ''mark'')])], JNum ''255''])]),
      (''op'', JStr ''==''), (''right'', JNum ''1'')])]]"
  by code_simp+

lemma bindE_case: "bindE m f = (case m of Inl e \<Rightarrow> Inl e | Inr x \<Rightarrow> f x)"
  by (cases m) simp_all

lemma decode_audit_rule_ordinal:
  "decode_audit_rule b i =
     (case decode_audit_rule b (Suc 0) of Inl e \<Rightarrow> Inl e | Inr (l, e) \<Rightarrow> Inr (l\<lparr>rl_ordinal := i\<rparr>, e))"
  unfolding decode_audit_rule_def bindE_case by (auto split: option.splits sum.splits)

lemma low_byte_mask: "check_masks [JNum ''255''] = []"
  by code_simp

lemma low_byte_inspect:
  "inspect 0 0 (decode_any low_byte_expr) = Inr ([], 6)"
  by (simp add: low_byte_decode(2) inspect.simps inspect_and.simps max_audit_nodes_def max_audit_depth_def
      ct_mark_descriptor_def canonical_ct_mark_read_def low_byte_mask without_index_def del: check_masks.simps)

abbreviation low_byte_location :: "nat \<Rightarrow> rule_location" where
  "low_byte_location i \<equiv> \<lparr>rl_family = ''ip'', rl_table = ''t'', rl_chain = ''c'', rl_handle = None, rl_ordinal = i\<rparr>"

lemma low_byte_foreign: "\<not> location_owned (low_byte_location i)"
  by (simp add: location_owned_def owned_tables_def nat_table_def)

lemma audit_rule_clean:
  assumes "decode_audit_rule body (Suc (as_ordinal st)) = Inr (l, JArr vs)" "\<not> location_owned l"
    "inspect 0 (as_nodes st) (decode_any (JArr vs)) = Inr ([], n)"
  shows "audit_rule st body = Inr (st\<lparr>as_ordinal := Suc (as_ordinal st), as_nodes := n,
    as_audit := (as_audit st)\<lparr>fa_foreign := Suc (fa_foreign (as_audit st))\<rparr>\<rparr>)"
  using assms by (simp add: audit_rule_def Let_def)

lemma low_byte_step:
  "audit_rule \<lparr>as_audit = no_rules, as_first = None, as_nodes = 0, as_ordinal = 0\<rparr> low_byte_rule =
     Inr \<lparr>as_audit = no_rules\<lparr>fa_foreign := Suc (fa_foreign no_rules)\<rparr>, as_first = None, as_nodes = 6, as_ordinal = Suc 0\<rparr>"
proof -
  obtain vs where e: "low_byte_expr = JArr vs" by (simp add: low_byte_expr_def)
  show ?thesis
    by (subst audit_rule_clean [where vs = vs, OF _ low_byte_foreign])
      (simp_all add: low_byte_decode(1) low_byte_inspect flip: e)
qed

lemma low_byte_audit: "foreign_audit_from_json low_byte_ruleset = Inr (no_rules\<lparr>fa_foreign := Suc (fa_foreign no_rules)\<rparr>)"
proof -
  have "fa_colliding no_rules = 0" by (simp add: no_rules_def)
  then show ?thesis
    by (simp add: foreign_audit_from_json_def audit_ruleset_def low_byte_objects low_byte_kinds max_nft_stdout_def
        low_byte_step collision_error_def del: audit_objects.simps)
qed

text \<open>Every value of the mark that an expression sees.\<close>

definition seen_marks :: "32 word list meaning" where
  "seen_marks = \<lparr>of_scalar = \<lambda>_. [], of_list = concat, of_object = \<lambda>ms. concat (map snd ms),
     of_mark = \<lambda>_ m. [m], of_masked = \<lambda>m. [m]\<rparr>"

lemma low_byte_document:
  "json_decode low_byte_ruleset = Some (JObj [(''nftables'', JArr
     [JObj [(''metainfo'', JObj [(''json_schema_version'', JNum ''1'')])], JObj [(''rule'', low_byte_rule)]])])"
  by code_simp

theorem foreign_rules_ignore_reserved_byte_witness:
  "eval seen_marks 0x21000001 (decode_any low_byte_expr) = eval seen_marks 0x00000001 (decode_any low_byte_expr)"
  using foreign_rules_ignore_reserved_byte [OF low_byte_audit low_byte_document, of _ "[(''rule'', low_byte_rule)]" low_byte_rule seen_marks]
  by (auto simp: low_byte_rule_def)

end
