(* ===== verification/Protocol.thy ===== *)
theory Protocol
  imports Reconcile
begin

text \<open>
  The life of a generation as an abstract protocol, and the frames of the store.
  \<^item> \<open>proto_step\<close>: the steps a store may take, on the status of every generation and the one that the
    enforcement pointer names; \<open>proto_ok\<close> is its invariant.
  \<^item> \<open>abs_store\<close> maps a store to the protocol, \<open>evolves\<close> is the simulation: a good store becomes a good
    store along protocol steps.
  \<^item> \<open>keeps\<close> is the frame of the many operations that touch neither the rows nor the files.
  \<^item> The rules \<open>wp_...\<close> say what a reading call tells about the store, and what a change of status does to
    the protocol.
\<close>

section \<open>The protocol of a generation\<close>

text \<open>What the store promises of its generations: the status of each and the one that the enforcement
  pointer names.\<close>

record proto =
  pr_status :: "nat \<Rightarrow> gen_status option"
  pr_published :: "nat option"

definition open_at :: "proto \<Rightarrow> nat \<Rightarrow> bool" where
  "open_at A i \<longleftrightarrow> (\<exists>s. pr_status A i = Some s \<and> open_status s)"

definition committed_at :: "proto \<Rightarrow> nat \<Rightarrow> bool" where
  "committed_at A i \<longleftrightarrow> pr_status A i = Some Committed"

definition move :: "nat \<Rightarrow> gen_status \<Rightarrow> proto \<Rightarrow> proto" where
  "move i s A = A\<lparr>pr_status := (pr_status A)(i \<mapsto> s)\<rparr>"

inductive proto_step :: "proto \<Rightarrow> proto \<Rightarrow> bool" where
  save: "\<forall>j. pr_status A j \<noteq> None \<longrightarrow> j < i \<Longrightarrow> \<forall>j. \<not> open_at A j \<Longrightarrow> proto_step A (move i Pending A)"
| apply_gen: "pr_status A i = Some Pending \<Longrightarrow> proto_step A (move i Applied A)"
| prepare: "pr_status A i = Some Applied \<Longrightarrow> proto_step A (move i CommitPrepared A)"
| publish: "pr_status A i = Some CommitPrepared \<Longrightarrow> proto_step A (A\<lparr>pr_published := Some i\<rparr>)"
| finalize: "pr_status A i = Some CommitPrepared \<Longrightarrow> pr_published A = Some i \<Longrightarrow> proto_step A (move i Committed A)"
| give_up: "open_at A i \<Longrightarrow> pr_published A \<noteq> Some i \<Longrightarrow> proto_step A (move i RolledBack A)"

inductive_cases proto_stepE: "proto_step A B"

text \<open>At most one generation is open and it is newer than what is committed; the pointer names the prepared
  generation or the newest committed one, and is absent before the first.\<close>

definition proto_ok :: "proto \<Rightarrow> bool" where
  "proto_ok A \<longleftrightarrow>
     (\<forall>i j. open_at A i \<longrightarrow> open_at A j \<longrightarrow> i = j) \<and>
     (\<forall>i j. open_at A i \<longrightarrow> committed_at A j \<longrightarrow> j < i) \<and>
     (case pr_published A of
        None \<Rightarrow> \<forall>j. \<not> committed_at A j
      | Some i \<Rightarrow> pr_status A i = Some CommitPrepared \<or> committed_at A i \<and> (\<forall>j. committed_at A j \<longrightarrow> j \<le> i))"

lemma move_simps [simp]:
  "pr_published (move i s A) = pr_published A"
  "pr_status (move i s A) j = (if j = i then Some s else pr_status A j)"
  "open_at (move i s A) j = (if j = i then open_status s else open_at A j)"
  "committed_at (move i s A) j = (if j = i then s = Committed else committed_at A j)"
  by (auto simp: move_def open_at_def committed_at_def)

lemma published_simps [simp]:
  "open_at (A\<lparr>pr_published := p\<rparr>) j = open_at A j" "committed_at (A\<lparr>pr_published := p\<rparr>) j = committed_at A j"
  by (auto simp: open_at_def committed_at_def)

lemma open_statuses [simp]:
  "open_status Pending" "open_status Applied" "open_status CommitPrepared" "\<not> open_status Committed" "\<not> open_status RolledBack"
  by (simp_all add: open_status_def)

lemma at_status: "pr_status A i = Some s \<Longrightarrow> open_at A i = open_status s \<and> committed_at A i = (s = Committed)"
  by (auto simp: open_at_def committed_at_def)

lemma proto_step_ok:
  assumes "proto_step A B" "proto_ok A"
  shows "proto_ok B"
  using assms
proof cases
  case (save i)
  with assms(2) show ?thesis
    by (auto simp: proto_ok_def committed_at_def open_at_def split: option.splits)
next
  case (apply_gen i)
  with assms(2) show ?thesis
    by (auto simp: proto_ok_def at_status committed_at_def open_at_def split: option.splits)
next
  case (prepare i)
  with assms(2) show ?thesis
    by (auto simp: proto_ok_def at_status committed_at_def open_at_def split: option.splits)
next
  case (publish i)
  with assms(2) show ?thesis
    by (auto simp: proto_ok_def)
next
  case (finalize i)
  with assms(2) at_status [OF finalize(2)] show ?thesis
    by (auto simp: proto_ok_def less_imp_le)
next
  case (give_up i)
  with assms(2) show ?thesis
    by (auto simp: proto_ok_def at_status committed_at_def open_at_def split: option.splits)
qed

lemma proto_path_ok: "proto_step\<^sup>*\<^sup>* A B \<Longrightarrow> proto_ok A \<Longrightarrow> proto_ok B"
  by (induction rule: rtranclp_induct) (auto intro: proto_step_ok)

text \<open>Committed and rolled back are final.\<close>

lemma proto_step_final:
  "proto_step A B \<Longrightarrow> s \<in> {Committed, RolledBack} \<Longrightarrow> pr_status A i = Some s \<Longrightarrow> pr_status B i = Some s"
  by (erule proto_stepE) (auto simp: open_at_def)

lemma proto_path_final:
  "proto_step\<^sup>*\<^sup>* A B \<Longrightarrow> s \<in> {Committed, RolledBack} \<Longrightarrow> pr_status A i = Some s \<Longrightarrow> pr_status B i = Some s"
  by (induction rule: rtranclp_induct) (auto intro: proto_step_final)

section \<open>The protocol in the store\<close>

definition status_at :: "('k, 'x) world \<Rightarrow> nat \<Rightarrow> gen_status option" where
  "status_at w i = map_option g_status (row_of i (gens (w_db w)))"

definition marker_pointer :: "disk \<Rightarrow> enforcement_pointer option" where
  "marker_pointer d = (case d_marker d of None \<Rightarrow> None | Some b \<Rightarrow> case parse_pointer b of Inl _ \<Rightarrow> None | Inr p \<Rightarrow> Some p)"

definition abs_store :: "('k, 'x) world \<Rightarrow> proto" where
  "abs_store w = \<lparr>pr_status = status_at w, pr_published = map_option ep_generation (marker_pointer (w_disk w))\<rparr>"

definition store_sound :: "('k, 'x) world \<Rightarrow> bool" where
  "store_sound w \<longleftrightarrow> distinct (map g_id (gens (w_db w))) \<and>
     (\<forall>b. d_marker (w_disk w) = Some b \<longrightarrow> (\<exists>g \<in> set (gens (w_db w)). parse_pointer b = Inr (row_pointer g)))"

definition store_good :: "('k, 'x) world \<Rightarrow> bool" where
  "store_good w \<longleftrightarrow> store_sound w \<and> proto_ok (abs_store w)"

definition evolves :: "('k, 'x) world \<Rightarrow> ('k, 'x) world \<Rightarrow> bool" where
  "evolves w w' \<longleftrightarrow> (store_good w \<longrightarrow> store_good w' \<and> proto_step\<^sup>*\<^sup>* (abs_store w) (abs_store w'))"

interpretation evolves: frame_order evolves
  by unfold_locales (auto simp: evolves_def)

text \<open>The rows but for the observed hash, and the files.\<close>

definition core :: "generation \<Rightarrow> generation" where
  "core g = g\<lparr>g_observed_hash := []\<rparr>"

definition keeps :: "('k, 'x) world \<Rightarrow> ('k, 'x) world \<Rightarrow> bool" where
  "keeps w w' \<longleftrightarrow> map core (gens (w_db w')) = map core (gens (w_db w)) \<and> w_disk w' = w_disk w"

interpretation keeps: frame_order keeps
  by unfold_locales (auto simp: keeps_def)

lemma core_fields:
  "core g = core h \<Longrightarrow> g_id g = g_id h \<and> g_status g = g_status h \<and> row_pointer g = row_pointer h \<and> g_previous g = g_previous h"
  by (cases g; cases h) (simp add: core_def row_pointer_def)

lemma core_projections [simp]:
  "g_id (core g) = g_id g" "g_status (core g) = g_status g" "row_pointer (core g) = row_pointer g"
  by (simp_all add: core_def row_pointer_def)

lemma row_of_map: "(\<And>g. g_id (f g) = g_id g) \<Longrightarrow> row_of i (map f gs) = map_option f (row_of i gs)"
  by (induction gs) (auto simp: row_of_def)

lemma row_of_core: "map_option core (row_of i gs) = row_of i (map core gs)"
  by (simp add: row_of_map)

lemma status_at_core: "status_at w i = map_option g_status (row_of i (map core (gens (w_db w))))"
  by (simp add: status_at_def row_of_map option.map_comp comp_def)

lemma keeps_status: "keeps w w' \<Longrightarrow> status_at w' i = status_at w i"
  by (simp add: status_at_core keeps_def)

lemma keeps_abs: "keeps w w' \<Longrightarrow> abs_store w' = abs_store w"
  by (auto simp: abs_store_def keeps_status fun_eq_iff) (simp add: keeps_def)

lemma store_sound_core:
  "store_sound w \<longleftrightarrow> distinct (map g_id (map core (gens (w_db w)))) \<and>
     (\<forall>b. d_marker (w_disk w) = Some b \<longrightarrow> (\<exists>g \<in> set (map core (gens (w_db w))). parse_pointer b = Inr (row_pointer g)))"
  by (simp add: store_sound_def comp_def)

lemma keeps_sound: "keeps w w' \<Longrightarrow> store_sound w' = store_sound w"
  unfolding store_sound_core keeps_def by simp

lemma keeps_good: "keeps w w' \<Longrightarrow> store_good w' = store_good w"
  by (simp add: store_good_def keeps_sound keeps_abs)

lemma keeps_evolves: "keeps w w' \<Longrightarrow> evolves w w'"
  by (simp add: evolves_def keeps_good keeps_abs)

lemma keeps_obeys_evolves: "obeys keeps m \<Longrightarrow> obeys evolves m"
  by (auto simp: obeys_def intro: keeps_evolves)

lemma keeps_row:
  assumes "keeps w w'" "row_of i (gens (w_db w')) = Some g"
  shows "\<exists>h. row_of i (gens (w_db w)) = Some h \<and> core h = core g"
proof -
  have "map_option core (row_of i (gens (w_db w))) = map_option core (row_of i (gens (w_db w')))"
    using assms(1) by (simp only: row_of_core keeps_def)
  with assms(2) show ?thesis by auto
qed

lemma row_of_Some: "row_of i gs = Some g \<Longrightarrow> g \<in> set gs \<and> g_id g = i"
  by (auto simp: row_of_def find_Some_iff)

lemma row_of_distinct: "distinct (map g_id gs) \<Longrightarrow> g \<in> set gs \<Longrightarrow> row_of (g_id g) gs = Some g"
  by (induction gs) (auto simp: row_of_def image_iff)

section \<open>What leaves the generations alone\<close>

lemma keeps_io: "obeys keeps (io env l)"
  by (auto simp: obeys_def io_def keeps_def split: prod.splits option.splits)

lemma keeps_time: "obeys keeps (time_now env)"
  by (auto simp: obeys_def time_now_def keeps_def split: prod.splits)

lemma keeps_exec:
  assumes "\<And>d v d'. f d = Inr (v, d') \<Longrightarrow> map core (gens d') = map core (gens d)"
  shows "obeys keeps (exec env l f)"
proof -
  have "obeys keeps (\<lambda>w. case f (w_db w) of Inl e \<Rightarrow> (Err e, w) | Inr (x, d) \<Rightarrow> (Ok x, w\<lparr>w_db := d\<rparr>))"
    using assms by (auto simp: obeys_def keeps_def split: sum.splits prod.splits)
  then show ?thesis
    unfolding exec_def by (intro keeps.frame_rules keeps_io)
qed

lemma keeps_query: "obeys keeps (query env l f)"
  unfolding query_def by (intro keeps.frame_rules keeps_io)

lemma keeps_in_tx:
  assumes "obeys keeps body"
  shows "obeys keeps (in_tx env body)"
  unfolding obeys_def
proof
  fix w
  let ?m = "thenP (io env ''BEGIN'') (bindP body (\<lambda>x. thenP (io env ''COMMIT'') (ret x)))"
  have "obeys keeps ?m" by (intro keeps.frame_rules keeps_io assms)
  then show "keeps w (snd (in_tx env body w))"
    using obeysD [of keeps ?m w]
    by (cases "?m w") (auto simp: in_tx_def keeps_def split: sum.splits)
qed

lemma keeps_sync: "obeys keeps (sync_database env)"
  unfolding sync_database_def by (intro keeps.frame_rules keeps_io)

lemma keeps_sql_audit: "sql_audit now actor event detail d = Inr (v, d') \<Longrightarrow> map core (gens d') = map core (gens d)"
  by (auto simp: sql_audit_def Let_def split: if_splits)

lemma keeps_audit: "obeys keeps (audit env actor event detail)"
  unfolding audit_def by (intro keeps.frame_rules keeps_time keeps_exec keeps_sql_audit)

lemma keeps_audit_durable: "obeys keeps (audit_durable env actor event detail)"
  unfolding audit_durable_def
  by (intro keeps.frame_rules keeps_in_tx keeps_time keeps_exec keeps_sync keeps_sql_audit)

lemma keeps_audit_now: "obeys keeps (audit_now env event detail)"
  unfolding audit_now_def by (intro keeps.frame_rules keeps_time keeps_exec keeps_sql_audit)

lemma keeps_audit_quietly: "obeys keeps (audit_quietly env event detail)"
  unfolding audit_quietly_def by (intro keeps.frame_rules keeps_audit)

lemmas keeps_base = keeps.frame_rules keeps_io keeps_time keeps_query keeps_sync keeps_audit keeps_audit_durable
  keeps_audit_now keeps_audit_quietly

lemma keeps_boot: "obeys keeps (current_boot_id env)"
  by (auto simp: obeys_def current_boot_id_def keeps_def Let_def split: prod.splits sum.splits)

lemma keeps_ledger: "obeys keeps (open_ledger env)"
  by (auto simp: obeys_def open_ledger_def keeps_def split: prod.splits)

lemma keeps_file: "obeys keeps (secure_active_file env l sel n)"
  unfolding secure_active_file_def by (intro keeps_base)

lemma keeps_read_pointer: "obeys keeps (read_enforcement_pointer env)"
  unfolding read_enforcement_pointer_def secure_active_directory_def by (intro keeps_base keeps_file)

lemma keeps_load: "obeys keeps (load_generation_snapshot env i)"
  unfolding load_generation_snapshot_def secure_active_directory_def secure_generations_directory_def
  by (intro keeps_base keeps_file)

lemma keeps_load_verified: "obeys keeps (load_verified_generation_snapshot env i)"
  unfolding load_verified_generation_snapshot_def validate_snapshot_provenance_def
  by (intro keeps_base keeps_load keeps_ledger)

lemma keeps_durable: "obeys keeps (ensure_published_generation_durable env p)"
  unfolding ensure_published_generation_durable_def by (intro keeps_base keeps_read_pointer keeps_load_verified)

lemma keeps_by_id: "obeys keeps (generation_by_id env i)"
  unfolding generation_by_id_def by (intro keeps_base)

lemma keeps_pending: "obeys keeps (pending_generation env)"
  unfolding pending_generation_def by (intro keeps_base)

lemma keeps_good_row: "obeys keeps (last_known_good env)"
  unfolding last_known_good_def by (intro keeps_base)

lemma keeps_expected: "obeys keeps (expected_generation env)"
  unfolding expected_generation_def
  by (intro keeps_base keeps_pending keeps_good_row keeps_read_pointer)

lemma keeps_deadline: "obeys keeps (prepared_deadline env i)"
  unfolding prepared_deadline_def by (intro keeps_base)

lemma keeps_script: "obeys keeps (read_script env g)"
  unfolding read_script_def secure_generations_directory_def by (intro keeps_base)

lemma keeps_require_pointer: "obeys keeps (require_pointer env p)"
  unfolding require_pointer_def by (intro keeps_base keeps_read_pointer)

lemma keeps_sql_generations:
  assumes "\<And>g. core (f g) = core g" "sql_generations P f d = Inr (v, d')"
  shows "map core (gens d') = map core (gens d)"
  using assms by (auto simp: sql_generations_def sql_update_def)

lemma keeps_set_hash: "obeys keeps (set_observed_hash env i h)"
  unfolding set_observed_hash_def change_generation_def one_row_def
  by (intro keeps_base keeps_exec, erule keeps_sql_generations [rotated]) (simp add: core_def)

section \<open>The kernel and the callbacks\<close>

lemma keeps_os_runner: "obeys keeps (os_runner env c)"
  by (auto simp: obeys_def os_runner_def keeps_def Let_def split: prod.splits)

lemma keeps_run_nft: "obeys keeps (run_nft env c msg)"
  unfolding run_nft_def by (intro keeps_base keeps_os_runner)

lemma keeps_list_owned: "obeys keeps (list_owned env)"
  unfolding list_owned_def by (intro keeps_base keeps_run_nft)

lemma keeps_existing: "obeys keeps (existing_owned env)"
  unfolding existing_owned_def by (intro keeps_base keeps_list_owned)

lemma keeps_set_protect: "obeys keeps (set_protect b)"
  by (simp add: obeys_def set_protect_def keeps_def)

lemma keeps_protect_first_use: "obeys keeps (protect_first_use_op env)"
  unfolding protect_first_use_op_def acquire_mutation_lock_def
  by (intro keeps_base keeps_existing keeps_set_protect)

lemma keeps_candidate: "obeys keeps (candidate_transaction env s)"
  unfolding candidate_transaction_def acquire_mutation_lock_def check_script_def temp_script_def Let_def
  by (intro keeps_base keeps_existing keeps_run_nft)

lemma keeps_apply: "obeys keeps (backend_apply env c s)"
  unfolding backend_apply_def temp_script_def
  by (intro keeps_base keeps_candidate keeps_run_nft keeps_set_protect)

lemma keeps_destroy: "obeys keeps (destroy_owned env c)"
  unfolding destroy_owned_def run_file_def temp_script_def acquire_mutation_lock_def Let_def
  by (intro keeps_base keeps_existing keeps_run_nft)

lemma keeps_integrity_tables: "obeys keeps (integrity_tables env ts)"
  by (induction ts) (auto intro!: keeps.frame_rules keeps_os_runner simp: integrity_table_def)

lemma keeps_integrity: "obeys keeps (integrity env)"
  unfolding integrity_def by (intro keeps_base keeps_existing keeps_integrity_tables)

lemma keeps_fingerprint_tables: "obeys keeps (fingerprint_tables env ts)"
  by (induction ts) (auto intro!: keeps.frame_rules keeps_os_runner)

lemma keeps_fingerprint: "obeys keeps (fingerprint env)"
  unfolding fingerprint_def by (intro keeps_base keeps_fingerprint_tables)

lemmas keeps_kernel = keeps_list_owned keeps_existing keeps_protect_first_use keeps_apply keeps_destroy
  keeps_integrity keeps_fingerprint

text \<open>The callbacks of the manager do not change generations and state files.\<close>

definition calm :: "('n, 'x) menv \<Rightarrow> bool" where
  "calm env \<longleftrightarrow>
     (\<forall>p. p \<in> {safe_guard env, safe_guard_locked env, foreign_mark_guard env, health_check env, post_restore env} \<longrightarrow>
        (case p of None \<Rightarrow> True | Some m \<Rightarrow> obeys keeps m))"

lemma calm_obeys:
  assumes "calm env"
  shows "safe_guard env = Some m \<Longrightarrow> obeys keeps m" "safe_guard_locked env = Some m \<Longrightarrow> obeys keeps m"
    "foreign_mark_guard env = Some m \<Longrightarrow> obeys keeps m" "health_check env = Some m \<Longrightarrow> obeys keeps m"
    "post_restore env = Some m \<Longrightarrow> obeys keeps m"
  using assms unfolding calm_def by (force split: option.splits)+

lemma keeps_option:
  assumes "\<And>x. oe = Some x \<Longrightarrow> obeys keeps (f x)" "obeys keeps m"
  shows "obeys keeps (case oe of None \<Rightarrow> m | Some x \<Rightarrow> f x)"
  using assms by (cases oe) auto

lemma keeps_guard: "calm env \<Longrightarrow> obeys keeps (audit_foreign_mark_ownership env)"
  unfolding audit_foreign_mark_ownership_def
  by (intro keeps_option keeps_base) (auto dest: calm_obeys)

lemma keeps_install: "calm env \<Longrightarrow> obeys keeps (install_owned_generation env c s)"
  unfolding install_owned_generation_def by (intro keeps_base keeps_guard keeps_kernel)

lemma keeps_record: "obeys keeps (record_fingerprint env i)"
  unfolding record_fingerprint_def by (intro keeps_base keeps_kernel keeps_set_hash)

lemma keeps_runtime: "calm env \<Longrightarrow> obeys keeps (restore_runtime_or_deny env c)"
  unfolding restore_runtime_or_deny_def
  by (intro keeps_option keeps.obeys_elseP keeps_base keeps_kernel) (auto dest: calm_obeys)

lemma keeps_restore: "calm env \<Longrightarrow> obeys keeps (restore env c g)"
  unfolding restore_def by (intro keeps_base keeps_kernel keeps_script keeps_install keeps_record keeps_runtime)

lemma keeps_lock: "obeys keeps (acquire_process_lock env c)"
  unfolding acquire_process_lock_def take_mutation_lock_def by (intro keeps_base)

lemma keeps_validate: "obeys keeps (validate_generation_snapshot env g s p)"
  unfolding validate_generation_snapshot_def script_agrees_def by (intro keeps_base keeps_script keeps_by_id)

lemma keeps_predecessor: "obeys keeps (rollback_predecessor env g s)"
  unfolding rollback_predecessor_def by (intro keeps_base keeps_by_id keeps_durable keeps_validate)

lemma keeps_stale: "obeys keeps (pending_is_stale env g)"
  unfolding pending_is_stale_def by (intro keeps_base keeps_boot)

lemma keeps_established: "obeys keeps (already_established env g)"
  unfolding already_established_def by (intro keeps_base keeps_kernel)

lemma keeps_establish: "calm env \<Longrightarrow> obeys keeps (establish_and_verify env c g s)"
  unfolding establish_and_verify_def
  by (intro keeps_base keeps_guard keeps_established keeps_install keeps_kernel)

lemma keeps_preflight: "calm env \<Longrightarrow> obeys keeps (preflight_safe_apply env c)"
  unfolding preflight_safe_apply_def by (auto split: option.splits intro!: keeps.frame_rules dest: calm_obeys)

lemma keeps_no_pending: "obeys keeps (require_no_pending env)"
  unfolding require_no_pending_def by (intro keeps_base keeps_pending)

lemma keeps_previous: "obeys keeps (previous_or_first_use env)"
  unfolding previous_or_first_use_def by (intro keeps_base keeps_good_row keeps_kernel)

lemma keeps_apply_deadline: "obeys keeps (apply_deadline env safe)"
  unfolding apply_deadline_def by (intro keeps_base)

lemmas keeps_reads = keeps_base keeps_boot keeps_read_pointer keeps_load keeps_load_verified keeps_durable keeps_by_id
  keeps_pending keeps_good_row keeps_expected keeps_deadline keeps_script keeps_require_pointer keeps_set_hash
  keeps_kernel keeps_record keeps_lock keeps_validate keeps_predecessor keeps_stale keeps_established keeps_no_pending
  keeps_previous keeps_apply_deadline

lemmas keeps_callbacks = keeps_guard keeps_install keeps_runtime keeps_restore keeps_establish keeps_preflight

section \<open>Sequences\<close>

lemma wp_keep:
  assumes "obeys keeps m" "keeps w0 w" "\<And>x v. keeps w0 v \<Longrightarrow> Q x v" "\<And>e v. keeps w0 v \<Longrightarrow> E e v"
  shows "wp m Q E w"
  by (intro wpI; rule assms(3,4), rule keeps.frame_trans [OF assms(2)], erule obeys_run [OF assms(1)])

lemma wp_evolve:
  assumes "obeys evolves m" "evolves w0 w" "\<And>x v. evolves w0 v \<Longrightarrow> Q x v" "\<And>e v. evolves w0 v \<Longrightarrow> E e v"
  shows "wp m Q E w"
  by (intro wpI; rule assms(3,4), rule evolves.frame_trans [OF assms(2)], erule obeys_run [OF assms(1)])

text \<open>A program evolves the store when it does so from every good store.\<close>

lemma evolvesI:
  assumes "\<And>w. store_good w \<Longrightarrow> wp m (\<lambda>_. evolves w) (\<lambda>_. evolves w) w"
  shows "obeys evolves m"
  unfolding obeys_def
proof
  fix w
  show "evolves w (snd (m w))"
    using assms [of w] by (cases "store_good w"; cases "m w"; cases "fst (m w)") (auto simp: wp_def evolves_def)
qed

text \<open>What a reading call tells about the store.\<close>

definition row_like :: "('k, 'x) world \<Rightarrow> nat \<Rightarrow> generation \<Rightarrow> bool" where
  "row_like w i g \<longleftrightarrow> (\<exists>h. row_of i (gens (w_db w)) = Some h \<and> core h = core g)"

lemma row_like_keeps: "keeps w w' \<Longrightarrow> row_like w' i g \<Longrightarrow> row_like w i g"
  by (auto simp: row_like_def dest!: keeps_row)

lemma row_like_status: "row_like w i g \<Longrightarrow> status_at w i = Some (g_status g) \<and> g_id g = i"
proof -
  assume "row_like w i g"
  then obtain h where "row_of i (gens (w_db w)) = Some h" "core h = core g"
    by (auto simp: row_like_def)
  then show ?thesis
    using core_fields [of h g] row_of_Some [of i _ h] by (simp add: status_at_def)
qed

lemma keeps_ext [simp]: "keeps w0 (w\<lparr>w_ext := x\<rparr>) = keeps w0 w"
  by (simp add: keeps_def)

lemma row_like_ext [simp]: "row_like (w\<lparr>w_ext := x\<rparr>) i g = row_like w i g"
  by (simp add: row_like_def)

lemma scan_row_Ok: "scan_row r = Inr g \<Longrightarrow> r = Some g"
  by (auto simp: scan_row_def scan_generation_def split: option.splits if_splits)

lemma wp_by_id:
  assumes "keeps w0 w" "\<And>g v. keeps w0 v \<Longrightarrow> row_like w0 i g \<Longrightarrow> sql_arg i = None \<Longrightarrow> Q g v" "\<And>e v. keeps w0 v \<Longrightarrow> E e v"
  shows "wp (generation_by_id env i) Q E w"
  unfolding generation_by_id_def using assms(1)
  by (auto intro!: wp_query assms(2,3) row_like_keeps [OF assms(1)] simp: row_like_def
      dest!: scan_row_Ok split: option.splits)

lemma newest_Some: "newest P gs = Some g \<Longrightarrow> g \<in> set gs \<and> P g"
  by (induction gs arbitrary: g) (auto split: option.splits if_splits)

lemma newest_None: "newest P gs = None \<longleftrightarrow> (\<forall>g \<in> set gs. \<not> P g)"
  by (induction gs) (auto split: option.splits)

lemma good_row_like:
  assumes "store_sound w0" "keeps w0 w" "g \<in> set (gens (w_db w))"
  shows "row_like w0 (g_id g) g"
proof -
  have "store_sound w" using keeps_sound [OF assms(2)] assms(1) by simp
  then have "distinct (map g_id (gens (w_db w)))" by (simp add: store_sound_def)
  then show ?thesis
    using row_of_distinct [OF _ assms(3)] by (intro row_like_keeps [OF assms(2)]) (simp add: row_like_def)
qed

lemma wp_pending:
  assumes "store_sound w0" "keeps w0 w"
    and "\<And>g v. keeps w0 v \<Longrightarrow> row_like w0 (g_id g) g \<Longrightarrow> open_status (g_status g) \<Longrightarrow> Q g v"
    and "\<And>e v. keeps w0 v \<Longrightarrow> E e v"
  shows "wp (pending_generation env) Q E w"
  unfolding pending_generation_def using assms(2)
  by (auto intro!: wp_query assms(3,4) good_row_like [OF assms(1,2)] dest!: scan_row_Ok newest_Some)

lemma wp_read_pointer:
  assumes "keeps w0 w" "\<And>v. keeps w0 v \<Longrightarrow> marker_pointer (w_disk w0) = None \<Longrightarrow> d_marker (w_disk w0) = None \<Longrightarrow> Q None v"
    and "\<And>p v. keeps w0 v \<Longrightarrow> marker_pointer (w_disk w0) = Some p \<Longrightarrow> pointer_valid p \<Longrightarrow> Q (Some p) v"
    and "\<And>e v. keeps w0 v \<Longrightarrow> E e v"
  shows "wp (read_enforcement_pointer env) Q E w"
proof -
  have disk: "w_disk w = w_disk w0" using assms(1) by (simp add: keeps_def)
  have never: "\<not> errors_is (unsafe_file e) ErrNotExist" for e
    by (simp add: unsafe_file_def)
  show ?thesis
    unfolding read_enforcement_pointer_def secure_active_directory_def secure_active_file_def
    using assms(1) disk
    by (auto intro!: wp_io assms(2-) simp: marker_pointer_def never split: option.splits sum.splits)
qed

section \<open>Snapshots\<close>

definition snapshot_at :: "('x, 'z) env_scheme \<Rightarrow> ('k, 'x) world \<Rightarrow> nat \<Rightarrow> generation_snapshot \<Rightarrow> bool" where
  "snapshot_at env w i s \<longleftrightarrow>
     (\<exists>b. d_snapshots (w_disk w) i = Some b \<and> parse_snapshot env b = Inr s) \<and> sn_generation s = i"

lemma snapshot_at_unique: "snapshot_at env w i s \<Longrightarrow> snapshot_at env w i t \<Longrightarrow> s = t"
  unfolding snapshot_at_def by (metis option.inject sum.inject(2))

lemma snapshot_atI:
  "d_snapshots (w_disk w) i = Some b \<Longrightarrow> parse_snapshot env b = Inr s \<Longrightarrow> \<not> sn_generation s \<noteq> i \<Longrightarrow> snapshot_at env w i s"
  unfolding snapshot_at_def by blast

lemma snapshot_at_keeps: "keeps w w' \<Longrightarrow> snapshot_at env w' i s = snapshot_at env w i s"
  by (simp add: snapshot_at_def keeps_def)

lemma wp_file:
  assumes "keeps w0 w" "\<And>b v. keeps w0 v \<Longrightarrow> sel (w_disk w0) = Some b \<Longrightarrow> Q b v" "\<And>e v. keeps w0 v \<Longrightarrow> E e v"
  shows "wp (secure_active_file env l sel n) Q E w"
proof -
  have disk: "w_disk w = w_disk w0" using assms(1) by (simp add: keeps_def)
  show ?thesis
    unfolding secure_active_file_def using assms(1)
    by (auto intro!: wp_io assms(2,3) simp: disk split: option.splits)
qed

lemma wp_load:
  assumes "keeps w0 w" "\<And>s v. keeps w0 v \<Longrightarrow> snapshot_at env w0 i s \<Longrightarrow> Q s v" "\<And>e v. keeps w0 v \<Longrightarrow> E e v"
  shows "wp (load_generation_snapshot env i) Q E w"
  unfolding load_generation_snapshot_def secure_active_directory_def secure_generations_directory_def
  apply (simp only: wp_thenP wp_bindP wp_wrapP wp_check wp_refuseP wp_of_result wp_ret)
  apply (rule wp_keep [OF keeps_io assms(1)])
   apply (simp only: split: if_split)
   apply (intro conjI impI)
    apply (erule assms(3))
   apply (rule wp_keep [OF keeps_io], assumption)
    apply (rule wp_file, assumption)
     apply (simp only: split: sum.split option.split if_split)
     apply (intro conjI allI impI; (erule assms(3) | rule assms(2), assumption, rule snapshot_atI, assumption+))
    apply (erule assms(3))+
  done

lemma wp_load_verified:
  assumes "keeps w0 w" "\<And>s v. keeps w0 v \<Longrightarrow> snapshot_at env w0 i s \<Longrightarrow> Q s v" "\<And>e v. keeps w0 v \<Longrightarrow> E e v"
  shows "wp (load_verified_generation_snapshot env i) Q E w"
proof -
  have "obeys keeps (validate_snapshot_provenance env s)" for s
    unfolding validate_snapshot_provenance_def by (intro keeps_base keeps_ledger)
  then show ?thesis
    unfolding load_verified_generation_snapshot_def wp_bindP wp_thenP wp_ret
    by (intro wp_load [OF assms(1)] assms(3) wp_keep [of "validate_snapshot_provenance env _" w0] assms(2))
qed

text \<open>What the validation of a row against its snapshot has established.\<close>

lemma wp_validate:
  assumes "keeps w0 w"
    and "\<And>v. keeps w0 v \<Longrightarrow> \<not> row_mismatch env g s \<Longrightarrow> (sn_previous s = None \<longleftrightarrow> g_previous g = None) \<Longrightarrow> Q () v"
    and "\<And>e v. keeps w0 v \<Longrightarrow> E e v"
  shows "wp (validate_generation_snapshot env g s prepared) Q E w"
proof -
  have script: "obeys keeps (script_agrees env g s)"
    unfolding script_agrees_def by (intro keeps_base keeps_script)
  show ?thesis
    unfolding validate_generation_snapshot_def
    using assms(1)
    by (auto intro!: wp_keep [OF script] wp_keep [OF keeps_by_id] assms(2,3) split: option.splits)
qed

lemma matched_pointer:
  assumes "\<not> row_mismatch env g s"
  shows "snapshot_pointer env s = row_pointer g"
  using assms by (simp add: row_mismatch_def snapshot_pointer_def row_pointer_def)

lemma pointer_equal_iff: "pointer_equal p q \<longleftrightarrow> q = Some p"
  by (cases p) (auto simp: pointer_equal_def split: option.splits)

section \<open>Changing the status of a generation\<close>

definition retag :: "(generation \<Rightarrow> generation) \<Rightarrow> gen_status \<Rightarrow> bool" where
  "retag f t \<longleftrightarrow> (\<forall>g. g_id (f g) = g_id g \<and> row_pointer (f g) = row_pointer g \<and> g_status (f g) = t)"

lemma retags:
  "retag (g_status_update (\<lambda>_. t)) t" "retag committed_row Committed" "retag rolled_back_row RolledBack"
  "retag (prepared_row q now) CommitPrepared"
  by (simp_all add: retag_def committed_row_def rolled_back_row_def prepared_row_def row_pointer_def)

definition retagged :: "(generation \<Rightarrow> generation) \<Rightarrow> nat \<Rightarrow> (gen_status \<Rightarrow> bool) \<Rightarrow> generation list \<Rightarrow> generation list" where
  "retagged f i P gs = map (\<lambda>g. if g_id g = i \<and> P (g_status g) then f g else g) gs"

lemma retagged_sound:
  fixes w w' :: "('k, 'x) world"
  assumes "store_sound w" "retag f t" "gens (w_db w') = retagged f i P (gens (w_db w))"
    "d_marker (w_disk w') = d_marker (w_disk w)"
  shows "store_sound w'"
proof -
  have p: "row_pointer (if g_id g = i \<and> P (g_status g) then f g else g) = row_pointer g" for g
    using assms(2) by (simp add: retag_def)
  have ids: "map g_id (gens (w_db w')) = map g_id (gens (w_db w))"
    using assms(2,3) by (simp add: retagged_def retag_def)
  have ptrs: "row_pointer ` set (gens (w_db w')) = row_pointer ` set (gens (w_db w))"
    by (simp only: assms(3) retagged_def set_map image_image p)
  have sound: "store_sound v \<longleftrightarrow> distinct (map g_id (gens (w_db v))) \<and>
      (\<forall>b. d_marker (w_disk v) = Some b \<longrightarrow> parse_pointer b \<in> Inr ` (row_pointer ` set (gens (w_db v))))" for v :: "('k, 'x) world"
    by (auto simp: store_sound_def)
  show ?thesis
    using assms(1,4) unfolding sound ids ptrs by simp
qed

lemma retagged_status:
  assumes "retag f t" "gens (w_db w') = retagged f i P (gens (w_db w))"
  shows "status_at w' j =
    (case status_at w j of None \<Rightarrow> None | Some s \<Rightarrow> Some (if j = i \<and> P s then t else s))"
  unfolding status_at_def assms(2) retagged_def
  by (subst row_of_map) (use assms(1) in \<open>auto simp: retag_def dest: row_of_Some split: option.splits\<close>)

lemma retagged_abs:
  assumes "retag f t" "gens (w_db w') = retagged f i P (gens (w_db w))" "d_marker (w_disk w') = d_marker (w_disk w)"
  shows "abs_store w' =
    (case status_at w i of None \<Rightarrow> abs_store w | Some s \<Rightarrow> if P s then move i t (abs_store w) else abs_store w)"
  using assms(3)
  by (auto simp: abs_store_def move_def marker_pointer_def fun_eq_iff retagged_status [OF assms(1,2)]
      split: option.splits)

lemma retagged_evolves:
  assumes "retag f t" "gens (w_db w') = retagged f i P (gens (w_db w))" "d_marker (w_disk w') = d_marker (w_disk w)"
    and "\<And>s. store_good w \<Longrightarrow> status_at w i = Some s \<Longrightarrow> P s \<Longrightarrow> proto_step\<^sup>*\<^sup>* (abs_store w) (move i t (abs_store w))"
  shows "evolves w w'"
proof -
  have "proto_step\<^sup>*\<^sup>* (abs_store w) (abs_store w')" if "store_good w"
    using assms(4) [OF that] by (auto simp: retagged_abs [OF assms(1-3)] split: option.splits)
  then show ?thesis
    using retagged_sound [OF _ assms(1-3)] proto_path_ok
    by (auto simp: evolves_def store_good_def)
qed

lemma sql_retagged:
  "sql_generations (\<lambda>g. g_id g = i \<and> P (g_status g)) f d =
     Inr (length (filter (\<lambda>g. g_id g = i \<and> P (g_status g)) (gens d)), d\<lparr>gens := retagged f i P (gens d)\<rparr>)"
  by (simp add: sql_generations_def sql_update_def retagged_def)

lemma wp_change:
  assumes "\<And>n v. gens (w_db v) = retagged f i P (gens (w_db w)) \<Longrightarrow> w_disk v = w_disk w \<Longrightarrow>
      n = length (filter (\<lambda>g. g_id g = i \<and> P (g_status g)) (gens (w_db w))) \<Longrightarrow> Q n v"
    and "\<And>e v. keeps w v \<Longrightarrow> E e v"
  shows "wp (change_generation env l i P f) Q E w"
  unfolding change_generation_def
  by (auto intro!: wp_exec assms simp: sql_retagged keeps_def split: option.splits)

lemma status_step1:
  "status_at w i = Some Pending \<Longrightarrow> proto_step (abs_store w) (move i Applied (abs_store w))"
  "status_at w i = Some Applied \<Longrightarrow> proto_step (abs_store w) (move i CommitPrepared (abs_store w))"
  by (auto simp: abs_store_def intro: proto_step.apply_gen proto_step.prepare)

lemma evolve_mark_applied:
  fixes env :: "('x, 'z) env_scheme"
  shows "obeys (evolves :: ('k, 'x) world \<Rightarrow> _) (mark_applied env i)"
proof (rule evolvesI)
  fix w :: "('k, 'x) world"
  have tail: "wp (thenP (wrapP g (one_row env n)) (sync_database env)) (\<lambda>_. evolves w) (\<lambda>_. evolves w) v"
    if "evolves w v" for g n and v :: "('k, 'x) world"
  proof -
    have "obeys (evolves :: ('k, 'x) world \<Rightarrow> _) (thenP (wrapP g (one_row env n)) (sync_database env))"
      unfolding one_row_def by (intro keeps_obeys_evolves keeps_base)
    from wp_evolve [OF this that] show ?thesis by simp
  qed
  show "wp (mark_applied env i) (\<lambda>_. evolves w) (\<lambda>_. evolves w) w"
    unfolding mark_applied_def wp_bindP
    by (rule wp_change, rule tail, erule retagged_evolves [OF retags(1)])
      (auto intro: keeps_evolves status_step1)
qed

end
