(* ===== verification/Store_Protocol.thy ===== *)
theory Store_Protocol
  imports Protocol
begin

text \<open>
  The operations of the store that are steps of the protocol: giving a generation up, finalizing, preparing,
  publishing and saving one, each with the condition under which it is such a step.
\<close>

section \<open>Rolling a generation back\<close>

lemma keeps_status_eq: "keeps w0 w \<Longrightarrow> abs_store w = abs_store w0 \<and> store_good w = store_good w0 \<and> status_at w i = status_at w0 i"
  by (simp add: keeps_abs keeps_good keeps_status)

lemma wp_change_then:
  assumes "keeps w0 w" "retag f t"
    and "\<And>s. store_good w0 \<Longrightarrow> status_at w0 i = Some s \<Longrightarrow> P s \<Longrightarrow> proto_step\<^sup>*\<^sup>* (abs_store w0) (move i t (abs_store w0))"
    and "\<And>n. obeys keeps (m n)"
    and "\<And>x v. evolves w0 v \<Longrightarrow> w_disk v = w_disk w0 \<Longrightarrow> Q x v" "\<And>e v. evolves w0 v \<Longrightarrow> w_disk v = w_disk w0 \<Longrightarrow> E e v"
  shows "wp (bindP (change_generation env l i P f) m) Q E w"
proof -
  have disk: "w_disk w = w_disk w0" using assms(1) by (simp add: keeps_def)
  have out: "evolves w0 u \<and> w_disk u = w_disk w0"
    if v: "gens (w_db v) = retagged f i P (gens (w_db w))" "w_disk v = w_disk w" and "keeps v u" for v u
  proof -
    have "evolves w v"
      using v assms(3) keeps_status_eq [OF assms(1), of i]
      by (intro retagged_evolves [where P = P and i = i, OF assms(2)]) metis+
    moreover have "evolves w0 w" "evolves v u" using assms(1) that(3) by (simp_all add: keeps_evolves)
    ultimately show ?thesis
      using evolves.frame_trans that(3) v(2) disk by (metis keeps_def)
  qed
  have quiet: "evolves w0 u \<and> w_disk u = w_disk w0" if "keeps w u" for u
    using keeps.frame_trans [OF assms(1) that] by (simp add: keeps_evolves) (simp add: keeps_def)
  show ?thesis
    unfolding wp_bindP
    by (rule wp_change; (rule wp_keep [OF assms(4) keeps.frame_refl])?)
      (use out quiet assms(5,6) in blast)+
qed

lemma status_abs: "pr_status (abs_store w) i = status_at w i"
  by (simp add: abs_store_def)

lemma give_up_path:
  assumes "store_good w" "status_at w i = Some s" "s \<notin> {Committed, RolledBack}" "pr_published (abs_store w) \<noteq> Some i"
  shows "proto_step\<^sup>*\<^sup>* (abs_store w) (move i RolledBack (abs_store w))"
  using assms(2-)
  by (intro r_into_rtranclp proto_step.give_up) (cases s; auto simp: open_at_def status_abs)+

lemma wp_mark_rolled_back:
  assumes "keeps w0 w" "status_at w0 i \<noteq> Some Committed" "pr_published (abs_store w0) \<noteq> Some i"
    and "\<And>v. evolves w0 v \<Longrightarrow> w_disk v = w_disk w0 \<Longrightarrow> Q () v" "\<And>e v. evolves w0 v \<Longrightarrow> w_disk v = w_disk w0 \<Longrightarrow> E e v"
  shows "wp (mark_rolled_back env i) Q E w"
  unfolding mark_rolled_back_def
  by (rule wp_change_then [OF assms(1) retags(3)])
    (use assms(2,3) in \<open>auto intro!: give_up_path keeps_base assms(4,5) simp: one_row_def\<close>)

text \<open>A generation that is pending or applied is not published.\<close>

lemma unprepared:
  assumes "store_good w" "status_at w i \<in> {Some Pending, Some Applied}"
  shows "pr_published (abs_store w) \<noteq> Some i" "status_at w i \<noteq> Some Committed"
  using assms by (auto simp: store_good_def proto_ok_def committed_at_def abs_store_def)

section \<open>Transactions\<close>

lemma wp_in_tx_disk:
  assumes "\<And>x. wp body (\<lambda>v w'. w_disk w' = w_disk w \<and> (\<forall>y. Q v (w'\<lparr>w_ext := y\<rparr>))) (\<lambda>_ w'. w_disk w' = w_disk w) (w\<lparr>w_ext := x\<rparr>)"
    and "\<And>e w'. w_db w' = w_db w \<Longrightarrow> w_disk w' = w_disk w \<Longrightarrow> E e w'"
  shows "wp (in_tx env body) Q E w"
proof -
  let ?m = "thenP (io env ''BEGIN'') (bindP body (\<lambda>x. thenP (io env ''COMMIT'') (ret x)))"
  obtain r v where run: "?m w = (r, v)" by fastforce
  have h: "wp ?m Q (\<lambda>_ w'. w_disk w' = w_disk w) w"
    by (auto intro!: wp_io wp_mono [OF assms(1)])
  show ?thesis unfolding wp_def in_tx_def run
    using h [unfolded wp_def run] assms(2) by (cases r) simp_all
qed

lemma wp_audit_now:
  assumes "\<And>v. keeps w v \<Longrightarrow> Q () v" "\<And>e v. keeps w v \<Longrightarrow> E e v"
  shows "wp (audit_now env event detail) Q E w"
  by (rule wp_keep [OF keeps_audit_now keeps.frame_refl]) (use assms in auto)

lemma wp_tx:
  assumes "keeps w0 w"
    and "\<And>v. keeps w0 v \<Longrightarrow> wp body (\<lambda>_ u. evolves w0 u \<and> w_disk u = w_disk w0) (\<lambda>_ u. w_disk u = w_disk w0) v"
    and "\<And>v. evolves w0 v \<Longrightarrow> Q () v" "\<And>e v. evolves w0 v \<Longrightarrow> E e v"
  shows "wp (thenP (in_tx env body) (sync_database env)) Q E w"
proof -
  have disk: "w_disk w = w_disk w0" using assms(1) by (simp add: keeps_def)
  have same: "evolves w0 v" if "w_db v = w_db w" "w_disk v = w_disk w" for v
    using keeps.frame_trans [OF assms(1), of v] that by (intro keeps_evolves) (simp add: keeps_def)
  have tail: "wp (sync_database env) Q E v" if "evolves w0 v" for v
    by (rule wp_evolve [OF keeps_obeys_evolves [OF keeps_sync] that]) (use assms(3,4) in auto)
  have ext: "evolves w0 (v\<lparr>w_ext := y\<rparr>)" if "evolves w0 v" for v y
    using evolves.frame_trans [OF that keeps_evolves] by (simp add: keeps_def)
  show ?thesis
    unfolding wp_thenP
  proof (rule wp_in_tx_disk)
    fix x
    show "wp body (\<lambda>v w'. w_disk w' = w_disk w \<and> (\<forall>y. wp (sync_database env) Q E (w'\<lparr>w_ext := y\<rparr>)))
        (\<lambda>_ w'. w_disk w' = w_disk w) (w\<lparr>w_ext := x\<rparr>)"
      by (rule wp_mono [OF assms(2)]) (use assms(1) in \<open>auto simp: disk intro!: tail ext\<close>)
  qed (auto intro: assms(4) same)
qed

lemma wp_recovery_rollback:
  assumes "keeps w0 w" "pr_published (abs_store w0) \<noteq> Some i"
    and "\<And>v. evolves w0 v \<Longrightarrow> Q () v" "\<And>e v. evolves w0 v \<Longrightarrow> E e v"
  shows "wp (finalize_recovery_rollback env i detail) Q E w"
  unfolding finalize_recovery_rollback_def
proof (rule wp_tx [where Q = Q and E = E, OF assms(1) _ assms(3,4)])
  fix v
  assume "keeps w0 v"
  then show "wp (bindP (change_generation env ''UPDATE rolled_back'' i open_status rolled_back_row)
      (\<lambda>n. thenP (wrapP (Wrapf ''finalize recovered generation rollback: %w'' []) (one_row env n))
        (audit_now env ''generation_recovery_rolled_back'' detail)))
    (\<lambda>_ u. evolves w0 u \<and> w_disk u = w_disk w0) (\<lambda>_ u. w_disk u = w_disk w0) v"
    by (rule wp_change_then [OF _ retags(3)])
      (use assms(2) in \<open>auto intro!: give_up_path keeps_base simp: one_row_def open_status_def\<close>)
qed

section \<open>Committing\<close>

lemma others_closed:
  assumes "store_good w" "status_at w i = Some CommitPrepared" "g \<in> set (gens (w_db w))"
  shows "\<not> (g_status g \<in> {Pending, Applied} \<and> g_id g \<noteq> i)"
proof
  assume g: "g_status g \<in> {Pending, Applied} \<and> g_id g \<noteq> i"
  have "row_of (g_id g) (gens (w_db w)) = Some g"
    using assms(1,3) by (intro row_of_distinct) (simp_all add: store_good_def store_sound_def)
  with g have "open_at (abs_store w) (g_id g)"
    by (auto simp: open_at_def abs_store_def status_at_def open_status_def)
  moreover have "open_at (abs_store w) i"
    using assms(2) by (auto simp: open_at_def abs_store_def)
  ultimately show False
    using assms(1) g unfolding store_good_def proto_ok_def by blast
qed

lemma wp_finalize_commit:
  assumes "keeps w0 w" "store_good w0" "status_at w0 i = Some CommitPrepared" "pr_published (abs_store w0) = Some i"
    and "\<And>v. evolves w0 v \<Longrightarrow> Q () v" "\<And>e v. evolves w0 v \<Longrightarrow> E e v"
  shows "wp (finalize_commit env i) Q E w"
proof -
  have path: "proto_step\<^sup>*\<^sup>* (abs_store w0) (move i Committed (abs_store w0))"
    using assms(3,4) by (auto intro!: proto_step.finalize simp: abs_store_def)
  show ?thesis
    unfolding finalize_commit_def
  proof (rule wp_tx [where Q = Q and E = E, OF assms(1) _ assms(5,6)])
    fix v
    assume v: "keeps w0 v"
    have noop: "map (\<lambda>g. if g_status g \<in> {Pending, Applied} \<and> g_id g \<noteq> i then g\<lparr>g_status := RolledBack\<rparr> else g) (gens (w_db v))
        = gens (w_db v)"
      using others_closed [of v i] assms(2,3) keeps_status_eq [OF v, of i]
      by (intro map_idI) auto
    let ?step = "bindP (change_generation env ''UPDATE committed'' i (\<lambda>s. s = CommitPrepared) committed_row)
        (\<lambda>n. thenP (wrapP (Wrapf ''finalize generation commit: %w'' []) (one_row env n))
           (audit_now env ''generation_committed'' (''generation='' @ itoa i)))"
    have step: "wp ?step (\<lambda>_ u. evolves w0 u \<and> w_disk u = w_disk w0) (\<lambda>_ u. w_disk u = w_disk w0) u" if "keeps w0 u" for u
      using that
      by (rule wp_change_then [OF _ retags(2)]) (use path in \<open>auto intro!: keeps_base simp: one_row_def\<close>)
    show "wp (thenP (check (sql_arg i)) (bindP (exec env ''UPDATE others'' (sql_generations
                 (\<lambda>g. g_status g \<in> {Pending, Applied} \<and> g_id g \<noteq> i) (g_status_update (\<lambda>_. RolledBack)))) (\<lambda>_. ?step)))
        (\<lambda>_ u. evolves w0 u \<and> w_disk u = w_disk w0) (\<lambda>_ u. w_disk u = w_disk w0) v"
    proof (rule wp_check_then)
      show "wp (bindP (exec env ''UPDATE others'' (sql_generations
                 (\<lambda>g. g_status g \<in> {Pending, Applied} \<and> g_id g \<noteq> i) (g_status_update (\<lambda>_. RolledBack)))) (\<lambda>_. ?step))
        (\<lambda>_ u. evolves w0 u \<and> w_disk u = w_disk w0) (\<lambda>_ u. w_disk u = w_disk w0) v"
        unfolding wp_bindP [of "exec _ _ _"]
        by (rule wp_exec, rule step) (use v noop in \<open>auto simp: sql_generations_def sql_update_def keeps_def\<close>)
    qed (use v in \<open>simp add: keeps_def\<close>)
  qed
qed

section \<open>Files that are not the marker\<close>

definition same_marks :: "('k, 'x) world \<Rightarrow> ('k, 'x) world \<Rightarrow> bool" where
  "same_marks w w' \<longleftrightarrow> map core (gens (w_db w')) = map core (gens (w_db w)) \<and> d_marker (w_disk w') = d_marker (w_disk w)"

interpretation same_marks: frame_order same_marks
  by unfold_locales (auto simp: same_marks_def)

lemma keeps_marks: "keeps w w' \<Longrightarrow> same_marks w w'"
  by (simp add: keeps_def same_marks_def)

lemma keeps_obeys_marks: "obeys keeps m \<Longrightarrow> obeys same_marks m"
  by (auto simp: obeys_def intro: keeps_marks)

lemma marks_status: "same_marks w w' \<Longrightarrow> status_at w' i = status_at w i"
  by (simp add: status_at_core same_marks_def)

lemma marks_abs: "same_marks w w' \<Longrightarrow> abs_store w' = abs_store w"
  by (auto simp: abs_store_def marks_status fun_eq_iff) (simp add: same_marks_def marker_pointer_def)

lemma marks_good: "same_marks w w' \<Longrightarrow> store_good w' = store_good w"
proof -
  assume m: "same_marks w w'"
  have "store_sound w' = store_sound w"
    using m unfolding store_sound_core same_marks_def by (simp only:)
  then show ?thesis by (simp add: store_good_def marks_abs [OF m])
qed

lemma marks_evolves: "same_marks w w' \<Longrightarrow> evolves w w'"
  by (simp add: evolves_def marks_good marks_abs)

lemma wp_marks:
  assumes "obeys same_marks m" "same_marks w0 w" "\<And>x v. same_marks w0 v \<Longrightarrow> Q x v" "\<And>e v. same_marks w0 v \<Longrightarrow> E e v"
  shows "wp m Q E w"
  by (intro wpI; rule assms(3,4), rule same_marks.frame_trans [OF assms(2)], erule obeys_run [OF assms(1)])

lemma marks_put: "(\<And>d. d_marker (f d) = d_marker d) \<Longrightarrow> obeys same_marks (put_disk f)"
  by (simp add: obeys_def put_disk_def same_marks_def)

lemmas marks_base = same_marks.frame_rules keeps_obeys_marks [OF keeps_io]

lemma marks_cancel: "obeys same_marks (cancel_prepared_pointer env)"
  unfolding cancel_prepared_pointer_def remove_file_def by (intro marks_base marks_put) simp

lemma evolve_cancel: "obeys evolves (cancel_prepared_pointer env)"
  using marks_cancel by (auto simp: obeys_def intro: marks_evolves)

lemma marks_write:
  "(\<And>d. d_marker (put d) = d_marker d) \<Longrightarrow> obeys same_marks (write_immutable env sel put)"
  unfolding write_immutable_def by (intro marks_base marks_put)

lemma marks_file: "obeys same_marks (secure_active_file env l sel n)"
  by (intro keeps_obeys_marks keeps_file)

lemma marks_snapshot: "obeys same_marks (write_generation_snapshot env s)"
  unfolding write_generation_snapshot_def secure_active_directory_def secure_generations_directory_def Let_def
  by (intro marks_base marks_file marks_write) simp

lemma marks_script: "obeys same_marks (save_script env i s)"
  unfolding save_script_def by (intro marks_base marks_file marks_write) simp

text \<open>The marker is absent: removing it changes nothing.\<close>

lemma keeps_clear:
  assumes "keeps w0 w" "d_marker (w_disk w0) = None" "\<And>v. keeps w0 v \<Longrightarrow> Q () v" "\<And>e v. keeps w0 v \<Longrightarrow> E e v"
  shows "wp (clear_active env) Q E w"
proof -
  have put: "wp (put_disk f) Q' E' v" if "keeps w0 v" "f (w_disk w0) = w_disk w0" "\<And>v. keeps w0 v \<Longrightarrow> Q' () v" for f Q' E' v
    using that by (auto simp: wp_def put_disk_def keeps_def)
  have gone: "(w_disk w0)\<lparr>d_marker := None\<rparr> = w_disk w0" using assms(2) by simp
  show ?thesis
    unfolding clear_active_def secure_active_directory_def remove_file_def
    using assms(1)
    by (auto intro!: wp_io put assms(3,4) simp: gone split: sum.splits)
qed

section \<open>Preparing a commit\<close>

lemma retagged_row:
  assumes "retag f t" "row_of i gs = Some h" "P (g_status h)"
  shows "row_of i (retagged f i P gs) = Some (f h)"
  unfolding retagged_def
  by (subst row_of_map) (use assms row_of_Some [OF assms(2)] in \<open>auto simp: retag_def\<close>)

definition prepared_for :: "('k, 'x) world \<Rightarrow> nat \<Rightarrow> enforcement_pointer \<Rightarrow> bool" where
  "prepared_for w i p \<longleftrightarrow>
     (\<exists>h. row_of i (gens (w_db w)) = Some h \<and> g_status h = CommitPrepared \<and> row_pointer h = p)"

lemma prepared_core: "prepared_for w i p \<longleftrightarrow>
     (\<exists>h. row_of i (map core (gens (w_db w))) = Some h \<and> g_status h = CommitPrepared \<and> row_pointer h = p)"
  unfolding prepared_for_def row_of_core [symmetric] by auto

lemma prepared_marks: "same_marks w w' \<Longrightarrow> prepared_for w' i p = prepared_for w i p"
  by (simp add: prepared_core same_marks_def)

lemma prepared_status: "prepared_for w i p \<Longrightarrow> status_at w i = Some CommitPrepared \<and> ep_generation p = i"
  by (auto simp: prepared_for_def status_at_def row_pointer_def dest: row_of_Some)

lemma snapshot_sums:
  assumes "snapshot_at env w i s" "g_id g = i" "g_checksum g = ep_policy_sum (snapshot_pointer env s)"
    "g_snapshot_checksum g = ep_snapshot_sum (snapshot_pointer env s)"
  shows "row_pointer g = snapshot_pointer env s"
  using assms by (simp add: row_pointer_def snapshot_pointer_def snapshot_at_def)

lemma wp_prepare_commit:
  assumes "keeps w0 w" "snapshot_at env w0 i s"
    and "\<And>g v. evolves w0 v \<Longrightarrow> w_disk v = w_disk w0 \<Longrightarrow> prepared_for v i (snapshot_pointer env s) \<Longrightarrow>
           sql_arg i = None \<Longrightarrow> status_at w0 i = Some Applied \<Longrightarrow> Q g v"
    and "\<And>e v. evolves w0 v \<Longrightarrow> E e v"
  shows "wp (prepare_commit env i) Q E w"
proof -
  let ?p = "snapshot_pointer env s"
  have quiet: "E e v" if "keeps w0 v" for e v using assms(4) that by (simp add: keeps_evolves)
  have step: "proto_step\<^sup>*\<^sup>* (abs_store w0) (move i CommitPrepared (abs_store w0))" if "status_at w0 i = Some Applied"
    using that by (auto intro!: proto_step.prepare simp: status_abs)
  have change: "wp (bindP (change_generation env l i (\<lambda>s. s = Applied) (prepared_row q now))
        (\<lambda>n. thenP (wrapP m (one_row env n)) (thenP (sync_database env) (generation_by_id env i)))) Q E v"
    if v: "keeps w0 v" and like: "row_like w0 i g" and g: "g_status g = Applied" "row_pointer g = ?p"
      and arg: "sql_arg i = None" for l q now m g v
  proof -
    have tail: "obeys keeps (thenP (wrapP m (one_row env n)) (thenP (sync_database env) (generation_by_id env i)))" for n m
      unfolding one_row_def by (intro keeps_base keeps_by_id)
    have applied: "status_at w0 i = Some Applied" using row_like_status [OF like] g(1) by simp
    have prep: "prepared_for u i ?p" if u: "gens (w_db u) = retagged (prepared_row q now) i (\<lambda>s. s = Applied) (gens (w_db v))" for u
    proof -
      from like obtain h0 where "row_of i (gens (w_db w0)) = Some h0" "core h0 = core g" by (auto simp: row_like_def)
      moreover have "keeps v w0" using v by (simp add: keeps_def)
      ultimately obtain h where h: "row_of i (gens (w_db v)) = Some h" "core h = core g"
        using keeps_row by metis
      with g core_fields [OF h(2)] have "g_status h = Applied" "row_pointer h = ?p" by auto
      with retagged_row [OF retags(4) h(1), of "\<lambda>s. s = Applied"] show ?thesis
        unfolding prepared_for_def u by (auto simp: prepared_row_def row_pointer_def)
    qed
    have ev: "evolves w0 u \<and> w_disk u = w_disk w0"
      if "gens (w_db u) = retagged (prepared_row q now) i (\<lambda>s. s = Applied) (gens (w_db v))" "w_disk u = w_disk v" for u
    proof -
      have "evolves v u"
        using that keeps_status_eq [OF v, of i] step
        by (intro retagged_evolves [where P = "\<lambda>s. s = Applied" and i = i, OF retags(4)]) auto
      then show ?thesis
        using evolves.frame_trans [OF keeps_evolves [OF v]] that(2) v by (simp add: keeps_def)
    qed
    show ?thesis
      unfolding wp_bindP
    proof (rule wp_change, goal_cases)
      case (1 n u)
      have ok: "evolves w0 x \<and> w_disk x = w_disk w0 \<and> prepared_for x i ?p" if x: "keeps u x" for x
        using ev [OF 1(1,2)] prep [OF 1(1)] evolves.frame_trans [OF _ keeps_evolves [OF x]] prepared_marks [OF keeps_marks [OF x]] x
        by (simp add: keeps_def)
      show ?case
        by (rule wp_keep [OF tail keeps.frame_refl]) (use ok arg applied assms(3,4) in blast)+
    next
      case (2 e u)
      then show ?case using quiet keeps.frame_trans [OF v] by blast
    qed
  qed
  show ?thesis
    unfolding prepare_commit_def Let_def wp_bindP [of "generation_by_id _ _"]
  proof (rule wp_by_id [OF assms(1)], goal_cases)
    case (1 g v)
    note g = row_like_status [OF 1(2)]
    have rest: "wp (bindP (time_now env) (\<lambda>now. thenP (check oe) (bindP (change_generation env l i (\<lambda>s. s = Applied) (prepared_row q now))
        (\<lambda>n. thenP (wrapP m (one_row env n)) (thenP (sync_database env) (generation_by_id env i)))))) Q E u"
      if "keeps w0 u" "g_status g = Applied" "row_pointer g = ?p" for oe l q m u
      unfolding wp_bindP [of "time_now _"]
      by (rule wp_keep [OF keeps_time that(1)])
        (auto intro!: wp_check_then change [OF _ 1(2) that(2,3) 1(3)] quiet simp del: wp_thenP wp_bindP)
    show ?case
      unfolding wp_thenP [of "refuseP _ _"] wp_refuseP
    proof (simp only: split: if_split, intro conjI impI)
      assume st: "\<not> g_status g \<noteq> Applied"
      show "wp (bindP (wrapP (Wrapf ''read immutable generation snapshot: %w'' []) (load_generation_snapshot env i)) (\<lambda>s.
          thenP (refuseP (g_checksum g \<noteq> ep_policy_sum (snapshot_pointer env s) \<or> g_snapshot_checksum g \<noteq> ep_snapshot_sum (snapshot_pointer env s))
               (Errorf ''generation database checksums disagree with immutable snapshot'' []))
          (bindP (time_now env) (\<lambda>now.
            thenP (check (case sn_previous s of None \<Rightarrow> None | Some q \<Rightarrow> sql_arg (ep_generation q)))
            (bindP (change_generation env ''UPDATE commit_prepared'' i (\<lambda>s. s = Applied) (prepared_row (sn_previous s) now)) (\<lambda>n.
              thenP (wrapP (Wrapf ''prepare generation commit: %w'' []) (one_row env n))
              (thenP (sync_database env) (generation_by_id env i))))))) ) Q E v"
        unfolding wp_bindP [of "wrapP _ _"] wp_wrapP
      proof (rule wp_load [OF 1(1)], goal_cases)
        case (1 s' u)
        then have s': "s' = s" using assms(2) by (metis snapshot_at_unique)
        show ?case
          using rest [OF 1(1)] st g snapshot_sums [OF assms(2), of g] 1(1)
          by (auto simp: s' simp del: wp_thenP [of "check _"] wp_bindP intro!: quiet)
      qed (rule quiet)
    qed (use 1 in \<open>auto intro: quiet\<close>)
  qed (rule quiet)
qed

section \<open>Publishing\<close>

lemma ascii_hex: "hex_decode s = Some bs \<Longrightarrow> ascii s"
proof (induction s arbitrary: bs rule: hex_decode.induct)
  case (3 a b s)
  then show ?case
    by (auto simp: ascii_def hex_val_def char_class_defs split: option.splits if_splits)
qed (auto simp: ascii_def)

lemma pointer_text:
  assumes "pointer_valid p" "sql_arg (ep_generation p) = None"
  shows "parse_pointer (encode_pointer p @ NL) = Inr p"
proof (rule parse_pointer_encode)
  show "ascii (ep_schema p)" using assms(1) by (simp add: pointer_valid_def pointer_schema_def ascii_def char_class_defs)
  show "ascii (ep_snapshot_sum p)" "ascii (ep_policy_sum p)"
    using assms(1) by (auto simp: pointer_valid_def valid_checksum_def intro: ascii_hex split: option.splits)
  show "ep_generation p < 2 ^ 64"
    using assms(2) by (simp add: sql_arg_def refuse_def max_int64_def split: if_splits)
qed

definition staged :: "('k, 'x) world \<Rightarrow> enforcement_pointer \<Rightarrow> bool" where
  "staged w p \<longleftrightarrow> d_temp (w_disk w) = Some (encode_pointer p @ NL) \<and> pointer_valid p"

lemma wp_prepare_pointer:
  assumes "same_marks w0 w" "\<And>v. same_marks w0 v \<Longrightarrow> staged v p \<Longrightarrow> Q () v" "\<And>e v. same_marks w0 v \<Longrightarrow> E e v"
  shows "wp (prepare_enforcement_pointer env p) Q E w"
proof -
  have put: "wp (put_disk (\<lambda>d. d\<lparr>d_temp := Some (encode_pointer p @ NL)\<rparr>)) Q E v"
    if "same_marks w0 v" "pointer_valid p" for v
    using that by (auto simp: wp_def put_disk_def same_marks_def staged_def intro!: assms(2))
  show ?thesis
    unfolding prepare_enforcement_pointer_def secure_active_directory_def
    using assms(1) by (auto intro!: wp_io put assms(3) simp: same_marks_def)
qed

lemma staged_keeps: "keeps w w' \<Longrightarrow> staged w' p = staged w p"
  by (simp add: keeps_def staged_def)

text \<open>The rename: the marker names the prepared row.\<close>

lemma publish_marker:
  assumes "store_good w" "prepared_for w i p" "parse_pointer b = Inr p"
    and "map core (gens (w_db v)) = map core (gens (w_db w))" "d_marker (w_disk v) = Some b"
  shows "evolves w v \<and> status_at v i = Some CommitPrepared \<and> pr_published (abs_store v) = Some i"
proof -
  have st: "status_at v j = status_at w j" for j by (simp add: status_at_core assms(4))
  have pub: "pr_published (abs_store v) = Some i"
    using assms(3,5) prepared_status [OF assms(2)] by (simp add: abs_store_def marker_pointer_def)
  then have ab: "abs_store v = (abs_store w)\<lparr>pr_published := Some i\<rparr>"
    by (simp add: abs_store_def fun_eq_iff st)
  from assms(2) obtain h where h: "row_of i (map core (gens (w_db v))) = Some h" "row_pointer h = p"
    by (auto simp: prepared_core assms(4))
  have "store_sound v"
    using assms(1,3,5) row_of_Some [OF h(1)] h(2)
    unfolding store_good_def store_sound_core assms(4) [symmetric] by auto
  moreover have "proto_step (abs_store w) (abs_store v)"
    unfolding ab by (rule proto_step.publish) (simp add: status_abs prepared_status [OF assms(2)])
  ultimately show ?thesis
    using assms(1) proto_step_ok pub prepared_status [OF assms(2)]
    by (auto simp: evolves_def store_good_def st)
qed

lemma wp_publish:
  assumes "store_good w0" "keeps w0 w" "staged w0 p" "prepared_for w0 i p" "sql_arg i = None"
    and "\<And>v. evolves w0 v \<Longrightarrow> status_at v i = Some CommitPrepared \<Longrightarrow> pr_published (abs_store v) = Some i \<Longrightarrow> Q () v"
    and "\<And>e v. evolves w0 v \<Longrightarrow> E e v"
  shows "wp (publish_prepared_pointer env p) Q E w"
proof -
  have st: "staged w p" using assms(3) staged_keeps [OF assms(2)] by simp
  have ptext: "parse_pointer (encode_pointer p @ NL) = Inr p"
    using assms(3,5) prepared_status [OF assms(4)] by (intro pointer_text) (auto simp: staged_def)
  let ?Q = "\<lambda>v. evolves w0 v \<and> status_at v i = Some CommitPrepared \<and> pr_published (abs_store v) = Some i"
  have tail: "wp (thenP (io env l) (io env l')) Q E u" if "?Q u" for l l' u
  proof -
    have kept: "?Q v" if "keeps u v" for v
      using \<open>?Q u\<close> evolves.frame_trans [OF _ keeps_evolves [OF that]] keeps_status_eq [OF that, of i] by auto
    have "obeys keeps (thenP (io env l) (io env l'))" by (intro keeps_base)
    then show ?thesis
    proof (rule wp_keep [OF _ keeps.frame_refl])
      show "Q x v" if "keeps u v" for x v
        using kept [OF that] assms(6) by simp
      show "E e v" if "keeps u v" for e v
        using kept [OF that] assms(7) by simp
    qed
  qed
  have quiet: "E e v" if "keeps w0 v" for e v using assms(7) that by (simp add: keeps_evolves)
  show ?thesis
    unfolding publish_prepared_pointer_def wp_bindP wp_getP wp_thenP [of "refuseP _ _"] wp_refuseP
  proof (simp only: split: if_split, intro conjI impI)
    show "wp (thenP (io env ''rename'') (thenP (put_disk (\<lambda>d. d\<lparr>d_marker := d_temp (w_disk w), d_temp := None\<rparr>))
        (thenP (io env ''sync pointer'') (io env ''sync directory'')))) Q E w"
      unfolding wp_thenP [of "io env ''rename''"]
    proof (rule wp_keep [OF keeps_io assms(2)])
      fix v
      assume v: "keeps w0 v"
      let ?u = "v\<lparr>w_disk := (w_disk v)\<lparr>d_marker := d_temp (w_disk w), d_temp := None\<rparr>\<rparr>"
      have "?Q ?u"
        using v st by (intro publish_marker [OF assms(1,4) ptext]) (simp_all add: keeps_def staged_def)
      from tail [OF this] show "wp (thenP (put_disk (\<lambda>d. d\<lparr>d_marker := d_temp (w_disk w), d_temp := None\<rparr>))
          (thenP (io env ''sync pointer'') (io env ''sync directory''))) Q E v"
        unfolding wp_thenP [of "put_disk _"] by (simp add: wp_def [of "put_disk _"] put_disk_def)
    qed (rule quiet)
  qed (use quiet assms(2) in auto)
qed

section \<open>Saving\<close>

lemma insert_evolves:
  assumes "store_good w" "\<forall>g \<in> set (gens (w_db w)). g_id g < g_id g0" "\<forall>g \<in> set (gens (w_db w)). \<not> open_status (g_status g)"
    and "g_status g0 = Pending" "gens (w_db v) = gens (w_db w) @ [g0]" "d_marker (w_disk v) = d_marker (w_disk w)"
  shows "evolves w v \<and> status_at v (g_id g0) = Some Pending"
proof -
  let ?i = "g_id g0"
  have "row_of j (gs @ [g0]) = (case row_of j gs of Some g \<Rightarrow> Some g | None \<Rightarrow> if j = ?i then Some g0 else None)" for j gs
    by (induction gs) (auto simp: row_of_def)
  then have row: "row_of j (gens (w_db v)) = (case row_of j (gens (w_db w)) of Some g \<Rightarrow> Some g | None \<Rightarrow> if j = ?i then Some g0 else None)" for j
    unfolding assms(5) .
  have new: "row_of ?i (gens (w_db w)) = None"
    using assms(2) by (auto simp: row_of_def find_None_iff)
  have st: "status_at v = (status_at w)(?i \<mapsto> Pending)"
    using assms(4) new by (auto simp: status_at_def row fun_eq_iff split: option.splits)
  have ab: "abs_store v = move ?i Pending (abs_store w)"
    using assms(6) by (simp add: abs_store_def move_def st marker_pointer_def)
  have "proto_step (abs_store w) (abs_store v)"
    unfolding ab
  proof (rule proto_step.save)
    show "\<forall>j. pr_status (abs_store w) j \<noteq> None \<longrightarrow> j < ?i"
      using assms(2) by (auto simp: status_abs status_at_def dest!: row_of_Some)
    show "\<forall>j. \<not> open_at (abs_store w) j"
      using assms(3) by (auto simp: open_at_def status_abs status_at_def dest!: row_of_Some)
  qed
  moreover have "store_sound v"
    using assms(1,2,6) by (fastforce simp: store_good_def store_sound_def assms(5))
  ultimately show ?thesis
    using assms(1) proto_step_ok by (auto simp: evolves_def store_good_def st)
qed

lemma wp_prior_pointer_marks: "obeys same_marks (prior_pointer env p)"
  unfolding prior_pointer_def by (intro keeps_obeys_marks keeps_base)

lemma wp_insert:
  assumes "store_good w0" "same_marks w0 w" "\<forall>g \<in> set (gens (w_db w0)). g_id g < g_id g0"
    "\<forall>g \<in> set (gens (w_db w0)). \<not> open_status (g_status g)" "g_status g0 = Pending"
    and "\<And>v. evolves w0 v \<Longrightarrow> status_at v (g_id g0) = Some Pending \<Longrightarrow> Q () v" "\<And>e v. evolves w0 v \<Longrightarrow> E e v"
  shows "wp (thenP (exec env l (sql_insert_generation g0)) (sync_database env)) Q E w"
proof -
  have core_set: "core ` set (gens (w_db w)) = core ` set (gens (w_db w0))"
    using assms(2) unfolding same_marks_def by (metis list.set_map)
  have old: "g_id g < g_id g0 \<and> \<not> open_status (g_status g)" if "g \<in> set (gens (w_db w))" for g
  proof -
    have "core g \<in> core ` set (gens (w_db w0))"
      unfolding core_set [symmetric] using that by (rule imageI)
    then obtain h where "h \<in> set (gens (w_db w0))" "core g = core h" by blast
    with assms(3,4) core_fields [of g h] show ?thesis by auto
  qed
  have good: "store_good w" using marks_good [OF assms(2)] assms(1) by simp
  have ev: "evolves w0 v \<and> status_at v (g_id g0) = Some Pending"
    if "gens (w_db v) = gens (w_db w) @ [g0]" "d_marker (w_disk v) = d_marker (w_disk w)" for v
    using insert_evolves [OF good _ _ assms(5) that] old evolves.frame_trans [OF marks_evolves [OF assms(2)]] by auto
  have quiet: "E e v" if "keeps w v" for e v
    using assms(7) evolves.frame_trans [OF marks_evolves [OF assms(2)] keeps_evolves [OF that]] .
  have tail: "wp (sync_database env) Q E v" if v: "evolves w0 v" "status_at v (g_id g0) = Some Pending" for v
  proof (rule wp_keep [OF keeps_sync keeps.frame_refl])
    show "Q x u" if "keeps v u" for x u
      using evolves.frame_trans [OF v(1) keeps_evolves [OF that]] keeps_status [OF that] v(2) assms(6) by simp
    show "E e u" if "keeps v u" for e u
      using evolves.frame_trans [OF v(1) keeps_evolves [OF that]] assms(7) by simp
  qed
  show ?thesis
    unfolding wp_thenP
    by (rule wp_exec)
      (auto simp: sql_insert_generation_def keeps_def split: if_splits option.splits intro!: tail quiet ev [THEN conjunct1] ev [THEN conjunct2])
qed

lemma wp_save:
  assumes "store_good w0" "keeps w0 w" "\<forall>g \<in> set (gens (w_db w0)). g_id g < i"
    "\<forall>g \<in> set (gens (w_db w0)). \<not> open_status (g_status g)"
    and "\<And>v. evolves w0 v \<Longrightarrow> status_at v i = Some Pending \<Longrightarrow> Q () v" "\<And>e v. evolves w0 v \<Longrightarrow> E e v"
  shows "wp (save_generation env i checksum script previous deadline md) Q E w"
proof -
  have quiet: "E e v" if "same_marks w0 v" for e v
    using assms(6) marks_evolves [OF that] .
  have row: "g_id (new_row env s previous deadline now) = i" "g_status (new_row env s previous deadline now) = Pending"
    if "sn_generation s = i" for s now
    using that by (simp_all add: new_row_def)
  have last: "wp (thenP (check oe) (thenP (exec env l (sql_insert_generation g0)) (sync_database env))) Q E v"
    if "same_marks w0 v" "g_id g0 = i" "g_status g0 = Pending" for oe l g0 v
    by (rule wp_check_then, rule wp_insert [OF assms(1) that(1)])
      (use that assms(3-6) quiet in auto)
  have start: "same_marks w0 w" using assms(2) by (rule keeps_marks)
  have prior: "obeys same_marks (case previous of None \<Rightarrow> ret None | Some p \<Rightarrow> bindP (prior_pointer env p) (\<lambda>q. ret (Some q)))"
    by (intro marks_base wp_prior_pointer_marks)
  show ?thesis
    unfolding save_generation_def Let_def secure_generations_directory_def
    apply (rule wp_check_then)
     apply (unfold wp_thenP [of "io _ _"] wp_thenP [of "save_script _ _ _"] wp_bindP)
     apply (rule wp_marks [OF keeps_obeys_marks [OF keeps_io] start])
      apply (rule wp_marks [OF marks_script], assumption)
       apply (rule wp_marks [OF prior], assumption)
        apply (rule wp_marks [OF marks_snapshot], assumption)
         apply (rule wp_marks [OF keeps_obeys_marks [OF keeps_time]], assumption)
          apply (rule last, assumption)
           apply (simp_all add: row quiet start)
    done
qed

end
