(* ===== verification/Manager_Protocol.thy ===== *)
theory Manager_Protocol
  imports Store_Protocol
begin

text \<open>
  The controller refines the protocol: every operation of \<^verbatim>\<open>src/internal/reconcile/manager.go\<close> and
  \<^verbatim>\<open>recovery.go\<close> \<open>evolves\<close> the store. What a function learns by reading (the row, the pointer, the immutable
  snapshot) discharges the condition of the step that it takes. The properties of every store that the
  controller can produce follow.
\<close>

section \<open>Rolling back\<close>

text \<open>The goal of every operation: the store evolves from \<open>w0\<close>.\<close>

abbreviation evolving :: "('k, 'x) world \<Rightarrow> (('k, 'x) world, 'a) prog \<Rightarrow> ('k, 'x) world \<Rightarrow> bool" where
  "evolving w0 m w \<equiv> wp m (\<lambda>_. evolves w0) (\<lambda>_. evolves w0) w"

lemma evolving_keep:
  assumes "obeys keeps m" "keeps w0 w" "\<And>x v. keeps w0 v \<Longrightarrow> evolving w0 (f x) v"
  shows "evolving w0 (bindP m f) w"
  unfolding wp_bindP by (rule wp_keep [OF assms(1,2)]) (use assms(3) keeps_evolves in blast)+

lemma evolving_keep_then:
  assumes "obeys keeps m" "keeps w0 w" "\<And>v. keeps w0 v \<Longrightarrow> evolving w0 k v"
  shows "evolving w0 (thenP m k) w"
  unfolding thenP_def by (rule evolving_keep [OF assms])

lemma evolving_keep_last: "obeys keeps m \<Longrightarrow> keeps w0 w \<Longrightarrow> evolving w0 m w"
  by (rule wp_keep) (auto intro: keeps_evolves)

lemma evolving_step:
  assumes "obeys evolves m" "evolves w0 w" "\<And>x v. evolves w0 v \<Longrightarrow> evolving w0 (f x) v"
  shows "evolving w0 (bindP m f) w"
  unfolding wp_bindP by (rule wp_evolve [OF assms])

lemma evolving_refuse: "keeps w0 w \<Longrightarrow> (\<not> b \<Longrightarrow> evolving w0 k w) \<Longrightarrow> evolving w0 (thenP (refuseP b e) k) w"
  by (simp add: keeps_evolves)

lemma evolving_wrap: "evolving w0 m w \<Longrightarrow> evolving w0 (wrapP g m) w"
  by simp

lemma evolving_if: "(b \<Longrightarrow> evolving w0 m w) \<Longrightarrow> (\<not> b \<Longrightarrow> evolving w0 n w) \<Longrightarrow> evolving w0 (if b then m else n) w"
  by simp

lemma marker_row:
  assumes "store_sound w" "row_like w i g" "pr_published (abs_store w) = Some i"
  shows "marker_pointer (w_disk w) = Some (row_pointer g)"
proof -
  from assms(3) obtain p where p: "marker_pointer (w_disk w) = Some p" "ep_generation p = i"
    by (auto simp: abs_store_def)
  then obtain b where b: "d_marker (w_disk w) = Some b" "parse_pointer b = Inr p"
    by (auto simp: marker_pointer_def split: option.splits sum.splits)
  with assms(1) obtain h where h: "h \<in> set (gens (w_db w))" "p = row_pointer h"
    by (auto simp: store_sound_def)
  with p(2) have "g_id h = i" by (simp add: row_pointer_def)
  then have "row_of i (gens (w_db w)) = Some h"
    using assms(1) h(1) row_of_distinct by (auto simp: store_sound_def)
  with assms(2) have "row_pointer h = row_pointer g"
    by (auto simp: row_like_def dest: core_fields)
  with h p show ?thesis by simp
qed

lemma not_published:
  assumes "store_good w" "row_like w i g" "open_status (g_status g)"
    and "g_status g = CommitPrepared \<Longrightarrow> marker_pointer (w_disk w) \<noteq> Some (row_pointer g)"
  shows "pr_published (abs_store w) \<noteq> Some i" "status_at w i \<noteq> Some Committed"
proof -
  have st: "status_at w i = Some (g_status g)" using row_like_status [OF assms(2)] by simp
  show "status_at w i \<noteq> Some Committed" using st assms(3) by (auto simp: open_status_def)
  show "pr_published (abs_store w) \<noteq> Some i"
    using assms(1,3,4) st unprepared(1) [OF assms(1), of i] marker_row [OF _ assms(2)]
    by (cases "g_status g") (auto simp: store_good_def)
qed

lemma wp_predecessor:
  assumes "keeps w0 w" "\<And>x v. keeps w0 v \<Longrightarrow> (x = None \<longrightarrow> g_previous g = None) \<Longrightarrow> Q x v" "\<And>e v. keeps w0 v \<Longrightarrow> E e v"
  shows "wp (rollback_predecessor env g s) Q E w"
proof (cases "g_previous g")
  case None
  then show ?thesis using assms by (simp add: rollback_predecessor_def)
next
  case (Some i)
  have "wp (rollback_predecessor env g s) (\<lambda>x v. x \<noteq> None \<and> keeps w0 v) (\<lambda>_. keeps w0) w"
    unfolding rollback_predecessor_def Some option.case wp_bindP [of "generation_by_id _ _"]
    by (rule wp_keep [OF keeps_by_id assms(1)])
      (auto intro!: wp_keep [OF keeps_durable] wp_keep [OF keeps_validate] split: option.splits)
  then show ?thesis
    by (rule wp_mono) (use assms Some in auto)
qed

lemma evolving_finish:
  assumes "calm env" "keeps w0 w" "status_at w0 i \<noteq> Some Committed" "pr_published (abs_store w0) \<noteq> Some i"
    "previous = None \<Longrightarrow> d_marker (w_disk w0) = None"
  shows "evolving w0 (finish_rollback env c i previous untouched) w"
proof -
  have tail: "evolving w0 (thenP (if previous = None then wrapP m (clear_active env) else ret ()) (audit env a b d)) v"
    if v: "evolves w0 v" "w_disk v = w_disk w0" for m a b d v
  proof -
    have more: "evolves w0 u" if "keeps v u" for u
      using evolves.frame_trans [OF v(1) keeps_evolves [OF that]] .
    have audit: "evolving w0 (audit env a b d) u" if "keeps v u" for u
      by (rule wp_keep [OF keeps_audit that]) (use more in auto)
    show ?thesis
    proof (cases previous)
      case None
      with assms(5) v(2) have "d_marker (w_disk v) = None" by simp
      then show ?thesis using None
        by (auto intro!: keeps_clear [OF keeps.frame_refl] audit more)
    next
      case Some
      then show ?thesis by (simp add: audit keeps.frame_refl)
    qed
  qed
  show ?thesis
    unfolding finish_rollback_def
    apply (rule evolving_keep_then [OF _ assms(2)])
     apply (intro keeps_base keeps_install keeps_kernel assms(1))
    apply (rule evolving_keep_then)
      apply (intro keeps_base keeps_runtime assms(1))
     apply assumption
    apply (unfold wp_thenP [of "mark_rolled_back _ _"])
    apply (rule wp_mark_rolled_back, assumption)
       apply (rule assms(3), rule assms(4), erule tail, assumption, assumption)
    done
qed

lemma evolving_rollback_open:
  assumes "calm env" "store_good w0" "row_like w0 i g" "open_status (g_status g)" "keeps w0 w"
  shows "evolving w0 (rollback_open env c i g) w"
  unfolding rollback_open_def wp_bindP [of "wrapP _ (load_verified_generation_snapshot _ _)"] wp_wrapP
proof (rule wp_load_verified [OF assms(5)], goal_cases)
  case (1 s v)
  show ?case
    unfolding wp_thenP [of "wrapP _ (validate_generation_snapshot _ _ _ _)"] wp_wrapP wp_bindP [of "read_enforcement_pointer _"]
  proof (rule wp_validate [OF 1(1)], goal_cases)
    case v: (1 v)
    have ptr: "snapshot_pointer env s = row_pointer g" by (rule matched_pointer [OF v(2)])
    have gid: "g_id g = i" "status_at w0 i = Some (g_status g)" using row_like_status [OF assms(3)] by auto
    have decide: "evolving w0
       (if g_status g = CommitPrepared \<and> pointer_equal (snapshot_pointer env s) current then
        thenP (wrapP (Wrapf ''finalize already-published generation %d: %w'' [itoa i]) (finalize_commit env i))
          (failp (Errorf ''generation %d commit pointer was already published'' [itoa i]))
      else
        thenP (refuseP (\<not> pointer_matches_previous (sn_previous s) current)
                 (first_or_later s ''pending first generation has an unexpected enforcement pointer''
                    ''pending generation predecessor pointer is ambiguous''))
        (let untouched = (g_previous g = None \<and> g_status g = Pending) in
         thenP (if untouched then
                  bindP (wrapP (Wrapf ''inspect ambiguous first-generation pending ownership: %w'' [])
                           (existing_owned env)) (\<lambda>existing.
                  refuseP (existing \<noteq> [])
                    (Errorf ''first-generation pending state has unverified product-named nft tables; refusing automatic deletion'' []))
                else ret ())
         (bindP (rollback_predecessor env g s) (\<lambda>previous.
          finish_rollback env c i previous untouched)))) u"
      if u: "keeps w0 u" and cur: "current = marker_pointer (w_disk w0)" "current = None \<longrightarrow> d_marker (w_disk w0) = None" for current u
    proof (rule evolving_if, goal_cases)
      case 1
      then have "marker_pointer (w_disk w0) = Some (row_pointer g)"
        using cur by (simp add: pointer_equal_iff ptr)
      then have "pr_published (abs_store w0) = Some i"
        by (simp add: abs_store_def row_pointer_def gid)
      then show ?case using 1 gid assms(2)
        unfolding wp_thenP wp_wrapP
        by (intro wp_finalize_commit [OF u]) simp_all
    next
      case 2
      have np: "pr_published (abs_store w0) \<noteq> Some i" "status_at w0 i \<noteq> Some Committed"
        by (rule not_published [OF assms(2-4)]; use 2 cur in \<open>simp add: pointer_equal_iff ptr\<close>)+
      show ?case
        unfolding Let_def
      proof (rule evolving_refuse [OF u], rule evolving_keep_then [OF _ u], goal_cases)
        case 1
        show ?case by (intro keeps_base keeps_kernel)
      next
        case (2 x)
        show ?case
          unfolding wp_bindP
        proof (rule wp_predecessor [OF 2(2)], goal_cases)
          case (1 previous y)
          show ?case
          proof (rule evolving_finish [OF assms(1) 1(1) np(2,1)])
            assume "previous = None"
            with 1(2) v(3) have "sn_previous s = None" by simp
            with 2(1) have "current = None" by (simp add: pointer_matches_previous_def)
            with cur(2) show "d_marker (w_disk w0) = None" by simp
          qed
        qed (rule keeps_evolves)
      qed
    qed
    show ?case
      by (rule wp_read_pointer [OF v(1)]) (use decide keeps_evolves in auto)
  qed (rule keeps_evolves)
qed (rule keeps_evolves)

lemma evolve_rollback_locked:
  fixes env :: "('n, 'x) menv"
  assumes "calm env"
  shows "obeys evolves (rollback_locked env c i)"
proof (rule evolvesI)
  fix w0 :: "('n, 'x) node"
  assume good: "store_good w0"
  show "evolving w0 (rollback_locked env c i) w0"
    unfolding rollback_locked_def
  proof (rule evolving_keep_then [OF keeps_guard [OF assms] keeps.frame_refl])
    fix v
    assume "keeps w0 v"
    then show "evolving w0 (bindP (generation_by_id env i) (\<lambda>g.
      if g_status g = RolledBack then ret () else thenP (check (open_or_refuse g)) (rollback_open env c i g))) v"
      unfolding wp_bindP [of "generation_by_id _ _"]
    proof (rule wp_by_id, goal_cases)
      case (1 g v)
      have "open_status (g_status g)" if "g_status g \<noteq> RolledBack" "open_or_refuse g = None"
        using that by (cases "g_status g") (simp_all add: open_or_refuse_def refuse_def)
      then show ?case
        by (intro evolving_if wp_check_then evolving_rollback_open [OF assms good 1(2) _ 1(1)])
          (use 1(1) keeps_evolves in auto)
    qed (rule keeps_evolves)
  qed
qed

section \<open>Committing\<close>

lemma wp_deadline_check:
  assumes "keeps w0 w" "\<And>late v. keeps w0 v \<Longrightarrow> Q late v" "\<And>e v. keeps w0 v \<Longrightarrow> E e v"
  shows "wp (case deadline of None \<Rightarrow> ret False | Some _ \<Rightarrow> bindP (time_now env) (\<lambda>now. ret (expired deadline now))) Q E w"
  by (rule wp_keep [OF _ assms(1)]) (auto intro!: keeps_base assms(2,3) split: option.splits)

lemma evolving_publish:
  fixes env :: "('n, 'x) menv"
  assumes "calm env" "store_good w0" "keeps w0 w" "staged w0 p" "prepared_for w0 i p" "sql_arg i = None"
  shows "evolving w0 (publish_or_rollback env c i p) w"
  unfolding publish_or_rollback_def
proof (rule evolving_keep [OF _ assms(3)], goal_cases)
  case 1
  show ?case by (intro keeps_base keeps_deadline)
next
  case (2 deadline v)
  show ?case
    unfolding wp_bindP [of "case_option _ _ _"]
  proof (rule wp_deadline_check [OF 2], goal_cases)
    case (1 late u)
    have late: "evolving w0
       (thenP (wrapP (Wrapf ''generation %d expired; cancel prepared pointer: %w'' [itoa i]) (cancel_prepared_pointer env))
       (thenP (wrapP (Wrapf ''generation %d expired and rollback failed: %w'' [itoa i]) (rollback_locked env c i))
          (failp (Errorf ''generation %d expired and was rolled back'' [itoa i])))) u"
      by (rule wp_evolve [OF _ keeps_evolves [OF 1]])
        (intro evolves.frame_rules evolve_cancel evolve_rollback_locked assms(1))
    have finish: "evolving w0 (wrapP g (finalize_commit env i)) x"
      if x: "evolves w0 x" "status_at x i = Some CommitPrepared" "pr_published (abs_store x) = Some i" for g x
    proof -
      have "store_good x" using x(1) assms(2) by (simp add: evolves_def)
      from wp_finalize_commit [OF keeps.frame_refl this x(2,3), of "\<lambda>_. evolves w0" "\<lambda>_. evolves w0"]
      show ?thesis using evolves.frame_trans [OF x(1)] by (simp add: wp_wrapP)
    qed
    show ?case
      using late finish
      by (auto intro!: wp_publish [OF assms(2) 1 assms(4-6)] simp del: wp_bindP)
  qed (rule keeps_evolves)
qed

lemma evolving_prepared:
  fixes env :: "('n, 'x) menv"
  assumes "calm env" "store_good w0" "prepared_for w0 i p" "sql_arg i = None"
  shows "evolving w0 (thenP (wrapP m (prepare_enforcement_pointer env p))
       (deferP (cancel_prepared_pointer env) (publish_or_rollback env c i p))) w0"
  unfolding wp_thenP wp_wrapP
proof (rule wp_prepare_pointer [OF same_marks.frame_refl], goal_cases)
  case (1 v)
  have "evolving v (publish_or_rollback env c i p) v"
    by (rule evolving_publish [OF assms(1) _ keeps.frame_refl 1(2) _ assms(4)])
      (use marks_good [OF 1(1)] prepared_marks [OF 1(1)] assms(2,3) in auto)
  then have ev: "evolving w0 (publish_or_rollback env c i p) v"
    by (rule wp_mono) (rule evolves.frame_trans [OF marks_evolves [OF 1(1)]], assumption)+
  have "evolving w0 (cancel_prepared_pointer env) x" if "evolves w0 x" for x
    by (rule wp_evolve [OF evolve_cancel that])
  with ev show ?case
    unfolding wp_deferP by (auto elim!: wp_mono)
qed (rule marks_evolves)

lemma evolve_commit_locked:
  fixes env :: "('n, 'x) menv"
  assumes "calm env"
  shows "obeys evolves (commit_locked env c i)"
proof (rule evolvesI)
  fix w0 :: "('n, 'x) node"
  assume good: "store_good w0"
  have prepared: "evolving w0 (thenP (wrapP m (prepare_enforcement_pointer env (snapshot_pointer env s)))
       (deferP (cancel_prepared_pointer env) (publish_or_rollback env c i (snapshot_pointer env s)))) v"
    if v: "evolves w0 v" "prepared_for v i (snapshot_pointer env s)" "sql_arg i = None" for m s v
  proof -
    have "store_good v" using v(1) good by (simp add: evolves_def)
    from evolving_prepared [OF assms this v(2,3)] show ?thesis
      by (rule wp_mono) (rule evolves.frame_trans [OF v(1)], assumption)+
  qed
  show "evolving w0 (commit_locked env c i) w0"
    unfolding commit_locked_def
  proof (rule evolving_keep [OF keeps_by_id keeps.frame_refl], rule evolving_refuse, assumption, goal_cases)
    case (1 g v)
    show ?case
      unfolding wp_bindP [of "wrapP _ (load_generation_snapshot _ _)"] wp_wrapP
    proof (rule wp_load [OF 1(1)], goal_cases)
      case (1 s v)
      show ?case
      proof (rule evolving_keep [OF keeps_read_pointer 1(1)], rule evolving_refuse, assumption,
          rule evolving_keep_then [OF keeps_guard [OF assms]], assumption, goal_cases)
        case (1 current v u)
        show ?case
          unfolding wp_bindP [of "wrapP _ (prepare_commit _ _)"] wp_wrapP
          by (rule wp_prepare_commit [OF 1(3) \<open>snapshot_at env w0 i s\<close>]) (auto intro: prepared simp del: wp_thenP)
      qed
    qed (rule keeps_evolves)
  qed
qed

lemma evolve_commit:
  assumes "calm env"
  shows "obeys evolves (commit env c i)"
  unfolding commit_def commit_expired_def commit_corrupt_def rollback_instead_def Let_def
  by (intro evolves.frame_rules evolve_rollback_locked evolve_commit_locked keeps_obeys_evolves [OF keeps_lock]
      keeps_obeys_evolves [OF keeps_pending] keeps_obeys_evolves [OF keeps_time] keeps_obeys_evolves [OF keeps_fingerprint] assms)

lemma evolve_rollback: "calm env \<Longrightarrow> obeys evolves (rollback env c i)"
  unfolding rollback_def by (intro evolves.frame_rules keeps_obeys_evolves [OF keeps_lock] evolve_rollback_locked)

section \<open>Applying\<close>

definition unprepared_at :: "('k, 'x) world \<Rightarrow> nat \<Rightarrow> bool" where
  "unprepared_at w i \<longleftrightarrow> store_good w \<and> status_at w i \<in> {Some Pending, Some Applied}"

lemma unprepared_keeps: "keeps w w' \<Longrightarrow> unprepared_at w' i = unprepared_at w i"
  using keeps_status_eq [of w w' i] by (simp add: unprepared_at_def)

lemma wp_mark_unprepared:
  assumes "keeps w0 w" "unprepared_at w0 i" "\<And>x v. evolves w0 v \<Longrightarrow> Q x v" "\<And>e v. evolves w0 v \<Longrightarrow> E e v"
  shows "wp (mark_rolled_back env i) Q E w"
proof -
  have "status_at w0 i \<noteq> Some Committed" "pr_published (abs_store w0) \<noteq> Some i"
    using assms(2) unprepared [of w0 i] by (simp_all add: unprepared_at_def)
  then show ?thesis by (rule wp_mark_rolled_back [OF assms(1)]) (use assms(3,4) in auto)
qed

text \<open>The handlers of a failure always end with an error.\<close>

lemma wp_recover_post:
  assumes "calm env" "keeps w0 w" "unprepared_at w0 i"
  shows "wp (recover_post_apply_failure env c i previous cause) Q (\<lambda>_. evolves w0) w"
  unfolding recover_post_apply_failure_def wp_thenP [of "wrapP _ (restore _ _ _)"] wp_wrapP
  by (rule wp_keep [OF keeps_restore [OF assms(1)] assms(2)])
    (auto intro!: wp_mark_unprepared [OF _ assms(3)] keeps_evolves)

lemma wp_recover_first:
  assumes "keeps w0 w" "unprepared_at w0 i"
  shows "wp (recover_first_apply_execution_failure env i cause) Q (\<lambda>_. evolves w0) w"
  unfolding recover_first_apply_execution_failure_def wp_bindP wp_wrapP
  by (rule wp_keep [OF keeps_existing assms(1)])
    (auto intro!: wp_mark_unprepared [OF _ assms(2)] keeps_evolves)

lemma wp_apply_failed:
  assumes "calm env" "keeps w0 w" "unprepared_at w0 i"
  shows "wp (apply_failed env c i previous e) Q (\<lambda>_. evolves w0) w"
proof -
  have mark: "wp (thenP (wrapP g (mark_rolled_back env i)) (failp e)) Q (\<lambda>_. evolves w0) v" if "keeps w0 v" for g v
    unfolding wp_thenP wp_wrapP by (rule wp_mark_unprepared [OF that assms(3)]) simp_all
  show ?thesis
    unfolding apply_failed_def Let_def wp_thenP [of "audit_quietly _ _ _"]
    by (rule wp_keep [OF keeps_audit_quietly assms(2)])
      (auto intro!: wp_recover_first wp_recover_post mark keeps_evolves assms split: option.splits simp del: wp_thenP)
qed

lemma evolve_health:
  assumes "calm env"
  shows "obeys evolves (apply_health env c i)"
  unfolding apply_health_def
proof (cases "health_check env")
  case (Some h)
  have h: "obeys evolves h" by (rule keeps_obeys_evolves [OF calm_obeys(4) [OF assms Some]])
  with Some show "obeys evolves (case health_check env of
        None \<Rightarrow> ret ()
      | Some h \<Rightarrow>
          elseP h
            (\<lambda>e. bindP (attempt (rollback_locked env c i)) (\<lambda>r.
                 thenP (audit_quietly env ''generation_health_failed'' (''generation='' @ itoa i))
                 (case r of
                    Inl re \<Rightarrow> failp (Wrapf ''candidate health check failed: %w; rollback also failed: %v'' [error_text env re] e)
                  | Inr _ \<Rightarrow> failp (Wrapf ''candidate health check failed and was rolled back: %w'' [] e))))
            ret)"
    by (simp) (intro evolves.frame_rules h evolve_rollback_locked assms keeps_obeys_evolves [OF keeps_audit_quietly])
qed (simp add: evolves.obeys_ret)

text \<open>A statement reports \<^verbatim>\<open>sql.ErrNoRows\<close> only when there is no row.\<close>

definition honest_sql :: "('x, 'z) env_scheme \<Rightarrow> bool" where
  "honest_sql env \<longleftrightarrow> (\<forall>l x e. fst (fault env l x) = Some e \<longrightarrow> \<not> errors_is e ErrNoRows)"

lemma none_open:
  assumes "keeps w0 w" "newest (\<lambda>g. open_status (g_status g)) (gens (w_db w)) = None"
  shows "\<forall>g \<in> set (gens (w_db w0)). \<not> open_status (g_status g)"
proof -
  have "\<forall>g \<in> core ` set (gens (w_db w)). \<not> open_status (g_status g)" using assms(2) by (simp add: newest_None)
  then have "\<forall>g \<in> core ` set (gens (w_db w0)). \<not> open_status (g_status g)"
    using assms(1) by (metis keeps_def list.set_map)
  then show ?thesis by simp
qed

lemma wp_io_cases:
  assumes "\<And>x. fault env l (w_ext w) = (None, x) \<Longrightarrow> Q () (w\<lparr>w_ext := x\<rparr>)"
    and "\<And>e x. fault env l (w_ext w) = (Some e, x) \<Longrightarrow> E e (w\<lparr>w_ext := x\<rparr>)"
  shows "wp (io env l) Q E w"
  using assms by (auto simp: wp_def io_def split: prod.splits option.splits)

lemma wp_no_pending:
  assumes "honest_sql env" "keeps w0 w"
    and "\<And>v. keeps w0 v \<Longrightarrow> \<forall>g \<in> set (gens (w_db w0)). \<not> open_status (g_status g) \<Longrightarrow> Q () v"
    and "\<And>e v. keeps w0 v \<Longrightarrow> E e v"
  shows "wp (require_no_pending env) Q E w"
proof -
  let ?P = "\<lambda>g. open_status (g_status g)"
  have scan: "\<not> errors_is e ErrNoRows" if "scan_row (Some g) = Inl e" for g e
    using that by (auto simp: scan_row_def scan_generation_def split: if_splits)
  show ?thesis
    unfolding require_no_pending_def wp_elseP pending_generation_def query_def wp_thenP
  proof (rule wp_io_cases, goal_cases)
    case (1 x)
    have "keeps w0 (w\<lparr>w_ext := x\<rparr>)" using assms(2) by simp
    note ok = assms(3) [OF this none_open [OF assms(2)]] and err = assms(4) [OF this]
    show ?case
    proof (cases "newest ?P (gens (w_db w))")
      case None
      then show ?thesis using ok by (simp add: scan_row_def)
    next
      case (Some g)
      then show ?thesis using err scan [of g] by (auto split: sum.splits)
    qed
  next
    case (2 e x)
    then have "\<not> errors_is e ErrNoRows" using assms(1) by (metis honest_sql_def fst_conv)
    then show ?case using assms(2,4) by simp
  qed
qed

lemma evolved_unprepared:
  assumes "evolves w v" "unprepared_at w i" "status_at v i \<in> {Some Pending, Some Applied}"
  shows "unprepared_at v i"
  using assms by (simp add: unprepared_at_def evolves_def)

lemma wp_mark_applied:
  assumes "keeps w0 w" "unprepared_at w0 i"
  shows "wp (mark_applied env i) (\<lambda>_ v. evolves w0 v \<and> unprepared_at v i) (\<lambda>_ v. evolves w0 v \<and> unprepared_at v i) w"
proof -
  have ev: "evolves w0 u \<and> unprepared_at u i"
    if v: "gens (w_db v) = retagged (g_status_update (\<lambda>_. Applied)) i (\<lambda>s. s = Pending) (gens (w_db w))" "w_disk v = w_disk w"
      and u: "keeps v u" for v u
  proof -
    have "evolves w v"
      using v by (intro retagged_evolves [where P = "\<lambda>s. s = Pending" and i = i, OF retags(1)])
        (auto intro: status_step1)
    then have "evolves w0 v" using evolves.frame_trans [OF keeps_evolves [OF assms(1)]] by blast
    moreover have "status_at v i \<in> {Some Pending, Some Applied}"
      using assms(2) keeps_status [OF assms(1), of i]
      by (auto simp: retagged_status [OF retags(1) v(1)] unprepared_at_def)
    ultimately have "evolves w0 v" "unprepared_at v i"
      using evolved_unprepared [OF _ assms(2)] by auto
    then show ?thesis
      using evolves.frame_trans [OF _ keeps_evolves [OF u]] unprepared_keeps [OF u] by auto
  qed
  have quiet: "evolves w0 u \<and> unprepared_at u i" if "keeps w u" for u
    using keeps.frame_trans [OF assms(1) that] assms(2) by (simp add: keeps_evolves unprepared_keeps)
  have tail: "obeys keeps (thenP (wrapP g (one_row env n)) (sync_database env))" for g n
    unfolding one_row_def by (intro keeps_base)
  show ?thesis
    unfolding mark_applied_def wp_bindP
    by (rule wp_change; (rule wp_keep [OF tail keeps.frame_refl])?) (use ev quiet in blast)+
qed

lemma evolving_apply_installed:
  fixes env :: "('n, 'x) menv"
  assumes "calm env" "keeps w0 w" "unprepared_at w0 (unat (ar_generation a))"
  shows "evolving w0 (apply_installed env c a safe previous deadline) w"
proof -
  let ?i = "unat (ar_generation a)"
  have evolved: "evolving w0 m v" if "evolves w0 v" "obeys evolves m" for m :: "('n, 'x, 'b) act" and v
    by (rule wp_evolve [OF that(2,1)])
  have fail: "wp (recover_post_apply_failure env c ?i previous cause) Q (\<lambda>_. evolves w0) v"
    if v: "evolves w0 v" "unprepared_at v ?i" for cause v Q
    by (rule wp_mono [OF wp_recover_post [where Q = Q, OF assms(1) keeps.frame_refl v(2)]])
      (auto intro: evolves.frame_trans [OF v(1)])
  have rest: "evolving w0 (thenP (apply_health env c ?i)
      (thenP (if safe then ret () else commit_locked env c ?i)
      (thenP (audit_quietly env ''generation_applied'' t) (ret x)))) v" if "evolves w0 v" for t x v
    by (rule evolved [OF that])
      (intro evolves.frame_rules evolve_health evolve_commit_locked assms(1) keeps_obeys_evolves [OF keeps_audit_quietly])
  have mark: "wp (mark_applied env ?i) (\<lambda>_ v. evolves w0 v \<and> unprepared_at v ?i) (\<lambda>_ v. evolves w0 v \<and> unprepared_at v ?i) w"
    by (rule wp_mark_applied [OF assms(2,3)])
  have hash: "wp (record_fingerprint env ?i) (\<lambda>_ u. evolves w0 u \<and> unprepared_at u ?i) (\<lambda>_ u. evolves w0 u \<and> unprepared_at u ?i) v"
    if v: "evolves w0 v" "unprepared_at v ?i" for v
    by (rule wp_keep [OF keeps_record keeps.frame_refl])
      (use v evolves.frame_trans [OF v(1) keeps_evolves] unprepared_keeps in \<open>auto\<close>)
  show ?thesis
    unfolding apply_installed_def Let_def wp_thenP [of "elseP _ _ _"] wp_elseP wp_ret
    apply (rule wp_mono [OF mark]; elim conjE)
     apply (rule wp_mono [OF hash], assumption, assumption; elim conjE)
      apply (rule rest, assumption)
     apply (rule fail, assumption, assumption)
    apply (rule fail, assumption, assumption)
    done
qed

lemma evolving_apply_locked:
  fixes env :: "('n, 'x) menv"
  assumes "calm env" "store_good w0" "keeps w0 w" "honest_sql env"
    and "\<forall>g \<in> set (gens (w_db w0)). g_id g < unat (ar_generation a)"
  shows "evolving w0 (apply_locked env c a safe) w"
proof -
  let ?i = "unat (ar_generation a)"
  have installed: "evolving w0 (apply_installed env c a safe previous deadline) v"
    if "evolves w0 u" "unprepared_at u ?i" "keeps u v" for previous deadline u v
    by (rule wp_mono [OF evolving_apply_installed [OF assms(1) that(3,2)]]) (auto intro: evolves.frame_trans [OF that(1)])
  have failed: "wp (apply_failed env c ?i previous e) Q (\<lambda>_. evolves w0) v"
    if "evolves w0 u" "unprepared_at u ?i" "keeps u v" for previous e Q u v
    by (rule wp_mono [OF wp_apply_failed [where Q = Q, OF assms(1) that(3,2)]]) (auto intro: evolves.frame_trans [OF that(1)])
  have saved: "evolving w0 (thenP (elseP (install_owned_generation env c s) (apply_failed env c ?i previous) ret)
      (apply_installed env c a safe previous deadline)) u"
    if u: "evolves w0 u" "status_at u ?i = Some Pending" for s previous deadline u
  proof -
    have un: "unprepared_at u ?i" using u assms(2) by (simp add: unprepared_at_def evolves_def)
    show ?thesis
      unfolding wp_thenP [of "elseP _ _ _"] wp_elseP wp_ret
      by (rule wp_keep [OF keeps_install [OF assms(1)] keeps.frame_refl])
        (rule installed [OF u(1) un] failed [OF u(1) un], assumption)+
  qed
  have guard: "obeys keeps (if safe
             then (case safe_guard_locked env of
                     None \<Rightarrow> failp (Errorf ''safe apply requires locked rollback-guard verification'' [])
                   | Some g \<Rightarrow> wrapP (Wrapf ''safe apply locked revalidation refused: %w'' []) g)
             else ret ())"
    by (intro keeps.frame_rules keeps_option calm_obeys(2) [OF assms(1)])
  show ?thesis
    unfolding apply_locked_def wp_thenP [of "require_no_pending _"]
  proof (rule wp_no_pending [OF assms(4,3)], goal_cases)
    case (1 v)
    show ?case
      apply (rule evolving_keep_then [OF guard 1(1)])
      apply (rule evolving_keep_then [OF keeps_guard [OF assms(1)]], assumption)
      apply (rule evolving_keep [OF keeps_previous], assumption)
      apply (rule evolving_keep [OF keeps_apply_deadline], assumption)
      apply (rule evolving_keep [OF keeps.obeys_wrapP [OF keeps_boot]], assumption)
      apply (unfold wp_thenP [of "wrapP _ (save_generation _ _ _ _ _ _ _)"] wp_wrapP)
      apply (rule wp_save [OF assms(2)], assumption, rule assms(5), rule 1(2))
       apply (rule saved, assumption, assumption)
      apply assumption
      done
  qed (rule keeps_evolves)
qed

lemma evolving_apply:
  fixes env :: "('n, 'x) menv"
  assumes "calm env" "store_good w0" "honest_sql env" "\<forall>g \<in> set (gens (w_db w0)). g_id g < unat (ar_generation a)"
  shows "evolving w0 (apply_artifact env c a safe) w0"
  unfolding apply_artifact_def
  apply (rule evolving_keep_then [OF keeps_no_pending keeps.frame_refl])
  apply (rule evolving_keep, intro keeps_base keeps_preflight assms(1), assumption)
  apply (rule evolving_keep_then [OF keeps_lock], assumption)
  apply (rule evolving_apply_locked [OF assms(1,2) _ assms(3,4)], assumption)
  done

section \<open>Recovery\<close>

lemma evolving_first_rollback:
  assumes "keeps w0 w" "pr_published (abs_store w0) \<noteq> Some (g_id g)"
  shows "evolving w0 (rollback_first_generation_at_boot env c g) w"
  unfolding rollback_first_generation_at_boot_def
  apply (rule evolving_keep [OF keeps.obeys_wrapP [OF keeps_existing] assms(1)])
  apply (rule evolving_keep_then)
    apply (intro keeps_base keeps_kernel)
   apply assumption
  apply (unfold wp_thenP)
  apply (rule wp_recovery_rollback [OF _ assms(2)])
    apply (assumption | simp)+
  done

lemma evolving_predecessor_rollback:
  assumes "calm env" "keeps w0 w" "pr_published (abs_store w0) \<noteq> Some (g_id g)"
  shows "evolving w0 (restore_predecessor_and_rollback env c g s) w"
proof (cases "sn_previous s")
  case None
  then show ?thesis
    by (simp add: restore_predecessor_and_rollback_def evolving_first_rollback [OF assms(2,3)])
next
  case (Some p)
  show ?thesis
    unfolding restore_predecessor_and_rollback_def Some option.case
    apply (rule evolving_keep [OF keeps.obeys_wrapP [OF keeps_by_id] assms(2)])
    apply (rule evolving_refuse, assumption)
    apply (rule evolving_keep [OF keeps_durable], assumption)
    apply (rule evolving_keep_then [OF keeps_validate], assumption)
    apply (rule evolving_keep_then [OF keeps.obeys_wrapP [OF keeps_establish [OF assms(1)]]], assumption)
    apply (rule evolving_keep_then [OF keeps.obeys_wrapP [OF keeps_runtime [OF assms(1)]]], assumption)
    apply (rule evolving_keep_then [OF keeps_require_pointer], assumption)
    apply (unfold wp_thenP)
    apply (rule wp_recovery_rollback [OF _ assms(3)])
      apply (assumption | simp)+
    done
qed

lemma evolving_finalize_prepared:
  assumes "calm env" "store_good w0" "keeps w0 w" "status_at w0 (g_id g) = Some CommitPrepared"
    "pr_published (abs_store w0) = Some (g_id g)"
  shows "evolving w0 (finalize_prepared env c g p) w"
  unfolding finalize_prepared_def
  apply (rule evolving_keep [OF keeps_durable assms(3)])
  apply (rule evolving_keep_then [OF keeps.obeys_wrapP [OF keeps_establish [OF assms(1)]]], assumption)
  apply (rule evolving_keep_then [OF keeps_require_pointer], assumption)
  apply (unfold wp_thenP wp_wrapP)
  apply (rule wp_finalize_commit [OF _ assms(2,4,5)])
    apply (assumption | simp)+
  done

lemma evolving_recover_pending:
  assumes "calm env" "store_good w0" "keeps w0 w" "row_like w0 (g_id g) g" "open_status (g_status g)"
    "pointer = marker_pointer (w_disk w0)"
  shows "evolving w0 (recover_pending_at_boot env c g pointer) w"
  unfolding recover_pending_at_boot_def wp_bindP [of "wrapP _ (load_verified_generation_snapshot _ _)"] wp_wrapP
proof (rule wp_load_verified [OF assms(3)], goal_cases)
  case (1 s v)
  show ?case
    unfolding wp_thenP [of "validate_generation_snapshot _ _ _ _"]
  proof (rule wp_validate [OF 1(1)], goal_cases)
    case v: (1 v)
    have ptr: "snapshot_pointer env s = row_pointer g" by (rule matched_pointer [OF v(2)])
    have st: "status_at w0 (g_id g) = Some (g_status g)" using row_like_status [OF assms(4)] by simp
    show ?case
    proof (rule evolving_if, goal_cases)
      case prepared: 1
      show ?case
      proof (rule evolving_if, goal_cases)
        case 1
        then have "pr_published (abs_store w0) = Some (g_id g)"
          using assms(6) by (simp add: pointer_equal_iff ptr abs_store_def row_pointer_def)
        with prepared st show ?case
          by (intro evolving_finalize_prepared [OF assms(1,2) v(1)]) simp_all
      next
        case 2
        have "pr_published (abs_store w0) \<noteq> Some (g_id g)"
          by (rule not_published [OF assms(2,4,5)]) (use 2 assms(6) in \<open>simp add: pointer_equal_iff ptr\<close>)
        then show ?case
          by (intro evolving_refuse evolving_predecessor_rollback v(1) assms(1))
      qed
    next
      case 2
      have np: "pr_published (abs_store w0) \<noteq> Some (g_id g)"
        by (rule not_published [OF assms(2,4,5)]) (use 2 in simp)
      show ?case
        apply (rule evolving_refuse [OF v(1)])
        apply (rule evolving_refuse [OF v(1)])
        apply (rule evolving_keep [OF keeps_stale v(1)])
        apply (rule evolving_refuse, assumption)
        apply (rule evolving_predecessor_rollback [OF assms(1) _ np], assumption)
        done
    qed
  qed (rule keeps_evolves)
qed (rule keeps_evolves)

lemma evolving_pointer:
  assumes "keeps w0 w" "\<And>p v. keeps w0 v \<Longrightarrow> p = marker_pointer (w_disk w0) \<Longrightarrow> evolving w0 (f p) v"
  shows "evolving w0 (bindP (read_enforcement_pointer env) f) w"
  unfolding wp_bindP
  by (rule wp_read_pointer [OF assms(1)]) (use assms(2) keeps_evolves in auto)

lemma evolve_recover_committed:
  assumes "calm env"
  shows "obeys evolves (recover_committed env c p)"
  unfolding recover_committed_def
  by (intro keeps_obeys_evolves keeps_base keeps_by_id keeps_good_row keeps_durable keeps_validate
      keeps_establish keeps_require_pointer assms)

lemma evolve_recover_at_boot:
  fixes env :: "('n, 'x) menv"
  assumes "calm env"
  shows "obeys evolves (recover_at_boot env c)"
proof -
  have "obeys evolves (recover_at_boot_locked env d)" for d
  proof (rule evolvesI)
    fix w0 :: "('n, 'x) node"
    assume good: "store_good w0"
    show "evolving w0 (recover_at_boot_locked env d) w0"
      unfolding recover_at_boot_locked_def
    proof (rule evolving_keep_then [OF keeps_guard [OF assms] keeps.frame_refl], unfold wp_bindP wp_wrapP,
        rule wp_read_pointer, assumption, goal_cases)
      case (1 u v)
      then show ?case
        unfolding wp_elseP
        by (intro wp_pending [of w0]) (use good evolving_recover_pending [OF assms good] in \<open>auto simp: store_good_def intro: keeps_evolves\<close>)
    next
      case (2 u p v)
      show ?case
        unfolding wp_elseP
      proof (rule wp_pending [of w0])
        show "evolving w0 (recover_pending_at_boot env d g (Some p)) x"
          if "keeps w0 x" "row_like w0 (g_id g) g" "open_status (g_status g)" for g x
          by (rule evolving_recover_pending [OF assms good that(1-3)]) (use 2 in simp)
        show "evolving w0 (if \<not> errors_is e ErrNoRows then failp e
             else (case Some p of
                     None \<Rightarrow> failp (Errorf ''no committed enforcement pointer exists'' [])
                   | Some p \<Rightarrow> recover_committed env d p)) x" if "keeps w0 x" for e x
          using wp_evolve [OF evolve_recover_committed [OF assms] keeps_evolves [OF that]] that
          by (auto intro: keeps_evolves)
      qed (use good 2 in \<open>simp_all add: store_good_def\<close>)
    qed (rule keeps_evolves)
  qed
  then show ?thesis
    unfolding recover_at_boot_def by (intro evolves.frame_rules keeps_obeys_evolves [OF keeps_lock])
qed

lemma evolve_rollback_expired:
  fixes env :: "('n, 'x) menv"
  assumes "calm env"
  shows "obeys evolves (rollback_expired env c)"
proof (rule evolvesI)
  fix w0 :: "('n, 'x) node"
  assume good: "store_good w0"
  show "evolving w0 (rollback_expired env c) w0"
    unfolding rollback_expired_def Let_def
  proof (rule evolving_keep_then [OF keeps_lock keeps.frame_refl], rule evolving_keep_then [OF keeps_guard [OF assms]],
      assumption, unfold wp_elseP, rule wp_pending [of w0], goal_cases)
    case (3 u v g x)
    show ?case
    proof (rule evolving_keep [OF _ \<open>keeps w0 x\<close>], goal_cases)
      case 1
      show ?case by (intro keeps_base keeps_stale)
    next
      case due: (2 due y)
      show ?case
      proof (rule evolving_if)
        assume "\<not> \<not> due"
        show "evolving w0 (bindP (read_enforcement_pointer env) (\<lambda>pointer.
                   bindP (recover_pending_at_boot env (with_lock c) g pointer) (\<lambda>(r, e). ret (rolled_back_action r, e)))) y"
          by (rule evolving_pointer [OF due])
            (use evolving_recover_pending [OF assms good _ \<open>row_like w0 (g_id g) g\<close> \<open>open_status (g_status g)\<close>]
              in \<open>auto split: prod.splits\<close>)
      qed (use due in \<open>simp add: keeps_evolves\<close>)
    qed
  qed (use good in \<open>auto simp: store_good_def keeps_evolves\<close>)
qed

section \<open>Drift\<close>

lemma evolve_reconcile:
  assumes "calm env"
  shows "obeys evolves (reconcile env c repairs)"
proof -
  note kept = keeps_obeys_evolves [OF keeps_lock] keeps_obeys_evolves [OF keeps_pending]
    keeps_obeys_evolves [OF keeps_good_row] keeps_obeys_evolves [OF keeps_expected] keeps_obeys_evolves [OF keeps_script]
    keeps_obeys_evolves [OF keeps_install [OF assms]] keeps_obeys_evolves [OF keeps_record]
    keeps_obeys_evolves [OF keeps_runtime [OF assms]] keeps_obeys_evolves [OF keeps_audit_quietly]
    keeps_obeys_evolves [OF keeps_list_owned] keeps_obeys_evolves [OF keeps_integrity]
    keeps_obeys_evolves [OF keeps_fingerprint] evolve_rollback_locked [OF assms]
  show ?thesis
    unfolding reconcile_def observe_drift_def drift_tables_def expected_or_none_def drift_fingerprint_def repair_def
      repair_generation_def repair_step_def Let_def
    by (intro evolves.frame_rules kept)
qed

section \<open>The commit of the store\<close>

lemma evolve_commit_generation:
  fixes env :: "('x, 'z) env_scheme"
  shows "obeys (evolves :: ('k, 'x) world \<Rightarrow> _) (commit_generation env i)"
proof (rule evolvesI)
  fix w0 :: "('k, 'x) world"
  assume good: "store_good w0"
  have rest: "evolving w0 (thenP (prepare_enforcement_pointer env p)
      (deferP (cancel_prepared_pointer env)
        (bindP (prepared_deadline env i) (\<lambda>deadline.
         bindP (case deadline of None \<Rightarrow> ret False
                | Some _ \<Rightarrow> bindP (time_now env) (\<lambda>now. ret (expired deadline now))) (\<lambda>late.
         if late then
           thenP (mark_rolled_back env i)
             (failp (Errorf ''generation %d expired before pointer publication'' [itoa i]))
         else
           thenP (publish_prepared_pointer env p) (finalize_commit env i)))))) v"
    if v: "evolves w0 v" "w_disk v = w_disk w0" "prepared_for v i p" "sql_arg i = None" "status_at w0 i = Some Applied"
    for v p
    unfolding wp_thenP [of "prepare_enforcement_pointer _ _"]
  proof (rule wp_prepare_pointer [OF same_marks.frame_refl], goal_cases)
    case u: (1 u)
    have gv: "store_good v" using v(1) good by (simp add: evolves_def)
    have gu: "store_good u" using marks_good [OF u(1)] gv by simp
    have pu: "prepared_for u i p" using prepared_marks [OF u(1)] v(3) by simp
    have wu: "evolves w0 u" using evolves.frame_trans [OF v(1) marks_evolves [OF u(1)]] .
    have np: "pr_published (abs_store u) \<noteq> Some i"
    proof -
      have "pr_published (abs_store w0) \<noteq> Some i" using unprepared(1) [OF good] v(5) by simp
      moreover have "pr_published (abs_store v) = pr_published (abs_store w0)" using v(2) by (simp add: abs_store_def)
      ultimately show ?thesis using marks_abs [OF u(1)] by simp
    qed
    have trans: "evolves w0 x" if "evolves u x" for x using evolves.frame_trans [OF wu that] .
    have finish: "evolving u (finalize_commit env i) x"
      if x: "evolves u x" "status_at x i = Some CommitPrepared" "pr_published (abs_store x) = Some i" for x
    proof -
      have "store_good x" using x(1) gu by (simp add: evolves_def)
      then show ?thesis
        by (rule wp_finalize_commit [OF keeps.frame_refl _ x(2,3)]) (use evolves.frame_trans [OF x(1)] in auto)
    qed
    have body: "evolving u (bindP (prepared_deadline env i) (\<lambda>deadline.
         bindP (case deadline of None \<Rightarrow> ret False
                | Some _ \<Rightarrow> bindP (time_now env) (\<lambda>now. ret (expired deadline now))) (\<lambda>late.
         if late then
           thenP (mark_rolled_back env i)
             (failp (Errorf ''generation %d expired before pointer publication'' [itoa i]))
         else
           thenP (publish_prepared_pointer env p) (finalize_commit env i)))) u"
    proof (rule evolving_keep [OF keeps_deadline keeps.frame_refl], unfold wp_bindP [of "case_option _ _ _"],
        rule wp_deadline_check, assumption, goal_cases)
      case (1 deadline x late y)
      show ?case
      proof (rule evolving_if)
        show "evolving u (thenP (mark_rolled_back env i)
             (failp (Errorf ''generation %d expired before pointer publication'' [itoa i]))) y"
          unfolding wp_thenP
          by (rule wp_mark_rolled_back [OF 1(2)]) (use prepared_status [OF pu] np in auto)
        show "evolving u (thenP (publish_prepared_pointer env p) (finalize_commit env i)) y"
          unfolding wp_thenP
          by (rule wp_publish [OF gu 1(2) u(2) pu v(4)]) (auto intro: finish)
      qed
    qed (rule keeps_evolves)
    have cancel: "evolving w0 (cancel_prepared_pointer env) x" if "evolves w0 x" for x
      by (rule wp_evolve [OF evolve_cancel that])
    show ?case
      unfolding wp_deferP
      by (rule wp_mono [OF body]) (rule cancel, rule trans, assumption)+
  qed (use evolves.frame_trans [OF v(1) marks_evolves] in auto)
  show "evolving w0 (commit_generation env i) w0"
    unfolding commit_generation_def wp_bindP [of "load_generation_snapshot _ _"]
  proof (rule wp_load [OF keeps.frame_refl], goal_cases)
    case (1 s v)
    show ?case
    proof (rule evolving_keep [OF keeps_read_pointer 1(1)], rule evolving_refuse, assumption, goal_cases)
      case (1 current u)
      show ?case
        unfolding wp_bindP [of "prepare_commit _ _"]
        by (rule wp_prepare_commit [OF 1(1) \<open>snapshot_at env w0 i s\<close>]) (assumption | rule rest)+
    qed
  qed (rule keeps_evolves)
qed

section \<open>Every operation of the controller\<close>

datatype manager_op =
    Do_apply artifact bool
  | Do_commit nat
  | Do_rollback nat
  | Do_rollback_expired
  | Do_recover
  | Do_reconcile bool
  | Do_commit_stored nat

fun manager_run :: "('n, 'x) menv \<Rightarrow> ctx \<Rightarrow> manager_op \<Rightarrow> ('n, 'x, unit) act" where
  "manager_run env c (Do_apply a safe) = bindP (apply_artifact env c a safe) (\<lambda>_. ret ())"
| "manager_run env c (Do_commit i) = commit env c i"
| "manager_run env c (Do_rollback i) = rollback env c i"
| "manager_run env c Do_rollback_expired = bindP (rollback_expired env c) (\<lambda>_. ret ())"
| "manager_run env c Do_recover = bindP (recover_at_boot env c) (\<lambda>_. ret ())"
| "manager_run env c (Do_reconcile repairs) = bindP (reconcile env c repairs) (\<lambda>_. ret ())"
| "manager_run env c (Do_commit_stored i) = commit_generation env i"

text \<open>An artifact is numbered by \<^verbatim>\<open>NextGeneration\<close>, above every generation of the store.\<close>

fun fresh_number :: "('n, 'x) node \<Rightarrow> manager_op \<Rightarrow> bool" where
  "fresh_number w (Do_apply a safe) \<longleftrightarrow> (\<forall>g \<in> set (gens (w_db w)). g_id g < unat (ar_generation a))"
| "fresh_number w _ \<longleftrightarrow> True"

lemma manager_evolves:
  assumes "calm env" "honest_sql env" "store_good w" "fresh_number w op"
  shows "evolves w (snd (manager_run env c op w))"
proof -
  have "evolving w (manager_run env c op) w"
  proof (cases op)
    case (Do_apply a safe)
    with assms show ?thesis by (auto intro: evolving_apply)
  next
    case (Do_commit i)
    then show ?thesis using obeys_wp [OF evolve_commit [OF assms(1)]] by simp
  next
    case (Do_rollback i)
    then show ?thesis using obeys_wp [OF evolve_rollback [OF assms(1)]] by simp
  next
    case Do_rollback_expired
    then show ?thesis using obeys_wp [OF evolve_rollback_expired [OF assms(1)]] by simp
  next
    case Do_recover
    then show ?thesis using obeys_wp [OF evolve_recover_at_boot [OF assms(1)]] by simp
  next
    case (Do_reconcile repairs)
    then show ?thesis using obeys_wp [OF evolve_reconcile [OF assms(1)]] by simp
  next
    case (Do_commit_stored i)
    then show ?thesis using obeys_wp [OF evolve_commit_generation] by simp
  qed
  then show ?thesis by (auto simp: wp_def split: prod.splits sum.splits)
qed

text \<open>C1. The store refines the protocol. Whatever operation of the controller runs on a store that respects
  it, with whatever arguments, faults and crashes, the statuses and the enforcement pointer move along a path of
  protocol steps: a generation is saved only when none is open, published only when it is prepared, committed
  only when the pointer names it, and given up only when the pointer does not.\<close>

theorem manager_refines_protocol:
  assumes "calm env" "honest_sql env" "store_good w" "fresh_number w op" "manager_run env c op w = (r, w')"
  shows "store_good w' \<and> proto_step\<^sup>*\<^sup>* (abs_store w) (abs_store w')"
  using manager_evolves [OF assms(1-4), of c] assms(3,5) by (simp add: evolves_def)

text \<open>The stores that the controller can produce from an empty one.\<close>

inductive managed :: "('n, 'x) menv \<Rightarrow> ctx \<Rightarrow> ('n, 'x) node \<Rightarrow> bool" for env c where
  empty_store: "gens (w_db w) = [] \<Longrightarrow> d_marker (w_disk w) = None \<Longrightarrow> managed env c w"
| operation: "managed env c w \<Longrightarrow> fresh_number w op \<Longrightarrow> managed env c (snd (manager_run env c op w))"

lemma managed_good:
  assumes "managed env c w" "calm env" "honest_sql env"
  shows "store_good w"
  using assms(1)
proof induction
  case (empty_store w)
  then show ?case
    by (auto simp: store_good_def store_sound_def proto_ok_def abs_store_def status_at_def row_of_def open_at_def
        committed_at_def marker_pointer_def)
next
  case (operation w op)
  then show ?case using manager_evolves [OF assms(2,3)] by (auto simp: evolves_def)
qed

lemma open_row: "store_sound w \<Longrightarrow> g \<in> set (gens (w_db w)) \<Longrightarrow> pr_status (abs_store w) (g_id g) = Some (g_status g)"
  by (simp add: store_sound_def status_abs status_at_def row_of_distinct)

text \<open>C6. Every store that the controller produces from an empty one: the numbers of the generations are
  distinct and at most one generation is open. Without an enforcement pointer nothing is committed; with one, it
  is the pointer of an existing row, either of the generation that is prepared or of the newest committed
  one.\<close>

theorem managed_store_invariant:
  assumes "managed env c w" "calm env" "honest_sql env"
  shows "distinct (map g_id (gens (w_db w))) \<and>
    (\<forall>g \<in> set (gens (w_db w)). \<forall>h \<in> set (gens (w_db w)). open_status (g_status g) \<longrightarrow> open_status (g_status h) \<longrightarrow> g = h) \<and>
    (case d_marker (w_disk w) of
       None \<Rightarrow> \<forall>g \<in> set (gens (w_db w)). g_status g \<noteq> Committed
     | Some b \<Rightarrow> \<exists>g \<in> set (gens (w_db w)). parse_pointer b = Ok (row_pointer g) \<and>
         (g_status g = CommitPrepared \<or>
          g_status g = Committed \<and> (\<forall>h \<in> set (gens (w_db w)). g_status h = Committed \<longrightarrow> g_id h \<le> g_id g)))"
proof -
  have good: "store_good w" by (rule managed_good [OF assms])
  then have sound: "store_sound w" and ok: "proto_ok (abs_store w)" by (auto simp: store_good_def)
  have dist: "distinct (map g_id (gens (w_db w)))" using sound by (simp add: store_sound_def)
  note st = open_row [OF sound]
  have one: "g = h" if "g \<in> set (gens (w_db w))" "h \<in> set (gens (w_db w))" "open_status (g_status g)" "open_status (g_status h)" for g h
  proof -
    have "open_at (abs_store w) (g_id g)" "open_at (abs_store w) (g_id h)"
      using that st by (auto simp: open_at_def)
    then have "g_id g = g_id h" using ok unfolding proto_ok_def by blast
    then show ?thesis using dist that(1,2) by (metis distinct_map inj_onD)
  qed
  have pointed: "case d_marker (w_disk w) of
       None \<Rightarrow> \<forall>g \<in> set (gens (w_db w)). g_status g \<noteq> Committed
     | Some b \<Rightarrow> \<exists>g \<in> set (gens (w_db w)). parse_pointer b = Ok (row_pointer g) \<and>
         (g_status g = CommitPrepared \<or>
          g_status g = Committed \<and> (\<forall>h \<in> set (gens (w_db w)). g_status h = Committed \<longrightarrow> g_id h \<le> g_id g))"
  proof (cases "d_marker (w_disk w)")
    case None
    then have "pr_published (abs_store w) = None" by (simp add: abs_store_def marker_pointer_def)
    then show ?thesis using None ok by (auto simp: proto_ok_def committed_at_def) (metis st)
  next
    case (Some b)
    then obtain g where g: "g \<in> set (gens (w_db w))" "parse_pointer b = Inr (row_pointer g)"
      using sound by (auto simp: store_sound_def)
    then have "pr_published (abs_store w) = Some (g_id g)"
      using Some by (simp add: abs_store_def marker_pointer_def row_pointer_def)
    then show ?thesis using Some ok st g by (auto simp: proto_ok_def committed_at_def)
  qed
  show ?thesis using dist one pointed by blast
qed

text \<open>C11. A commit and a rollback are final. Once a generation is committed no operation of the controller
  rolls it back, and a generation that is rolled back never becomes active again.\<close>

theorem committed_is_final:
  assumes "managed env c w" "calm env" "honest_sql env" "fresh_number w op" "manager_run env c op w = (r, w')"
    "g \<in> set (gens (w_db w))" "g_status g \<in> {Committed, RolledBack}"
  shows "\<exists>g' \<in> set (gens (w_db w')). g_id g' = g_id g \<and> g_status g' = g_status g"
proof -
  have good: "store_good w" by (rule managed_good [OF assms(1-3)])
  have "proto_step\<^sup>*\<^sup>* (abs_store w) (abs_store w')"
    using manager_evolves [OF assms(2,3) good assms(4), of c] good assms(5) by (simp add: evolves_def)
  then have "pr_status (abs_store w') (g_id g) = Some (g_status g)"
    using proto_path_final assms(6,7) open_row good by (metis store_good_def)
  then show ?thesis
    by (auto simp: status_abs status_at_def dest: row_of_Some)
qed

section \<open>A concrete run\<close>

text \<open>A host on which no call fails, whose \<^verbatim>\<open>nft\<close> lists nothing, and an artifact with an empty script, which the
  backend refuses.\<close>

definition zero_sum :: string where "zero_sum = replicate 64 (CHR ''0'')"

definition trial :: "(unit, unit) menv" where
  "trial = \<lparr>fault = \<lambda>_ x. (None, x), clock = \<lambda>x. (0, x),
     boot_file = \<lambda>x. (Ok ''01234567-89ab-cdef-0123-456789abcdef'', x), ledger_file = \<lambda>x. (Err ErrNotExist, x),
     sha256 = \<lambda>_. replicate 32 (CHR 0x00), json_snapshot = \<lambda>s. Ok (sn_script s), parse_snapshot = \<lambda>_. Err ErrNotExist,
     state_dir = ''/var/lib/nftfw'',
     nft_process = \<lambda>c (n, x). (([''{ \"nftables\": [] }''], [], None), n, x), map_order = id, float_text = \<lambda>_. None,
     safe_ttl = 0, lock_dir = ''/run/nftfw'', error_text = \<lambda>_. ''refused'',
     safe_guard = None, safe_guard_locked = None, foreign_mark_guard = Some (ret ()), health_check = None, post_restore = None\<rparr>"

definition trial_artifact :: artifact where
  "trial_artifact = \<lparr>ar_generation = 7, ar_script = [], ar_checksum = zero_sum,
     ar_provenance = [\<lparr>a_name = ''wan'', a_id = 1, a_retired = False, a_created = 0, a_retired_at = None\<rparr>]\<rparr>"

definition trial_ctx :: ctx where
  "trial_ctx = \<lparr>mutation_lock = False, preflight_done = False\<rparr>"

definition trial_host :: "generation list \<Rightarrow> (unit, unit) node" where
  "trial_host gs = \<lparr>w_db = \<lparr>gens = gs, claims = [], claim_seq = 0, audits = [], audit_seq = 0, integrations = [], publication = None\<rparr>,
     w_disk = \<lparr>d_scripts = (\<lambda>_. None), d_snapshots = (\<lambda>_. None), d_marker = None, d_temp = None\<rparr>,
     w_kernel = \<lparr>protect_first_use = True, live = ()\<rparr>, w_ext = ()\<rparr>"

lemma trial_calm: "calm trial"
  by (auto simp: calm_def trial_def keeps.obeys_ret split: option.splits)

lemma trial_honest: "honest_sql trial"
  by (simp add: honest_sql_def trial_def)

lemma trial_managed: "managed trial trial_ctx (trial_host [])"
  by (rule managed.empty_store) (simp_all add: trial_host_def)

lemma trial_fresh: "fresh_number (trial_host []) (Do_apply trial_artifact False)"
  by (simp add: trial_host_def)

lemma trial_io [simp]: "io trial l w = (Inr (), w)"
  by (simp add: io_def trial_def)

lemma trial_time [simp]: "time_now trial w = (Inr 0, w)"
  by (simp add: time_now_def trial_def)

lemma trial_boot [simp]: "current_boot_id trial w = (Inr ''01234567-89ab-cdef-0123-456789abcdef'', w)"
proof -
  have v: "trim_space ''01234567-89ab-cdef-0123-456789abcdef'' = ''01234567-89ab-cdef-0123-456789abcdef''"
    "boot_id_pattern ''01234567-89ab-cdef-0123-456789abcdef''"
    by code_simp+
  show ?thesis by (simp add: current_boot_id_def trial_def Let_def v)
qed

lemma trial_sum: "valid_script_checksum trial s zero_sum"
proof -
  have "hex_decode zero_sum = Some (replicate 32 0)" by code_simp
  moreover have "byte (CHR 0x00) = 0" by code_simp
  ultimately show ?thesis by (simp add: valid_script_checksum_def valid_checksum_def trial_def)
qed

lemma trial_save_guard:
  "save_guard trial 7 zero_sum [] \<lparr>md_boot = ''01234567-89ab-cdef-0123-456789abcdef'', md_provenance = ar_provenance trial_artifact\<rparr> = None"
proof -
  have "validate_active (ar_provenance trial_artifact) = None" by code_simp
  then show ?thesis
    by (simp add: save_guard_def trial_sum max_active_snapshot_def refuse_def trial_artifact_def)
qed

abbreviation trial_snapshot :: generation_snapshot where
  "trial_snapshot \<equiv>
     \<lparr>sn_schema = snapshot_schema, sn_generation = 7, sn_checksum = zero_sum, sn_script = [],
      sn_provenance = ar_provenance trial_artifact, sn_previous = None, sn_boot = ''01234567-89ab-cdef-0123-456789abcdef''\<rparr>"

definition trial_row :: generation where
  "trial_row = new_row trial trial_snapshot None None 0"

lemma trial_query: "query trial l f w = (f (w_db w), w)"
  by (simp add: query_def prog_defs split: sum.splits)

lemma trial_exec: "exec trial l f w = (case f (w_db w) of Inl e \<Rightarrow> (Err e, w) | Inr (x, d) \<Rightarrow> (Ok x, w\<lparr>w_db := d\<rparr>))"
  by (simp add: exec_def prog_defs)

lemma trial_sync [simp]: "sync_database trial w = (Inr (), w)"
  by (simp add: sync_database_def prog_defs)

lemma trial_nft [simp]: "run_nft trial c m w = (Inr ''{ \"nftables\": [] }'', w)"
proof -
  have "bounded_output max_nft_stdout [''{ \"nftables\": [] }''] =
      \<lparr>bw_text = ''{ \"nftables\": [] }'', bw_remaining = max_nft_stdout - 18, bw_exceeded = False\<rparr>"
    "bounded_output max_nft_stderr [] = \<lparr>bw_text = [], bw_remaining = max_nft_stderr, bw_exceeded = False\<rparr>"
    by (simp_all add: bounded_output_def bounded_write_def max_nft_stdout_def)
  then show ?thesis
    by (simp add: run_nft_def os_runner_def trial_def prog_defs Let_def)
qed

lemma trial_existing [simp]: "existing_owned trial w = (Inr [], w)"
proof -
  have "nft_objects ''{ \"nftables\": [] }'' = Inr []" by code_simp
  then show ?thesis by (simp add: existing_owned_def list_owned_def prog_defs List.map_filter_def)
qed

lemma trial_snapshot_valid: "validate_snapshot trial trial_snapshot = None"
  by (simp add: validate_snapshot_def refuse_def trial_sum trial_artifact_def id_in_range_def min_id_def max_id_def)

lemma trial_encode: "encode_generation_snapshot trial trial_snapshot = Inr NL"
  by (simp add: encode_generation_snapshot_def trial_def)

lemma trial_saved:
  "\<exists>d. save_generation trial 7 zero_sum [] None None
     \<lparr>md_boot = ''01234567-89ab-cdef-0123-456789abcdef'', md_provenance = ar_provenance trial_artifact\<rparr> (trial_host []) =
     (Inr (), (trial_host [trial_row])\<lparr>w_disk := d\<rparr>)"
  by (simp add: save_generation_def trial_save_guard prog_defs secure_generations_directory_def save_script_def
      secure_active_file_def trial_host_def write_immutable_def put_disk_def Let_def write_generation_snapshot_def
      secure_active_directory_def trial_snapshot_valid trial_encode max_active_snapshot_def trial_exec
      sql_insert_generation_def sql_arg_def refuse_def max_int64_def trial_row_def new_row_def)

lemma trial_row_fields: "g_id trial_row = 7" "g_status trial_row = Pending"
  by (simp_all add: trial_row_def new_row_def)

lemma trial_install:
  "install_owned_generation trial (with_lock trial_ctx) [] w = (Err (Errorf ''empty nft script'' []), w)"
proof -
  have "foreign_mark_guard trial = Some (ret ())" by (simp add: trial_def)
  moreover have "validate_script [] = Some (Errorf ''empty nft script'' [])" by code_simp
  ultimately show ?thesis
    by (simp add: install_owned_generation_def audit_foreign_mark_ownership_def backend_apply_def candidate_transaction_def
        require_global_mutation_lock_def with_lock_def trial_ctx_def acquire_mutation_lock_def prog_defs refuse_def)
qed

lemma trial_failed:
  "\<exists>e v. apply_failed trial c 7 None (Errorf ''empty nft script'' []) ((trial_host [trial_row])\<lparr>w_disk := d\<rparr>) = (Err e, v) \<and>
     gens (w_db v) = [rolled_back_row trial_row]"
  by (simp add: apply_failed_def audit_quietly_def audit_def validate_audit_record_def prog_defs trial_exec sql_audit_def
      mark_rolled_back_def change_generation_def sql_arg_def refuse_def max_int64_def sql_generations_def sql_update_def
      trial_host_def trial_row_fields one_row_def require_one_row_def Let_def max_audit_rows_def split: sum.splits)

abbreviation trial_end :: "(unit, unit) node" where
  "trial_end \<equiv> snd (manager_run trial trial_ctx (Do_apply trial_artifact False) (trial_host []))"

lemma trial_run: "gens (w_db trial_end) = [rolled_back_row trial_row]"
proof -
  obtain d where saved: "save_generation trial 7 zero_sum [] None None
     \<lparr>md_boot = ''01234567-89ab-cdef-0123-456789abcdef'', md_provenance = ar_provenance trial_artifact\<rparr> (trial_host []) =
     (Inr (), (trial_host [trial_row])\<lparr>w_disk := d\<rparr>)"
    using trial_saved by blast
  obtain e v where failed: "apply_failed trial (with_lock trial_ctx) 7 None (Errorf ''empty nft script'' []) ((trial_host [trial_row])\<lparr>w_disk := d\<rparr>) = (Err e :: unit result, v)"
    and v: "gens (w_db v) = [rolled_back_row trial_row]"
    using trial_failed by blast
  have guard: "audit_foreign_mark_ownership trial w = (Inr (), w)" for w
    by (simp add: audit_foreign_mark_ownership_def trial_def prog_defs)
  have quiet: "require_no_pending trial (trial_host []) = (Inr (), trial_host [])"
    "last_known_good trial (trial_host []) = (Err ErrNoRows, trial_host [])"
    by (simp_all add: require_no_pending_def pending_generation_def last_known_good_def trial_query prog_defs trial_host_def scan_row_def)
  have first: "protect_first_use_op trial (trial_host []) = (Inr (), trial_host [])"
    by (simp add: protect_first_use_op_def acquire_mutation_lock_def prog_defs first_use_collision_def set_protect_def Let_def trial_host_def)
  have lock: "acquire_process_lock trial trial_ctx w = (Inr (), w)" for w
    by (simp add: acquire_process_lock_def take_mutation_lock_def trial_ctx_def prog_defs) (simp add: trial_def)
  have art: "unat (ar_generation trial_artifact) = 7" "ar_script trial_artifact = []" "ar_checksum trial_artifact = zero_sum"
    by (simp_all add: trial_artifact_def)
  from saved failed v show ?thesis
    by (simp add: apply_artifact_def apply_locked_def bindP_def thenP_def wrapP_def elseP_def ret_def guard quiet first lock
        previous_or_first_use_def apply_deadline_def trial_install art split: sum.splits)
qed

theorem manager_refines_protocol_witness:
  "store_good trial_end \<and> proto_step\<^sup>*\<^sup>* (abs_store (trial_host [])) (abs_store trial_end) \<and>
   pr_status (abs_store trial_end) 7 = Some RolledBack"
proof -
  have "store_good (trial_host [])" by (rule managed_good [OF trial_managed trial_calm trial_honest])
  from manager_refines_protocol [OF trial_calm trial_honest this trial_fresh, of trial_ctx]
  have "store_good trial_end \<and> proto_step\<^sup>*\<^sup>* (abs_store (trial_host [])) (abs_store trial_end)"
    by (metis prod.collapse)
  moreover have "pr_status (abs_store trial_end) 7 = Some RolledBack"
    by (simp add: status_abs status_at_def trial_run row_of_def trial_row_fields rolled_back_row_def del: manager_run.simps)
  ultimately show ?thesis by blast
qed

lemma trial_managed_end: "managed trial trial_ctx trial_end"
  by (rule managed.operation [OF trial_managed trial_fresh])

theorem managed_store_invariant_witness:
  "distinct (map g_id (gens (w_db trial_end)))"
  using managed_store_invariant [OF trial_managed_end trial_calm trial_honest] by blast

theorem committed_is_final_witness:
  "\<exists>g \<in> set (gens (w_db (snd (manager_run trial trial_ctx Do_recover trial_end)))). g_id g = 7 \<and> g_status g = RolledBack"
proof -
  have row: "rolled_back_row trial_row \<in> set (gens (w_db trial_end))" by (simp add: trial_run del: manager_run.simps)
  have fields: "g_id (rolled_back_row trial_row) = 7" "g_status (rolled_back_row trial_row) = RolledBack"
    by (simp_all add: rolled_back_row_def trial_row_fields)
  have "fresh_number trial_end Do_recover" by simp
  from committed_is_final [OF trial_managed_end trial_calm trial_honest this _ row] fields
  show ?thesis by (metis insertCI prod.collapse)
qed

end
