(* ===== verification/Row_Types.thy ===== *)
theory Row_Types
  imports Manager_Protocol
begin

text \<open>
  The type invariant of the \<^verbatim>\<open>generations\<close> table: \<open>row_typed\<close> says what the columns of a row hold, and every
  operation of the store and of the controller preserves it.
\<close>

section \<open>Well-typed rows\<close>

text \<open>What the columns of a row hold, whatever its status.\<close>

definition row_typed :: "('x, 'z) env_scheme \<Rightarrow> generation \<Rightarrow> bool" where
  "row_typed env g \<longleftrightarrow>
     0 < g_id g \<and> int (g_id g) \<le> max_int64 \<and> g_boot g \<noteq> [] \<and>
     valid_checksum (g_checksum g) \<and> valid_checksum (g_snapshot_checksum g) \<and>
     g_script_path g = script_path env (g_id g) \<and> g_snapshot_path g = generation_snapshot_path env (g_id g) \<and>
     (g_prepared_at g \<noteq> None \<longleftrightarrow> g_status g = CommitPrepared) \<and>
     (g_status g = Committed \<longrightarrow> g_deadline g = None)"

definition typed_store :: "('x, 'z) env_scheme \<Rightarrow> ('k, 'x) world \<Rightarrow> bool" where
  "typed_store env w \<longleftrightarrow> (\<forall>g \<in> set (gens (w_db w)). row_typed env g)"

definition types :: "('x, 'z) env_scheme \<Rightarrow> ('k, 'x) world \<Rightarrow> ('k, 'x) world \<Rightarrow> bool" where
  "types env w w' \<longleftrightarrow> (typed_store env w \<longrightarrow> typed_store env w')"

interpretation types: frame_order "types env"
  by unfold_locales (auto simp: types_def)

lemma row_typed_core: "row_typed env (core g) = row_typed env g"
  by (simp add: row_typed_def core_def)

lemma typed_store_core: "typed_store env w \<longleftrightarrow> (\<forall>g \<in> set (map core (gens (w_db w))). row_typed env g)"
  by (simp add: typed_store_def row_typed_core)

lemma keeps_types: "keeps w w' \<Longrightarrow> types env w w'"
  unfolding types_def typed_store_core keeps_def by simp

lemma keeps_obeys_types: "obeys keeps m \<Longrightarrow> obeys (types env) m"
  by (auto simp: obeys_def intro: keeps_types)

lemma marks_obeys_types: "obeys same_marks m \<Longrightarrow> obeys (types env) m"
  unfolding obeys_def types_def typed_store_core same_marks_def by simp

lemma types_exec:
  assumes "\<And>d v d'. f d = Inr (v, d') \<Longrightarrow> \<forall>g \<in> set (gens d). row_typed env g \<Longrightarrow> \<forall>g \<in> set (gens d'). row_typed env g"
  shows "obeys (types env) (exec env' l f)"
proof -
  have "obeys (types env) (\<lambda>w. case f (w_db w) of Inl e \<Rightarrow> (Err e, w) | Inr (x, d) \<Rightarrow> (Ok x, w\<lparr>w_db := d\<rparr>))"
    using assms by (auto simp: obeys_def types_def typed_store_def split: sum.splits prod.splits)
  then show ?thesis
    unfolding exec_def by (intro types.frame_rules keeps_obeys_types [OF keeps_io])
qed

lemma types_change:
  assumes "\<And>g. P (g_status g) \<Longrightarrow> row_typed env g \<Longrightarrow> row_typed env (f g)"
  shows "obeys (types env) (change_generation env' l i P f)"
  unfolding change_generation_def
  by (intro types.frame_rules types_exec) (use assms in \<open>auto simp: sql_generations_def sql_update_def\<close>)

lemma types_in_tx:
  assumes "obeys (types env) body"
  shows "obeys (types env) (in_tx env' body)"
  unfolding obeys_def
proof
  fix w
  let ?m = "thenP (io env' ''BEGIN'') (bindP body (\<lambda>x. thenP (io env' ''COMMIT'') (ret x)))"
  have "obeys (types env) ?m" by (intro types.frame_rules keeps_obeys_types [OF keeps_io] assms)
  then show "types env w (snd (in_tx env' body w))"
    using obeysD [of "types env" ?m w]
    by (cases "?m w") (auto simp: in_tx_def types_def typed_store_def split: sum.splits)
qed

lemma types_put: "obeys (types env) (put_disk f)"
  by (simp add: obeys_def put_disk_def types_def typed_store_def)

text \<open>A check that has passed.\<close>

lemma obeys_check_then: "(oe = None \<Longrightarrow> obeys (types env) m) \<Longrightarrow> obeys (types env) (thenP (check oe) m)"
  by (cases oe) (simp_all add: check_def thenP_def types.obeys_failp)

lemmas types_kept = keeps_reads [THEN keeps_obeys_types]

lemmas types_base = types.frame_rules types_kept types_in_tx types_put types_change types_exec

text \<open>What is written as hexadecimal digits is read back.\<close>

lemma hex_digit_back: "n < 16 \<Longrightarrow> hex_val (digit_char n) = Some n"
proof -
  have "list_all (\<lambda>k. hex_val (digit_char k) = Some k) [0..<16]" by code_simp
  then show "n < 16 \<Longrightarrow> hex_val (digit_char n) = Some n" by (simp add: list_all_iff)
qed

lemma byte_bound: "byte c < 256"
  by (simp add: byte_def of_char_def horner_sum_simps split: char.split) (simp add: of_bool_def)?

lemma hex_decode_encode: "hex_decode (hex_encode bs) = Some (map byte bs)"
proof (induction bs)
  case (Cons c bs)
  have "byte c div 16 < 16" "byte c mod 16 < 16" using byte_bound [of c] by (simp_all add: less_mult_imp_div_less)
  then show ?case using Cons by (simp add: hex_encode_def hex_digit_back)
qed (simp add: hex_encode_def)

definition sha256_size :: "('x, 'z) env_scheme \<Rightarrow> bool" where
  "sha256_size env \<longleftrightarrow> (\<forall>s. length (sha256 env s) = 32)"

lemma sum_valid: "sha256_size env \<Longrightarrow> valid_checksum (hex_encode (sha256 env s))"
  by (simp add: valid_checksum_def hex_decode_encode sha256_size_def)

section \<open>The operations of the store\<close>

lemma types_mark_applied: "obeys (types env) (mark_applied env' i)"
  unfolding mark_applied_def one_row_def
  by (intro types_base) (simp add: row_typed_def)

lemma types_mark_rolled_back: "obeys (types env) (mark_rolled_back env' i)"
  unfolding mark_rolled_back_def one_row_def
  by (intro types_base) (simp add: row_typed_def rolled_back_row_def)

lemma types_finalize: "obeys (types env) (finalize_commit env' i)"
  unfolding finalize_commit_def one_row_def
  by (intro types_base) (auto simp: row_typed_def committed_row_def sql_generations_def sql_update_def sql_audit_def Let_def
      audit_now_def split: if_splits)

lemma types_audit_now: "obeys (types env) (audit_now env' event detail)"
  by (intro keeps_obeys_types keeps_audit_now)

lemma types_recovery_rollback: "obeys (types env) (finalize_recovery_rollback env' i detail)"
  unfolding finalize_recovery_rollback_def one_row_def
  by (intro types_base types_audit_now) (simp add: row_typed_def rolled_back_row_def)

lemma types_prepare_commit: "obeys (types env) (prepare_commit env' i)"
  unfolding prepare_commit_def one_row_def Let_def
  by (intro types_base) (simp add: row_typed_def prepared_row_def)

lemma types_save:
  assumes "sha256_size env"
  shows "obeys (types env) (save_generation env i checksum script previous deadline md)"
proof -
  have row: "row_typed env (new_row env s previous deadline now)"
    if "sn_generation s = i" "sn_checksum s = checksum" "sn_boot s = md_boot md" "save_guard env i checksum script md = None"
      "sql_arg i = None" for s now
    using that sum_valid [OF assms]
    by (auto simp: row_typed_def new_row_def save_guard_def refuse_def sql_arg_def valid_script_checksum_def
        snapshot_pointer_def split: if_splits)
  show ?thesis
    unfolding save_generation_def Let_def secure_generations_directory_def
    by (intro obeys_check_then types.frame_rules keeps_obeys_types [OF keeps_io] keeps_obeys_types [OF keeps_time]
        keeps_obeys_types [OF keeps_sync] marks_obeys_types [OF marks_script] marks_obeys_types [OF marks_snapshot]
        marks_obeys_types [OF wp_prior_pointer_marks] types_exec)
      (auto simp: sql_insert_generation_def split: if_splits option.splits intro!: row)
qed

lemma types_pointer: "obeys (types env) (prepare_enforcement_pointer env' p)"
  "obeys (types env) (publish_prepared_pointer env' p)" "obeys (types env) (cancel_prepared_pointer env')"
  "obeys (types env) (clear_active env')"
  unfolding prepare_enforcement_pointer_def publish_prepared_pointer_def cancel_prepared_pointer_def clear_active_def
    remove_file_def secure_active_directory_def
  by (intro types.frame_rules types_put keeps_obeys_types [OF keeps_io])+

lemmas types_ops = types_mark_applied types_mark_rolled_back types_finalize types_recovery_rollback types_prepare_commit
  types_pointer

lemma types_commit_generation: "obeys (types env) (commit_generation env' i)"
  unfolding commit_generation_def by (intro types.frame_rules types_ops types_kept)

section \<open>The operations of the controller\<close>

lemma types_rollback_locked:
  assumes "calm env"
  shows "obeys (types env') (rollback_locked env c i)"
proof -
  note kept = keeps_callbacks [OF assms, THEN keeps_obeys_types]
  show ?thesis
    unfolding rollback_locked_def rollback_open_def finish_rollback_def Let_def
    by (intro types.frame_rules types_ops types_kept kept)
qed

lemma types_commit_locked:
  assumes "calm env"
  shows "obeys (types env') (commit_locked env c i)"
proof -
  note kept = keeps_callbacks [OF assms, THEN keeps_obeys_types]
  show ?thesis
    unfolding commit_locked_def publish_or_rollback_def
    by (intro types.frame_rules types_ops types_rollback_locked [OF assms] types_kept kept)
qed

lemma types_apply:
  fixes env :: "('n, 'x) menv"
  assumes "calm env" "sha256_size env"
  shows "obeys (types env) (apply_artifact env c a safe)"
proof -
  note kept = keeps_callbacks [OF assms(1), THEN keeps_obeys_types]
  have hook: "obeys (types env) (case o' of None \<Rightarrow> m | Some h \<Rightarrow> f h)"
    if "\<And>h. o' = Some h \<Longrightarrow> obeys (types env) h" "\<And>h. obeys (types env) h \<Longrightarrow> obeys (types env) (f h)" "obeys (types env) m"
    for o' m and f :: "('n, 'x, unit) act \<Rightarrow> ('n, 'x, unit) act"
    using that by (cases o') auto
  have health: "obeys (types env) (apply_health env d i)" for d i
    unfolding apply_health_def
    by (rule hook, erule keeps_obeys_types [OF calm_obeys(4) [OF assms(1)]])
      (intro types.frame_rules types_rollback_locked [OF assms(1)] keeps_obeys_types [OF keeps_audit_quietly]; assumption)+
  have guard: "obeys (types env) (case safe_guard_locked env of
      None \<Rightarrow> failp (Errorf ''safe apply requires locked rollback-guard verification'' [])
    | Some g \<Rightarrow> wrapP (Wrapf ''safe apply locked revalidation refused: %w'' []) g)"
    by (rule hook, erule keeps_obeys_types [OF calm_obeys(2) [OF assms(1)]]) (intro types.frame_rules; assumption)+
  have post: "obeys (types env) (recover_post_apply_failure env d i previous cause)" for d i previous cause
    unfolding recover_post_apply_failure_def by (intro types.frame_rules types_ops kept)
  have first: "obeys (types env) (recover_first_apply_execution_failure env i cause)" for i cause
    unfolding recover_first_apply_execution_failure_def by (intro types.frame_rules types_ops types_kept)
  have failed: "obeys (types env) (apply_failed env d i previous e)" for d i previous e
    unfolding apply_failed_def Let_def
    by (intro types.frame_rules post first types_ops keeps_obeys_types [OF keeps_audit_quietly])
  show ?thesis
    unfolding apply_artifact_def apply_locked_def apply_installed_def Let_def
    by (intro types.frame_rules guard health post failed types_save [OF assms(2)] types_ops types_commit_locked [OF assms(1)]
        types_kept kept)
qed

lemma types_recover_pending:
  assumes "calm env"
  shows "obeys (types env') (recover_pending_at_boot env c g p)"
proof -
  note kept = keeps_callbacks [OF assms, THEN keeps_obeys_types]
  show ?thesis
    unfolding recover_pending_at_boot_def finalize_prepared_def restore_predecessor_and_rollback_def
      rollback_first_generation_at_boot_def
    by (intro types.frame_rules types_ops types_kept kept)
qed

lemma types_manager:
  assumes "calm env" "sha256_size env"
  shows "obeys (types env) (manager_run env c op)"
proof -
  note kept = keeps_callbacks [OF assms(1), THEN keeps_obeys_types]
  have commit: "obeys (types env) (commit env c i)" for i
    unfolding commit_def commit_expired_def commit_corrupt_def rollback_instead_def Let_def
    by (intro types.frame_rules types_rollback_locked types_commit_locked types_kept assms)
  have rollback: "obeys (types env) (rollback env c i)" for i
    unfolding rollback_def by (intro types.frame_rules types_rollback_locked types_kept assms)
  have expired: "obeys (types env) (rollback_expired env c)"
    unfolding rollback_expired_def Let_def by (intro types.frame_rules types_recover_pending types_kept kept assms)
  have recover: "obeys (types env) (recover_at_boot env c)"
    unfolding recover_at_boot_def recover_at_boot_locked_def recover_committed_def
    by (intro types.frame_rules types_recover_pending types_kept kept assms)
  have reconcile: "obeys (types env) (reconcile env c r)" for r
    unfolding reconcile_def observe_drift_def drift_tables_def expected_or_none_def drift_fingerprint_def repair_def
      repair_generation_def repair_step_def Let_def
    by (intro types.frame_rules types_rollback_locked types_kept kept keeps_obeys_types [OF keeps_audit_quietly] assms)
  show ?thesis
    by (cases op) (auto intro!: types.frame_rules types_apply commit rollback expired recover reconcile
        types_commit_generation assms)
qed

text \<open>C37. The rows of the generations stay well typed under every operation, fault and crash: the number is
  positive and fits the column, both checksums are 64 hexadecimal digits, the paths are the canonical ones of the
  number, the boot id is present, the time of preparation is set exactly while the row is prepared, and a
  committed row has no deadline.\<close>

theorem rows_stay_typed:
  assumes "calm env" "sha256_size env" "\<forall>g \<in> set (gens (w_db w)). row_typed env g" "manager_run env c op w = (r, w')"
  shows "\<forall>g \<in> set (gens (w_db w')). row_typed env g"
  using obeys_run [OF types_manager [OF assms(1,2), of c op] assms(4)] assms(3)
  by (simp add: types_def typed_store_def)

theorem rows_stay_typed_witness:
  "row_typed trial (rolled_back_row trial_row)"
proof -
  have "sha256_size trial" by (simp add: sha256_size_def trial_def)
  from rows_stay_typed [OF trial_calm this, of "trial_host []" trial_ctx "Do_apply trial_artifact False"] trial_run
  show ?thesis by (simp add: trial_host_def del: manager_run.simps) (metis prod.collapse list.set_intros(1))
qed

end
