(* ===== verification/Json_Fuel.thy ===== *)
theory Json_Fuel
  imports Json
begin

text \<open>
  The parser of \<open>Json\<close> recurses on fuel. An answer needs no more fuel than the bytes it consumes, so the fuel
  that \<open>json_decode\<close> starts with is enough for every text.
\<close>

section \<open>The fuel of the parser\<close>

lemma skip_shorter: "length (skip s) \<le> length s"
  by (simp add: skip_def length_dropWhile_le)

lemma skip_Cons: "skip s = c # r \<Longrightarrow> length r < length s"
  using skip_shorter [of s] by simp

lemma put_front_eq_Some: "put_front p r = Some (k, t) \<longleftrightarrow> (\<exists>k'. r = Some (k', t) \<and> k = p @ k')"
  by (auto simp: put_front_def)

lemma json_string_shorter: "json_string s = Some (k, t) \<Longrightarrow> length t < length s"
proof (induction s arbitrary: k t rule: length_induct)
  case (1 s)
  show ?case
  proof (cases s)
    case Nil
    with "1.prems" show ?thesis by simp
  next
    case (Cons c r)
    have ih: "length t' < length s" if "json_string q = Some (k', t')" "length q \<le> length r" for q k' t'
    proof -
      have "length q < length s" using that(2) Cons by simp
      with "1.IH" that(1) have "length t' < length q" by blast
      with that(2) Cons show ?thesis by simp
    qed
    have "\<exists>q k'. json_string q = Some (k', t) \<and> length q \<le> length r \<or> t = r"
      using "1.prems" unfolding Cons json_string.simps
      by (force split: if_splits option.splits list.splits simp: put_front_eq_Some)
    then show ?thesis using ih Cons by auto
  qed
qed

lemma literal_shorter: "literal word v s = Some (x, t) \<Longrightarrow> word \<noteq> [] \<Longrightarrow> length t < length s"
  by (auto simp: literal_def has_prefix_def prefix_def split: if_splits)

lemma no_number: "\<not> json_number []"
  by (simp add: json_number_def strip_char_def)

lemma number_shorter:
  assumes "json_number (takeWhile number_char s)"
  shows "length (dropWhile number_char s) < length s"
proof -
  have "takeWhile number_char s \<noteq> []"
    using assms no_number by metis
  then have "0 < length (takeWhile number_char s)" by simp
  moreover have "length s = length (takeWhile number_char s) + length (dropWhile number_char s)"
    by (metis length_append takeWhile_dropWhile_id)
  ultimately show ?thesis by simp
qed

definition json_scalar :: "char \<Rightarrow> string \<Rightarrow> (json \<times> string) option" where
  "json_scalar c r =
     (if c = CHR 0x22 then map_option (\<lambda>(t, q). (JStr t, q)) (json_string r)
      else if c = CHR ''t'' then literal ''true'' (JBool True) (c # r)
      else if c = CHR ''f'' then literal ''false'' (JBool False) (c # r)
      else if c = CHR ''n'' then literal ''null'' JNull (c # r)
      else let lit = takeWhile number_char (c # r) in
           if json_number lit then Some (JNum lit, dropWhile number_char (c # r)) else None)"

lemma json_scalar_shorter: "json_scalar c r = Some (v, t) \<Longrightarrow> length t < length (c # r)"
  unfolding json_scalar_def
  by (auto split: if_splits dest!: json_string_shorter literal_shorter number_shorter simp: Let_def
      simp del: dropWhile.simps takeWhile.simps)

lemma fuel:
  "json_value m d s = Some (v, t) \<Longrightarrow>
     length t < length s \<and> (\<forall>n. length s \<le> length t + n \<longrightarrow> json_value n d s = Some (v, t))"
  "json_elems m d s = Some (vs, t) \<Longrightarrow>
     length t < length s \<and> (\<forall>n. length s \<le> length t + n \<longrightarrow> json_elems n d s = Some (vs, t))"
  "json_members m d s = Some (ms, t) \<Longrightarrow>
     length t < length s \<and> (\<forall>n. length s \<le> length t + n \<longrightarrow> json_members n d s = Some (ms, t))"
proof (induction m d s and m d s and m d s arbitrary: v t and vs t and ms t
    rule: json_value_json_elems_json_members.induct)
  case (2 n d s)
  then obtain c r where s: "skip s = c # r" by (auto split: list.splits)
  note short = skip_Cons [OF s]
  have later: "length t < length s \<and> (\<forall>k. length s \<le> length t + k \<longrightarrow> json_value k d s = Some (v, t))"
    if "length t < length s" "\<And>j. length r \<le> length t + j \<Longrightarrow> json_value (Suc j) d s = Some (v, t)"
  proof (intro conjI allI impI that(1))
    fix k
    assume k: "length s \<le> length t + k"
    with that(1) obtain j where j: "k = Suc j" by (cases k) auto
    show "json_value k d s = Some (v, t)"
      unfolding j by (rule that(2)) (use k j short in simp)
  qed
  show ?case
  proof (cases "c = CHR ''{'' \<and> take 1 (skip r) \<noteq> ''}''")
    case True
    with "2.prems" s obtain ms where ms: "json_members n (d - 1) r = Some (ms, t)" "v = JObj ms" "d \<noteq> 0"
      by (auto split: if_splits)
    have "length t < length r \<and> (\<forall>k. length r \<le> length t + k \<longrightarrow> json_members k (d - 1) r = Some (ms, t))"
      by (rule "2.IH"(1) [OF s]) (use True ms in auto)
    with True s ms short show ?thesis by (intro later) auto
  next
    case obj: False
    show ?thesis
    proof (cases "c = CHR ''['' \<and> take 1 (skip r) \<noteq> '']''")
      case True
      with "2.prems" s obtain vs where vs: "json_elems n (d - 1) r = Some (vs, t)" "v = JArr vs" "d \<noteq> 0"
        by (auto split: if_splits)
      have "length t < length r \<and> (\<forall>k. length r \<le> length t + k \<longrightarrow> json_elems k (d - 1) r = Some (vs, t))"
        by (rule "2.IH"(2) [OF s]) (use True vs in auto)
      with True s vs short show ?thesis by (intro later) auto
    next
      case arr: False
      have same: "json_value (Suc j) d s = json_value (Suc n) d s" for j
        using obj arr s by simp
      have cr: "length (c # r) \<le> length s" using skip_shorter [of s] s by simp
      have "length t < length s"
      proof (cases "c = CHR ''{'' \<or> c = CHR ''[''")
        case True
        with "2.prems" obj arr s short skip_shorter [of r] show ?thesis by (auto split: if_splits)
      next
        case False
        have "json_value (Suc n) d s = json_scalar c r" using s False by (simp add: json_scalar_def)
      then have "json_scalar c r = Some (v, t)" using "2.prems" by simp
        from json_scalar_shorter [OF this] cr show ?thesis by simp
      qed
      then show ?thesis by (rule later) (rule trans [OF same "2.prems"])
    qed
  qed
next
  case (4 n d s)
  obtain x r where x: "json_value n d s = Some (x, r)" using "4.prems" by (auto split: option.splits)
  from "4.IH"(1) [OF this] have xs: "length r < length s" "\<And>n. length s \<le> length r + n \<Longrightarrow> json_value n d s = Some (x, r)"
    by blast+
  obtain c q where q: "skip r = c # q" using "4.prems" x by (auto split: list.splits)
  note short = skip_Cons [OF q]
  show ?case
  proof (cases "c = CHR '']''")
    case True
    with "4.prems" x q have res: "vs = [x]" "t = q" by auto
    have "json_elems k d s = Some (vs, t)" if "length s \<le> length t + k" for k
    proof (cases k)
      case 0
      with that res short xs show ?thesis by simp
    next
      case (Suc j)
      with that res short xs(2) [of j] q True show ?thesis by simp
    qed
    with res short xs show ?thesis by simp
  next
    case False
    with "4.prems" x q obtain ws where w: "json_elems n d q = Some (ws, t)" "vs = x # ws" "c = CHR '',''"
      by (auto split: if_splits)
    from "4.IH"(2) [OF x refl q False w(3,1)] have ws: "length t < length q" "\<And>n. length q \<le> length t + n \<Longrightarrow> json_elems n d q = Some (ws, t)"
      by blast+
    have "json_elems k d s = Some (vs, t)" if "length s \<le> length t + k" for k
    proof (cases k)
      case 0
      with that short xs ws show ?thesis by simp
    next
      case (Suc j)
      with that w short xs(1) xs(2) [of j] ws(1) ws(2) [of j] q show ?thesis by simp
    qed
    with w short xs ws show ?thesis by simp
  qed
next
  case (6 n d s)
  obtain c r where s: "skip s = c # r" "c = CHR 0x22"
    using "6.prems" by (auto split: list.splits if_splits)
  obtain k u where k: "json_string r = Some (k, u)" "take 1 (skip u) = '':''"
    using "6.prems" s by (auto split: option.splits if_splits)
  let ?p = "drop 1 (skip u)"
  obtain x q where x: "json_value n d ?p = Some (x, q)"
    using "6.prems" s k by (auto split: option.splits)
  have ih: "length q < length ?p \<and> (\<forall>j. length ?p \<le> length q + j \<longrightarrow> json_value j d ?p = Some (x, q))"
    by (rule "6.IH"(1) [OF s(1)]) (use s k x in auto)
  then have xs: "length q < length ?p" "\<And>j. length ?p \<le> length q + j \<Longrightarrow> json_value j d ?p = Some (x, q)" by auto
  obtain e p where e: "skip q = e # p" using "6.prems" s k x by (auto split: list.splits)
  have lens: "length ?p < length s" "length p < length q"
    using skip_Cons [OF s(1)] json_string_shorter [OF k(1)] skip_shorter [of u] skip_Cons [OF e] by auto
  show ?case
  proof (cases "e = CHR ''}''")
    case True
    with "6.prems" s k x e have res: "ms = [(k, x)]" "t = p" by auto
    have "json_members i d s = Some (ms, t)" if "length s \<le> length t + i" for i
    proof (cases i)
      case 0
      with that res lens xs show ?thesis by simp
    next
      case (Suc j)
      then have "json_value j d ?p = Some (x, q)" using that res lens by (intro xs(2)) simp
      with Suc res s k e True show ?thesis by simp
    qed
    with res lens xs show ?thesis by simp
  next
    case False
    with "6.prems" s k x e obtain ws where w: "json_members n d p = Some (ws, t)" "ms = (k, x) # ws" "e = CHR '',''"
      by (auto split: if_splits)
    have "length t < length p \<and> (\<forall>j. length p \<le> length t + j \<longrightarrow> json_members j d p = Some (ws, t))"
      by (rule "6.IH"(2) [OF s(1) _ k(1)]) (use s k x e w False in auto)
    then have ws: "length t < length p" "\<And>j. length p \<le> length t + j \<Longrightarrow> json_members j d p = Some (ws, t)" by auto
    have "json_members i d s = Some (ms, t)" if "length s \<le> length t + i" for i
    proof (cases i)
      case 0
      with that lens xs ws show ?thesis by simp
    next
      case (Suc j)
      have "json_value j d ?p = Some (x, q)"
        by (rule xs(2)) (use Suc that lens ws(1) in simp)
      moreover have "json_members j d p = Some (ws, t)"
        by (rule ws(2)) (use Suc that lens xs(1) in simp)
      ultimately show ?thesis using Suc w s k e by simp
    qed
    with w lens xs ws show ?thesis by simp
  qed
qed simp_all

text \<open>The fuel of the parser never cuts an answer off: whatever fuel and input, an answer that some fuel gives
  is the answer that \<^verbatim>\<open>json_decode\<close> gives with one unit more than the length of the text.\<close>

lemma json_decode_fuel:
  assumes "json_value m max_nesting s = Some (v, t)" "skip t = []"
  shows "json_decode s = Some v"
  using fuel(1) [OF assms(1)] assms(2) by (simp add: json_decode_def del: json_value.simps)

end
