(* ===== verification/Canonical_Text.thy ===== *)
theory Canonical_Text
  imports Json_Fuel Inspect
begin

text \<open>
  The text that is hashed into the fingerprint of a table. \<open>marshal_decode\<close>: what \<open>json_marshal\<close> prints, the
  parser of \<open>Json\<close> reads back, up to the text of the numbers.
\<close>

section \<open>Canonical text\<close>

text \<open>Values whose strings are ASCII and whose numbers are printed as JSON numbers, nested at most \<open>d\<close> deep.\<close>

fun printable :: "(string \<Rightarrow> string option) \<Rightarrow> json \<Rightarrow> bool" where
  "printable ft (JNum lit) = (case ft lit of None \<Rightarrow> False | Some t \<Rightarrow> json_number t \<and> list_all number_char t)"
| "printable ft (JStr s) = ascii s"
| "printable ft (JArr vs) = list_all (printable ft) vs"
| "printable ft (JObj ms) = list_all (\<lambda>(k, v). ascii k \<and> printable ft v) ms"
| "printable ft v = True"

fun nested :: "nat \<Rightarrow> json \<Rightarrow> bool" where
  "nested d (JArr vs) = (0 < d \<and> list_all (nested (d - 1)) vs)"
| "nested d (JObj ms) = (0 < d \<and> list_all (\<lambda>(k, v). nested (d - 1) v) ms)"
| "nested d v = True"

text \<open>The value with every number as it is printed.\<close>

fun renumber :: "(string \<Rightarrow> string option) \<Rightarrow> json \<Rightarrow> json" where
  "renumber ft (JNum lit) = JNum (the (ft lit))"
| "renumber ft (JArr vs) = JArr (map (renumber ft) vs)"
| "renumber ft (JObj ms) = JObj (map (\<lambda>(k, v). (k, renumber ft v)) ms)"
| "renumber ft v = v"

definition stops :: "string \<Rightarrow> bool" where
  "stops r \<longleftrightarrow> r = [] \<or> \<not> number_char (hd r)"

lemma stops_simps [simp]: "stops []" "stops (CHR '','' # r)" "stops (CHR '']'' # r)" "stops (CHR ''}'' # r)"
  by (simp_all add: stops_def number_char_def char_class_defs)

lemma read_number:
  assumes "json_number t" "list_all number_char t" "stops r"
  shows "json_value (Suc n) d (t @ r) = Some (JNum t, r)"
proof -
  obtain c s where t: "t = c # s" using assms(1) no_number by (cases t) auto
  have "takeWhile number_char (t @ r) = t" "dropWhile number_char (t @ r) = r"
    using assms(2,3) by (cases r; simp add: takeWhile_append dropWhile_append list_all_iff stops_def)+
  moreover have "number_char c" using assms(2) by (simp add: t)
  then have "\<not> json_space c" "c \<noteq> CHR ''{''" "c \<noteq> CHR ''[''" "c \<noteq> CHR 0x22" "c \<noteq> CHR ''t''" "c \<noteq> CHR ''f''" "c \<noteq> CHR ''n''"
    by (auto simp: json_space_def char_class_defs number_char_def)
  ultimately show ?thesis using assms(1) by (simp add: t Let_def)
qed

definition reads :: "nat \<Rightarrow> string \<Rightarrow> json \<Rightarrow> bool" where
  "reads d s v \<longleftrightarrow> (\<forall>r. stops r \<longrightarrow> (\<exists>n. json_value n d (s @ r) = Some (v, r)))"

lemma reads_enough:
  assumes "reads d s v" "stops r" "length s \<le> n"
  shows "json_value n d (s @ r) = Some (v, r)"
proof -
  obtain m where "json_value m d (s @ r) = Some (v, r)" using assms(1,2) by (auto simp: reads_def)
  from fuel(1) [OF this] assms(3) show ?thesis by simp
qed

lemma reads_shorter: "reads d s v \<Longrightarrow> 0 < length s"
  unfolding reads_def by (metis append_Nil2 fuel(1) list.size(3) stops_simps(1))

lemma elems_enough: "json_elems m d s = Some (vs, t) \<Longrightarrow> length s \<le> n \<Longrightarrow> json_elems n d s = Some (vs, t)"
  using fuel(2) [of m d s vs t] by simp

lemma members_enough: "json_members m d s = Some (ms, t) \<Longrightarrow> length s \<le> n \<Longrightarrow> json_members n d s = Some (ms, t)"
  using fuel(3) [of m d s ms t] by simp

lemma elems_last: "json_value n d s = Some (v, CHR '']'' # q) \<Longrightarrow> json_elems (Suc n) d s = Some ([v], q)"
  by (simp add: json_space_def del: json_value.simps)

lemma elems_more:
  "json_value n d s = Some (v, CHR '','' # q) \<Longrightarrow> json_elems n d q = Some (vs, t) \<Longrightarrow> json_elems (Suc n) d s = Some (v # vs, t)"
  by (simp del: json_value.simps)

lemma read_elems:
  assumes "list_all2 (reads d) ts vs" "ts \<noteq> []"
  shows "\<exists>n. json_elems n d (join_str '','' ts @ CHR '']'' # r) = Some (vs, r)"
  using assms
proof (induction ts arbitrary: vs)
  case (Cons t ts)
  from Cons.prems obtain v ws where vs: "vs = v # ws" "reads d t v" "list_all2 (reads d) ts ws"
    by (auto simp: list_all2_Cons1)
  show ?case
  proof (cases ts)
    case Nil
    have "json_elems (Suc (length t)) d (t @ CHR '']'' # r) = Some ([v], r)"
      by (rule elems_last) (rule reads_enough [OF vs(2)], simp_all)
    with Nil vs show ?thesis by (intro exI [of _ "Suc (length t)"]) (simp del: json_elems.simps)
  next
    case (Cons u us)
    let ?rest = "join_str '','' ts @ CHR '']'' # r"
    have "ts \<noteq> []" using Cons by simp
    from Cons.IH [OF vs(3) this] obtain m where m: "json_elems m d ?rest = Some (ws, r)" by blast
    let ?n = "length t + length ?rest"
    have v: "json_value ?n d (t @ CHR '','' # ?rest) = Some (v, CHR '','' # ?rest)"
      by (rule reads_enough [OF vs(2)]) simp_all
    have "json_elems ?n d ?rest = Some (ws, r)" by (rule elems_enough [OF m]) simp
    from elems_more [OF v this] have "json_elems (Suc ?n) d (t @ CHR '','' # ?rest) = Some (vs, r)"
      by (simp add: vs)
    moreover have "join_str '','' (t # ts) @ CHR '']'' # r = t @ CHR '','' # ?rest" using Cons by simp
    ultimately show ?thesis by metis
  qed
qed simp

definition reads_member :: "nat \<Rightarrow> string \<Rightarrow> string \<times> json \<Rightarrow> bool" where
  "reads_member d s m \<longleftrightarrow> ascii (fst m) \<and> (\<exists>t. s = json_quote (fst m) @ CHR '':'' # t \<and> reads d t (snd m))"

lemma read_members:
  assumes "list_all2 (reads_member d) ts ms" "ts \<noteq> []"
  shows "\<exists>n. json_members n d (join_str '','' ts @ CHR ''}'' # r) = Some (ms, r)"
  using assms
proof (induction ts arbitrary: ms)
  case (Cons t ts)
  from Cons.prems obtain k v ns s where ms: "ms = (k, v) # ns" "ascii k" "t = json_quote k @ CHR '':'' # s" "reads d s v"
      "list_all2 (reads_member d) ts ns"
    unfolding list_all2_Cons1 reads_member_def [of _ t] by (metis prod.collapse)
  show ?case
  proof (cases ts)
    case Nil
    have "json_members (Suc (length s)) d (json_quote k @ CHR '':'' # s @ CHR ''}'' # r) = Some ([(k, v)], r)"
      by (rule members_last [OF ms(2)]) (rule reads_enough [OF ms(4)], simp_all)
    with Nil ms show ?thesis by (intro exI [of _ "Suc (length s)"]) (simp del: json_members.simps)
  next
    case (Cons u us)
    let ?rest = "join_str '','' ts @ CHR ''}'' # r"
    have "ts \<noteq> []" using Cons by simp
    from Cons.IH [OF ms(5) this] obtain m where m: "json_members m d ?rest = Some (ns, r)" by blast
    let ?n = "length s + length ?rest"
    have "json_members (Suc ?n) d (json_quote k @ CHR '':'' # s @ CHR '','' # ?rest) = Some ((k, v) # ns, r)"
    proof (rule members_more [OF ms(2)])
      show "json_value ?n d (s @ CHR '','' # ?rest) = Some (v, CHR '','' # ?rest)"
        by (rule reads_enough [OF ms(4)]) simp_all
      show "json_members ?n d ?rest = Some (ns, r)" by (rule members_enough [OF m]) simp
    qed
    moreover have "join_str '','' (t # ts) @ CHR ''}'' # r = json_quote k @ CHR '':'' # s @ CHR '','' # ?rest"
      using Cons by (simp add: ms)
    ultimately show ?thesis using ms by metis
  qed
qed simp

lemma those_all2: "those (map f xs) = Some ys \<Longrightarrow> list_all2 (\<lambda>y x. f x = Some y) ys xs"
  by (induction xs arbitrary: ys) (auto split: option.splits)

lemma json_space_brackets [simp]: "\<not> json_space (CHR ''['')" "\<not> json_space (CHR '']'')" "\<not> json_space (CHR ''t'')"
    "\<not> json_space (CHR ''f'')" "\<not> json_space (CHR ''n'')"
  by (simp_all add: json_space_def)

lemma marshal_head:
  assumes "json_marshal ft v = Some s" "printable ft v"
  shows "\<exists>c u. s = c # u \<and> c \<noteq> CHR '']'' \<and> \<not> json_space c"
  using assms
proof (cases v)
  case (JNum lit)
  with assms have n: "json_number s" "list_all number_char s" by (auto split: option.splits)
  with no_number obtain c u where "s = c # u" by (cases s) auto
  with n(2) show ?thesis by (auto simp: number_char_def char_class_defs json_space_def)
qed (auto simp: json_quote_def json_space_def)

lemma marshal_reads:
  "json_marshal ft v = Some s \<Longrightarrow> printable ft v \<Longrightarrow> nested d v \<Longrightarrow> reads d s (renumber ft v)"
proof (induction v arbitrary: s d)
  case JNull
  then show ?case by (auto simp: reads_def literal_def has_prefix_def intro!: exI [of _ "Suc 0"])
next
  case (JBool b)
  then show ?case by (auto simp: reads_def literal_def has_prefix_def intro!: exI [of _ "Suc 0"])
next
  case (JNum lit)
  then show ?case
    by (auto simp: reads_def split: option.splits simp del: json_value.simps intro!: exI read_number)
next
  case (JStr t)
  then show ?case by (auto simp: reads_def simp del: json_value.simps intro!: exI value_string)
next
  case (JArr vs)
  obtain ts where ts: "those (map (json_marshal ft) vs) = Some ts" "s = ''['' @ join_str '','' ts @ '']''"
    using JArr.prems(1) by auto
  have all: "list_all2 (\<lambda>t v. json_marshal ft v = Some t) ts vs" by (rule those_all2 [OF ts(1)])
  have elems: "list_all2 (reads (d - 1)) ts (map (renumber ft) vs)"
    unfolding list_all2_map2
    by (rule list.rel_mono_strong [OF all])
      (use JArr in \<open>auto simp: list_all_iff dest: set_zip_rightD\<close>)
  have d: "0 < d" using JArr.prems(3) by simp
  show ?case
    unfolding reads_def
  proof (intro allI impI)
    fix r
    show "\<exists>n. json_value n d (s @ r) = Some (renumber ft (JArr vs), r)"
    proof (cases ts)
      case Nil
      with all d show ?thesis by (intro exI [of _ "Suc 0"]) (simp add: ts skip_def json_space_def)
    next
      case (Cons t us)
      then obtain v where "json_marshal ft v = Some t" "v \<in> set vs"
        using all by (auto simp: list_all2_Cons1)
      then obtain c u where t: "t = c # u" "c \<noteq> CHR '']''" "\<not> json_space c"
        using marshal_head [of ft v t] JArr.prems(2) by (auto simp: list_all_iff)
      obtain n where n: "json_elems n (d - 1) (join_str '','' ts @ CHR '']'' # r) = Some (map (renumber ft) vs, r)"
        using read_elems [OF elems] Cons by blast
      obtain w where "join_str '','' ts @ CHR '']'' # r = c # w"
        using t(1) Cons by (cases us) auto
      with n t d show ?thesis by (intro exI [of _ "Suc n"]) (simp add: ts del: json_elems.simps)
    qed
  qed
next
  case (JObj ms)
  let ?f = "\<lambda>(k, v). map_option (\<lambda>t. json_quote k @ '':'' @ t) (json_marshal ft v)"
  obtain ts where ts: "those (map ?f ms) = Some ts" "s = ''{'' @ join_str '','' ts @ ''}''"
    using JObj.prems(1) by auto
  have all: "list_all2 (\<lambda>t m. ?f m = Some t) ts ms" by (rule those_all2 [OF ts(1)])
  have mems: "list_all2 (reads_member (d - 1)) ts (map (\<lambda>(k, v). (k, renumber ft v)) ms)"
    unfolding list_all2_map2
    by (rule list.rel_mono_strong [OF all])
      (use JObj in \<open>fastforce simp: list_all_iff reads_member_def dest: set_zip_rightD\<close>)
  have d: "0 < d" using JObj.prems(3) by simp
  show ?case
    unfolding reads_def
  proof (intro allI impI)
    fix r
    show "\<exists>n. json_value n d (s @ r) = Some (renumber ft (JObj ms), r)"
    proof (cases ts)
      case Nil
      with all d show ?thesis by (intro exI [of _ "Suc 0"]) (simp add: ts skip_def json_space_def)
    next
      case (Cons t us)
      then obtain k v t' where "t = json_quote k @ t'" using all by (auto simp: list_all2_Cons1)
      then obtain u where t: "t = CHR 0x22 # u" by (auto simp: json_quote_def)
      obtain n where n: "json_members n (d - 1) (join_str '','' ts @ CHR ''}'' # r) = Some (map (\<lambda>(k, v). (k, renumber ft v)) ms, r)"
        using read_members [OF mems] Cons by blast
      obtain w where "join_str '','' ts @ CHR ''}'' # r = CHR 0x22 # w"
        using t(1) Cons by (cases us) auto
      with n t d show ?thesis by (intro exI [of _ "Suc n"]) (simp add: ts del: json_members.simps)
    qed
  qed
qed

lemma marshal_decode:
  assumes "json_marshal ft v = Some s" "printable ft v" "nested max_nesting v"
  shows "json_decode s = Some (renumber ft v)"
proof -
  have "json_value (Suc (length s)) max_nesting (s @ []) = Some (renumber ft v, [])"
    by (rule reads_enough [OF marshal_reads [OF assms]]) simp_all
  then show ?thesis by (simp add: json_decode_def skip_def del: json_value.simps)
qed

end
