(* ===== verification/Boot_Props.thy ===== *)
theory Boot_Props
  imports Manager_Protocol Canonical_Text
begin

text \<open>
  The recovery at boot: the pointer that was published is the one that is read, and readiness is reported of a
  ready store only. \<open>ready_store\<close> is what readiness means, \<open>reporting\<close> the goal of every branch of the
  recovery. The concrete run at the end boots a host that was stopped between the publication of the pointer
  and the end of the commit, with a kernel whose listing passes the integrity check.
\<close>

section \<open>The pointer is read back\<close>

text \<open>C32. An enforcement pointer that was prepared and published is the pointer that is read afterwards, for
  every pointer with a number that SQLite can hold.\<close>

theorem published_pointer_is_read:
  fixes env :: "('x, 'z) env_scheme" and w :: "('k, 'x) world"
  assumes "prepare_enforcement_pointer env p w = (Inr (), w1)" "publish_prepared_pointer env p w1 = (Inr (), w2)"
    "read_enforcement_pointer env w2 = (Inr q, w3)" "int (ep_generation p) \<le> max_int64"
  shows "q = Some p"
proof -
  have st: "staged w1 p"
    using wp_Ok [OF wp_prepare_pointer [OF same_marks.frame_refl, of _ _ "\<lambda>_ v. staged v p" "\<lambda>_ _. True"] assms(1)] by simp
  then have ptext: "parse_pointer (encode_pointer p @ NL) = Inr p"
    using assms(4) by (intro pointer_text) (auto simp: staged_def sql_arg_def refuse_def)
  have "wp (publish_prepared_pointer env p) (\<lambda>_ v. d_marker (w_disk v) = Some (encode_pointer p @ NL)) (\<lambda>_ _. True) w1"
    unfolding publish_prepared_pointer_def
    using st by (auto intro!: wp_io simp: staged_def put_disk_def wp_def [of "put_disk _"])
  from wp_Ok [OF this assms(2)] have "marker_pointer (w_disk w2) = Some p"
    by (simp add: marker_pointer_def ptext)
  moreover have r: "wp (read_enforcement_pointer env) (\<lambda>q _. q = marker_pointer (w_disk w2)) (\<lambda>_ _. True) w2"
    by (rule wp_read_pointer [OF keeps.frame_refl]) simp_all
  ultimately show ?thesis using wp_Ok [OF r assms(3)] by simp
qed

section \<open>Ready after a boot\<close>

lemma keeps_committed:
  assumes "store_good w0" "evolves w0 v" "status_at w0 i = Some Committed"
  shows "status_at v i = Some Committed"
  using assms proto_path_final [of "abs_store w0" "abs_store v" Committed i] by (auto simp: evolves_def status_abs)

text \<open>What a recovery that reports readiness has established.\<close>

definition ready_store :: "nat \<Rightarrow> ('k, 'x) world \<Rightarrow> bool" where
  "ready_store i v \<longleftrightarrow> status_at v i = Some Committed \<and> pr_published (abs_store v) = Some i"

definition report_ok :: "recovery_result reported \<Rightarrow> ('k, 'x) world \<Rightarrow> bool" where
  "report_ok x v \<longleftrightarrow> (rr_ready (fst x) \<and> snd x = None \<longrightarrow> ready_store (rr_generation (fst x)) v)"

lemma wp_change_status:
  assumes "retag f t"
    and "\<And>n v. w_disk v = w_disk w \<Longrightarrow> (\<And>s. status_at w i = Some s \<Longrightarrow> P s \<Longrightarrow> status_at v i = Some t) \<Longrightarrow> Q n v"
    and "\<And>e v. keeps w v \<Longrightarrow> E e v"
  shows "wp (change_generation env l i P f) Q E w"
  by (rule wp_change) (auto intro!: assms(2,3) simp: retagged_status [OF assms(1)])

lemma wp_finalized:
  fixes env :: "('a, 'z) env_scheme" and w :: "('b, 'a) world"
  assumes "keeps w0 w" "store_good w0" "status_at w0 i = Some CommitPrepared" "pr_published (abs_store w0) = Some i"
  shows "wp (finalize_commit env i) (\<lambda>_. ready_store i) (\<lambda>_ _. True) w"
proof -
  let ?R = "\<lambda>v. w_disk v = w_disk w0 \<and> status_at v i = Some Committed"
  let ?step = "bindP (change_generation env ''UPDATE committed'' i (\<lambda>s. s = CommitPrepared) committed_row)
        (\<lambda>n. thenP (wrapP (Wrapf ''finalize generation commit: %w'' []) (one_row env n))
           (audit_now env ''generation_committed'' (''generation='' @ itoa i)))"
  have tail: "obeys keeps (thenP (wrapP m (one_row env n)) (audit_now env e d))" for m n e d
    unfolding one_row_def by (intro keeps_base)
  have kept: "?R u" if "?R v" "keeps v u" for v u :: "('b, 'a) world"
    using that keeps_status [OF that(2), of i] by (simp add: keeps_def)
  have step: "wp ?step (\<lambda>_. ?R) (\<lambda>_ u. w_disk u = w_disk w0) u" if "keeps w0 u" for u
    unfolding wp_bindP
  proof (rule wp_change_status [OF retags(2)], goal_cases)
    case (1 n v)
    have "?R v" using 1(1) 1(2) [of CommitPrepared] assms(3) keeps_status [OF that, of i] that by (simp add: keeps_def)
    from kept [OF this] show ?case
      by (intro wp_keep [OF tail keeps.frame_refl]) auto
  next
    case (2 e v)
    then show ?case using that by (simp add: keeps_def)
  qed
  have body: "wp (thenP (check (sql_arg i)) (bindP (exec env ''UPDATE others'' (sql_generations
                 (\<lambda>g. g_status g \<in> {Pending, Applied} \<and> g_id g \<noteq> i) (g_status_update (\<lambda>_. RolledBack)))) (\<lambda>_. ?step)))
        (\<lambda>_. ?R) (\<lambda>_ u. w_disk u = w_disk w0) v" if v: "keeps w0 v" for v
  proof (rule wp_check_then)
    have noop: "map (\<lambda>g. if g_status g \<in> {Pending, Applied} \<and> g_id g \<noteq> i then g\<lparr>g_status := RolledBack\<rparr> else g) (gens (w_db v))
        = gens (w_db v)"
      using others_closed [of v i] assms(2,3) keeps_status_eq [OF v, of i] by (intro map_idI) auto
    show "wp (bindP (exec env ''UPDATE others'' (sql_generations
               (\<lambda>g. g_status g \<in> {Pending, Applied} \<and> g_id g \<noteq> i) (g_status_update (\<lambda>_. RolledBack)))) (\<lambda>_. ?step))
      (\<lambda>_. ?R) (\<lambda>_ u. w_disk u = w_disk w0) v"
      unfolding wp_bindP [of "exec _ _ _"]
      by (rule wp_exec, rule step) (use v noop in \<open>auto simp: sql_generations_def sql_update_def keeps_def\<close>)
  qed (use v in \<open>simp add: keeps_def\<close>)
  have disk: "w_disk w = w_disk w0" using assms(1) by (simp add: keeps_def)
  have done_at: "ready_store i v" if "?R v" for v :: "('b, 'a) world"
    using that assms(4) by (simp add: ready_store_def abs_store_def)
  show ?thesis
    unfolding finalize_commit_def wp_thenP [of "in_tx _ _"]
  proof (rule wp_in_tx_disk)
    fix x
    have ext: "?R (v\<lparr>w_ext := y\<rparr>)" if "?R v" for v :: "('b, 'a) world" and y
      using that by (simp add: status_at_def)
    have sync: "wp (sync_database env) (\<lambda>_. ready_store i) (\<lambda>_ _. True) v" if "?R v" for v :: "('b, 'a) world"
      by (rule wp_keep [OF keeps_sync keeps.frame_refl]) (use kept [OF that] done_at in auto)
    have "keeps w0 (w\<lparr>w_ext := x\<rparr>)" using assms(1) by simp
    from body [OF this]
    show "wp (thenP (check (sql_arg i)) (bindP (exec env ''UPDATE others'' (sql_generations
                 (\<lambda>g. g_status g \<in> {Pending, Applied} \<and> g_id g \<noteq> i) (g_status_update (\<lambda>_. RolledBack)))) (\<lambda>_. ?step)))
        (\<lambda>v w'. w_disk w' = w_disk w \<and> (\<forall>y. wp (sync_database env) (\<lambda>_. ready_store i) (\<lambda>_ _. True) (w'\<lparr>w_ext := y\<rparr>)))
        (\<lambda>_ w'. w_disk w' = w_disk w) (w\<lparr>w_ext := x\<rparr>)"
      by (rule wp_mono) (auto simp: disk intro!: sync ext)
  qed simp
qed

text \<open>The goal of every branch: the program reports readiness only of a ready store.\<close>

abbreviation reporting :: "(('k, 'x) world, recovery_result reported) prog \<Rightarrow> ('k, 'x) world \<Rightarrow> bool" where
  "reporting m w \<equiv> wp m report_ok (\<lambda>_ _. True) w"

lemma reporting_keep:
  assumes "obeys keeps m" "keeps w0 w" "\<And>x v. keeps w0 v \<Longrightarrow> reporting (f x) v"
  shows "reporting (bindP m f) w"
  unfolding wp_bindP by (rule wp_keep [OF assms(1,2)]) (use assms(3) in auto)

lemma reporting_keep_then:
  assumes "obeys keeps m" "keeps w0 w" "\<And>v. keeps w0 v \<Longrightarrow> reporting k v"
  shows "reporting (thenP m k) w"
  unfolding thenP_def by (rule reporting_keep [OF assms])

lemma reporting_refuse: "(\<not> b \<Longrightarrow> reporting k w) \<Longrightarrow> reporting (thenP (refuseP b e) k) w"
  by simp

lemma wp_require_pointer:
  assumes "keeps w0 w" "\<And>v. keeps w0 v \<Longrightarrow> marker_pointer (w_disk w0) = Some p \<Longrightarrow> Q () v" "\<And>e v. E e v"
  shows "wp (require_pointer env p) Q E w"
  unfolding require_pointer_def wp_bindP
  by (rule wp_read_pointer [OF assms(1)]) (auto simp: pointer_equal_iff intro: assms(2,3))

definition same_disk :: "('k, 'x) world \<Rightarrow> ('k, 'x) world \<Rightarrow> bool" where
  "same_disk w w' \<longleftrightarrow> w_disk w' = w_disk w"

interpretation same_disk: frame_order same_disk
  by unfold_locales (simp_all add: same_disk_def)

lemma keeps_same_disk: "obeys keeps m \<Longrightarrow> obeys same_disk m"
  by (auto simp: obeys_def keeps_def same_disk_def)

lemma disk_exec: "obeys same_disk (exec env l f)"
  unfolding exec_def
  by (intro same_disk.frame_rules keeps_same_disk [OF keeps_io])
    (auto simp: obeys_def same_disk_def split: sum.splits prod.splits)

lemma disk_in_tx:
  assumes "obeys same_disk body"
  shows "obeys same_disk (in_tx env body)"
  unfolding obeys_def
proof
  fix w
  let ?m = "thenP (io env ''BEGIN'') (bindP body (\<lambda>x. thenP (io env ''COMMIT'') (ret x)))"
  have "obeys same_disk ?m" by (intro same_disk.frame_rules keeps_same_disk [OF keeps_io] assms)
  then show "same_disk w (snd (in_tx env body w))"
    using obeysD [of same_disk ?m w]
    by (cases "?m w") (auto simp: in_tx_def same_disk_def split: sum.splits)
qed

lemma disk_recovery_rollback: "obeys same_disk (finalize_recovery_rollback env i detail)"
  unfolding finalize_recovery_rollback_def change_generation_def one_row_def Let_def
  by (intro same_disk.frame_rules disk_in_tx disk_exec keeps_same_disk [OF keeps_sync] keeps_same_disk [OF keeps_audit_now]
      keeps_same_disk [OF keeps_time] keeps_same_disk [OF keeps_io])

lemma reporting_first:
  "reporting (rollback_first_generation_at_boot env c g) w"
  unfolding rollback_first_generation_at_boot_def
  by (rule wpI) (auto simp: report_ok_def bindP_def thenP_def ret_def split: prod.splits sum.splits)

lemma reporting_predecessor:
  fixes env :: "('n, 'x) menv"
  assumes "calm env" "store_good w0" "keeps w0 w" "pr_published (abs_store w0) \<noteq> Some (g_id g)"
  shows "reporting (restore_predecessor_and_rollback env c g s) w"
proof (cases "sn_previous s")
  case None
  then show ?thesis by (simp add: restore_predecessor_and_rollback_def reporting_first)
next
  case (Some p)
  let ?detail = "\<lambda>previous. ''generation='' @ itoa (g_id g) @ '' predecessor='' @ itoa (g_id previous)"
  have last: "reporting (thenP (finalize_recovery_rollback env (g_id g) (?detail previous))
      (ret (\<lparr>rr_generation = g_id previous, rr_action = act, rr_ready = True\<rparr>, None))) v"
    if v: "keeps w0 v" and p: "marker_pointer (w_disk w0) = Some p"
      and row: "row_like w0 (ep_generation p) previous" "g_status previous = Committed" for previous act v
  proof -
    have "g_id previous = ep_generation p" "status_at w0 (ep_generation p) = Some Committed"
      using row_like_status [OF row(1)] row by (auto simp: row_like_def dest: row_of_Some)
    then have ready: "ready_store (g_id previous) u" if "evolves w0 u" "same_disk v u" for u
      using keeps_committed [OF assms(2) that(1)] p v that(2)
      by (simp add: ready_store_def abs_store_def keeps_def same_disk_def)
    have np: "pr_published (abs_store w0) \<noteq> Some (g_id g)" by (rule assms(4))
    show ?thesis
      unfolding wp_thenP
      by (rule wp_mono [OF wp_conj [OF wp_recovery_rollback [OF v np, where Q = "\<lambda>_. evolves w0" and E = "\<lambda>_ _. True"]
              obeys_wp [OF disk_recovery_rollback]]])
        (auto simp: report_ok_def ready)
  qed
  show ?thesis
    unfolding restore_predecessor_and_rollback_def Some option.case wp_bindP [of "wrapP _ (generation_by_id _ _)"] wp_wrapP
  proof (rule wp_by_id [OF assms(3)], goal_cases)
    case (1 previous v)
    show ?case
    proof (rule reporting_refuse, goal_cases)
      case committed: 1
      show ?case
        apply (rule reporting_keep [OF keeps_durable 1(1)])
        apply (rule reporting_keep_then [OF keeps_validate], assumption)
        apply (rule reporting_keep_then [OF keeps.obeys_wrapP [OF keeps_establish [OF assms(1)]]], assumption)
        apply (rule reporting_keep_then [OF keeps.obeys_wrapP [OF keeps_runtime [OF assms(1)]]], assumption)
        apply (unfold wp_thenP [of "require_pointer _ _"])
        apply (rule wp_require_pointer, assumption)
         apply (rule last, assumption, assumption, rule 1(2))
         apply (use committed in simp_all)
        done
    qed
  qed simp
qed

lemma reporting_finalize:
  fixes env :: "('n, 'x) menv"
  assumes "calm env" "store_good w0" "keeps w0 w" "status_at w0 (g_id g) = Some CommitPrepared"
    "pr_published (abs_store w0) = Some (g_id g)"
  shows "reporting (finalize_prepared env c g p) w"
  unfolding finalize_prepared_def
  apply (rule reporting_keep [OF keeps_durable assms(3)])
  apply (rule reporting_keep_then [OF keeps.obeys_wrapP [OF keeps_establish [OF assms(1)]]], assumption)
  apply (rule reporting_keep_then [OF keeps_require_pointer], assumption)
  apply (unfold wp_thenP wp_wrapP wp_ret)
  apply (rule wp_mono [OF wp_finalized [OF _ assms(2,4,5)]])
    apply (assumption | simp add: report_ok_def)+
  done

lemma reporting_pending:
  fixes env :: "('n, 'x) menv"
  assumes "calm env" "store_good w0" "keeps w0 w" "row_like w0 (g_id g) g" "open_status (g_status g)"
    "pointer = marker_pointer (w_disk w0)"
  shows "reporting (recover_pending_at_boot env c g pointer) w"
  unfolding recover_pending_at_boot_def wp_bindP [of "wrapP _ (load_verified_generation_snapshot _ _)"] wp_wrapP
proof (rule wp_load_verified [OF assms(3)], goal_cases)
  case (1 s v)
  show ?case
    unfolding wp_thenP [of "validate_generation_snapshot _ _ _ _"]
  proof (rule wp_validate [OF 1(1)], goal_cases)
    case v: (1 v)
    have ptr: "snapshot_pointer env s = row_pointer g" by (rule matched_pointer [OF v(2)])
    have st: "status_at w0 (g_id g) = Some (g_status g)" using row_like_status [OF assms(4)] by simp
    have np: "pr_published (abs_store w0) \<noteq> Some (g_id g)"
      if "g_status g = CommitPrepared \<longrightarrow> \<not> pointer_equal (snapshot_pointer env s) pointer"
      by (rule not_published [OF assms(2,4,5)]) (use that assms(6) in \<open>auto simp: pointer_equal_iff ptr\<close>)
    show ?case
    proof (cases "g_status g = CommitPrepared \<and> pointer_equal (snapshot_pointer env s) pointer")
      case True
      then have "pr_published (abs_store w0) = Some (g_id g)"
        using assms(6) by (simp add: pointer_equal_iff ptr abs_store_def row_pointer_def)
      with True st show ?thesis
        using reporting_finalize [OF assms(1,2) v(1)] by simp
    next
      case False
      then have fallback: "reporting (restore_predecessor_and_rollback env c g s) u" if "keeps w0 u" for u
        using that by (intro reporting_predecessor [OF assms(1,2)] np) auto
      show ?thesis
      proof (cases "g_status g = CommitPrepared")
        case True
        with False show ?thesis by (simp add: fallback [OF v(1)])
      next
        case False
        show ?thesis
          unfolding if_not_P [OF False]
          apply (rule reporting_refuse)
          apply (rule reporting_refuse)
          apply (rule reporting_keep [OF keeps_stale v(1)])
          apply (rule reporting_refuse)
          apply (rule fallback, assumption)
          done
      qed
    qed
  qed simp
qed simp

lemma reporting_committed:
  fixes env :: "('n, 'x) menv"
  assumes "calm env" "keeps w0 w" "marker_pointer (w_disk w0) = Some p"
  shows "reporting (recover_committed env c p) w"
  unfolding recover_committed_def wp_bindP [of "wrapP _ (generation_by_id _ _)"] wp_wrapP
proof (rule wp_by_id [OF assms(2)], goal_cases)
  case (1 g v)
  show ?case
  proof (rule reporting_refuse, goal_cases)
    case committed: 1
    have g: "g_id g = ep_generation p" "status_at w0 (ep_generation p) = Some Committed"
      using row_like_status [OF 1(2)] committed 1(2) by (auto simp: row_like_def dest: row_of_Some)
    have ready: "ready_store (g_id g) u" if "keeps w0 u" for u
      using keeps_status_eq [OF that, of "ep_generation p"] g assms(3) by (simp add: ready_store_def abs_store_def)
    show ?case
      apply (rule reporting_keep [OF keeps_good_row 1(1)])
      apply (rule reporting_refuse)
      apply (rule reporting_keep [OF keeps_durable], assumption)
      apply (rule reporting_keep_then [OF keeps_validate], assumption)
      apply (rule reporting_keep_then [OF keeps.obeys_wrapP [OF keeps_establish [OF assms(1)]]], assumption)
      apply (rule reporting_keep_then [OF keeps_require_pointer], assumption)
      apply (rule reporting_keep_then [OF keeps_audit_durable], assumption)
      apply (simp add: report_ok_def ready)
      done
  qed
qed simp

text \<open>C5. A recovery at boot that reports readiness has established it: the generation it reports is committed
  and is the one that the enforcement pointer names, whichever way the recovery took (restoring a committed
  generation, finalizing a prepared commit, going fallback to a predecessor).\<close>

theorem ready_after_recovery:
  assumes "calm env" "store_good w" "recover_at_boot env c w = (Inr (r, None), w')" "rr_ready r"
  shows "status_at w' (rr_generation r) = Some Committed \<and>
    map_option ep_generation (marker_pointer (w_disk w')) = Some (rr_generation r)"
proof -
  have locked: "reporting (recover_at_boot_locked env d) u" if u: "keeps w u" for d u
    unfolding recover_at_boot_locked_def
  proof (rule reporting_keep_then [OF keeps_guard [OF assms(1)] u], unfold wp_bindP wp_wrapP, rule wp_read_pointer, assumption, goal_cases)
    case (1 u v)
    then show ?case
      unfolding wp_elseP
      by (intro wp_pending [of w]) (use assms(2) reporting_pending [OF assms(1,2)] in \<open>auto simp: store_good_def\<close>)
  next
    case (2 u p v)
    then show ?case
      unfolding wp_elseP
      by (intro wp_pending [of w])
        (use assms(2) reporting_pending [OF assms(1,2)] reporting_committed [OF assms(1)] in \<open>auto simp: store_good_def\<close>)
  qed simp
  have "reporting (recover_at_boot env c) w"
    unfolding recover_at_boot_def by (rule reporting_keep_then [OF keeps_lock keeps.frame_refl locked])
  from wp_Ok [OF this assms(3)] assms(4) show ?thesis
    by (simp add: report_ok_def ready_store_def abs_store_def)
qed

section \<open>A concrete recovery\<close>

text \<open>A kernel that holds the three tables of a generation, with the base chains and the markers that the integrity
  check asks for.\<close>

definition listed :: "string \<Rightarrow> (string \<times> string) list \<Rightarrow> json" where
  "listed kind ms = JObj [(kind, JObj (map (\<lambda>(k, v). (k, JStr v)) ms))]"

definition listed_table :: "string \<Rightarrow> string \<Rightarrow> json" where
  "listed_table fam name = listed ''table'' [(''family'', fam), (''name'', name)]"

definition listed_chain :: "string \<Rightarrow> string \<Rightarrow> string \<Rightarrow> string \<Rightarrow> string \<Rightarrow> json" where
  "listed_chain fam name typ hook pol =
     listed ''chain'' [(''family'', fam), (''table'', name), (''name'', hook), (''type'', typ), (''hook'', hook), (''policy'', pol)]"

definition listed_rule :: "string \<Rightarrow> string \<Rightarrow> string \<Rightarrow> json" where
  "listed_rule fam name c = listed ''rule'' [(''family'', fam), (''table'', name), (''comment'', c)]"

definition filter_listing :: "json list" where
  "filter_listing =
     listed_table ''inet'' ''nftfw_filter'' #
     map (\<lambda>h. listed_chain ''inet'' ''nftfw_filter'' ''filter'' h ''drop'') [''input'', ''output'', ''forward''] @
     map (listed_rule ''inet'' ''nftfw_filter'') (required_comments @ map (\<lambda>p. p @ ''wan'') provenance_markers)"

definition nat_table_listing :: "json list" where
  "nat_table_listing =
     listed_table ''ip'' ''nftfw_nat'' #
     map (\<lambda>h. listed_chain ''ip'' ''nftfw_nat'' ''nat'' h ''accept'') [''prerouting'', ''postrouting''] @
     [listed_rule ''ip'' ''nftfw_nat'' ''nftfw:dnat-chain'']"

definition filter6_listing :: "json list" where
  "filter6_listing = [listed_table ''ip6'' ''nftfw_filter6'', listed_rule ''ip6'' ''nftfw_filter6'' ''nftfw:ipv6-mode-native'']"

definition listing_of :: "table \<Rightarrow> json list" where
  "listing_of t =
     (if t_name t = ''nftfw_filter'' then filter_listing else if t_name t = ''nftfw_nat'' then nat_table_listing else filter6_listing)"

definition listing_value :: "json list \<Rightarrow> json" where
  "listing_value vs = JObj [(''nftables'', JArr vs)]"

definition listing_text :: "json list \<Rightarrow> string" where
  "listing_text vs = the (json_marshal (\<lambda>_. None) (listing_value vs))"

definition all_tables :: "json list" where
  "all_tables = [listed_table ''inet'' ''nftfw_filter'', listed_table ''ip'' ''nftfw_nat'', listed_table ''ip6'' ''nftfw_filter6'']"

definition objects_of :: "json list \<Rightarrow> (string \<times> json) list list result" where
  "objects_of vs = decode_fields False [(''nftables'', get_maps)] (listing_value vs) []"

lemma nested_mono: "nested d v \<Longrightarrow> d \<le> e \<Longrightarrow> nested e v"
proof (induction v arbitrary: d e)
  case (JArr vs)
  have "nested (e - 1) v" if "v \<in> set vs" for v
    by (rule JArr.IH [OF that, of "d - 1"]) (use JArr.prems that in \<open>auto simp: list_all_iff\<close>)
  with JArr.prems show ?case by (simp add: list_all_iff)
next
  case (JObj ms)
  have "nested (e - 1) v" if "(k, v) \<in> set ms" for k v
    by (rule JObj.IH [OF that, of _ "d - 1"]) (use JObj.prems that in \<open>auto simp: list_all_iff\<close>)
  with JObj.prems show ?case by (auto simp: list_all_iff)
qed simp_all

definition listings :: "json list list" where
  "listings = [all_tables, filter_listing, nat_table_listing, filter6_listing]"

text \<open>A bound for the length of a printed value.\<close>

fun weight :: "json \<Rightarrow> nat" where
  "weight (JStr s) = 6 * length s + 2"
| "weight (JArr vs) = 2 + sum_list (map (\<lambda>v. Suc (weight v)) vs)"
| "weight (JObj ms) = 2 + sum_list (map (\<lambda>(k, v). 6 * length k + 4 + weight v) ms)"
| "weight v = 5"

lemma quote_length: "ascii s \<Longrightarrow> length (json_quote s) \<le> 6 * length s + 2"
proof -
  have "length (json_escape c) \<le> 6" for c by (simp add: json_escape_def split: option.splits)
  then have "ascii s \<Longrightarrow> length (json_chars s) \<le> 6 * length s"
    by (induction s) (auto simp: ascii_def intro: order.trans [OF add_mono])
  then show "ascii s \<Longrightarrow> ?thesis" by (simp add: json_quote_def)
qed

lemma join_length: "length (join_str '','' ts) \<le> sum_list (map (\<lambda>t. Suc (length t)) ts)"
  by (induction "'',''" ts rule: join_str.induct) auto

lemma all2_length: "list_all2 (\<lambda>t v. Suc (length t) \<le> f v) ts vs \<Longrightarrow> sum_list (map (\<lambda>t. Suc (length t)) ts) \<le> sum_list (map f vs)"
  by (induction rule: list_all2_induct) auto

lemma marshal_length: "json_marshal (\<lambda>_. None) v = Some s \<Longrightarrow> printable (\<lambda>_. None) v \<Longrightarrow> length s \<le> weight v"
proof (induction v arbitrary: s)
  case (JStr t)
  then show ?case using quote_length [of t] by auto
next
  case (JArr vs)
  then obtain ts where ts: "those (map (json_marshal (\<lambda>_. None)) vs) = Some ts" "s = ''['' @ join_str '','' ts @ '']''" by auto
  have "list_all2 (\<lambda>t v. Suc (length t) \<le> Suc (weight v)) ts vs"
    by (rule list.rel_mono_strong [OF those_all2 [OF ts(1)]]) (use JArr in \<open>auto simp: list_all_iff\<close>)
  from all2_length [OF this] join_length [of ts] show ?case by (simp add: ts)
next
  case (JObj ms)
  let ?f = "\<lambda>(k, v). map_option (\<lambda>t. json_quote k @ '':'' @ t) (json_marshal (\<lambda>_. None) v)"
  let ?g = "\<lambda>(k, v). 6 * length k + 4 + weight v"
  obtain ts where ts: "those (map ?f ms) = Some ts" "s = ''{'' @ join_str '','' ts @ ''}''" using JObj.prems by auto
  have one: "Suc (length t) \<le> ?g m" if m: "m \<in> set ms" "?f m = Some t" for m t
  proof -
    obtain k v where kv: "m = (k, v)" by fastforce
    then obtain u where u: "json_marshal (\<lambda>_. None) v = Some u" "t = json_quote k @ '':'' @ u" using m(2) by auto
    have fits: "ascii k" "printable (\<lambda>_. None) v" using JObj.prems(2) m(1) kv by (auto simp: list_all_iff)
    have "length u \<le> weight v" by (rule JObj.IH [OF m(1) _ u(1) fits(2)]) (simp add: kv)
    with quote_length [OF fits(1)] show ?thesis by (simp add: kv u(2))
  qed
  have "list_all2 (\<lambda>t m. Suc (length t) \<le> ?g m) ts ms"
    by (rule list.rel_mono_strong [OF those_all2 [OF ts(1)]]) (use one in blast)
  from all2_length [OF this] join_length [of ts] show ?case by (simp add: ts)
qed (auto split: if_splits)

lemma marshal_total: "printable (\<lambda>_. None) v \<Longrightarrow> json_marshal (\<lambda>_. None) v \<noteq> None"
proof (induction v)
  case (JArr vs)
  then have "those (map (json_marshal (\<lambda>_. None)) vs) \<noteq> None"
    by (induction vs) (auto simp: list_all_iff split: option.splits)
  then show ?case by simp
next
  case (JObj ms)
  then have "those (map (\<lambda>(k, v). map_option (\<lambda>t. json_quote k @ '':'' @ t) (json_marshal (\<lambda>_. None) v)) ms) \<noteq> None"
    by (induction ms) (fastforce simp: list_all_iff)+
  then show ?case by simp
qed simp_all

lemma listings_printed:
  "list_all (\<lambda>vs. printable (\<lambda>_. None) (listing_value vs)) listings"
  "list_all (\<lambda>vs. nested 5 (listing_value vs)) listings"
  "list_all (\<lambda>vs. renumber (\<lambda>_. None) (listing_value vs) = listing_value vs) listings"
  "list_all (\<lambda>vs. weight (listing_value vs) < 20000) listings"
  by (simp_all add: listings_def listing_value_def all_tables_def filter_listing_def nat_table_listing_def filter6_listing_def
      listed_table_def listed_rule_def listed_chain_def listed_def required_comments_def provenance_markers_def
      ascii_def char_class_defs)

lemma listing_objects:
  assumes "vs \<in> set listings"
  shows "nft_objects (listing_text vs) = objects_of vs"
proof -
  obtain t where t: "json_marshal (\<lambda>_. None) (listing_value vs) = Some t"
    using marshal_total listings_printed(1) assms unfolding list_all_iff by blast
  have "nested max_nesting (listing_value vs)"
    by (rule nested_mono [of 5]) (use listings_printed(2) assms in \<open>simp_all add: list_all_iff max_nesting_def\<close>)
  then have "json_decode t = Some (renumber (\<lambda>_. None) (listing_value vs))"
    using marshal_decode [OF t] listings_printed(1) assms by (simp add: list_all_iff)
  then show ?thesis
    using listings_printed(3) assms t by (simp add: list_all_iff nft_objects_def listing_text_def objects_of_def)
qed

lemma listings_checked:
  "\<forall>t \<in> set owned_tables. validate_owned_objects id (objects_of (listing_of t)) t = Inr None"
  "case objects_of all_tables of Inr os \<Rightarrow> List.map_filter object_table os = owned_tables | Inl _ \<Rightarrow> False"
  "\<forall>t \<in> set owned_tables. case canonical_owned (\<lambda>_. None) (objects_of (listing_of t)) t of Inr _ \<Rightarrow> True | Inl _ \<Rightarrow> False"
  by code_simp+

text \<open>The host was stopped between the publication of the pointer to generation 7 and the end of its commit.\<close>

definition booted :: "(unit, unit) menv" where
  "booted = trial\<lparr>parse_snapshot := \<lambda>_. Inr trial_snapshot,
     ledger_file := \<lambda>x. (Inr \<lparr>led_open = True, led_rows = ar_provenance trial_artifact, led_readonly = False\<rparr>, x),
     nft_process := \<lambda>c (n, x). (([listing_text (case c of Nft_list_table t \<Rightarrow> listing_of t | _ \<Rightarrow> all_tables)], [], None), n, x)\<rparr>"

definition prepared_7 :: generation where
  "prepared_7 = trial_row\<lparr>g_status := CommitPrepared, g_observed_hash := zero_sum\<rparr>"

definition pointer_7 :: enforcement_pointer where
  "pointer_7 = \<lparr>ep_schema = pointer_schema, ep_generation = 7, ep_snapshot_sum = zero_sum, ep_policy_sum = zero_sum\<rparr>"

definition boot_host :: "(unit, unit) node" where
  "boot_host = (trial_host [prepared_7])\<lparr>w_disk := \<lparr>d_scripts = [7 \<mapsto> []], d_snapshots = [7 \<mapsto> NL],
     d_marker = Some (encode_pointer pointer_7 @ NL), d_temp = None\<rparr>\<rparr>"

lemma boot_io [simp]: "io booted l w = (Inr (), w)"
  by (simp add: io_def booted_def trial_def)

lemma boot_time [simp]: "time_now booted w = (Inr 0, w)"
  by (simp add: time_now_def booted_def trial_def)

lemma boot_runner:
  assumes "c = Nft_list_tables \<or> c = Nft_list_table t"
  shows "os_runner booted c w =
    (Inr (listing_text (case c of Nft_list_table t \<Rightarrow> listing_of t | _ \<Rightarrow> all_tables), [], None), w)"
proof -
  let ?vs = "case c of Nft_list_table t \<Rightarrow> listing_of t | _ \<Rightarrow> all_tables"
  have "?vs \<in> set listings" using assms by (auto simp: listings_def listing_of_def)
  then have "length (listing_text ?vs) < 20000"
    using listings_printed(1,4) marshal_total marshal_length by (fastforce simp: list_all_iff listing_text_def)
  then show ?thesis
    by (simp add: os_runner_def booted_def trial_def bounded_output_def bounded_write_def max_nft_stdout_def Let_def)
qed

lemma boot_existing: "existing_owned booted w = (Inr (map table_key owned_tables), w)"
proof -
  have "all_tables \<in> set listings" by (simp add: listings_def)
  from listing_objects [OF this] listings_checked(2)
  obtain os where os: "nft_objects (listing_text all_tables) = Inr os" "List.map_filter object_table os = owned_tables"
    by (auto split: sum.splits)
  have "remdups (map table_key owned_tables) = map table_key owned_tables" by code_simp
  with os show ?thesis
    by (simp add: existing_owned_def list_owned_def run_nft_def prog_defs boot_runner)
qed

lemma boot_tables:
  assumes "set ts \<subseteq> set owned_tables"
  shows "integrity_tables booted ts w = (Inr None, w)" "\<exists>f. \<forall>w. fingerprint_tables booted ts w = (Inr f, w)"
proof -
  have "map_order booted = id" "float_text booted = (\<lambda>_. None)" by (simp_all add: booted_def trial_def)
  moreover have "listing_of t \<in> set listings" for t by (simp add: listing_of_def listings_def)
  ultimately have one: "validate_owned_table_json (map_order booted) (listing_text (listing_of t)) t = Inr None"
    "\<exists>c. canonical_owned_json (float_text booted) (listing_text (listing_of t)) t = Inr c" if "t \<in> set owned_tables" for t
    using listings_checked(1,3) that
    by (auto simp: validate_owned_table_json_def canonical_owned_json_def listing_objects split: sum.splits) (metis sum.exhaust)+
  show "integrity_tables booted ts w = (Inr None, w)"
    using assms one(1) by (induction ts) (simp_all add: integrity_table_def prog_defs boot_runner)
  show "\<exists>f. \<forall>w. fingerprint_tables booted ts w = (Inr f, w)"
    using assms
  proof (induction ts)
    case (Cons t ts)
    then obtain f c where "\<forall>w. fingerprint_tables booted ts w = (Inr f, w)"
      "canonical_owned_json (float_text booted) (listing_text (listing_of t)) t = Inr c"
      using one(2) [of t] by auto
    then show ?case by (simp add: prog_defs boot_runner)
  qed (simp add: prog_defs)
qed

lemma boot_integrity: "integrity booted w = (Inr None, w)"
  using boot_tables(1) [of owned_tables w]
  by (simp add: integrity_def boot_existing prog_defs find_None_iff [THEN iffD2] del: integrity_tables.simps)

lemma zero_hex: "hex_encode (replicate 32 (CHR 0x00)) = zero_sum"
  by code_simp

lemma boot_fingerprint: "fingerprint booted w = (Inr zero_sum, w)"
proof -
  obtain f where "\<forall>w. fingerprint_tables booted owned_tables w = (Inr f, w)" using boot_tables(2) by blast
  moreover have "sha256 booted = (\<lambda>_. replicate 32 (CHR 0x00))" by (simp add: booted_def trial_def)
  ultimately show ?thesis by (simp add: fingerprint_def prog_defs zero_hex)
qed

lemma boot_env:
  "sha256 booted = sha256 trial" "state_dir booted = state_dir trial" "json_snapshot booted = json_snapshot trial"
  "parse_snapshot booted = (\<lambda>_. Inr trial_snapshot)" "foreign_mark_guard booted = Some (ret ())"
  "ledger_file booted = (\<lambda>x. (Inr \<lparr>led_open = True, led_rows = ar_provenance trial_artifact, led_readonly = False\<rparr>, x))"
  "lock_dir booted = lock_dir trial" "fault booted = (\<lambda>_ x. (None, x))"
  by (simp_all add: booted_def trial_def)

lemma boot_sum: "valid_script_checksum booted s zero_sum"
  using trial_sum [of s] by (simp add: valid_script_checksum_def boot_env)

lemma boot_snapshot_valid: "validate_snapshot booted trial_snapshot = None"
  by (simp add: validate_snapshot_def refuse_def boot_sum trial_artifact_def id_in_range_def min_id_def max_id_def)

lemma boot_pointer: "snapshot_pointer booted trial_snapshot = pointer_7"
  using zero_hex by (simp add: snapshot_pointer_def pointer_7_def boot_env trial_def)

lemma zero_valid: "valid_checksum zero_sum"
  using trial_sum [of "[]"] by (simp add: valid_script_checksum_def)

lemma pointer_7_valid: "pointer_valid pointer_7"
  by (simp add: pointer_valid_def pointer_7_def zero_valid)

lemma pointer_7_text: "parse_pointer (encode_pointer pointer_7 @ NL) = Inr pointer_7"
  by (rule pointer_text [OF pointer_7_valid]) (simp add: pointer_7_def sql_arg_def refuse_def max_int64_def)

lemma pointer_7_length: "length (encode_pointer pointer_7 @ NL) \<le> 4096"
  by (simp add: encode_pointer_def pointer_7_def) code_simp

lemma boot_read: "w_disk w = w_disk boot_host \<Longrightarrow> read_enforcement_pointer booted w = (Inr (Some pointer_7), w)"
  using pointer_7_length
  by (simp add: read_enforcement_pointer_def secure_active_directory_def secure_active_file_def prog_defs boot_host_def
      pointer_7_text pointer_7_valid)

lemma boot_provenance: "validate_snapshot_provenance booted trial_snapshot w = (Inr (), w)"
proof -
  have "validate_required (\<lambda>_. None) \<lparr>led_open = True, led_rows = ar_provenance trial_artifact, led_readonly = False\<rparr>
      (ar_provenance trial_artifact) = None" by code_simp
  then show ?thesis by (simp add: validate_snapshot_provenance_def open_ledger_def prog_defs boot_env)
qed

lemma boot_load: "w_disk w = w_disk boot_host \<Longrightarrow> load_verified_generation_snapshot booted 7 w = (Inr trial_snapshot, w)"
  by (simp add: load_verified_generation_snapshot_def load_generation_snapshot_def secure_active_directory_def
      secure_generations_directory_def secure_active_file_def prog_defs boot_host_def boot_env boot_snapshot_valid
      boot_provenance max_active_snapshot_def)

lemma prepared_7_fields:
  "g_id prepared_7 = 7" "g_status prepared_7 = CommitPrepared" "g_checksum prepared_7 = zero_sum" "g_observed_hash prepared_7 = zero_sum"
  "g_snapshot_checksum prepared_7 = zero_sum" "g_boot prepared_7 = sn_boot trial_snapshot" "g_previous prepared_7 = None"
  "g_prior prepared_7 = None" "g_prior_sum prepared_7 = []" "g_prior_snapshot_sum prepared_7 = []" "g_deadline prepared_7 = None"
  "g_script_path prepared_7 = script_path booted 7" "g_snapshot_path prepared_7 = generation_snapshot_path booted 7"
  using zero_hex
  by (simp_all add: prepared_7_def trial_row_def new_row_def snapshot_pointer_def script_path_def generation_snapshot_path_def
      generation_file_def boot_env trial_encode) (simp_all add: trial_def)

lemma boot_script: "w_disk w = w_disk boot_host \<Longrightarrow> read_script booted prepared_7 w = (Inr [], w)"
  by (simp add: read_script_def secure_generations_directory_def prog_defs boot_host_def prepared_7_fields zero_valid boot_sum)

lemma boot_validate:
  "w_disk w = w_disk boot_host \<Longrightarrow> validate_generation_snapshot booted prepared_7 trial_snapshot True w = (Inr (), w)"
  by (simp add: validate_generation_snapshot_def script_agrees_def row_mismatch_def boot_pointer prepared_7_fields prog_defs
      boot_script) (simp add: pointer_7_def)

lemma boot_durable:
  "w_disk w = w_disk boot_host \<Longrightarrow> ensure_published_generation_durable booted pointer_7 w = (Inr trial_snapshot, w)"
proof -
  assume w: "w_disk w = w_disk boot_host"
  have "ep_generation pointer_7 = 7" "pointer_equal pointer_7 (Some pointer_7)" by (simp_all add: pointer_7_def pointer_equal_def)
  with w show ?thesis
    by (simp add: ensure_published_generation_durable_def prog_defs boot_read boot_load boot_pointer)
qed

lemma boot_establish: "establish_and_verify booted c prepared_7 s w = (Inr (), w)"
proof -
  have "zero_sum \<noteq> []" by (simp add: zero_sum_def)
  then show ?thesis
    by (simp add: establish_and_verify_def audit_foreign_mark_ownership_def already_established_def boot_env prog_defs
        prepared_7_fields boot_integrity boot_fingerprint)
qed

lemma boot_finalize: "\<exists>w'. finalize_commit booted 7 boot_host = (Inr (), w')"
  by (simp add: finalize_commit_def in_tx_def prog_defs sql_arg_def refuse_def max_int64_def exec_def sql_generations_def
      sql_update_def boot_host_def trial_host_def prepared_7_fields change_generation_def committed_row_def one_row_def
      require_one_row_def audit_now_def sql_audit_def validate_audit_record_def sync_database_def Let_def max_audit_rows_def)

abbreviation finalized_7 :: recovery_result where
  "finalized_7 \<equiv> \<lparr>rr_generation = 7, rr_action = ''finalized_prepared_commit'', rr_ready = True\<rparr>"

lemma boot_run: "\<exists>w'. recover_at_boot booted trial_ctx boot_host = (Inr (finalized_7, None), w')"
proof -
  obtain w' where fin: "finalize_commit booted 7 boot_host = (Inr (), w')" using boot_finalize by blast
  have lock: "acquire_process_lock booted trial_ctx w = (Inr (), w)" for w
    by (simp add: acquire_process_lock_def take_mutation_lock_def trial_ctx_def prog_defs) (simp add: boot_env trial_def)
  have guard: "audit_foreign_mark_ownership booted w = (Inr (), w)" for w
    by (simp add: audit_foreign_mark_ownership_def boot_env prog_defs)
  have pending: "pending_generation booted boot_host = (Inr prepared_7, boot_host)"
    by (simp add: pending_generation_def query_def prog_defs boot_host_def trial_host_def scan_row_def scan_generation_def
        prepared_7_fields open_status_def)
  have eq: "pointer_equal pointer_7 (Some pointer_7)" by (simp add: pointer_equal_def)
  have require: "require_pointer booted pointer_7 boot_host = (Inr (), boot_host)"
    by (simp add: require_pointer_def prog_defs boot_read eq)
  show ?thesis
    by (simp add: recover_at_boot_def recover_at_boot_locked_def bindP_def thenP_def wrapP_def elseP_def ret_def lock guard
        boot_read pending recover_pending_at_boot_def prepared_7_fields boot_load boot_validate boot_pointer eq
        finalize_prepared_def boot_durable boot_establish require fin)
qed

lemma boot_calm: "calm booted"
  by (auto simp: calm_def booted_def trial_def keeps.obeys_ret split: option.splits)

lemma boot_good: "store_good boot_host"
proof -
  have gens: "gens (w_db boot_host) = [prepared_7]" by (simp add: boot_host_def trial_host_def)
  have marker: "d_marker (w_disk boot_host) = Some (encode_pointer pointer_7 @ NL)" by (simp add: boot_host_def)
  have row: "row_pointer prepared_7 = pointer_7" by (simp add: row_pointer_def prepared_7_fields pointer_7_def)
  have st: "status_at boot_host i = (if i = 7 then Some CommitPrepared else None)" for i
    by (simp add: status_at_def gens row_of_def prepared_7_fields)
  have "proto_ok (abs_store boot_host)"
    by (auto simp: proto_ok_def committed_at_def open_at_def abs_store_def st marker_pointer_def marker pointer_7_text) (simp_all add: pointer_7_def)
  then show ?thesis by (simp add: store_good_def store_sound_def gens marker pointer_7_text row)
qed

theorem ready_after_recovery_witness:
  "status_at (snd (recover_at_boot booted trial_ctx boot_host)) 7 = Some Committed"
proof -
  obtain w' where run: "recover_at_boot booted trial_ctx boot_host = (Inr (finalized_7, None), w')" using boot_run by blast
  from ready_after_recovery [OF boot_calm boot_good run] show ?thesis by (simp add: run)
qed

theorem published_pointer_is_read_witness:
  "fst (thenP (prepare_enforcement_pointer trial pointer_7)
     (thenP (publish_prepared_pointer trial pointer_7) (read_enforcement_pointer trial)) (trial_host [])) = Inr (Some pointer_7)"
proof -
  let ?v = "(trial_host [])\<lparr>w_disk := (w_disk (trial_host []))\<lparr>d_temp := Some (encode_pointer pointer_7 @ NL)\<rparr>\<rparr>"
  let ?u = "?v\<lparr>w_disk := (w_disk ?v)\<lparr>d_marker := Some (encode_pointer pointer_7 @ NL), d_temp := None\<rparr>\<rparr>"
  have p: "prepare_enforcement_pointer trial pointer_7 (trial_host []) = (Inr (), ?v)"
    by (simp add: prepare_enforcement_pointer_def secure_active_directory_def put_disk_def prog_defs pointer_7_valid)
  have q: "publish_prepared_pointer trial pointer_7 ?v = (Inr (), ?u)"
    by (simp add: publish_prepared_pointer_def secure_active_directory_def put_disk_def prog_defs pointer_7_valid trial_host_def)
  have "\<exists>x. read_enforcement_pointer trial ?u = (Inr x, ?u)"
    using pointer_7_length
    by (simp add: read_enforcement_pointer_def secure_active_directory_def secure_active_file_def prog_defs trial_host_def
        pointer_7_text pointer_7_valid)
  then obtain x where r: "read_enforcement_pointer trial ?u = (Inr x, ?u)" by blast
  have "int (ep_generation pointer_7) \<le> max_int64" by (simp add: pointer_7_def max_int64_def)
  from published_pointer_is_read [OF p q r this] r show ?thesis by (simp add: prog_defs p q)
qed

end
