(* ===== verification/Fail_Closed.thy ===== *)
theory Fail_Closed
  imports Manager_Protocol Backend_Props
begin

text \<open>
  Nothing is installed without the audit of the foreign conntrack marks: \<open>same_live\<close> is the frame of the
  operations that leave the ruleset alone, \<open>never\<close> says of a program that it always fails, so that what
  follows it does not run.
\<close>

section \<open>Fail closed\<close>

definition same_live :: "('n, 'x) node \<Rightarrow> ('n, 'x) node \<Rightarrow> bool" where
  "same_live w w' \<longleftrightarrow> live (w_kernel w') = live (w_kernel w)"

interpretation same_live: frame_order same_live
  by unfold_locales (auto simp: same_live_def)

lemma host_live: "obeys same_host m \<Longrightarrow> obeys same_live m"
  by (auto simp: obeys_def same_host_def same_live_def)

text \<open>A program that never succeeds: what would come after it does not matter.\<close>

definition never :: "('w, 'a) prog \<Rightarrow> bool" where
  "never m \<longleftrightarrow> (\<forall>w. \<exists>e. fst (m w) = Err e)"

lemma never_run:
  assumes "never m"
  obtains e v where "m w = (Err e, v)"
  using assms by (metis never_def prod.collapse)

lemma never_then:
  assumes "never m" "obeys same_live m"
  shows "obeys same_live (bindP m k)"
  unfolding obeys_def
proof
  fix w
  obtain e v where "m w = (Err e, v)" by (rule never_run [OF assms(1)])
  with obeysD [OF assms(2), of w] show "same_live w (snd (bindP m k w))" by (simp add: bindP_def)
qed

lemma never_thenP: "never m \<Longrightarrow> obeys same_live m \<Longrightarrow> obeys same_live (thenP m k)"
  by (simp add: thenP_def never_then)

lemma never_elseP: "never m \<Longrightarrow> obeys same_live m \<Longrightarrow> (\<And>e. obeys same_live (h e)) \<Longrightarrow> obeys same_live (elseP m h k)"
  unfolding obeys_def
proof
  fix w
  assume a: "never m" "\<forall>w. same_live w (snd (m w))" "\<And>e. \<forall>w. same_live w (snd (h e w))"
  then obtain e v where "m w = (Err e, v)" by (metis never_def prod.collapse)
  with a(2,3) show "same_live w (snd (elseP m h k w))"
    using same_live.frame_trans [of w v] by (auto simp: elseP_def dest!: spec [of _ w])
qed

lemma never_bind:
  assumes "never m"
  shows "never (bindP m k)"
  unfolding never_def
proof
  fix w
  obtain e v where "m w = (Err e, v)" by (rule never_run [OF assms])
  then show "\<exists>e. fst (bindP m k w) = Err e" by (simp add: bindP_def)
qed

lemma never_thenP': "never m \<Longrightarrow> never (thenP m k)"
  by (simp add: thenP_def never_bind)

lemma live_put_db: "obeys same_live (\<lambda>w. case f (w_db w) of Inl e \<Rightarrow> (Err e, w) | Inr (x, d) \<Rightarrow> (Ok x, w\<lparr>w_db := d\<rparr>))"
  by (auto simp: obeys_def same_live_def split: sum.splits prod.splits)

lemma live_io: "obeys same_live (io env l)"
  by (rule host_live [OF host_io])

lemma live_exec: "obeys same_live (exec env l f)"
  unfolding exec_def by (intro same_live.frame_rules live_io live_put_db)

lemma live_query: "obeys same_live (query env l f)"
  unfolding query_def by (intro same_live.frame_rules live_io)

lemma live_time: "obeys same_live (time_now env)"
  by (auto simp: obeys_def time_now_def same_live_def split: prod.splits)

lemma live_sync: "obeys same_live (sync_database env)"
  unfolding sync_database_def by (intro same_live.frame_rules live_io)

lemma live_put: "obeys same_live (put_disk f)"
  by (simp add: obeys_def put_disk_def same_live_def)

lemma live_boot: "obeys same_live (current_boot_id env)"
  by (auto simp: obeys_def current_boot_id_def same_live_def Let_def split: prod.splits sum.splits)

lemma live_in_tx:
  assumes "obeys same_live body"
  shows "obeys same_live (in_tx env body)"
  unfolding obeys_def
proof
  fix w
  let ?m = "thenP (io env ''BEGIN'') (bindP body (\<lambda>x. thenP (io env ''COMMIT'') (ret x)))"
  have "obeys same_live ?m" by (intro same_live.frame_rules live_io assms)
  then show "same_live w (snd (in_tx env body w))"
    using obeysD [of same_live ?m w]
    by (cases "?m w") (auto simp: in_tx_def same_live_def split: sum.splits)
qed

lemmas live_base = same_live.frame_rules live_io live_exec live_query live_time live_sync live_put live_boot live_in_tx

lemma live_file: "obeys same_live (secure_active_file env l sel n)"
  unfolding secure_active_file_def by (intro live_base)

lemma live_read_pointer: "obeys same_live (read_enforcement_pointer env)"
  unfolding read_enforcement_pointer_def secure_active_directory_def by (intro live_base live_file)

lemma live_load: "obeys same_live (load_generation_snapshot env i)"
  unfolding load_generation_snapshot_def secure_active_directory_def secure_generations_directory_def
  by (intro live_base live_file)

lemma live_reads:
  "obeys same_live (generation_by_id env i)" "obeys same_live (pending_generation env)"
  "obeys same_live (last_known_good env)" "obeys same_live (require_no_pending env)"
  "obeys same_live (prepared_deadline env i)"
  unfolding generation_by_id_def pending_generation_def last_known_good_def require_no_pending_def prepared_deadline_def
  by (intro live_base)+

lemma live_expected: "obeys same_live (expected_generation env)"
  unfolding expected_generation_def by (intro live_base live_reads live_read_pointer)

lemma live_audit_quietly: "obeys same_live (audit_quietly env event detail)"
  unfolding audit_quietly_def audit_def by (intro live_base)

lemma live_lock: "obeys same_live (acquire_process_lock env c)"
  unfolding acquire_process_lock_def take_mutation_lock_def by (intro live_base)

lemma live_script: "obeys same_live (read_script env g)"
  unfolding read_script_def secure_generations_directory_def by (intro live_base)

text \<open>The audit of the foreign marks never passes, and the callbacks that run before it leave the ruleset alone.\<close>

definition audit_refuses :: "('n, 'x) menv \<Rightarrow> bool" where
  "audit_refuses env \<longleftrightarrow> reads_only env \<and>
     (case foreign_mark_guard env of None \<Rightarrow> True | Some g \<Rightarrow> never g \<and> obeys same_live g) \<and>
     (\<forall>p. p \<in> {safe_guard env, safe_guard_locked env} \<longrightarrow> (case p of None \<Rightarrow> True | Some m \<Rightarrow> obeys same_live m))"

lemma refused_audit:
  assumes "audit_refuses env"
  shows "never (audit_foreign_mark_ownership env)" "obeys same_live (audit_foreign_mark_ownership env)"
  using assms
  by (auto simp: audit_refuses_def audit_foreign_mark_ownership_def never_def failp_def wrapP_def
      split: option.splits prod.splits sum.splits intro!: same_live.frame_rules) (metis fst_conv sum.distinct(1))+

lemma refused_rollback:
  assumes "audit_refuses env"
  shows "obeys same_live (rollback_locked env c i)"
  unfolding rollback_locked_def by (intro never_thenP refused_audit assms)

lemma refused_install:
  assumes "audit_refuses env"
  shows "never (install_owned_generation env c s)" "obeys same_live (install_owned_generation env c s)"
  unfolding install_owned_generation_def by (intro never_thenP never_thenP' refused_audit assms)+

lemma refused_commit_locked:
  assumes "audit_refuses env"
  shows "obeys same_live (commit_locked env c i)"
  unfolding commit_locked_def
  by (intro live_base live_reads live_load live_read_pointer never_thenP refused_audit assms)

lemma refused_apply:
  assumes "audit_refuses env"
  shows "obeys same_live (apply_artifact env c a safe)"
proof -
  have hooks: "safe_guard env = Some m \<Longrightarrow> obeys same_live m" "safe_guard_locked env = Some m \<Longrightarrow> obeys same_live m" for m
    using assms by (auto simp: audit_refuses_def)
  have preflight: "obeys same_live (preflight_safe_apply env c)"
    unfolding preflight_safe_apply_def
    by (auto split: option.splits intro!: same_live.frame_rules dest: hooks)
  have guard: "obeys same_live (if safe
             then (case safe_guard_locked env of
                     None \<Rightarrow> failp (Errorf ''safe apply requires locked rollback-guard verification'' [])
                   | Some g \<Rightarrow> wrapP (Wrapf ''safe apply locked revalidation refused: %w'' []) g)
             else ret ())"
    by (cases safe; cases "safe_guard_locked env") (auto intro: same_live.frame_rules dest: hooks)
  have locked: "obeys same_live (apply_locked env d a safe)" for d
    unfolding apply_locked_def
    by (intro same_live.obeys_thenP live_reads guard never_thenP refused_audit assms)
  show ?thesis
    unfolding apply_artifact_def by (intro same_live.frame_rules live_reads preflight live_lock locked)
qed

lemma refused_repair:
  assumes "audit_refuses env"
  shows "obeys same_live (repair_generation env c d g)"
  unfolding repair_generation_def repair_step_def
  by (intro same_live.obeys_elseP live_script never_elseP refused_install same_live.obeys_ret assms)

lemma refused_reconcile:
  assumes "audit_refuses env"
  shows "obeys same_live (reconcile env c repairs)"
proof -
  have reads: "reads_only env" using assms by (simp add: audit_refuses_def)
  note looks = host_live [OF host_list_owned [OF reads]] host_live [OF host_integrity [OF reads]]
    host_live [OF host_fingerprint [OF reads]]
  show ?thesis
    unfolding reconcile_def observe_drift_def drift_tables_def expected_or_none_def drift_fingerprint_def repair_def
      repair_step_def Let_def
    by (intro same_live.frame_rules live_lock live_reads live_expected live_audit_quietly looks refused_rollback
        refused_repair assms)
qed

lemma refused_manager:
  assumes "audit_refuses env"
  shows "obeys same_live (manager_run env c op)"
proof -
  have reads: "reads_only env" using assms by (simp add: audit_refuses_def)
  have commit: "obeys same_live (commit env c i)" for i
    unfolding commit_def commit_expired_def commit_corrupt_def rollback_instead_def Let_def
    by (intro same_live.frame_rules live_time live_lock live_reads refused_rollback refused_commit_locked
        host_live [OF host_fingerprint [OF reads]] assms)
  have rollback: "obeys same_live (rollback env c i)" for i
    unfolding rollback_def by (intro same_live.frame_rules live_lock refused_rollback assms)
  have expired: "obeys same_live (rollback_expired env c)"
    unfolding rollback_expired_def Let_def by (intro same_live.obeys_thenP live_lock never_thenP refused_audit assms)
  have recover: "obeys same_live (recover_at_boot env c)"
    unfolding recover_at_boot_def recover_at_boot_locked_def
    by (intro same_live.obeys_thenP live_lock never_thenP refused_audit assms)
  have stored: "obeys same_live (commit_generation env i)" for i
    unfolding commit_generation_def prepare_commit_def prepare_enforcement_pointer_def cancel_prepared_pointer_def remove_file_def
      mark_rolled_back_def publish_prepared_pointer_def finalize_commit_def change_generation_def one_row_def audit_now_def
      secure_active_directory_def Let_def
    by (intro live_base live_load live_read_pointer live_reads)
  show ?thesis
    by (cases op) (auto intro!: same_live.frame_rules refused_apply commit rollback expired recover stored
        refused_reconcile assms)
qed

text \<open>C4. The controller fails closed. As long as the audit of the foreign conntrack marks does not pass, or no
  audit is configured, no operation of the controller changes the ruleset: no generation is installed, restored
  or removed.\<close>

theorem no_change_without_audit:
  assumes "audit_refuses env" "manager_run env c op w = (r, w')"
  shows "live (w_kernel w') = live (w_kernel w)"
  using obeys_run [OF refused_manager [OF assms(1)] assms(2)] by (simp add: same_live_def)

text \<open>The counting \<^verbatim>\<open>nft\<close> with a controller that has no audit.\<close>

definition unaudited :: "(nat, unit) menv" where
  "unaudited = \<lparr>fault = fault counting, clock = clock counting, boot_file = boot_file counting, ledger_file = ledger_file counting,
     sha256 = sha256 counting, json_snapshot = json_snapshot counting, parse_snapshot = parse_snapshot counting,
     state_dir = state_dir counting, nft_process = nft_process counting, map_order = map_order counting, float_text = float_text counting,
     safe_ttl = 0, lock_dir = ''/run/nftfw'', error_text = \<lambda>_. [],
     safe_guard = None, safe_guard_locked = None, foreign_mark_guard = None, health_check = None, post_restore = None\<rparr>"

theorem no_change_without_audit_witness:
  "live (w_kernel (snd (manager_run unaudited locked_ctx (Do_apply trial_artifact False) bare_host))) = 0"
proof -
  have "audit_refuses unaudited"
    using counting_reads_only by (simp add: audit_refuses_def unaudited_def reads_only_def)
  from no_change_without_audit [OF this, of locked_ctx "Do_apply trial_artifact False" bare_host]
  have "live (w_kernel (snd (manager_run unaudited locked_ctx (Do_apply trial_artifact False) bare_host))) = live (w_kernel bare_host)"
    by (metis prod.collapse)
  then show ?thesis by (simp add: bare_host_def del: manager_run.simps)
qed

end
