(* ===== verification/Setup.thy ===== *)
theory Setup
  imports World
begin

text \<open>
  The setup transaction: the journal, \<^verbatim>\<open>src/internal/setup/journal.go\<close>, and the engine,
  \<^verbatim>\<open>engine.go\<close>, with \<^verbatim>\<open>netgate.ValidateUnits\<close>.
  \<^item> \<open>host\<close> is the world of a setup: the bytes of the journal file, the archive of earlier journals, and in
    \<open>h_ext\<close> everything that the executor and the file system see. \<open>h_calls\<close> is a history variable: every call
    of the executor with whether it succeeded and the bytes of the journal file when it was made. The code does
    not read it.
  \<^item> \<open>senv\<close> holds what the outside answers: the executor (an interface of the code; it may do anything to
    \<open>h_ext\<close> and may fail at any point), the clock, the faults of file-system calls, the JSON encoder and the
    strict decoder of journals, SHA-256 and the texts of errors. \<open>file_path\<close> is the path of the journal.
  \<^item> The engine returns errors whose text is a code; \<open>setup_err\<close> makes one. \<^verbatim>\<open>Run\<close> returns a plan together with
    \<^verbatim>\<open>ErrRebootRequired\<close>, which is a value of \<open>engine_run\<close>.
\<close>

section \<open>Data\<close>

text \<open>A slice that may be \<^verbatim>\<open>nil\<close>: \<^verbatim>\<open>reflect.DeepEqual\<close> tells a nil slice from an empty one.\<close>

type_synonym 'a slice = "'a list option"

record summary =
  su_schema :: string
  su_uplink :: string
  su_vpn_interface :: string
  su_ipv6_interfaces :: "string slice"
  su_lan_networks :: "string slice"
  su_management_tcp :: "int slice"
  su_public_tcp :: "int slice"
  su_public_udp :: "int slice"
  su_ipv6_mode :: string
  su_boot_policy :: string
  su_docker_mode :: string
  su_docker_networks :: "string slice"
  su_docker_restart :: bool
  su_resolver_mode :: string
  su_network_producers :: "string slice"
  su_source_mode_warning :: bool

definition PhaseInspect :: string where "PhaseInspect = ''inspect''"
definition PhaseBackup :: string where "PhaseBackup = ''backup''"
definition PhaseBootPrep :: string where "PhaseBootPrep = ''boot_prepare''"
definition PhaseGuard :: string where "PhaseGuard = ''guard''"
definition PhaseInstall :: string where "PhaseInstall = ''install''"
definition PhaseDocker :: string where "PhaseDocker = ''docker''"
definition PhaseRuntime :: string where "PhaseRuntime = ''runtime''"
definition PhaseApply :: string where "PhaseApply = ''apply''"
definition PhaseTunnel :: string where "PhaseTunnel = ''tunnel''"
definition PhaseValidate :: string where "PhaseValidate = ''validate''"
definition PhaseCommit :: string where "PhaseCommit = ''commit''"
definition PhaseHandoff :: string where "PhaseHandoff = ''handoff''"
definition PhaseBoot :: string where "PhaseBoot = ''boot''"
definition PhaseFinalize :: string where "PhaseFinalize = ''finalize''"
definition PhaseComplete :: string where "PhaseComplete = ''complete''"
definition PhaseFailed :: string where "PhaseFailed = ''failed''"

record journal =
  j_schema :: string
  j_transaction :: string
  j_phase :: string
  j_status :: string
  j_started :: gotime
  j_updated :: gotime
  j_deadline :: gotime
  j_backup :: string
  j_generation :: nat
  j_committed :: bool
  j_summary :: summary
  j_error :: string

record 'p plan =
  pl_vpn_source :: string
  pl_summary :: summary
  pl_private :: 'p
  pl_prior_sum :: string
  pl_resume :: "journal option"
  pl_resume_ready :: bool

section \<open>The host and the executor\<close>

datatype call =
    Call_prepare
  | Call_backup
  | Call_prepare_boot
  | Call_verify_resume
  | Call_start_guard
  | Call_install
  | Call_configure_docker
  | Call_start_runtime
  | Call_apply_safe
  | Call_start_tunnel
  | Call_validate nat
  | Call_commit nat
  | Call_publish_dependencies
  | Call_enable_boot
  | Call_finalize
  | Call_generation_committed nat
  | Call_rollback journal
  | Call_recover_committed journal

record event =
  ev_call :: call
  ev_ok :: bool
  ev_yes :: bool
  ev_journal :: "string option"

record 'x host =
  h_journal :: "string option"
  h_history :: "string \<Rightarrow> string option"
  h_calls :: "event list"
  h_ext :: 'x

record ('p, 'x) senv =
  se_fault :: "string \<Rightarrow> 'x \<Rightarrow> goerr option \<times> 'x"
  se_clock :: "'x \<Rightarrow> gotime \<times> 'x"
  se_encode :: "journal \<Rightarrow> string option"
  se_decode :: "string \<Rightarrow> journal option"
  se_sha256 :: "string \<Rightarrow> string"
  se_error_text :: "goerr \<Rightarrow> string"
  file_path :: string
  eg_has_executor :: bool
  eg_has_journal :: bool
  eg_new_id :: "('x \<Rightarrow> string \<times> 'x) option"
  eg_timeout :: int
  ex_boots :: bool
  ex_boot_required :: "'p plan \<Rightarrow> bool"
  ex_prepare :: "string \<Rightarrow> 'x \<Rightarrow> 'p plan result \<times> 'x"
  ex_backup :: "'p plan \<Rightarrow> 'x \<Rightarrow> string result \<times> 'x"
  ex_apply_safe :: "'p plan \<Rightarrow> 'x \<Rightarrow> nat result \<times> 'x"
  ex_generation_committed :: "nat \<Rightarrow> 'x \<Rightarrow> bool result \<times> 'x"
  ex_do :: "call \<Rightarrow> 'p plan \<Rightarrow> 'x \<Rightarrow> unit result \<times> 'x"

definition setup_err :: "string \<Rightarrow> goerr" where
  "setup_err code = Errorf code []"

definition ErrRebootRequired :: goerr where
  "ErrRebootRequired = Sentinel ''SETUP_REBOOT_REQUIRED''"

definition ErrRollbackRebootRequired :: goerr where
  "ErrRollbackRebootRequired = Sentinel ''SETUP_ROLLBACK_REBOOT_REQUIRED''"

text \<open>A call of the executor, recorded in the history.\<close>

definition invoke :: "call \<Rightarrow> ('a \<Rightarrow> bool) \<Rightarrow> ('x \<Rightarrow> 'a result \<times> 'x) \<Rightarrow> ('x host, 'a) prog" where
  "invoke c yes f h =
     (case f (h_ext h) of (r, x) \<Rightarrow>
        (r, h\<lparr>h_ext := x,
              h_calls := h_calls h @ [\<lparr>ev_call = c, ev_ok = (case r of Inl _ \<Rightarrow> False | Inr _ \<Rightarrow> True),
                ev_yes = (case r of Inl _ \<Rightarrow> False | Inr v \<Rightarrow> yes v), ev_journal = h_journal h\<rparr>]\<rparr>))"

definition perform :: "('p, 'x) senv \<Rightarrow> call \<Rightarrow> 'p plan \<Rightarrow> ('x host, unit) prog" where
  "perform env c p = invoke c (\<lambda>_. False) (ex_do env c p)"

definition setup_now :: "('p, 'x) senv \<Rightarrow> ('x host, gotime) prog" where
  "setup_now env h = (case se_clock env (h_ext h) of (t, x) \<Rightarrow> (Ok t, h\<lparr>h_ext := x\<rparr>))"

text \<open>A call of the file system whose failure is reported as a code.\<close>

definition setup_io :: "('p, 'x) senv \<Rightarrow> string \<Rightarrow> string \<Rightarrow> ('x host, unit) prog" where
  "setup_io env code l h =
     (case se_fault env l (h_ext h) of
        (Some _, x) \<Rightarrow> (Err (setup_err code), h\<lparr>h_ext := x\<rparr>)
      | (None, x) \<Rightarrow> (Ok (), h\<lparr>h_ext := x\<rparr>))"

text \<open>A call of the file system whose error is returned as it is.\<close>

definition setup_io_raw :: "('p, 'x) senv \<Rightarrow> string \<Rightarrow> ('x host, unit) prog" where
  "setup_io_raw env l h =
     (case se_fault env l (h_ext h) of
        (Some e, x) \<Rightarrow> (Err e, h\<lparr>h_ext := x\<rparr>)
      | (None, x) \<Rightarrow> (Ok (), h\<lparr>h_ext := x\<rparr>))"

definition put_journal :: "string \<Rightarrow> ('x host, unit) prog" where
  "put_journal b h = (Ok (), h\<lparr>h_journal := Some b\<rparr>)"

definition put_history :: "string \<Rightarrow> string \<Rightarrow> ('x host, unit) prog" where
  "put_history name b h = (Ok (), h\<lparr>h_history := (h_history h)(name \<mapsto> b)\<rparr>)"

section \<open>Checks\<close>

text \<open>\<^verbatim>\<open>filepath.IsAbs(path) && filepath.Clean(path) == path\<close>.\<close>

definition clean_absolute :: "string \<Rightarrow> bool" where
  "clean_absolute path \<longleftrightarrow>
     (case path of
        [] \<Rightarrow> False
      | c # rest \<Rightarrow> c = CHR ''/'' \<and> (rest = [] \<or> list_all (\<lambda>s. s \<notin> {[], ''.'', ''..''}) (split_on (CHR ''/'') rest)))"

definition journal_identity :: "string \<Rightarrow> bool" where
  "journal_identity s = name_match is_alnum (\<lambda>c. is_alnum c \<or> one_of ''_.-'' c) 127 s"

definition supported_units :: "string list" where
  "supported_units =
     [''NetworkManager.service'', ''dhcpcd.service'', ''dhcpcd@.service'', ''ifup@.service'', ''networking.service'',
      ''systemd-networkd.service'']"

fun ascending_units :: "string \<Rightarrow> string list \<Rightarrow> bool" where
  "ascending_units previous [] = True"
| "ascending_units previous (u # us) =
     (u \<in> set supported_units \<and> (previous = [] \<or> previous < u) \<and> ascending_units u us)"

definition ValidateUnits :: "string slice \<Rightarrow> goerr option" where
  "ValidateUnits us =
     (let units = (case us of None \<Rightarrow> [] | Some xs \<Rightarrow> xs) in
      refuse (units = [] \<or> length supported_units < length units \<or> \<not> ascending_units [] units)
        (setup_err ''SETUP_NETWORK_PRODUCER_SET_INVALID''))"

definition journal_schema :: string where "journal_schema = ''nftfw.setup-journal.v1''"
definition plan_schema :: string where "plan_schema = ''nftfw.setup-plan.v1''"

definition code_char :: "char \<Rightarrow> bool" where
  "code_char c \<longleftrightarrow> c = CHR ''_'' \<or> is_upper c \<or> is_digit c"

definition terminal_rolled_back_journal :: "journal \<Rightarrow> bool" where
  "terminal_rolled_back_journal j \<longleftrightarrow>
     j_status j = ''rolled_back'' \<and> j_phase j = PhaseFailed \<and> \<not> j_committed j \<and> journal_identity (j_transaction j) \<and>
     (j_backup j \<noteq> [] \<longrightarrow> clean_absolute (j_backup j)) \<and>
     (j_error j \<noteq> [] \<longrightarrow> length (j_error j) \<le> 96 \<and> list_all code_char (j_error j))"

definition initial_setup_journal :: "journal \<Rightarrow> bool" where
  "initial_setup_journal j \<longleftrightarrow>
     j_schema j = journal_schema \<and> journal_identity (j_transaction j) \<and> j_phase j = PhaseInspect \<and>
     j_status j = ''running'' \<and> \<not> j_committed j \<and> j_generation j = 0 \<and> j_backup j = [] \<and> j_error j = [] \<and>
     su_schema (j_summary j) = plan_schema \<and>
     j_started j \<noteq> zero_time \<and> j_updated j \<noteq> zero_time \<and> j_deadline j \<noteq> zero_time \<and>
     \<not> j_updated j < j_started j \<and> \<not> j_deadline j < j_started j"

definition valid_sha256 :: "string \<Rightarrow> bool" where
  "valid_sha256 s \<longleftrightarrow> length s = 64 \<and> list_all (\<lambda>c. is_digit c \<or> one_of ''abcdef'' c) s"

definition journal_needs_recovery :: "string \<Rightarrow> bool" where
  "journal_needs_recovery status \<longleftrightarrow>
     status \<in> {''running'', ''resume_ready'', ''rolling_back'', ''recovering_committed'', ''rollback_failed'',
               ''commit_state_unknown'', ''committed_recovery_failed''}"

definition journal_before_protected_mutation :: "journal \<Rightarrow> bool" where
  "journal_before_protected_mutation j \<longleftrightarrow>
     \<not> (j_committed j \<or> j_generation j \<noteq> 0 \<or> j_backup j \<noteq> []) \<and> (j_phase j = PhaseInspect \<or> j_phase j = PhaseBackup)"

definition reboot_required_journal :: "journal \<Rightarrow> bool" where
  "reboot_required_journal j \<longleftrightarrow>
     j_schema j = journal_schema \<and> journal_identity (j_transaction j) \<and> j_phase j = PhaseBootPrep \<and>
     (j_status j = ''reboot_required'' \<or> j_status j = ''resume_ready'') \<and>
     \<not> j_committed j \<and> j_generation j = 0 \<and> j_backup j \<noteq> [] \<and> clean_absolute (j_backup j) \<and>
     su_schema (j_summary j) = plan_schema \<and> ValidateUnits (su_network_producers (j_summary j)) = None \<and> j_error j = []"

text \<open>\<^verbatim>\<open>errorCode\<close> of an error that is not nil.\<close>

definition error_code :: "('p, 'x) senv \<Rightarrow> goerr \<Rightarrow> string" where
  "error_code env e =
     (let v = se_error_text env e in
      if 0 < length v \<and> length v \<le> 96 \<and> list_all code_char v then v else ''SETUP_FAILED'')"

section \<open>The journal file\<close>

text \<open>\<^verbatim>\<open>writeAtomic\<close>: what fails after the rename leaves the new content in place.\<close>

definition write_atomic_journal :: "('p, 'x) senv \<Rightarrow> string \<Rightarrow> ('x host, unit) prog" where
  "write_atomic_journal env b =
     thenP (refuseP (\<not> clean_absolute (file_path env) \<or> 4194304 < length b) (setup_err ''SETUP_FILE_TARGET_INVALID''))
     (thenP (setup_io env ''SETUP_FILE_DIRECTORY_FAILED'' ''mkdir parent'')
     (thenP (setup_io env ''SETUP_FILE_TARGET_UNSAFE'' ''lstat target'')
     (thenP (setup_io env ''SETUP_FILE_CREATE_FAILED'' ''create temporary'')
     (thenP (setup_io env ''SETUP_FILE_WRITE_FAILED'' ''write temporary'')
     (thenP (setup_io env ''SETUP_FILE_SYNC_FAILED'' ''sync temporary'')
     (thenP (setup_io env ''SETUP_FILE_MODE_FAILED'' ''chmod temporary'')
     (thenP (setup_io env ''SETUP_FILE_SYNC_FAILED'' ''close temporary'')
     (thenP (setup_io env ''SETUP_FILE_PUBLISH_FAILED'' ''rename'')
     (thenP (put_journal b)
     (thenP (setup_io env ''SETUP_FILE_DIRECTORY_FAILED'' ''open parent'')
        (setup_io env ''SETUP_FILE_SYNC_FAILED'' ''sync parent'')))))))))))"

definition journal_write :: "('p, 'x) senv \<Rightarrow> journal \<Rightarrow> ('x host, unit) prog" where
  "journal_write env j =
     thenP (refuseP (\<not> clean_absolute (file_path env)) (setup_err ''SETUP_JOURNAL_PATH_INVALID''))
     (thenP (setup_io env ''SETUP_JOURNAL_DIRECTORY_FAILED'' ''mkdir journal'')
     (thenP (setup_io env ''SETUP_JOURNAL_DIRECTORY_FAILED'' ''secure journal directory'')
     (case se_encode env j of
        None \<Rightarrow> failp (setup_err ''SETUP_JOURNAL_ENCODE_FAILED'')
      | Some b \<Rightarrow> write_atomic_journal env (b @ NL))))"

definition journal_text_valid :: "('p, 'x) senv \<Rightarrow> string \<Rightarrow> journal option" where
  "journal_text_valid env raw =
     (case se_decode env raw of
        None \<Rightarrow> None
      | Some j \<Rightarrow>
          if j_schema j \<noteq> journal_schema \<or> \<not> journal_identity (j_transaction j) \<or>
             j_started j = zero_time \<or> j_updated j = zero_time \<or> j_deadline j = zero_time \<or>
             j_updated j < j_started j \<or> j_deadline j < j_started j \<or>
             map_option (\<lambda>b. b @ NL) (se_encode env j) \<noteq> Some raw
          then None else Some j)"

text \<open>\<^verbatim>\<open>readJournalFile\<close> of a file with the given content; the checks of type, owner, mode and of a change
  while it is read are the faults of the calls.\<close>

definition read_journal_file :: "('p, 'x) senv \<Rightarrow> string option \<Rightarrow> ('x host, journal \<times> string \<times> string) prog" where
  "read_journal_file env content =
     thenP (setup_io env ''SETUP_JOURNAL_READ_FAILED'' ''open journal'')
     (case content of
        None \<Rightarrow> failp (setup_err ''SETUP_JOURNAL_READ_FAILED'')
      | Some raw \<Rightarrow>
          thenP (setup_io env ''SETUP_JOURNAL_FILE_UNSAFE'' ''stat journal'')
          (thenP (refuseP (raw = [] \<or> 1048576 < length raw) (setup_err ''SETUP_JOURNAL_FILE_UNSAFE''))
          (thenP (setup_io env ''SETUP_JOURNAL_READ_FAILED'' ''read journal'')
          (thenP (setup_io env ''SETUP_JOURNAL_CHANGED'' ''stat journal again'')
          (case journal_text_valid env raw of
             None \<Rightarrow> failp (setup_err ''SETUP_JOURNAL_INVALID'')
           | Some j \<Rightarrow> ret (j, raw, se_sha256 env raw))))))"

definition journal_read :: "('p, 'x) senv \<Rightarrow> ('x host, journal) prog" where
  "journal_read env =
     thenP (refuseP (\<not> clean_absolute (file_path env)) (setup_err ''SETUP_JOURNAL_PATH_INVALID''))
     (bindP (getP h_journal) (\<lambda>content. bindP (read_journal_file env content) (\<lambda>(j, _, _). ret j)))"

text \<open>An archived journal that is read back must be the one archived.\<close>

definition verify_archived :: "('p, 'x) senv \<Rightarrow> string \<Rightarrow> string \<Rightarrow> string \<Rightarrow> string \<Rightarrow> ('x host, unit) prog" where
  "verify_archived env code name raw sum0 =
     bindP (getP (\<lambda>h. h_history h name)) (\<lambda>content.
     bindP (wrapP (\<lambda>_. setup_err code) (read_journal_file env content)) (\<lambda>(j, raw', sum').
     refuseP (sum' \<noteq> sum0 \<or> raw' \<noteq> raw \<or> \<not> terminal_rolled_back_journal j) (setup_err code)))"

definition archive_terminal_journal ::
  "('p, 'x) senv \<Rightarrow> journal \<Rightarrow> string \<Rightarrow> string \<Rightarrow> ('x host, unit) prog" where
  "archive_terminal_journal env j raw sum0 =
     (let name = j_transaction j @ ''.'' @ sum0 @ ''.json'' in
      thenP (setup_io env ''SETUP_JOURNAL_HISTORY_UNSAFE'' ''secure parent'')
      (thenP (setup_io env ''SETUP_JOURNAL_HISTORY_CREATE_FAILED'' ''mkdir history'')
      (thenP (setup_io env ''SETUP_JOURNAL_HISTORY_UNSAFE'' ''secure history'')
      (thenP (setup_io_raw env ''sync new history'')
      (thenP (setup_io env ''SETUP_JOURNAL_HISTORY_SYNC_FAILED'' ''sync parent'')
      (bindP (getP (\<lambda>h. h_history h name)) (\<lambda>existing.
       thenP (setup_io env ''SETUP_JOURNAL_HISTORY_COLLISION'' ''lstat archived'')
       (if existing \<noteq> None then
          thenP (verify_archived env ''SETUP_JOURNAL_HISTORY_COLLISION'' name raw sum0)
            (setup_io env ''SETUP_JOURNAL_HISTORY_SYNC_FAILED'' ''sync archived'')
        else
          thenP (setup_io env ''SETUP_JOURNAL_HISTORY_CREATE_FAILED'' ''create history temporary'')
          (thenP (setup_io env ''SETUP_JOURNAL_HISTORY_SYNC_FAILED'' ''write history temporary'')
          (thenP (setup_io env ''SETUP_JOURNAL_HISTORY_COLLISION'' ''rename history: exists'')
          (thenP (setup_io env ''SETUP_JOURNAL_HISTORY_PUBLISH_FAILED'' ''rename history'')
          (thenP (put_history name raw)
          (thenP (setup_io env ''SETUP_JOURNAL_HISTORY_SYNC_FAILED'' ''sync history'')
             (verify_archived env ''SETUP_JOURNAL_HISTORY_VERIFY_FAILED'' name raw sum0))))))))))))))"

definition journal_begin :: "('p, 'x) senv \<Rightarrow> journal \<Rightarrow> string \<Rightarrow> ('x host, unit) prog" where
  "journal_begin env j prior =
     thenP (refuseP (\<not> clean_absolute (file_path env)) (setup_err ''SETUP_JOURNAL_PATH_INVALID''))
     (thenP (refuseP (\<not> initial_setup_journal j) (setup_err ''SETUP_JOURNAL_INITIAL_INVALID''))
     (if prior = [] then
        bindP (getP h_journal) (\<lambda>content.
        thenP (setup_io env ''SETUP_JOURNAL_LINEAGE_UNEXPECTED'' ''lstat journal'')
        (thenP (refuseP (content \<noteq> None) (setup_err ''SETUP_JOURNAL_LINEAGE_UNEXPECTED''))
           (journal_write env j)))
      else
        thenP (refuseP (\<not> valid_sha256 prior) (setup_err ''SETUP_JOURNAL_LINEAGE_INVALID''))
        (bindP (getP h_journal) (\<lambda>content.
         bindP (wrapP (\<lambda>_. setup_err ''SETUP_JOURNAL_LINEAGE_CHANGED'') (read_journal_file env content)) (\<lambda>(old, raw, sum0).
         thenP (refuseP (sum0 \<noteq> prior \<or> \<not> terminal_rolled_back_journal old \<or> j_transaction old = j_transaction j)
                  (setup_err ''SETUP_JOURNAL_LINEAGE_CHANGED''))
         (thenP (archive_terminal_journal env old raw sum0)
            (journal_write env j)))))))"

section \<open>Failing\<close>

text \<open>\<^verbatim>\<open>fail\<close> always returns an error; here it is the value.\<close>

definition written_or :: "('p, 'x) senv \<Rightarrow> string \<Rightarrow> journal \<Rightarrow> ('x host, goerr) prog \<Rightarrow> ('x host, goerr) prog" where
  "written_or env code j k = elseP (journal_write env j) (\<lambda>_. ret (setup_err code)) (\<lambda>_. k)"

definition joined_code :: "('p, 'x) senv \<Rightarrow> goerr \<Rightarrow> string \<Rightarrow> goerr" where
  "joined_code env cause ending = Errorf (''%s; '' @ ending) [error_code env cause]"

definition finish_committed :: "('p, 'x) senv \<Rightarrow> 'p plan \<Rightarrow> journal \<Rightarrow> goerr \<Rightarrow> ('x host, goerr) prog" where
  "finish_committed env p j0 cause =
     bindP (setup_now env) (\<lambda>t1.
     let j = j0\<lparr>j_status := ''recovering_committed'', j_error := error_code env cause, j_updated := t1\<rparr> in
     written_or env ''SETUP_RECOVERY_TRANSITION_WRITE_FAILED'' j
       (bindP (attempt (perform env (Call_recover_committed j) p)) (\<lambda>r.
        bindP (setup_now env) (\<lambda>t2.
        case r of
          Inl e \<Rightarrow>
            written_or env ''SETUP_RECOVERY_RESULT_WRITE_FAILED''
              (j\<lparr>j_status := ''committed_recovery_failed'', j_error := error_code env e, j_updated := t2\<rparr>)
              (ret (joined_code env cause ''SETUP_COMMITTED_RECOVERY_FAILED''))
        | Inr _ \<Rightarrow>
            written_or env ''SETUP_RECOVERY_RESULT_WRITE_FAILED''
              (j\<lparr>j_phase := PhaseComplete, j_status := ''complete'', j_updated := t2, j_error := []\<rparr>)
              (ret (setup_err ''SETUP_COMMITTED_RECOVERED''))))))"

definition roll_back_setup :: "('p, 'x) senv \<Rightarrow> 'p plan \<Rightarrow> journal \<Rightarrow> goerr \<Rightarrow> ('x host, goerr) prog" where
  "roll_back_setup env p j0 cause =
     bindP (setup_now env) (\<lambda>t1.
     let j = j0\<lparr>j_status := ''rolling_back'', j_error := error_code env cause, j_updated := t1\<rparr> in
     written_or env ''SETUP_RECOVERY_TRANSITION_WRITE_FAILED'' j
       (bindP (attempt (perform env (Call_rollback j) p)) (\<lambda>r.
        bindP (setup_now env) (\<lambda>t2.
        let j' = j\<lparr>j_updated := t2\<rparr> in
        case r of
          Inl e \<Rightarrow>
            if errors_is e ErrRollbackRebootRequired then
              written_or env ''SETUP_RECOVERY_RESULT_WRITE_FAILED''
                (j'\<lparr>j_phase := PhaseFailed, j_status := ''rollback_reboot_required'', j_error := []\<rparr>)
                (ret ErrRollbackRebootRequired)
            else
              written_or env ''SETUP_RECOVERY_RESULT_WRITE_FAILED''
                (j'\<lparr>j_status := ''rollback_failed'', j_error := error_code env e\<rparr>)
                (ret (joined_code env cause ''SETUP_ROLLBACK_FAILED''))
        | Inr _ \<Rightarrow>
            written_or env ''SETUP_RECOVERY_RESULT_WRITE_FAILED''
              (j'\<lparr>j_phase := PhaseFailed, j_status := ''rolled_back''\<rparr>)
              (ret (setup_err (error_code env cause)))))))"

definition commit_state_unknown :: "('p, 'x) senv \<Rightarrow> journal \<Rightarrow> ('x host, goerr) prog" where
  "commit_state_unknown env j =
     bindP (setup_now env) (\<lambda>t.
     written_or env ''SETUP_RECOVERY_RESULT_WRITE_FAILED''
       (j\<lparr>j_status := ''commit_state_unknown'', j_error := ''SETUP_COMMIT_STATE_UNKNOWN'', j_updated := t\<rparr>)
       (ret (setup_err ''SETUP_COMMIT_STATE_UNKNOWN'')))"

definition commit_must_be_asked :: "journal \<Rightarrow> bool" where
  "commit_must_be_asked j \<longleftrightarrow>
     \<not> j_committed j \<and> \<not> (j_status j = ''rolling_back'' \<or> j_status j = ''rollback_failed'') \<and> j_generation j \<noteq> 0"

definition recover_setup :: "('p, 'x) senv \<Rightarrow> 'p plan \<Rightarrow> journal \<Rightarrow> goerr \<Rightarrow> ('x host, goerr) prog" where
  "recover_setup env p j cause =
     (if j_committed j then finish_committed env p j cause else roll_back_setup env p j cause)"

definition engine_fail :: "('p, 'x) senv \<Rightarrow> 'p plan \<Rightarrow> journal \<Rightarrow> goerr \<Rightarrow> ('x host, goerr) prog" where
  "engine_fail env p j cause =
     (if journal_before_protected_mutation j then
        bindP (setup_now env) (\<lambda>t.
        written_or env ''SETUP_RECOVERY_RESULT_WRITE_FAILED''
          (j\<lparr>j_phase := PhaseFailed, j_status := ''rolled_back'', j_error := error_code env cause, j_updated := t\<rparr>)
          (ret (setup_err (error_code env cause))))
      else if commit_must_be_asked j then
        elseP (invoke (Call_generation_committed (j_generation j)) (\<lambda>b. b) (ex_generation_committed env (j_generation j)))
          (\<lambda>_. commit_state_unknown env j)
          (\<lambda>b. recover_setup env p (j\<lparr>j_committed := b\<rparr>) cause)
      else recover_setup env p j cause)"

text \<open>\<^verbatim>\<open>return Plan{}, e.fail(ctx, plan, journal, err)\<close>.\<close>

definition fail_with :: "('p, 'x) senv \<Rightarrow> 'p plan \<Rightarrow> journal \<Rightarrow> goerr \<Rightarrow> ('x host, 'a) prog" where
  "fail_with env p j cause = bindP (engine_fail env p j cause) failp"

definition write_failed :: goerr where
  "write_failed = setup_err ''SETUP_JOURNAL_WRITE_FAILED''"

text \<open>A write whose failure fails the setup.\<close>

definition record_or_fail :: "('p, 'x) senv \<Rightarrow> 'p plan \<Rightarrow> journal \<Rightarrow> ('x host, 'a) prog \<Rightarrow> ('x host, 'a) prog" where
  "record_or_fail env p j k = elseP (journal_write env j) (\<lambda>_. fail_with env p j write_failed) (\<lambda>_. k)"

section \<open>The phases\<close>

text \<open>A step of the engine: its phase, and what it runs with the journal as it is then.\<close>

type_synonym ('p, 'x) step = "string \<times> (journal \<Rightarrow> ('x host, journal) prog)"

definition step_call :: "('p, 'x) senv \<Rightarrow> 'p plan \<Rightarrow> call \<Rightarrow> journal \<Rightarrow> ('x host, journal) prog" where
  "step_call env p c j = thenP (perform env c p) (ret j)"

definition step_apply :: "('p, 'x) senv \<Rightarrow> 'p plan \<Rightarrow> journal \<Rightarrow> ('x host, journal) prog" where
  "step_apply env p j =
     bindP (invoke Call_apply_safe (\<lambda>_. False) (ex_apply_safe env p)) (\<lambda>n. ret (j\<lparr>j_generation := n\<rparr>))"

definition step_commit :: "('p, 'x) senv \<Rightarrow> 'p plan \<Rightarrow> journal \<Rightarrow> ('x host, journal) prog" where
  "step_commit env p j = thenP (perform env (Call_commit (j_generation j)) p) (ret (j\<lparr>j_committed := True\<rparr>))"

definition setup_steps :: "('p, 'x) senv \<Rightarrow> 'p plan \<Rightarrow> ('p, 'x) step list" where
  "setup_steps env p =
     [(PhaseGuard, step_call env p Call_start_guard),
      (PhaseInstall, step_call env p Call_install),
      (PhaseDocker, step_call env p Call_configure_docker),
      (PhaseRuntime, step_call env p Call_start_runtime),
      (PhaseApply, step_apply env p),
      (PhaseTunnel, step_call env p Call_start_tunnel),
      (PhaseValidate, \<lambda>j. step_call env p (Call_validate (j_generation j)) j),
      (PhaseCommit, step_commit env p),
      (PhaseHandoff, step_call env p Call_publish_dependencies),
      (PhaseBoot, step_call env p Call_enable_boot),
      (PhaseFinalize, step_call env p Call_finalize)]"

fun run_steps :: "('p, 'x) senv \<Rightarrow> 'p plan \<Rightarrow> ('p, 'x) step list \<Rightarrow> journal \<Rightarrow> ('x host, journal) prog" where
  "run_steps env p [] j = ret j"
| "run_steps env p ((phase, f) # steps) j =
     bindP (setup_now env) (\<lambda>t0.
     if \<not> t0 < j_deadline j then fail_with env p j (setup_err ''SETUP_DEADLINE_EXPIRED'')
     else
       bindP (setup_now env) (\<lambda>t1.
       let j1 = j\<lparr>j_phase := phase, j_updated := t1\<rparr> in
       record_or_fail env p j1
         (elseP (f j1) (fail_with env p j1) (\<lambda>j2.
          bindP (setup_now env) (\<lambda>t2.
          let j3 = j2\<lparr>j_updated := t2\<rparr> in
          record_or_fail env p j3 (run_steps env p steps j3))))))"

section \<open>Running a setup\<close>

definition default_timeout :: int where "default_timeout = 900 * ns_per_s"

definition setup_timeout :: "('p, 'x) senv \<Rightarrow> int" where
  "setup_timeout env = (if eg_timeout env \<le> 0 then default_timeout else eg_timeout env)"

definition new_transaction :: "('p, 'x) senv \<Rightarrow> ('x host, string) prog" where
  "new_transaction env =
     (case eg_new_id env of
        Some f \<Rightarrow> (\<lambda>h. case f (h_ext h) of (s, x) \<Rightarrow> (Ok s, h\<lparr>h_ext := x\<rparr>))
      | None \<Rightarrow> bindP (setup_now env) (\<lambda>t. ret (itoa_int t)))"

definition plan_invalid :: "'p plan \<Rightarrow> bool" where
  "plan_invalid p \<longleftrightarrow>
     su_schema (pl_summary p) \<noteq> plan_schema \<or> ValidateUnits (su_network_producers (pl_summary p)) \<noteq> None"

text \<open>A journal that waits for a reboot is taken up again.\<close>

definition resume_setup ::
  "('p, 'x) senv \<Rightarrow> 'p plan \<Rightarrow> bool \<Rightarrow> gotime \<Rightarrow> journal \<Rightarrow> (journal \<Rightarrow> ('x host, 'p plan \<times> goerr option) prog) \<Rightarrow>
   ('x host, 'p plan \<times> goerr option) prog" where
  "resume_setup env p boot started j0 k =
     (if \<not> boot \<or> \<not> reboot_required_journal j0 \<or> j_summary j0 \<noteq> pl_summary p
      then failp (setup_err ''SETUP_RESUME_STATE_INVALID'')
      else if \<not> pl_resume_ready p then ret (p, Some ErrRebootRequired)
      else
        let j = j0\<lparr>j_status := ''resume_ready'', j_error := [], j_updated := started,
                   j_deadline := started + setup_timeout env\<rparr> in
        thenP (wrapP (\<lambda>_. write_failed) (journal_write env j))
        (elseP (perform env Call_verify_resume p) (fail_with env p j) (\<lambda>_.
         bindP (setup_now env) (\<lambda>t.
         let j' = j\<lparr>j_status := ''running'', j_updated := t\<rparr> in
         record_or_fail env p j' (k j')))))"

definition start_setup ::
  "('p, 'x) senv \<Rightarrow> 'p plan \<Rightarrow> bool \<Rightarrow> gotime \<Rightarrow> (journal \<Rightarrow> ('x host, 'p plan \<times> goerr option) prog) \<Rightarrow>
   ('x host, 'p plan \<times> goerr option) prog" where
  "start_setup env p boot started k =
     bindP (new_transaction env) (\<lambda>tid.
     let j0 = \<lparr>j_schema = journal_schema, j_transaction = tid, j_phase = PhaseInspect, j_status = ''running'',
               j_started = started, j_updated = started, j_deadline = started + setup_timeout env, j_backup = [],
               j_generation = 0, j_committed = False, j_summary = pl_summary p, j_error = []\<rparr> in
     thenP (wrapP (\<lambda>_. write_failed) (journal_begin env j0 (pl_prior_sum p)))
     (bindP (setup_now env) (\<lambda>t1.
      let j1 = j0\<lparr>j_phase := PhaseBackup, j_updated := t1\<rparr> in
      record_or_fail env p j1
        (elseP (invoke Call_backup (\<lambda>_. False) (ex_backup env p)) (fail_with env p j1) (\<lambda>dir.
         bindP (setup_now env) (\<lambda>t2.
         let j2 = j1\<lparr>j_backup := dir, j_updated := t2\<rparr> in
         record_or_fail env p j2
           (if boot then
              bindP (setup_now env) (\<lambda>t3.
              let j3 = j2\<lparr>j_phase := PhaseBootPrep, j_updated := t3\<rparr> in
              record_or_fail env p j3
                (elseP (perform env Call_prepare_boot p) (fail_with env p j3) (\<lambda>_.
                 bindP (setup_now env) (\<lambda>t4.
                 let j4 = j3\<lparr>j_status := ''reboot_required'', j_error := [], j_updated := t4\<rparr> in
                 record_or_fail env p j4 (ret (p, Some ErrRebootRequired))))))
            else k j2)))))))"

text \<open>The steps and the end of the transaction.\<close>

definition complete_setup :: "('p, 'x) senv \<Rightarrow> 'p plan \<Rightarrow> journal \<Rightarrow> ('x host, 'p plan \<times> goerr option) prog" where
  "complete_setup env p j0 =
     bindP (run_steps env p (setup_steps env p) j0) (\<lambda>j.
     bindP (setup_now env) (\<lambda>t.
     thenP (wrapP (\<lambda>_. setup_err ''SETUP_FINAL_JOURNAL_WRITE_FAILED'')
              (journal_write env (j\<lparr>j_phase := PhaseComplete, j_status := ''complete'', j_updated := t, j_error := []\<rparr>)))
       (ret (p, None))))"

definition dry_run :: "('p, 'x) senv \<Rightarrow> string \<Rightarrow> ('x host, 'p plan) prog" where
  "dry_run env path =
     thenP (refuseP (\<not> eg_has_executor env) (setup_err ''SETUP_EXECUTOR_MISSING''))
       (invoke Call_prepare (\<lambda>_. False) (ex_prepare env path))"

definition engine_run :: "('p, 'x) senv \<Rightarrow> string \<Rightarrow> ('x host, 'p plan \<times> goerr option) prog" where
  "engine_run env path =
     thenP (refuseP (\<not> eg_has_executor env \<or> \<not> eg_has_journal env) (setup_err ''SETUP_ENGINE_INCOMPLETE''))
     (bindP (wrapP (\<lambda>e. setup_err (error_code env e)) (invoke Call_prepare (\<lambda>_. False) (ex_prepare env path))) (\<lambda>p.
      thenP (refuseP (plan_invalid p) (setup_err ''SETUP_PLAN_INVALID''))
      (bindP (setup_now env) (\<lambda>started.
       let boot = (ex_boots env \<and> ex_boot_required env p) in
       case pl_resume p of
         Some j \<Rightarrow> resume_setup env p boot started j (complete_setup env p)
       | None \<Rightarrow> start_setup env p boot started (complete_setup env p)))))"

definition setup_rollback_expired :: "('p, 'x) senv \<Rightarrow> 'p plan \<Rightarrow> ('x host, bool \<times> goerr option) prog" where
  "setup_rollback_expired env p =
     thenP (refuseP (\<not> eg_has_executor env \<or> \<not> eg_has_journal env) (setup_err ''SETUP_ENGINE_INCOMPLETE''))
     (bindP (journal_read env) (\<lambda>j.
      if \<not> journal_needs_recovery (j_status j) then ret (False, None)
      else
        bindP (setup_now env) (\<lambda>t.
        if t < j_deadline j then ret (False, None)
        else bindP (engine_fail env p j (setup_err ''SETUP_DEADLINE_EXPIRED'')) (\<lambda>e. ret (True, Some e)))))"

end
