(* ===== verification/Setup_Props.thy ===== *)
theory Setup_Props
  imports Setup
begin

text \<open>
  The setup transaction: every change of the host is announced in the journal before it is made, a committed
  generation is never rolled back, a success is a complete run, and the start of a setup loses no journal. \<open>tracks\<close> is
  the invariant of the engine over the trace of calls, \<open>reaches\<close> the trace of a run that succeeds. The last
  section runs the engine on a concrete host.
\<close>

section \<open>The journal and the calls\<close>

definition same_calls :: "'x host \<Rightarrow> 'x host \<Rightarrow> bool" where
  "same_calls h h' \<longleftrightarrow> h_calls h' = h_calls h"

interpretation same_calls: frame_order same_calls
  by unfold_locales (simp_all add: same_calls_def)

definition same_records :: "'x host \<Rightarrow> 'x host \<Rightarrow> bool" where
  "same_records h h' \<longleftrightarrow> h_calls h' = h_calls h \<and> h_journal h' = h_journal h \<and> h_history h' = h_history h"

interpretation same_records: frame_order same_records
  by unfold_locales (simp_all add: same_records_def)

lemma records_calls: "obeys same_records m \<Longrightarrow> obeys same_calls m"
  by (auto simp: obeys_def same_records_def same_calls_def)

lemma records_io: "obeys same_records (setup_io env code l)" "obeys same_records (setup_io_raw env l)"
  by (auto simp: obeys_def setup_io_def setup_io_raw_def same_records_def split: prod.splits option.splits)

lemma records_now: "obeys same_records (setup_now env)"
  by (auto simp: obeys_def setup_now_def same_records_def split: prod.splits)

lemma calls_put: "obeys same_calls (put_journal b)" "obeys same_calls (put_history n b)"
  by (auto simp: obeys_def put_journal_def put_history_def same_calls_def)

lemma calls_write: "obeys same_calls (journal_write env j)"
  unfolding journal_write_def write_atomic_journal_def
  by (intro same_calls.frame_rules records_calls [OF records_io(1)] calls_put)

lemma records_read: "obeys same_records (read_journal_file env content)"
  unfolding read_journal_file_def by (intro same_records.frame_rules records_io)

lemma calls_begin: "obeys same_calls (journal_begin env j prior)"
  unfolding journal_begin_def archive_terminal_journal_def verify_archived_def Let_def
  by (intro same_calls.frame_rules records_calls [OF records_io(1)] records_calls [OF records_io(2)] calls_put calls_write
      records_calls [OF records_read])

text \<open>The journal file holds \<open>j\<close>.\<close>

definition shown :: "('p, 'x) senv \<Rightarrow> journal \<Rightarrow> 'x host \<Rightarrow> bool" where
  "shown env j h \<longleftrightarrow> (\<exists>b. se_encode env j = Some b \<and> h_journal h = Some (b @ NL))"

lemma wp_setup_io:
  "(\<And>x. Q () (h\<lparr>h_ext := x\<rparr>)) \<Longrightarrow> (\<And>x. E (setup_err code) (h\<lparr>h_ext := x\<rparr>)) \<Longrightarrow> wp (setup_io env code l) Q E h"
  by (auto simp: wp_def setup_io_def split: prod.splits option.splits)

lemma wp_setup_now: "(\<And>t x. Q t (h\<lparr>h_ext := x\<rparr>)) \<Longrightarrow> wp (setup_now env) Q E h"
  by (auto simp: wp_def setup_now_def split: prod.splits)

lemma wp_put_journal [simp]: "wp (put_journal b) Q E h = Q () (h\<lparr>h_journal := Some b\<rparr>)"
  by (simp add: wp_def put_journal_def)

lemma wp_journal_write:
  assumes "\<And>v. h_calls v = h_calls h \<Longrightarrow> h_history v = h_history h \<Longrightarrow> shown env j v \<Longrightarrow> Q () v"
    and "\<And>e v. h_calls v = h_calls h \<Longrightarrow> h_history v = h_history h \<Longrightarrow> h_journal v = h_journal h \<or> shown env j v \<Longrightarrow> E e v"
  shows "wp (journal_write env j) Q E h"
  unfolding journal_write_def write_atomic_journal_def
  by (auto intro!: wp_setup_io assms simp: shown_def split: option.splits)

lemma wp_invoke:
  assumes "\<And>v x e. e = \<lparr>ev_call = c, ev_ok = True, ev_yes = yes v, ev_journal = h_journal h\<rparr> \<Longrightarrow>
      Q v (h\<lparr>h_ext := x, h_calls := h_calls h @ [e]\<rparr>)"
    and "\<And>err x e. e = \<lparr>ev_call = c, ev_ok = False, ev_yes = False, ev_journal = h_journal h\<rparr> \<Longrightarrow>
      E err (h\<lparr>h_ext := x, h_calls := h_calls h @ [e]\<rparr>)"
  shows "wp (invoke c yes f) Q E h"
  using assms by (auto simp: wp_def invoke_def split: prod.splits sum.splits)

section \<open>Traces\<close>

text \<open>What the journal must show when a call is made. Preparing a plan and asking for the state of a generation
  change nothing.\<close>

fun due :: "call \<Rightarrow> (string \<times> string) option" where
  "due Call_backup = Some (PhaseBackup, ''running'')"
| "due Call_prepare_boot = Some (PhaseBootPrep, ''running'')"
| "due Call_verify_resume = Some (PhaseBootPrep, ''resume_ready'')"
| "due Call_start_guard = Some (PhaseGuard, ''running'')"
| "due Call_install = Some (PhaseInstall, ''running'')"
| "due Call_configure_docker = Some (PhaseDocker, ''running'')"
| "due Call_start_runtime = Some (PhaseRuntime, ''running'')"
| "due Call_apply_safe = Some (PhaseApply, ''running'')"
| "due Call_start_tunnel = Some (PhaseTunnel, ''running'')"
| "due (Call_validate n) = Some (PhaseValidate, ''running'')"
| "due (Call_commit n) = Some (PhaseCommit, ''running'')"
| "due Call_publish_dependencies = Some (PhaseHandoff, ''running'')"
| "due Call_enable_boot = Some (PhaseBoot, ''running'')"
| "due Call_finalize = Some (PhaseFinalize, ''running'')"
| "due (Call_rollback j) = Some (j_phase j, ''rolling_back'')"
| "due (Call_recover_committed j) = Some (j_phase j, ''recovering_committed'')"
| "due Call_prepare = None"
| "due (Call_generation_committed n) = None"

definition text_shows :: "('p, 'x) senv \<Rightarrow> string option \<Rightarrow> string \<times> string \<Rightarrow> bool" where
  "text_shows env content d \<longleftrightarrow>
     (\<exists>j b. se_encode env j = Some b \<and> content = Some (b @ NL) \<and> j_phase j = fst d \<and> j_status j = snd d)"

definition announced :: "('p, 'x) senv \<Rightarrow> event \<Rightarrow> bool" where
  "announced env e \<longleftrightarrow> (case due (ev_call e) of None \<Rightarrow> True | Some d \<Rightarrow> text_shows env (ev_journal e) d)"

lemma shown_text: "shown env j h \<Longrightarrow> j_phase j = fst d \<Longrightarrow> j_status j = snd d \<Longrightarrow> text_shows env (h_journal h) d"
  by (auto simp: shown_def text_shows_def)

text \<open>The generation is known to be committed: the commit succeeded, or the store said so.\<close>

fun decides :: "event \<Rightarrow> bool" where
  "decides e = (case ev_call e of Call_commit n \<Rightarrow> ev_ok e | Call_generation_committed n \<Rightarrow> ev_yes e | _ \<Rightarrow> False)"

definition decided :: "event list \<Rightarrow> bool" where
  "decided es \<longleftrightarrow> (\<exists>e \<in> set es. decides e)"

fun is_rollback :: "call \<Rightarrow> bool" where
  "is_rollback (Call_rollback j) = True"
| "is_rollback _ = False"

definition good_trace :: "('p, 'x) senv \<Rightarrow> event list \<Rightarrow> bool" where
  "good_trace env es \<longleftrightarrow> list_all (announced env) es \<and>
     (\<forall>xs e ys. es = xs @ e # ys \<and> is_rollback (ev_call e) \<longrightarrow> \<not> decided xs)"

lemma good_Nil: "good_trace env []"
  by (simp add: good_trace_def)

lemma good_snoc:
  assumes "good_trace env es" "announced env e" "is_rollback (ev_call e) \<Longrightarrow> \<not> decided es"
  shows "good_trace env (es @ [e])"
proof -
  have "\<not> decided xs" if "es @ [e] = xs @ x # ys" "is_rollback (ev_call x)" for xs x ys
  proof (cases ys rule: rev_cases)
    case Nil
    with that assms(3) show ?thesis by simp
  next
    case (snoc zs z)
    with that(1) have "es = xs @ x # zs" by simp
    with that(2) assms(1) show ?thesis by (auto simp: good_trace_def)
  qed
  with assms(1,2) show ?thesis by (auto simp: good_trace_def)
qed

lemma decided_snoc [simp]: "decided (es @ [e]) \<longleftrightarrow> decided es \<or> decides e"
  by (auto simp: decided_def)

text \<open>The trace is good, and the journal value knows of a commit that was decided.\<close>

definition tracks :: "('p, 'x) senv \<Rightarrow> journal \<Rightarrow> 'x host \<Rightarrow> bool" where
  "tracks env j h \<longleftrightarrow> good_trace env (h_calls h) \<and> (decided (h_calls h) \<longrightarrow> j_committed j)"

abbreviation tracing :: "('p, 'x) senv \<Rightarrow> ('x host, 'a) prog \<Rightarrow> 'x host \<Rightarrow> bool" where
  "tracing env m h \<equiv> wp m (\<lambda>_ v. good_trace env (h_calls v)) (\<lambda>_ v. good_trace env (h_calls v)) h"

lemma tracks_good: "tracks env j h \<Longrightarrow> good_trace env (h_calls h)"
  by (simp add: tracks_def)

lemma tracks_cong: "h_calls v = h_calls h \<Longrightarrow> j_committed k = j_committed j \<Longrightarrow> tracks env j h \<Longrightarrow> tracks env k v"
  by (simp add: tracks_def)

lemma tracks_call:
  assumes "tracks env j h" "announced env e" "is_rollback (ev_call e) \<Longrightarrow> \<not> j_committed j" "decides e \<Longrightarrow> j_committed k"
    and "j_committed j \<Longrightarrow> j_committed k"
  shows "tracks env k (h\<lparr>h_ext := x, h_calls := h_calls h @ [e]\<rparr>)"
  using assms by (auto simp: tracks_def intro!: good_snoc)

section \<open>Failing\<close>

lemma tr_written_or:
  assumes "good_trace env (h_calls h)" "\<And>v. h_calls v = h_calls h \<Longrightarrow> shown env k v \<Longrightarrow> tracing env m v"
  shows "tracing env (written_or env code k m) h"
  unfolding written_or_def wp_elseP
  by (rule wp_journal_write) (use assms in auto)

lemma tr_now:
  assumes "\<And>t v. h_calls v = h_calls h \<Longrightarrow> h_journal v = h_journal h \<Longrightarrow> tracing env (k t) v"
  shows "tracing env (bindP (setup_now env) k) h"
  unfolding wp_bindP by (rule wp_setup_now) (rule assms, simp_all)

lemma tr_result:
  assumes "good_trace env (h_calls h)"
  shows "tracing env (written_or env code k (ret x)) h"
  by (rule tr_written_or) (use assms in simp_all)

lemma tr_finish_committed:
  assumes "tracks env j h" "j_committed j"
  shows "tracing env (finish_committed env p j cause) h"
  unfolding finish_committed_def Let_def
proof (rule tr_now, rule tr_written_or, goal_cases)
  case (1 t v)
  with assms show ?case by (simp add: tracks_def)
next
  case (2 t u v)
  let ?j = "j\<lparr>j_status := ''recovering_committed'', j_error := error_code env cause, j_updated := t\<rparr>"
  let ?e = "\<lambda>ok. \<lparr>ev_call = Call_recover_committed ?j, ev_ok = ok, ev_yes = False, ev_journal = h_journal v\<rparr>"
  have "announced env (?e ok)" for ok
    using shown_text [OF 2(4), of "(j_phase j, ''recovering_committed'')"] by (simp add: announced_def)
  then have good: "good_trace env (h_calls v @ [?e ok])" for ok
    using assms 2 by (intro good_snoc) (auto simp: tracks_def)
  show ?case
    unfolding wp_bindP wp_attempt perform_def
    by (rule wp_invoke; rule wp_setup_now) (auto intro!: tr_result good)
qed

lemma tr_roll_back:
  assumes "tracks env j h" "\<not> j_committed j"
  shows "tracing env (roll_back_setup env p j cause) h"
  unfolding roll_back_setup_def Let_def
proof (rule tr_now, rule tr_written_or, goal_cases)
  case (1 t v)
  with assms show ?case by (simp add: tracks_def)
next
  case (2 t u v)
  let ?j = "j\<lparr>j_status := ''rolling_back'', j_error := error_code env cause, j_updated := t\<rparr>"
  let ?e = "\<lambda>ok. \<lparr>ev_call = Call_rollback ?j, ev_ok = ok, ev_yes = False, ev_journal = h_journal v\<rparr>"
  have "announced env (?e ok)" for ok
    using shown_text [OF 2(4), of "(j_phase j, ''rolling_back'')"] by (simp add: announced_def)
  then have good: "good_trace env (h_calls v @ [?e ok])" for ok
    using assms 2 by (intro good_snoc) (auto simp: tracks_def)
  show ?case
    unfolding wp_bindP wp_attempt perform_def
    by (rule wp_invoke; rule wp_setup_now) (auto intro!: tr_result good)
qed

lemma tr_recover: "tracks env j h \<Longrightarrow> tracing env (recover_setup env p j cause) h"
  unfolding recover_setup_def by (simp add: tr_finish_committed tr_roll_back del: wp_bindP)

lemma tr_fail:
  assumes "tracks env j h"
  shows "tracing env (engine_fail env p j cause) h"
proof -
  have asked: "tracing env (elseP (invoke (Call_generation_committed n) (\<lambda>b. b) f) (\<lambda>_. commit_state_unknown env j)
      (\<lambda>b. recover_setup env p (j\<lparr>j_committed := b\<rparr>) cause)) h" if "\<not> j_committed j" for n f
    unfolding wp_elseP
  proof (rule wp_invoke, goal_cases)
    case (1 b x e)
    have "announced env e" by (simp add: 1 announced_def)
    then have "good_trace env (h_calls h @ [e])"
      using assms by (intro good_snoc) (auto simp: tracks_def 1)
    then show ?case
      using assms that by (intro tr_recover) (auto simp: tracks_def 1)
  next
    case (2 err x e)
    have "announced env e" by (simp add: 2 announced_def)
    then have "good_trace env (h_calls h @ [e])"
      using assms by (intro good_snoc) (auto simp: tracks_def 2)
    then show ?case unfolding commit_state_unknown_def by (intro tr_now tr_result) simp
  qed
  have early: "tracing env (bindP (setup_now env) (\<lambda>t. written_or env code (k t) (ret x))) h" for k x code
    by (intro tr_now tr_result) (use assms in \<open>simp add: tracks_def\<close>)
  show ?thesis
    unfolding engine_fail_def wp_if [of "journal_before_protected_mutation j"] wp_if [of "commit_must_be_asked j"]
    using asked early tr_recover [OF assms] by (simp add: commit_must_be_asked_def del: wp_bindP wp_elseP)
qed

lemma tr_fail_with: "tracks env j h \<Longrightarrow> tracing env (fail_with env p j cause) h"
  unfolding fail_with_def wp_bindP wp_failp by (rule wp_mono [OF tr_fail]) auto

lemma tr_record:
  assumes "tracks env j h" "\<And>v. tracks env j v \<Longrightarrow> shown env j v \<Longrightarrow> tracing env k v"
  shows "tracing env (record_or_fail env p j k) h"
  unfolding record_or_fail_def wp_elseP
  by (rule wp_journal_write) (use assms in \<open>auto intro!: tr_fail_with intro: tracks_cong\<close>)

section \<open>The phases\<close>

definition step_ok :: "('p, 'x) senv \<Rightarrow> ('p, 'x) step \<Rightarrow> bool" where
  "step_ok env s \<longleftrightarrow> (\<forall>j h. tracks env j h \<and> shown env j h \<and> j_phase j = fst s \<and> j_status j = ''running'' \<longrightarrow>
     wp (snd s j) (\<lambda>k v. tracks env k v \<and> j_status k = ''running'') (\<lambda>_ v. tracks env j v) h)"

lemma step_invoke:
  assumes "tracks env j h" "shown env j h" "j_status j = ''running''" "due c = Some (j_phase j, ''running'')" "\<not> is_rollback c"
    and "\<And>v. j_committed (k v) \<longleftrightarrow> j_committed j \<or> (\<exists>n. c = Call_commit n)" "\<And>v. j_status (k v) = ''running''"
  shows "wp (bindP (invoke c (\<lambda>_. False) f) (\<lambda>v. ret (k v))) (\<lambda>k v. tracks env k v \<and> j_status k = ''running'') (\<lambda>_ v. tracks env j v) h"
proof -
  have ann: "announced env e" if "ev_call e = c" "ev_journal e = h_journal h" for e
    using shown_text [OF assms(2), of "(j_phase j, ''running'')"] assms(3,4) that by (simp add: announced_def)
  show ?thesis
    unfolding wp_bindP wp_ret
    by (rule wp_invoke) (use assms ann in \<open>auto intro!: tracks_call [OF assms(1)] split: call.splits\<close>)
qed

lemma setup_steps_ok: "s \<in> set (setup_steps env p) \<Longrightarrow> step_ok env s"
  unfolding setup_steps_def step_ok_def step_call_def step_apply_def step_commit_def perform_def thenP_def
  by (auto simp del: wp_bindP intro!: step_invoke)

lemma tr_run_steps:
  assumes "\<And>s. s \<in> set steps \<Longrightarrow> step_ok env s" "tracks env j h" "j_status j = ''running''"
  shows "wp (run_steps env p steps j) (\<lambda>k v. tracks env k v \<and> j_status k = ''running'') (\<lambda>_ v. good_trace env (h_calls v)) h"
  using assms
proof (induction steps arbitrary: j h)
  case Nil
  then show ?case by simp
next
  case (Cons s steps)
  obtain ph f where s: "s = (ph, f)" by fastforce
  let ?Q = "\<lambda>k v. tracks env k v \<and> j_status k = ''running''"
  let ?E = "\<lambda>_ v. good_trace env (h_calls v)"
  have stop: "wp (fail_with env p k cause) ?Q ?E v" if "tracks env k v" for k cause v
    using tr_fail [OF that, of p cause] unfolding fail_with_def wp_bindP wp_failp .
  have stored: "wp (record_or_fail env p k m) ?Q ?E v"
    if "tracks env k v" "\<And>u. tracks env k u \<Longrightarrow> shown env k u \<Longrightarrow> wp m ?Q ?E u" for k m v
    unfolding record_or_fail_def wp_elseP
    by (rule wp_journal_write) (use that in \<open>auto intro!: stop intro: tracks_cong\<close>)
  have now: "wp (bindP (setup_now env) m) ?Q ?E v" if "\<And>t x. wp (m t) ?Q ?E (v\<lparr>h_ext := x\<rparr>)" for m v
    unfolding wp_bindP by (rule wp_setup_now) (rule that)
  have ext: "tracks env k (v\<lparr>h_ext := x\<rparr>) = tracks env k v" for k v x by (simp add: tracks_def)
  have step: "wp (elseP (f k) (fail_with env p k) m) ?Q ?E v"
    if "tracks env k v" "shown env k v" "j_phase k = ph" "j_status k = ''running''"
      "\<And>k' u. tracks env k' u \<Longrightarrow> j_status k' = ''running'' \<Longrightarrow> wp (m k') ?Q ?E u" for k m v
  proof -
    have "wp (f k) ?Q (\<lambda>_ u. tracks env k u) v"
      using Cons.prems(1) [of s] that(1-4) by (simp add: step_ok_def s)
    then show ?thesis unfolding wp_elseP by (rule wp_mono) (use that(5) stop in auto)
  qed
  have rest: "step_ok env s'" if "s' \<in> set steps" for s' using Cons.prems(1) that by simp
  show ?case
    unfolding s run_steps.simps
  proof (rule now)
    fix t0 x
    let ?go = "bindP (setup_now env) (\<lambda>t1.
       let j1 = j\<lparr>j_phase := ph, j_updated := t1\<rparr> in
       record_or_fail env p j1
         (elseP (f j1) (fail_with env p j1) (\<lambda>j2.
          bindP (setup_now env) (\<lambda>t2.
          let j3 = j2\<lparr>j_updated := t2\<rparr> in
          record_or_fail env p j3 (run_steps env p steps j3)))))"
    have "wp ?go ?Q ?E (h\<lparr>h_ext := x\<rparr>)"
    proof (rule now, unfold Let_def, rule stored, goal_cases)
      case (1 t y)
      then show ?case using Cons.prems(2) by (simp add: tracks_def)
    next
      case (2 t y u)
      show ?case
      proof (rule step [OF 2], goal_cases)
        case (3 k u)
        show ?case
        proof (rule now, rule stored, goal_cases)
          case (1 t y)
          with 3 show ?case by (simp add: tracks_def)
        next
          case (2 t y u)
          with 3 Cons.IH [OF rest] show ?case by simp
        qed
      qed (use Cons.prems(3) in simp_all)
    qed
    moreover have "wp (fail_with env p j (setup_err ''SETUP_DEADLINE_EXPIRED'')) ?Q ?E (h\<lparr>h_ext := x\<rparr>)"
      by (rule stop) (use Cons.prems(2) in \<open>simp add: ext\<close>)
    ultimately show "wp (if \<not> t0 < j_deadline j then fail_with env p j (setup_err ''SETUP_DEADLINE_EXPIRED'') else ?go) ?Q ?E (h\<lparr>h_ext := x\<rparr>)"
      unfolding wp_if by (simp del: wp_bindP)
  qed
qed

section \<open>The transaction\<close>

lemma tr_wrap: "tracing env m h \<Longrightarrow> tracing env (wrapP g m) h"
  by simp

lemma tr_write:
  assumes "good_trace env (h_calls h)" "\<And>v. h_calls v = h_calls h \<Longrightarrow> tracing env k v"
  shows "tracing env (thenP (wrapP g (journal_write env j)) k) h"
  unfolding wp_thenP wp_wrapP by (rule wp_journal_write) (use assms in auto)

lemma tr_complete:
  assumes "tracks env j h" "j_status j = ''running''"
  shows "tracing env (complete_setup env p j) h"
  unfolding complete_setup_def wp_bindP [of "run_steps _ _ _ _"]
proof (rule wp_mono [OF tr_run_steps [OF setup_steps_ok assms]], assumption)
  fix k v
  assume "tracks env k v \<and> j_status k = ''running''"
  then show "tracing env (bindP (setup_now env) (\<lambda>t.
     thenP (wrapP (\<lambda>_. setup_err ''SETUP_FINAL_JOURNAL_WRITE_FAILED'')
              (journal_write env (k\<lparr>j_phase := PhaseComplete, j_status := ''complete'', j_updated := t, j_error := []\<rparr>)))
       (ret (p, None)))) v"
    by (intro tr_now tr_write) (simp_all add: tracks_def)
qed

lemma tr_invoke:
  assumes "tracks env j h" "announced env \<lparr>ev_call = c, ev_ok = True, ev_yes = False, ev_journal = h_journal h\<rparr>"
    and "\<not> is_rollback c" "\<nexists>n. c = Call_commit n"
    and "\<And>r v. tracks env j v \<Longrightarrow> tracing env (k r) v" "\<And>e v. tracks env j v \<Longrightarrow> tracing env (f e) v"
  shows "tracing env (elseP (invoke c (\<lambda>_. False) g) f k) h"
proof -
  have ann: "announced env e" if "ev_call e = c" "ev_journal e = h_journal h" for e
    using assms(2) that by (auto simp: announced_def split: option.splits)
  have t: "tracks env j (h\<lparr>h_ext := x, h_calls := h_calls h @ [\<lparr>ev_call = c, ev_ok = b, ev_yes = False, ev_journal = h_journal h\<rparr>]\<rparr>)" for x b
    by (rule tracks_call [OF assms(1)]) (use assms(3,4) ann in \<open>auto split: call.splits\<close>)
  show ?thesis
    unfolding wp_elseP by (rule wp_invoke) (use assms(5,6) t in auto)
qed

lemma tr_resume:
  assumes "tracks env j h" "\<And>j v. tracks env j v \<Longrightarrow> j_status j = ''running'' \<Longrightarrow> tracing env (k j) v"
  shows "tracing env (resume_setup env p boot started j k) h"
proof -
  have body: "tracing env (let j' = j\<lparr>j_status := ''resume_ready'', j_error := [], j_updated := started,
                   j_deadline := started + setup_timeout env\<rparr> in
        thenP (wrapP (\<lambda>_. write_failed) (journal_write env j'))
        (elseP (perform env Call_verify_resume p) (fail_with env p j') (\<lambda>_.
         bindP (setup_now env) (\<lambda>t.
         let j'' = j'\<lparr>j_status := ''running'', j_updated := t\<rparr> in
         record_or_fail env p j'' (k j''))))) h" if ph: "j_phase j = PhaseBootPrep"
    unfolding Let_def wp_thenP [of "wrapP _ _"] wp_wrapP perform_def
  proof (rule wp_journal_write, goal_cases)
    case (1 v)
    let ?j = "j\<lparr>j_status := ''resume_ready'', j_error := [], j_updated := started, j_deadline := started + setup_timeout env\<rparr>"
    have t: "tracks env ?j v" by (rule tracks_cong [OF 1(1) _ assms(1)]) simp
    show ?case
    proof (rule tr_invoke [OF t], goal_cases)
      case 1
      show ?case
        using shown_text [OF \<open>shown env _ v\<close>, of "(PhaseBootPrep, ''resume_ready'')"] ph by (simp add: announced_def)
    next
      case (4 r u)
      show ?case
      proof (rule tr_now, rule tr_record, goal_cases)
        case (1 t w)
        with 4 show ?case by (simp add: tracks_def)
      next
        case (2 t w x)
        then show ?case by (intro assms(2)) simp_all
      qed
    qed (auto intro: tr_fail_with)
  next
    case (2 e v)
    with assms(1) show ?case by (simp add: tracks_def)
  qed
  then show ?thesis
    using assms(1) unfolding resume_setup_def
    by (auto simp: tracks_def reboot_required_journal_def simp del: wp_bindP wp_thenP wp_elseP)
qed

lemma tr_start:
  assumes "good_trace env (h_calls h)" "\<not> decided (h_calls h)"
    and "\<And>j v. tracks env j v \<Longrightarrow> j_status j = ''running'' \<Longrightarrow> tracing env (k j) v"
  shows "tracing env (start_setup env p boot started k) h"
proof -
  have tid: "obeys same_calls (new_transaction env)"
  proof (cases "eg_new_id env")
    case None
    then show ?thesis
      by (simp add: new_transaction_def same_calls.frame_rules records_calls [OF records_now])
  qed (auto simp: new_transaction_def obeys_def same_calls_def split: prod.splits)
  have t: "tracks env j v" if "h_calls v = h_calls h" for j v
    using assms(1,2) that by (simp add: tracks_def)
  show ?thesis
    unfolding start_setup_def wp_bindP [of "new_transaction env"] Let_def perform_def
  proof (rule wp_mono [OF obeys_wp [OF tid]], unfold wp_thenP [of "wrapP _ (journal_begin _ _ _)"] wp_wrapP,
      rule wp_mono [OF obeys_wp [OF calls_begin]], rule tr_now, rule tr_record, goal_cases)
    case (1 tid v u t w)
    then show ?case by (intro t) (simp add: same_calls_def)
  next
    case b: (2 tid v u w t1 x y)
    let ?j = "\<lparr>j_schema = journal_schema, j_transaction = tid, j_phase = PhaseBackup, j_status = ''running'',
               j_started = started, j_updated = t1, j_deadline = started + setup_timeout env, j_backup = [],
               j_generation = 0, j_committed = False, j_summary = pl_summary p, j_error = []\<rparr>"
    have prepared: "tracing env (if boot then
              bindP (setup_now env) (\<lambda>t3.
              let j3 = j2\<lparr>j_phase := PhaseBootPrep, j_updated := t3\<rparr> in
              record_or_fail env p j3
                (elseP (invoke Call_prepare_boot (\<lambda>_. False) (ex_do env Call_prepare_boot p)) (fail_with env p j3) (\<lambda>_.
                 bindP (setup_now env) (\<lambda>t4.
                 let j4 = j3\<lparr>j_status := ''reboot_required'', j_error := [], j_updated := t4\<rparr> in
                 record_or_fail env p j4 (ret (p, Some ErrRebootRequired))))))
            else k j2) u" if "tracks env j2 u" "j_status j2 = ''running''" for j2 u
    proof (cases boot)
      case True
      show ?thesis
        unfolding if_P [OF True] Let_def
      proof (rule tr_now, rule tr_record, goal_cases)
        case (1 t v)
        with that show ?case by (simp add: tracks_def)
      next
        case b: (2 t v w)
        show ?case
        proof (rule tr_invoke [OF b(3)], goal_cases)
          case 1
          show ?case
            using shown_text [OF b(4), of "(PhaseBootPrep, ''running'')"] that(2) by (simp add: announced_def)
        next
          case (4 r x)
          show ?case
            by (rule tr_now, rule tr_record) (use 4 in \<open>simp_all add: tracks_def\<close>)
        qed (auto intro: tr_fail_with)
      qed
    qed (use that in \<open>simp add: assms(3)\<close>)
    show ?case
    proof (rule tr_invoke [OF b(5)], goal_cases)
      case 1
      show ?case using shown_text [OF b(6), of "(PhaseBackup, ''running'')"] by (simp add: announced_def)
    next
      case (4 r u)
      show ?case
      proof (rule tr_now, rule tr_record, goal_cases)
        case (1 t v)
        with 4 show ?case by (simp add: tracks_def)
      next
        case (2 t v w)
        then show ?case by (intro prepared [unfolded Let_def]) simp_all
      qed
    qed (auto intro: tr_fail_with)
  qed (use assms(1) in \<open>auto simp: same_calls_def\<close>)
qed

lemma tr_run:
  assumes "h_calls h = []"
  shows "tracing env (engine_run env path) h"
proof -
  have body: "tracing env (bindP (setup_now env) (\<lambda>started.
       let boot = (ex_boots env \<and> ex_boot_required env p) in
       case pl_resume p of
         Some j \<Rightarrow> resume_setup env p boot started j (complete_setup env p)
       | None \<Rightarrow> start_setup env p boot started (complete_setup env p))) v"
    if v: "good_trace env (h_calls v)" "\<not> decided (h_calls v)" for p v
  proof (rule tr_now, unfold Let_def, goal_cases)
    case (1 t u)
    have track: "tracks env j u" for j using 1 v by (simp add: tracks_def)
    show ?case
    proof (cases "pl_resume p")
      case None
      show ?thesis unfolding None option.case
        by (rule tr_start) (use 1 v in \<open>auto intro: tr_complete\<close>)
    next
      case (Some j)
      show ?thesis unfolding Some option.case
        by (rule tr_resume [OF track tr_complete])
    qed
  qed
  have snoc: "good_trace env (h_calls h @ [e]) \<and> \<not> decided (h_calls h @ [e])" if "ev_call e = Call_prepare" for e
    using good_snoc [OF good_Nil, of env e] that assms by (simp add: announced_def decided_def)
  show ?thesis
    unfolding engine_run_def wp_thenP [of "refuseP _ _"] wp_refuseP wp_bindP [of "wrapP _ _"] wp_wrapP
  proof (auto simp: assms good_Nil simp del: wp_bindP wp_thenP, rule wp_invoke, goal_cases)
    case (1 p x e)
    then show ?case
      using snoc [of e] body [of "h\<lparr>h_ext := x, h_calls := h_calls h @ [e]\<rparr>" p]
      unfolding wp_thenP wp_refuseP by (simp del: wp_bindP)
  next
    case (2 err x e)
    then show ?case using snoc [of e] by simp
  qed
qed

text \<open>C7. Write-ahead. Whatever fails, every call that changes the host is announced in the journal file before it
  is made: when the executor runs a phase, the file holds a journal of that phase in state running; when it
  rolls back or recovers, the file says so.\<close>

theorem setup_is_announced:
  assumes "engine_run env path h = (r, h')" "h_calls h = []" "e \<in> set (h_calls h')"
  shows "announced env e"
proof -
  have "good_trace env (h_calls h')"
    using tr_run [OF assms(2), of env path] assms(1) by (simp add: wp_def split: sum.splits)
  with assms(3) show ?thesis by (simp add: good_trace_def list_all_iff)
qed

text \<open>C8. A generation that is committed is never rolled back: in no run of the setup does a rollback come after a
  commit that succeeded or after the store has answered that the generation is committed.\<close>

theorem committed_setup_not_rolled_back:
  assumes "engine_run env path h = (r, h')" "h_calls h = []" "h_calls h' = xs @ e # ys" "is_rollback (ev_call e)"
  shows "\<not> (\<exists>c \<in> set xs. (\<exists>n. ev_call c = Call_commit n \<and> ev_ok c) \<or> (\<exists>n. ev_call c = Call_generation_committed n \<and> ev_yes c))"
proof -
  have "good_trace env (h_calls h')"
    using tr_run [OF assms(2), of env path] assms(1) by (simp add: wp_def split: sum.splits)
  with assms(3,4) have "\<not> decided xs" by (auto simp: good_trace_def)
  then show ?thesis by (auto simp: decided_def split: call.splits)
qed

section \<open>A setup that succeeds\<close>

text \<open>The fields of a journal that the phases carry along.\<close>

definition agrees :: "journal \<Rightarrow> journal \<Rightarrow> bool" where
  "agrees j k \<longleftrightarrow> j_generation k = j_generation j \<and> j_committed k = j_committed j \<and> j_summary k = j_summary j"

abbreviation succeeding :: "('x host, 'a) prog \<Rightarrow> ('a \<Rightarrow> 'x host \<Rightarrow> bool) \<Rightarrow> 'x host \<Rightarrow> bool" where
  "succeeding m Q h \<equiv> wp m Q (\<lambda>_ _. True) h"

lemma ok_now: "(\<And>t v. h_calls v = h_calls h \<Longrightarrow> succeeding (k t) Q v) \<Longrightarrow> succeeding (bindP (setup_now env) k) Q h"
  unfolding wp_bindP by (rule wp_setup_now) simp_all

lemma ok_fail: "succeeding (fail_with env p j cause) Q h"
  unfolding fail_with_def wp_bindP wp_failp by (rule wp_mono [OF wp_True]) simp_all

lemma ok_stored:
  "(\<And>v. h_calls v = h_calls h \<Longrightarrow> succeeding k Q v) \<Longrightarrow> succeeding (record_or_fail env p j k) Q h"
  unfolding record_or_fail_def wp_elseP by (rule wp_journal_write) (simp_all add: ok_fail)

lemma ok_else: "succeeding m (\<lambda>x. succeeding (k x) Q) h \<Longrightarrow> succeeding (elseP m (\<lambda>e. fail_with env p j (g e)) k) Q h"
  unfolding wp_elseP by (erule wp_mono) (simp_all add: ok_fail)

lemma ok_step:
  assumes "\<And>k v. agrees j k \<Longrightarrow> h_calls v = h_calls h \<Longrightarrow>
      succeeding (f k) (\<lambda>k u. \<forall>k' w. agrees k k' \<longrightarrow> h_calls w = h_calls u \<longrightarrow> succeeding (run_steps env p steps k') Q w) v"
  shows "succeeding (run_steps env p ((ph, f) # steps) j) Q h"
proof -
  have go: "succeeding (bindP (setup_now env) (\<lambda>t1.
       let j1 = j\<lparr>j_phase := ph, j_updated := t1\<rparr> in
       record_or_fail env p j1
         (elseP (f j1) (fail_with env p j1) (\<lambda>j2.
          bindP (setup_now env) (\<lambda>t2.
          let j3 = j2\<lparr>j_updated := t2\<rparr> in
          record_or_fail env p j3 (run_steps env p steps j3)))))) Q v" if "h_calls v = h_calls h" for v
    unfolding Let_def
  proof (rule ok_now, rule ok_stored, rule ok_else, goal_cases)
    case (1 t u w)
    then show ?case
      by (intro wp_mono [OF assms] ok_now ok_stored) (auto simp: agrees_def that)
  qed
  show ?thesis
    unfolding run_steps.simps by (rule ok_now) (use go in \<open>simp add: ok_fail del: wp_bindP\<close>)
qed

lemma ok_call:
  assumes "\<And>k. agrees j k \<Longrightarrow> c k = c j"
    and "\<And>k w e. agrees j k \<Longrightarrow> h_calls w = h_calls h @ [e] \<Longrightarrow> ev_call e = c j \<Longrightarrow> ev_ok e \<Longrightarrow>
      succeeding (run_steps env p steps k) Q w"
  shows "succeeding (run_steps env p ((ph, \<lambda>j. step_call env p (c j) j) # steps) j) Q h"
proof (rule ok_step)
  fix k :: journal and v :: "'a host"
  assume k: "agrees j k" "h_calls v = h_calls h"
  show "succeeding (step_call env p (c k) k) (\<lambda>k u. \<forall>k' w. agrees k k' \<longrightarrow> h_calls w = h_calls u \<longrightarrow>
      succeeding (run_steps env p steps k') Q w) v"
    unfolding step_call_def perform_def wp_thenP wp_ret
    by (rule wp_invoke) (use k assms(1) [OF k(1)] in \<open>auto simp: agrees_def intro!: assms(2)\<close>)
qed

lemma ok_apply:
  assumes "\<And>k w e. j_committed k = j_committed j \<Longrightarrow> j_summary k = j_summary j \<Longrightarrow> h_calls w = h_calls h @ [e] \<Longrightarrow>
      ev_call e = Call_apply_safe \<Longrightarrow> ev_ok e \<Longrightarrow> succeeding (run_steps env p steps k) Q w"
  shows "succeeding (run_steps env p ((ph, step_apply env p) # steps) j) Q h"
proof (rule ok_step)
  fix k :: journal and v :: "'a host"
  assume k: "agrees j k" "h_calls v = h_calls h"
  show "succeeding (step_apply env p k) (\<lambda>k u. \<forall>k' w. agrees k k' \<longrightarrow> h_calls w = h_calls u \<longrightarrow>
      succeeding (run_steps env p steps k') Q w) v"
    unfolding step_apply_def wp_bindP wp_ret
    by (rule wp_invoke) (use k in \<open>auto simp: agrees_def intro!: assms\<close>)
qed

lemma ok_commit:
  assumes "\<And>k w e. j_committed k \<Longrightarrow> j_generation k = j_generation j \<Longrightarrow> j_summary k = j_summary j \<Longrightarrow>
      h_calls w = h_calls h @ [e] \<Longrightarrow> ev_call e = Call_commit (j_generation j) \<Longrightarrow> ev_ok e \<Longrightarrow>
      succeeding (run_steps env p steps k) Q w"
  shows "succeeding (run_steps env p ((ph, step_commit env p) # steps) j) Q h"
proof (rule ok_step)
  fix k :: journal and v :: "'a host"
  assume k: "agrees j k" "h_calls v = h_calls h"
  show "succeeding (step_commit env p k) (\<lambda>k u. \<forall>k' w. agrees k k' \<longrightarrow> h_calls w = h_calls u \<longrightarrow>
      succeeding (run_steps env p steps k') Q w) v"
    unfolding step_commit_def perform_def wp_thenP wp_ret
    by (rule wp_invoke) (use k in \<open>auto simp: agrees_def intro!: assms\<close>)
qed

definition phase_calls :: "nat \<Rightarrow> call list" where
  "phase_calls n =
     [Call_start_guard, Call_install, Call_configure_docker, Call_start_runtime, Call_apply_safe, Call_start_tunnel,
      Call_validate n, Call_commit n, Call_publish_dependencies, Call_enable_boot, Call_finalize]"

text \<open>The calls of the phases follow the calls \<open>cs\<close>, all successful.\<close>

definition went_through :: "call list \<Rightarrow> journal \<Rightarrow> 'x host \<Rightarrow> bool" where
  "went_through cs k v \<longleftrightarrow> map ev_call (h_calls v) = cs @ phase_calls (j_generation k) \<and> list_all ev_ok (h_calls v) \<and> j_committed k"

lemma ok_steps:
  assumes "map ev_call (h_calls h) = cs" "list_all ev_ok (h_calls h)"
  shows "succeeding (run_steps env p (setup_steps env p) j) (\<lambda>k v. went_through cs k v \<and> j_summary k = j_summary j) h"
  unfolding setup_steps_def
  apply (rule ok_call, simp)+
  apply (rule ok_apply)
  apply (rule ok_call, simp)
  apply (rule ok_call, simp add: agrees_def)
  apply (rule ok_commit)
  apply (rule ok_call, simp)+
  apply (auto simp: went_through_def phase_calls_def agrees_def assms)
  done

definition completed :: "('p, 'x) senv \<Rightarrow> 'p plan \<Rightarrow> call list \<Rightarrow> 'x host \<Rightarrow> bool" where
  "completed env p cs v \<longleftrightarrow> (\<exists>j. shown env j v \<and> j_phase j = PhaseComplete \<and> j_status j = ''complete'' \<and> j_committed j \<and>
     j_summary j = pl_summary p \<and> map ev_call (h_calls v) = cs @ phase_calls (j_generation j)) \<and> list_all ev_ok (h_calls v)"

abbreviation reaches :: "('p, 'x) senv \<Rightarrow> 'p plan \<Rightarrow> call list \<Rightarrow> 'p plan \<times> goerr option \<Rightarrow> 'x host \<Rightarrow> bool" where
  "reaches env p cs x v \<equiv> fst x = p \<and> (snd x = None \<longrightarrow> completed env p cs v)"

lemma ok_complete:
  fixes env :: "('p, 'x) senv" and h :: "'x host"
  assumes "map ev_call (h_calls h) = cs" "list_all ev_ok (h_calls h)" "j_summary j = pl_summary p"
  shows "succeeding (complete_setup env p j) (reaches env p cs) h"
  unfolding complete_setup_def wp_bindP [of "run_steps _ _ _ _"]
proof (rule wp_mono [OF ok_steps [OF assms(1,2)]])
  fix k :: journal and v :: "'x host"
  assume "went_through cs k v \<and> j_summary k = j_summary j"
  then show "succeeding (bindP (setup_now env) (\<lambda>t.
     thenP (wrapP (\<lambda>_. setup_err ''SETUP_FINAL_JOURNAL_WRITE_FAILED'')
              (journal_write env (k\<lparr>j_phase := PhaseComplete, j_status := ''complete'', j_updated := t, j_error := []\<rparr>)))
       (ret (p, None)))) (reaches env p cs) v"
    unfolding wp_thenP wp_wrapP
    by (intro ok_now) (auto intro!: wp_journal_write simp: completed_def went_through_def assms(3))
qed simp

lemma ok_invoke:
  assumes "map ev_call (h_calls h) = cs" "list_all ev_ok (h_calls h)"
    and "\<And>r v. map ev_call (h_calls v) = cs @ [c] \<Longrightarrow> list_all ev_ok (h_calls v) \<Longrightarrow> succeeding (k r) Q v"
  shows "succeeding (elseP (invoke c (\<lambda>_. False) f) (\<lambda>e. fail_with env p j (g e)) k) Q h"
  by (rule ok_else, rule wp_invoke) (use assms in auto)

lemma ok_begin:
  assumes "\<And>v. h_calls v = h_calls h \<Longrightarrow> succeeding k Q v"
  shows "succeeding (thenP (wrapP g (journal_begin env j prior)) k) Q h"
  unfolding wp_thenP wp_wrapP
  by (rule wp_mono [OF obeys_wp [OF calls_begin]]) (use assms in \<open>auto simp: same_calls_def\<close>)

lemma ok_write:
  assumes "\<And>v. h_calls v = h_calls h \<Longrightarrow> succeeding k Q v"
  shows "succeeding (thenP (wrapP g (journal_write env j)) k) Q h"
  unfolding wp_thenP wp_wrapP by (rule wp_journal_write) (use assms in auto)

lemma calls_new_transaction: "obeys same_calls (new_transaction env)"
proof (cases "eg_new_id env")
  case None
  then show ?thesis
    by (simp add: new_transaction_def same_calls.frame_rules records_calls [OF records_now])
qed (auto simp: new_transaction_def obeys_def same_calls_def split: prod.splits)

lemma ok_start:
  fixes env :: "('p, 'x) senv" and h :: "'x host"
  assumes "map ev_call (h_calls h) = cs" "list_all ev_ok (h_calls h)"
  shows "succeeding (start_setup env p boot started (complete_setup env p)) (reaches env p (cs @ [Call_backup])) h"
proof -
  let ?Q = "reaches env p (cs @ [Call_backup])"
  have backup: "succeeding (elseP (invoke Call_backup (\<lambda>_. False) (ex_backup env p)) (fail_with env p j1) (\<lambda>dir.
         bindP (setup_now env) (\<lambda>t2.
         let j2 = j1\<lparr>j_backup := dir, j_updated := t2\<rparr> in
         record_or_fail env p j2
           (if boot then
              bindP (setup_now env) (\<lambda>t3.
              let j3 = j2\<lparr>j_phase := PhaseBootPrep, j_updated := t3\<rparr> in
              record_or_fail env p j3
                (elseP (perform env Call_prepare_boot p) (fail_with env p j3) (\<lambda>_.
                 bindP (setup_now env) (\<lambda>t4.
                 let j4 = j3\<lparr>j_status := ''reboot_required'', j_error := [], j_updated := t4\<rparr> in
                 record_or_fail env p j4 (ret (p, Some ErrRebootRequired))))))
            else complete_setup env p j2)))) ?Q v"
    if v: "h_calls v = h_calls h" "j_summary j1 = pl_summary p" for v j1
  proof (rule ok_invoke [where cs = cs], goal_cases)
    case (3 r u)
    show ?case
      unfolding Let_def
    proof (rule ok_now, rule ok_stored, goal_cases)
      case (1 t x y)
      show ?case
      proof (cases boot)
        case False
        then show ?thesis using 1 3 v by (simp add: ok_complete)
      next
        case True
        show ?thesis
          unfolding if_P [OF True] perform_def
          by (rule ok_now, rule ok_stored, rule ok_else, rule wp_invoke) (auto intro!: ok_now ok_stored simp del: wp_bindP)
      qed
    qed
  qed (use assms v in auto)
  show ?thesis
    unfolding start_setup_def wp_bindP [of "new_transaction env"] Let_def
    by (rule wp_mono [OF obeys_wp [OF calls_new_transaction]], rule ok_begin, rule ok_now, rule ok_stored,
        rule backup [unfolded Let_def]) (simp_all add: same_calls_def)
qed

lemma ok_resume:
  fixes env :: "('p, 'x) senv" and h :: "'x host"
  assumes "map ev_call (h_calls h) = cs" "list_all ev_ok (h_calls h)"
  shows "succeeding (resume_setup env p boot started j (complete_setup env p)) (reaches env p (cs @ [Call_verify_resume])) h"
proof -
  have "succeeding (let j' = j\<lparr>j_status := ''resume_ready'', j_error := [], j_updated := started,
                   j_deadline := started + setup_timeout env\<rparr> in
        thenP (wrapP (\<lambda>_. write_failed) (journal_write env j'))
        (elseP (perform env Call_verify_resume p) (fail_with env p j') (\<lambda>_.
         bindP (setup_now env) (\<lambda>t.
         let j'' = j'\<lparr>j_status := ''running'', j_updated := t\<rparr> in
         record_or_fail env p j'' (complete_setup env p j''))))) (reaches env p (cs @ [Call_verify_resume])) h"
    if "j_summary j = pl_summary p"
    unfolding Let_def perform_def
    by (rule ok_write, rule ok_invoke [OF _ _ ok_now [OF ok_stored [OF ok_complete]]]) (use assms that in auto)
  then show ?thesis by (simp add: resume_setup_def del: wp_bindP wp_thenP wp_elseP)
qed

text \<open>C9. A setup that reports success has run every phase once, in order and successfully, on one generation: the
  generation that was applied is the one that was validated and committed, and the journal file ends as the
  complete journal of a committed setup of the plan.\<close>

theorem setup_success_exact:
  assumes "engine_run env path h = (Inr (p, None), h')" "h_calls h = []"
  shows "\<exists>j first. first = (if pl_resume p = None then Call_backup else Call_verify_resume) \<and>
    map ev_call (h_calls h') = [Call_prepare, first] @ phase_calls (j_generation j) \<and> list_all ev_ok (h_calls h') \<and>
    shown env j h' \<and> j_phase j = PhaseComplete \<and> j_status j = ''complete'' \<and> j_committed j \<and> j_summary j = pl_summary p"
proof -
  let ?first = "\<lambda>p. if pl_resume p = None then Call_backup else Call_verify_resume"
  have tail: "succeeding (bindP (setup_now env) (\<lambda>started.
       let boot = (ex_boots env \<and> ex_boot_required env p) in
       case pl_resume p of
         Some j \<Rightarrow> resume_setup env p boot started j (complete_setup env p)
       | None \<Rightarrow> start_setup env p boot started (complete_setup env p)))
      (reaches env p [Call_prepare, ?first p]) v"
    if "map ev_call (h_calls v) = [Call_prepare]" "list_all ev_ok (h_calls v)" for p v
    unfolding Let_def
  proof (rule ok_now, goal_cases)
    case (1 t u)
    then show ?case
      using that ok_start [of u "[Call_prepare]" env p] ok_resume [of u "[Call_prepare]" env p]
      by (cases "pl_resume p") simp_all
  qed
  have "succeeding (engine_run env path) (\<lambda>x v. reaches env (fst x) [Call_prepare, ?first (fst x)] x v) h"
    unfolding engine_run_def wp_thenP [of "refuseP _ _"] wp_refuseP wp_bindP [of "wrapP _ _"] wp_wrapP
  proof (simp del: wp_bindP wp_thenP, intro impI, rule wp_invoke, goal_cases)
    case (1 p x e)
    then have "succeeding (bindP (setup_now env) (\<lambda>started.
       let boot = (ex_boots env \<and> ex_boot_required env p) in
       case pl_resume p of
         Some j \<Rightarrow> resume_setup env p boot started j (complete_setup env p)
       | None \<Rightarrow> start_setup env p boot started (complete_setup env p)))
      (\<lambda>x v. snd x = None \<longrightarrow> completed env (fst x) [Call_prepare, ?first (fst x)] v) (h\<lparr>h_ext := x, h_calls := h_calls h @ [e]\<rparr>)"
      by (intro wp_mono [OF tail]) (simp_all add: assms(2))
    then show ?case unfolding wp_thenP wp_refuseP by (simp del: wp_bindP)
  qed simp
  from wp_Ok [OF this assms(1)] show ?thesis by (auto simp: completed_def)
qed

section \<open>The lineage of journals\<close>

lemma wp_records:
  assumes "obeys same_records m"
    and "\<And>x v. same_records h v \<Longrightarrow> Q x v" "\<And>e v. same_records h v \<Longrightarrow> E e v"
  shows "wp m Q E h"
  by (rule wp_mono [OF obeys_wp [OF assms(1)]]) (use assms(2,3) in auto)

lemma wp_read_journal_file:
  assumes "\<And>raw j v. same_records h v \<Longrightarrow> content = Some raw \<Longrightarrow> journal_text_valid env raw = Some j \<Longrightarrow>
      Q (j, raw, se_sha256 env raw) v"
    and "\<And>e v. same_records h v \<Longrightarrow> E e v"
  shows "wp (read_journal_file env content) Q E h"
  unfolding read_journal_file_def
  by (auto intro!: wp_setup_io assms simp: same_records_def split: option.splits)

text \<open>No archived journal is lost, and \<open>name\<close> may have been added with content \<open>raw\<close>.\<close>

definition archived :: "string \<Rightarrow> string \<Rightarrow> 'x host \<Rightarrow> 'x host \<Rightarrow> bool" where
  "archived name raw h v \<longleftrightarrow> h_journal v = h_journal h \<and>
     (h_history v = h_history h \<or> h_history h name = None \<and> h_history v = (h_history h)(name \<mapsto> raw))"

lemma wp_verify_archived:
  assumes "\<And>v. same_records h v \<Longrightarrow> h_history h name = Some raw \<Longrightarrow> Q () v" "\<And>e v. same_records h v \<Longrightarrow> E e v"
  shows "wp (verify_archived env code name raw sum0) Q E h"
  unfolding verify_archived_def wp_bindP wp_wrapP wp_getP wp_case_prod
  by (rule wp_read_journal_file) (use assms in auto)

lemma wp_archive:
  fixes h :: "'x host" and j :: journal and sum0 :: string
  defines "name \<equiv> j_transaction j @ ''.'' @ sum0 @ ''.json''"
  assumes "\<And>v. archived name raw h v \<Longrightarrow> h_history v name = Some raw \<Longrightarrow> Q () v"
    and "\<And>e v. archived name raw h v \<Longrightarrow> E e v"
  shows "wp (archive_terminal_journal env j raw sum0) Q E h"
proof -
  let ?n = "name"
  have same: "archived ?n raw h v" if "same_records h v" for v
    using that by (simp add: same_records_def archived_def)
  have step: "wp (thenP m k) Q E u" if "obeys same_records m" "same_records h u" "\<And>v. same_records h v \<Longrightarrow> wp k Q E v" for m k u
    unfolding wp_thenP
    by (rule wp_records [OF that(1)]) (use that(2,3) same same_records.frame_trans assms(3) in blast)+
  have check: "wp (bindP (getP (\<lambda>h. h_history h ?n)) f) Q E u" if "same_records h u" "wp (f (h_history h ?n)) Q E u" for f u
    using that by (simp add: same_records_def)
  have known: "wp (thenP (verify_archived env c ?n raw sum0) (setup_io env c' l)) Q E u"
    if "same_records h u" for u c c' l
    unfolding wp_thenP
  proof (rule wp_verify_archived)
    fix v
    assume v: "same_records u v" "h_history u ?n = Some raw"
    have after: "archived ?n raw h x \<and> h_history x ?n = Some raw" if "same_records v x" for x
      using that v \<open>same_records h u\<close> by (simp add: same_records_def archived_def)
    show "wp (setup_io env c' l) Q E v"
      by (rule wp_records [OF records_io(1)]) (simp_all add: assms(2,3) after)
  qed (use that same same_records.frame_trans assms(3) in blast)
  have fresh: "wp (thenP (put_history ?n raw) (thenP (setup_io env c l) (verify_archived env c' ?n raw sum0))) Q E u"
    if u: "same_records h u" and new: "h_history h ?n = None" for u c c' l
  proof -
    let ?u = "u\<lparr>h_history := (h_history u)(?n \<mapsto> raw)\<rparr>"
    have arch: "archived ?n raw h v \<and> h_history v ?n = Some raw" if "same_records ?u v" for v
      using that u new by (simp add: same_records_def archived_def)
    have "wp (thenP (setup_io env c l) (verify_archived env c' ?n raw sum0)) Q E ?u"
      unfolding wp_thenP
    proof (rule wp_records [OF records_io(1)])
      fix v
      assume "same_records ?u v"
      then show "wp (verify_archived env c' ?n raw sum0) Q E v"
        using arch same_records.frame_trans by (intro wp_verify_archived assms(2,3)) blast+
    qed (use arch assms(3) in blast)
    then show ?thesis by (simp add: wp_def thenP_def bindP_def put_history_def)
  qed
  note io = records_io
  show ?thesis
    unfolding archive_terminal_journal_def Let_def name_def [symmetric]
    apply (rule step [OF io(1) same_records.frame_refl])
    apply (rule step [OF io(1)], assumption)
    apply (rule step [OF io(1)], assumption)
    apply (rule step [OF io(2)], assumption)
    apply (rule step [OF io(1)], assumption)
    apply (rule check, assumption)
    apply (rule step [OF io(1)], assumption)
    apply (cases "h_history h ?n = None")
     apply (simp only: not_True_eq_False if_False simp_thms)
     apply (rule step [OF io(1)], assumption)
     apply (rule step [OF io(1)], assumption)
     apply (rule step [OF io(1)], assumption)
     apply (rule step [OF io(1)], assumption)
     apply (rule fresh, assumption, assumption)
    apply (simp only: not_False_eq_True if_True)
    apply (rule known, assumption)
    done
qed

definition lineage :: "('p, 'x) senv \<Rightarrow> journal \<Rightarrow> string \<Rightarrow> 'x host \<Rightarrow> 'x host \<Rightarrow> bool" where
  "lineage env j prior h v \<longleftrightarrow>
     (\<forall>n b. h_history h n = Some b \<longrightarrow> h_history v n = Some b) \<and>
     (h_journal v = h_journal h \<or>
      shown env j v \<and> (h_journal h = None \<and> prior = [] \<or>
        (\<exists>raw old. h_journal h = Some raw \<and> journal_text_valid env raw = Some old \<and> se_sha256 env raw = prior \<and>
           terminal_rolled_back_journal old \<and> j_transaction old \<noteq> j_transaction j \<and>
           h_history v (j_transaction old @ ''.'' @ prior @ ''.json'') = Some raw)))"

lemma wp_begin:
  fixes h :: "'x host"
  shows "wp (journal_begin env j prior) (\<lambda>_. lineage env j prior h) (\<lambda>_. lineage env j prior h) h"
proof -
  have same: "lineage env j prior h v" if "same_records h v" for v
    using that by (simp add: same_records_def lineage_def)
  have first: "wp (thenP (setup_io env c l) (thenP (refuseP (h_journal h \<noteq> None) e) (journal_write env j)))
      (\<lambda>_. lineage env j prior h) (\<lambda>_. lineage env j prior h) h" if "prior = []" for c l e
    unfolding wp_thenP wp_refuseP
  proof (rule wp_records [OF records_io(1)])
    fix v
    assume v: "same_records h v"
    have "wp (journal_write env j) (\<lambda>_. lineage env j prior h) (\<lambda>_. lineage env j prior h) v" if "h_journal h = None"
      by (rule wp_journal_write) (use v \<open>prior = []\<close> that in \<open>auto simp: lineage_def same_records_def\<close>)
    then show "if h_journal h \<noteq> None then lineage env j prior h v
        else wp (journal_write env j) (\<lambda>_. lineage env j prior h) (\<lambda>_. lineage env j prior h) v"
      using same [OF v] by simp
  qed (rule same)
  have later: "wp (bindP (wrapP g (read_journal_file env (h_journal h))) (\<lambda>(old, raw, sum0).
         thenP (refuseP (sum0 \<noteq> prior \<or> \<not> terminal_rolled_back_journal old \<or> j_transaction old = j_transaction j) e)
         (thenP (archive_terminal_journal env old raw sum0) (journal_write env j))))
      (\<lambda>_. lineage env j prior h) (\<lambda>_. lineage env j prior h) h" for g e
    unfolding wp_bindP wp_wrapP wp_case_prod wp_thenP wp_refuseP
  proof (rule wp_read_journal_file, goal_cases)
    case (1 raw old v)
    let ?s = "se_sha256 env raw" and ?n = "j_transaction old @ ''.'' @ se_sha256 env raw @ ''.json''"
    have keep: "lineage env j prior h u" if "archived ?n raw v u" for u
      using that 1(1) by (auto simp: archived_def lineage_def same_records_def)
    have "wp (archive_terminal_journal env old raw ?s) (\<lambda>_. wp (journal_write env j) (\<lambda>_. lineage env j prior h) (\<lambda>_. lineage env j prior h))
        (\<lambda>_. lineage env j prior h) v"
      if ok: "?s = prior" "terminal_rolled_back_journal old" "j_transaction old \<noteq> j_transaction j"
    proof (rule wp_archive)
      fix u
      assume u: "archived ?n raw v u" "h_history u ?n = Some raw"
      have hist: "\<forall>n b. h_history h n = Some b \<longrightarrow> h_history u n = Some b"
        using keep [OF u(1)] by (simp add: lineage_def)
      show "wp (journal_write env j) (\<lambda>_. lineage env j prior h) (\<lambda>_. lineage env j prior h) u"
      proof (rule wp_journal_write)
        fix w
        assume w: "h_history w = h_history u" "shown env j w"
        show "lineage env j prior h w"
          unfolding lineage_def using w hist u(2) 1 ok by auto
      next
        fix err and w :: "'x host"
        assume w: "h_history w = h_history u" "h_journal w = h_journal u \<or> shown env j w"
        show "lineage env j prior h w"
          using w(2)
        proof
          assume "h_journal w = h_journal u"
          with w(1) keep [OF u(1)] u(1) 1(1) show ?thesis by (auto simp: lineage_def archived_def same_records_def)
        next
          assume "shown env j w"
          with w(1) hist u(2) 1 ok show ?thesis unfolding lineage_def by auto
        qed
      qed
    qed (rule keep)
    with same [OF 1(1)] show ?case by simp
  qed (rule same)
  show ?thesis
    unfolding journal_begin_def
    using first later same [OF same_records.frame_refl]
    by (simp del: wp_bindP wp_thenP add: wp_thenP [of "refuseP _ _"] wp_bindP [of "getP _"])
qed

text \<open>C10. The start of a setup loses no journal. Whatever fails, every archived journal stays as it is, and the
  journal file keeps its content unless it comes to hold the new journal; then there was none before, or the one
  before is the terminal journal with the given checksum, of another transaction, and its bytes are archived.\<close>

theorem journal_lineage_kept:
  assumes "journal_begin env j prior h = (r, h')"
  shows "lineage env j prior h h'"
  using wp_begin [of env j prior h] assms by (simp add: wp_def split: sum.splits)

section \<open>Concrete setups\<close>

text \<open>A host on which the file system never fails and the calls in \<open>fails\<close> do; the applied generation is 4.\<close>

definition site_summary :: summary where
  "site_summary = \<lparr>su_schema = plan_schema, su_uplink = ''eth0'', su_vpn_interface = ''nftfw0'', su_ipv6_interfaces = None,
     su_lan_networks = Some [''192.168.1.0/24''], su_management_tcp = Some [22], su_public_tcp = None, su_public_udp = None,
     su_ipv6_mode = ''disabled'', su_boot_policy = [], su_docker_mode = ''none'', su_docker_networks = None, su_docker_restart = False,
     su_resolver_mode = ''none'', su_network_producers = Some [''networking.service''], su_source_mode_warning = False\<rparr>"

definition site_plan :: "unit plan" where
  "site_plan = \<lparr>pl_vpn_source = ''/root/vpn.conf'', pl_summary = site_summary, pl_private = (), pl_prior_sum = [],
     pl_resume = None, pl_resume_ready = False\<rparr>"

definition site :: "call set \<Rightarrow> (unit, unit) senv" where
  "site fails = \<lparr>se_fault = \<lambda>_ x. (None, x), se_clock = \<lambda>x. (0, x),
     se_encode = \<lambda>j. Some (j_phase j @ '' '' @ j_status j), se_decode = \<lambda>_. None, se_sha256 = \<lambda>_. replicate 64 (CHR ''0''),
     se_error_text = \<lambda>_. ''FAILED'', file_path = ''/journal.json'', eg_has_executor = True, eg_has_journal = True,
     eg_new_id = Some (\<lambda>x. (''t1'', x)), eg_timeout = 0, ex_boots = False, ex_boot_required = \<lambda>_. False,
     ex_prepare = \<lambda>_ x. (Inr site_plan, x), ex_backup = \<lambda>_ x. (Inr ''/backup'', x), ex_apply_safe = \<lambda>_ x. (Inr 4, x),
     ex_generation_committed = \<lambda>_ x. (Inr False, x),
     ex_do = \<lambda>c _ x. (if c \<in> fails then Inl (setup_err ''FAILED'') else Inr (), x)\<rparr>"

definition new_host :: "unit host" where
  "new_host = \<lparr>h_journal = None, h_history = (\<lambda>_. None), h_calls = [], h_ext = ()\<rparr>"

lemma site_sel [simp]:
  "se_encode (site fails) = (\<lambda>j. Some (j_phase j @ '' '' @ j_status j))" "eg_has_executor (site fails)" "eg_has_journal (site fails)"
  "eg_new_id (site fails) = Some (\<lambda>x. (''t1'', x))" "eg_timeout (site fails) = 0" "\<not> ex_boots (site fails)"
  "ex_prepare (site fails) = (\<lambda>_ x. (Inr site_plan, x))" "ex_backup (site fails) = (\<lambda>_ x. (Inr ''/backup'', x))"
  "ex_apply_safe (site fails) = (\<lambda>_ x. (Inr 4, x))" "ex_generation_committed (site fails) = (\<lambda>_ x. (Inr False, x))"
  by (simp_all add: site_def)

lemma site_now [simp]: "setup_now (site fails) h = (Inr 0, h)"
  by (simp add: setup_now_def site_def)

lemma site_io [simp]: "setup_io (site fails) code l h = (Inr (), h)"
  by (simp add: setup_io_def site_def)

lemma site_path [simp]: "clean_absolute (file_path (site fails))"
proof -
  have "clean_absolute ''/journal.json''" by code_simp
  then show ?thesis by (simp add: site_def)
qed

lemma site_write [simp]:
  assumes "length (j_phase j) + length (j_status j) < 1000"
  shows "journal_write (site fails) j h = (Inr (), h\<lparr>h_journal := Some (j_phase j @ '' '' @ j_status j @ NL)\<rparr>)"
  using assms by (simp add: journal_write_def write_atomic_journal_def prog_defs put_journal_def)

lemma site_code [simp]: "error_code (site fails) e = ''FAILED''"
proof -
  have "list_all code_char ''FAILED''" by code_simp
  then show ?thesis by (simp add: error_code_def site_def)
qed

lemma site_perform [simp]:
  "perform (site fails) c p h = (if c \<in> fails then Inl (setup_err ''FAILED'') else Inr (),
     h\<lparr>h_calls := h_calls h @ [\<lparr>ev_call = c, ev_ok = c \<notin> fails, ev_yes = False, ev_journal = h_journal h\<rparr>]\<rparr>)"
  by (simp add: perform_def invoke_def site_def)

lemma site_begin [simp]:
  assumes "initial_setup_journal j" "h_journal h = None"
  shows "journal_begin (site fails) j [] h = (Inr (), h\<lparr>h_journal := Some (j_phase j @ '' '' @ j_status j @ NL)\<rparr>)"
proof -
  have "length (j_phase j) + length (j_status j) < 1000"
    using assms(1) by (simp add: initial_setup_journal_def PhaseInspect_def)
  then show ?thesis using assms by (simp add: journal_begin_def prog_defs)
qed

lemmas phase_names =
  PhaseInspect_def PhaseBackup_def PhaseGuard_def PhaseInstall_def PhaseDocker_def PhaseRuntime_def PhaseApply_def PhaseTunnel_def
  PhaseValidate_def PhaseCommit_def PhaseHandoff_def PhaseBoot_def PhaseFinalize_def PhaseComplete_def PhaseFailed_def

lemma site_journal:
  "initial_setup_journal \<lparr>j_schema = journal_schema, j_transaction = ''t1'', j_phase = PhaseInspect, j_status = ''running'',
     j_started = 0, j_updated = 0, j_deadline = 900000000000, j_backup = [], j_generation = 0, j_committed = False,
     j_summary = site_summary, j_error = []\<rparr>"
proof -
  have "journal_identity ''t1''" by code_simp
  then show ?thesis by (simp add: initial_setup_journal_def site_summary_def zero_time_def)
qed

lemma site_plan_valid: "\<not> plan_invalid site_plan"
proof -
  have "ValidateUnits (su_network_producers (pl_summary site_plan)) = None" by code_simp
  then show ?thesis by (simp add: plan_invalid_def site_plan_def site_summary_def)
qed

lemma site_times: "setup_timeout (site fails) = 900000000000"
  by (simp add: setup_timeout_def default_timeout_def ns_per_s_def)

lemmas run_defs = engine_run_def start_setup_def new_transaction_def complete_setup_def setup_steps_def
  step_call_def step_apply_def step_commit_def record_or_fail_def fail_with_def engine_fail_def recover_setup_def
  roll_back_setup_def written_or_def commit_must_be_asked_def journal_before_protected_mutation_def Let_def prog_defs
  invoke_def site_journal site_plan_valid site_times

lemma site_success: "\<exists>h'. engine_run (site {}) [] new_host = (Inr (site_plan, None), h')"
  by (simp add: run_defs new_host_def) (simp add: site_plan_def phase_names site_journal [unfolded phase_names] run_defs)

text \<open>The setup that fails when the tunnel is started rolls back.\<close>

lemma site_rolls_back:
  "\<exists>r h'. engine_run (site {Call_start_tunnel}) [] new_host = (r, h') \<and> h_calls h' \<noteq> [] \<and> is_rollback (ev_call (last (h_calls h')))"
  apply (simp add: run_defs new_host_def)
  apply (simp add: site_plan_def phase_names site_journal [unfolded phase_names] run_defs)
  done

theorem committed_setup_not_rolled_back_witness:
  "\<exists>(h' :: unit host) xs e. h_calls h' = xs @ [e] \<and> is_rollback (ev_call e) \<and>
     \<not> (\<exists>c \<in> set xs. (\<exists>n. ev_call c = Call_commit n \<and> ev_ok c) \<or> (\<exists>n. ev_call c = Call_generation_committed n \<and> ev_yes c))"
proof -
  obtain r h' where run: "engine_run (site {Call_start_tunnel}) [] new_host = (r, h')"
    and ends: "h_calls h' \<noteq> []" "is_rollback (ev_call (last (h_calls h')))"
    using site_rolls_back by blast
  from ends(1) have calls: "h_calls h' = butlast (h_calls h') @ last (h_calls h') # []" by simp
  have "h_calls new_host = []" by (simp add: new_host_def)
  from committed_setup_not_rolled_back [OF run this calls ends(2)] calls ends(2) show ?thesis by blast
qed

theorem setup_is_announced_witness:
  "\<exists>(h' :: unit host) e. e \<in> set (h_calls h') \<and> is_rollback (ev_call e) \<and> announced (site {Call_start_tunnel}) e"
proof -
  obtain r h' where run: "engine_run (site {Call_start_tunnel}) [] new_host = (r, h')"
    and ends: "h_calls h' \<noteq> []" "is_rollback (ev_call (last (h_calls h')))"
    using site_rolls_back by blast
  have "h_calls new_host = []" by (simp add: new_host_def)
  from setup_is_announced [OF run this last_in_set [OF ends(1)]] last_in_set [OF ends(1)] ends(2) show ?thesis by blast
qed

theorem setup_success_exact_witness:
  "\<exists>(h' :: unit host) j. map ev_call (h_calls h') = [Call_prepare, Call_backup] @ phase_calls (j_generation j) \<and>
     list_all ev_ok (h_calls h') \<and> shown (site {}) j h' \<and> j_committed j"
proof -
  obtain h' where run: "engine_run (site {}) [] new_host = (Inr (site_plan, None), h')"
    using site_success by blast
  have "h_calls new_host = []" "pl_resume site_plan = None" by (simp_all add: new_host_def site_plan_def)
  with setup_success_exact [OF run] show ?thesis by (metis append_Cons append_Nil)
qed

theorem journal_lineage_kept_witness:
  "\<exists>j h'. journal_begin (site {}) j [] new_host = (Inr (), h') \<and> lineage (site {}) j [] new_host h' \<and> h_journal h' \<noteq> None"
proof -
  let ?j = "\<lparr>j_schema = journal_schema, j_transaction = ''t1'', j_phase = PhaseInspect, j_status = ''running'',
     j_started = 0, j_updated = 0, j_deadline = 900000000000, j_backup = [], j_generation = 0, j_committed = False,
     j_summary = site_summary, j_error = []\<rparr>"
  have begin_new: "journal_begin (site {}) ?j [] new_host =
      (Inr (), new_host\<lparr>h_journal := Some (j_phase ?j @ '' '' @ j_status ?j @ NL)\<rparr>)"
    by (rule site_begin [OF site_journal]) (simp add: new_host_def)
  from begin_new journal_lineage_kept [OF begin_new] show ?thesis by (intro exI conjI) (assumption | simp)+
qed

end
