(* ===== verification/Go_Net.thy ===== *)
theory Go_Net
  imports Netip_Text
begin

text \<open>
  More of Go's standard library, for the parsers of text: \<^verbatim>\<open>net.SplitHostPort\<close>, \<^verbatim>\<open>net.JoinHostPort\<close>,
  \<^verbatim>\<open>strconv.Atoi\<close>, \<^verbatim>\<open>strconv.ParseUint\<close> of 16 bits, \<^verbatim>\<open>base64.StdEncoding\<close>, \<^verbatim>\<open>bufio.Scanner\<close> over the lines of a
  text, and \<^verbatim>\<open>usableAddress\<close>, which several packages declare. The lemmas say what is read back of what was
  printed, and which characters \<^verbatim>\<open>strings.TrimSpace\<close> leaves alone.
\<close>

section \<open>Hosts and ports\<close>

definition split_host_port :: "string \<Rightarrow> (string \<times> string) option" where
  "split_host_port s =
     (case cut_last (CHR '':'') s of
        None \<Rightarrow> None
      | Some (front, port) \<Rightarrow>
          if has_prefix s ''['' then
            (case cut_first (CHR '']'') s of
               None \<Rightarrow> None
             | Some (host, rest) \<Rightarrow>
                 if rest \<noteq> CHR '':'' # port \<or> CHR ''['' \<in> set (tl s) \<or> CHR '']'' \<in> set rest then None
                 else Some (tl host, port))
          else if CHR '':'' \<in> set front \<or> CHR ''['' \<in> set s \<or> CHR '']'' \<in> set s then None
          else Some (front, port))"

definition join_host_port :: "string \<Rightarrow> string \<Rightarrow> string" where
  "join_host_port host port =
     (if CHR '':'' \<in> set host then ''['' @ host @ '']:'' @ port else host @ '':'' @ port)"

lemma split_join_host_port:
  assumes "CHR '':'' \<notin> set host" "CHR ''['' \<notin> set host" "CHR '']'' \<notin> set host" "\<forall>c \<in> set port. is_digit c"
  shows "split_host_port (join_host_port host port) = Some (host, port)"
proof -
  have port: "c \<notin> set port" if "c \<in> {CHR '':'', CHR ''['', CHR '']''}" for c
    using assms(4) that by (auto simp: char_class_defs)
  have "\<not> has_prefix (host @ CHR '':'' # port) ''[''"
    using assms(2) by (cases host) (auto simp: has_prefix_def)
  with assms port show ?thesis
    by (simp add: split_host_port_def join_host_port_def cut_last_append)
qed

text \<open>\<^verbatim>\<open>usableAddress\<close> of the packages \<^verbatim>\<open>wgconfig\<close>, \<^verbatim>\<open>intent\<close> and \<^verbatim>\<open>discovery\<close>.\<close>

definition usable_address :: "addr \<Rightarrow> bool" where
  "usable_address a \<longleftrightarrow> is_valid_addr a \<and> \<not> is_unspecified a \<and> \<not> is_loopback a \<and> \<not> is_multicast a \<and> \<not> is_link_local a"

section \<open>Numbers\<close>

definition atoi :: "string \<Rightarrow> int option" where
  "atoi s =
     (let negative = has_prefix s ''-'';
          ds = (if negative \<or> has_prefix s ''+'' then tl s else s) in
      case dec_value ds of
        None \<Rightarrow> None
      | Some n \<Rightarrow>
          if negative then (if n \<le> 2 ^ 63 then Some (- int n) else None)
          else (if n < 2 ^ 63 then Some (int n) else None))"

definition parse_uint16 :: "string \<Rightarrow> nat option" where
  "parse_uint16 s = (case dec_value s of None \<Rightarrow> None | Some n \<Rightarrow> if n < 65536 then Some n else None)"

lemma itoa_sign: "\<not> has_prefix (itoa n) ''-''" "\<not> has_prefix (itoa n) ''+''"
proof -
  have "hd (itoa n) \<in> set (itoa n)" by simp
  then have "is_digit (hd (itoa n))" using itoa_digits [of n] by blast
  then have "hd (itoa n) \<noteq> CHR ''-''" "hd (itoa n) \<noteq> CHR ''+''" by (auto simp: char_class_defs)
  moreover obtain c cs where "itoa n = c # cs" using itoa_nonempty by (metis list.exhaust)
  ultimately show "\<not> has_prefix (itoa n) ''-''" "\<not> has_prefix (itoa n) ''+''" by (auto simp: has_prefix_def)
qed

lemma atoi_itoa: "n < 2 ^ 63 \<Longrightarrow> atoi (itoa n) = Some (int n)"
  using itoa_sign [of n] by (simp add: atoi_def)

lemma parse_uint16_itoa: "n < 65536 \<Longrightarrow> parse_uint16 (itoa n) = Some n"
  by (simp add: parse_uint16_def)

section \<open>Base 64\<close>

definition b64_alphabet :: string where
  "b64_alphabet = ''ABCDEFGHIJKLMNOPQRSTUVWXYZabcdefghijklmnopqrstuvwxyz0123456789+/''"

definition b64_char :: "nat \<Rightarrow> char" where
  "b64_char n = b64_alphabet ! n"

definition b64_val :: "char \<Rightarrow> nat option" where
  "b64_val c =
     (if is_upper c then Some (byte c - 65) else if is_lower c then Some (byte c - 71)
      else if is_digit c then Some (byte c + 4) else if c = CHR ''+'' then Some 62 else if c = CHR ''/'' then Some 63
      else None)"

text \<open>Quanta of four characters. Line ends are ignored, the unused low bits of the last character are not checked.\<close>

fun b64_quanta :: "string \<Rightarrow> nat list option" where
  "b64_quanta [] = Some []"
| "b64_quanta (a # b # c # d # s) =
     (case (b64_val a, b64_val b) of
        (Some w, Some x) \<Rightarrow>
          (case b64_val c of
             None \<Rightarrow> if c = CHR ''='' \<and> d = CHR ''='' \<and> s = [] then Some [4 * w + x div 16] else None
           | Some y \<Rightarrow>
               (case b64_val d of
                  None \<Rightarrow> if d = CHR ''='' \<and> s = [] then Some [4 * w + x div 16, x mod 16 * 16 + y div 4] else None
                | Some z \<Rightarrow>
                    map_option (\<lambda>bs. [4 * w + x div 16, x mod 16 * 16 + y div 4, y mod 4 * 64 + z] @ bs) (b64_quanta s)))
      | _ \<Rightarrow> None)"
| "b64_quanta _ = None"

definition b64_decode :: "string \<Rightarrow> nat list option" where
  "b64_decode s = b64_quanta (filter (\<lambda>c. c \<noteq> CHR 0x0A \<and> c \<noteq> CHR 0x0D) s)"

fun b64_encode :: "nat list \<Rightarrow> string" where
  "b64_encode [] = []"
| "b64_encode [a] = [b64_char (a div 4), b64_char (a mod 4 * 16), CHR ''='', CHR ''='']"
| "b64_encode [a, b] = [b64_char (a div 4), b64_char (a mod 4 * 16 + b div 16), b64_char (b mod 16 * 4), CHR ''='']"
| "b64_encode (a # b # c # s) =
     [b64_char (a div 4), b64_char (a mod 4 * 16 + b div 16), b64_char (b mod 16 * 4 + c div 64), b64_char (c mod 64)] @
     b64_encode s"

section \<open>Lines\<close>

definition drop_cr :: "string \<Rightarrow> string" where
  "drop_cr l = (if l \<noteq> [] \<and> last l = CHR 0x0D then butlast l else l)"

text \<open>\<^verbatim>\<open>bufio.ScanLines\<close>: an end of line at the end of the text does not start another line.\<close>

definition scan_lines :: "string \<Rightarrow> string list" where
  "scan_lines s =
     (let ls = split_on (CHR 0x0A) s in map drop_cr (if last ls = [] then butlast ls else ls))"

lemma split_on_plain: "c \<notin> set w \<Longrightarrow> split_on c (w @ c # s) = w # split_on c s"
  by (induction w) auto

lemma drop_cr_id: "CHR 0x0D \<notin> set l \<Longrightarrow> drop_cr l = l"
  by (auto simp: drop_cr_def dest: last_in_set)

lemma split_on_lines: "\<forall>l \<in> set ls. CHR 0x0A \<notin> set l \<Longrightarrow> split_on (CHR 0x0A) (concat (map (\<lambda>l. l @ NL) ls)) = ls @ [[]]"
  by (induction ls) (simp_all add: split_on_plain)

lemma scan_lines_concat:
  assumes "\<forall>l \<in> set ls. CHR 0x0A \<notin> set l \<and> CHR 0x0D \<notin> set l"
  shows "scan_lines (concat (map (\<lambda>l. l @ NL) ls)) = ls"
  using assms by (simp add: scan_lines_def split_on_lines drop_cr_id map_idI Let_def)

section \<open>Trimming\<close>

text \<open>Printable ASCII.\<close>

definition printable :: "char \<Rightarrow> bool" where
  "printable c \<longleftrightarrow> 33 \<le> byte c \<and> byte c \<le> 126"

lemma space_seqs_not_printable: "list_all (\<lambda>q. q \<noteq> [] \<and> list_all (\<lambda>c. \<not> printable c) q) space_seqs"
  by code_simp

lemma trim_left_id:
  assumes "\<forall>q \<in> set seqs. q \<noteq> [] \<and> (\<forall>c \<in> set q. \<not> printable c)" "s = [] \<or> printable (hd s)"
  shows "trim_left seqs s = s"
proof -
  have "\<not> prefix q s" if "q \<in> set seqs" for q
    using assms that by (cases q; cases s) auto
  then have "space_len_in seqs s = 0" by (auto simp: space_len_in_def find_None_iff [THEN iffD2])
  then show ?thesis by (subst trim_left.simps) simp
qed

lemma trim_left_blank:
  assumes "[CHR '' ''] \<in> set seqs" "\<forall>q \<in> set seqs. q \<noteq> []" "\<forall>q \<in> set seqs. hd q = CHR '' '' \<longrightarrow> q = [CHR '' '']"
  shows "trim_left seqs (CHR '' '' # s) = trim_left seqs s"
proof -
  obtain q where q: "find (\<lambda>q. prefix q (CHR '' '' # s)) seqs = Some q"
    using assms(1) by (cases "find (\<lambda>q. prefix q (CHR '' '' # s)) seqs") (auto simp: find_None_iff)
  then have "q \<in> set seqs" "prefix q (CHR '' '' # s)" by (auto simp: find_Some_iff)
  with assms(2,3) have "q = [CHR '' '']" by (cases q) auto
  with q have "space_len_in seqs (CHR '' '' # s) = 1" by (simp add: space_len_in_def)
  then show ?thesis by (subst trim_left.simps) simp
qed

lemma space_seqs_facts:
  "\<forall>q \<in> set space_seqs. q \<noteq> [] \<and> (\<forall>c \<in> set q. \<not> printable c)"
  "\<forall>q \<in> set (map rev space_seqs). q \<noteq> [] \<and> (\<forall>c \<in> set q. \<not> printable c)"
  using space_seqs_not_printable by (auto simp: list_all_iff)

text \<open>A text that begins and ends with a printable character.\<close>

definition framed :: "string \<Rightarrow> bool" where
  "framed s \<longleftrightarrow> s \<noteq> [] \<and> printable (hd s) \<and> printable (last s)"

lemma framed_append: "framed s \<Longrightarrow> framed t \<Longrightarrow> framed (s @ u @ t)"
  by (simp add: framed_def)

lemma framed_all: "s \<noteq> [] \<Longrightarrow> \<forall>c \<in> set s. printable c \<Longrightarrow> framed s"
  by (simp add: framed_def)

lemma trim_space_framed: "framed s \<Longrightarrow> trim_space s = s"
  using trim_left_id [OF space_seqs_facts(1), of s] trim_left_id [OF space_seqs_facts(2), of "rev s"]
  by (simp add: trim_space_def framed_def hd_rev)

lemma blank_seqs: "list_all (\<lambda>q. q \<noteq> [] \<and> (hd q = CHR '' '' \<longrightarrow> q = [CHR '' ''])) (space_seqs @ map rev space_seqs)"
  by code_simp

lemma blank_left:
  "trim_left space_seqs (CHR '' '' # s) = trim_left space_seqs s"
  "trim_left (map rev space_seqs) (CHR '' '' # s) = trim_left (map rev space_seqs) s"
proof -
  have "[CHR '' ''] \<in> set space_seqs" by (simp add: space_seqs_def)
  then have "[CHR '' ''] \<in> set (map rev space_seqs)" by force
  have left: "\<forall>q \<in> set space_seqs. q \<noteq> [] \<and> (hd q = CHR '' '' \<longrightarrow> q = [CHR '' ''])"
    and right: "\<forall>q \<in> set (map rev space_seqs). q \<noteq> [] \<and> (hd q = CHR '' '' \<longrightarrow> q = [CHR '' ''])"
    using blank_seqs unfolding list_all_iff set_append by blast+
  show "trim_left space_seqs (CHR '' '' # s) = trim_left space_seqs s"
    by (rule trim_left_blank [OF \<open>[CHR '' ''] \<in> set space_seqs\<close>]) (use left in blast)+
  show "trim_left (map rev space_seqs) (CHR '' '' # s) = trim_left (map rev space_seqs) s"
    by (rule trim_left_blank [OF \<open>[CHR '' ''] \<in> set (map rev space_seqs)\<close>]) (use right in blast)+
qed

lemma trim_space_blank_left: "trim_space (CHR '' '' # s) = trim_space s"
  by (simp add: trim_space_def blank_left)

lemma trim_space_blank_right:
  assumes "framed s"
  shows "trim_space (s @ '' '') = s"
proof -
  have "trim_left space_seqs (s @ '' '') = s @ '' ''"
    using assms by (intro trim_left_id [OF space_seqs_facts(1)]) (simp add: framed_def)
  moreover have "trim_left (map rev space_seqs) (rev s) = rev s"
    using assms by (intro trim_left_id [OF space_seqs_facts(2)]) (simp add: framed_def hd_rev)
  ultimately show ?thesis by (simp add: trim_space_def blank_left)
qed

end
