(* ===== verification/Wg_Profile.thy ===== *)
theory Wg_Profile
  imports Go_Net
begin

text \<open>
  The WireGuard profiles, \<^verbatim>\<open>src/internal/wgconfig/profile.go\<close>: the parser with its helpers, \<^verbatim>\<open>validate\<close>, and the two
  printers \<^verbatim>\<open>NormalizedWGQuick\<close> and \<^verbatim>\<open>WGSetConfig\<close>. The checks of the file before it is parsed are
  file-system calls and not modelled.

  The sort of the prefixes is by their text; the texts are distinct, so the order is the only one.
\<close>

section \<open>Data\<close>

record peer =
  pe_public_key :: string
  pe_preshared_key :: string
  pe_allowed_ips :: "prefix_t list"
  pe_endpoint_host :: string
  pe_endpoint_port :: nat
  pe_keepalive :: int

record profile =
  pr_private_key :: string
  pr_addresses :: "prefix_t list"
  pr_dns :: "addr list"
  pr_mtu :: int
  pr_peer :: peer

record profile_summary =
  ps_address_count :: nat
  ps_dns_count :: nat
  ps_has_mtu :: bool
  ps_has_preshared_key :: bool
  ps_has_keepalive :: bool
  ps_ipv4_default_route :: bool

definition empty_profile :: profile where
  "empty_profile = \<lparr>pr_private_key = [], pr_addresses = [], pr_dns = [], pr_mtu = 0,
     pr_peer = \<lparr>pe_public_key = [], pe_preshared_key = [], pe_allowed_ips = [], pe_endpoint_host = [],
       pe_endpoint_port = 0, pe_keepalive = 0\<rparr>\<rparr>"

definition max_profile_bytes :: nat where "max_profile_bytes = 65536"

section \<open>Values\<close>

definition valid_key :: "string \<Rightarrow> bool" where
  "valid_key s \<longleftrightarrow> (case b64_decode s of None \<Rightarrow> False | Some bs \<Rightarrow> length bs = 32 \<and> b64_encode bs = s)"

definition endpoint_label :: "string \<Rightarrow> bool" where
  "endpoint_label l \<longleftrightarrow> l \<noteq> [] \<and> length l \<le> 63 \<and> \<not> has_prefix l ''-'' \<and> \<not> has_suffix l ''-'' \<and>
     list_all (\<lambda>c. c = CHR ''-'' \<or> is_alnum c) l"

definition valid_endpoint_host :: "string \<Rightarrow> bool" where
  "valid_endpoint_host host =
     (case parse_addr host of
        Some a \<Rightarrow> is4 a \<and> usable_address a
      | None \<Rightarrow>
          \<not> (host = [] \<or> 253 < length host \<or>
             contains_any host [CHR '' '', CHR ''/'', CHR 0x5C, CHR 0x09, CHR 0x0D, CHR 0x0A]) \<and>
          list_all endpoint_label (split_on (CHR ''.'') (if has_suffix host ''.'' then butlast host else host)))"

definition valid_interface_name :: "string \<Rightarrow> bool" where
  "valid_interface_name s \<longleftrightarrow> 1 \<le> length s \<and> length s \<le> 15 \<and> list_all (\<lambda>c. is_alnum c \<or> one_of ''-_.'' c) s"

definition list_item_error :: goerr where
  "list_item_error = Errorf ''empty list item'' []"

definition split_list :: "string \<Rightarrow> string list result" where
  "split_list s =
     (let ws = map trim_space (split_on (CHR '','') s) in
      if [] \<in> set ws then Err list_item_error else Ok ws)"

definition prefix_step :: "bool \<Rightarrow> prefix_t list \<Rightarrow> string \<Rightarrow> prefix_t list result" where
  "prefix_step masking acc raw =
     (case parse_prefix raw of
        None \<Rightarrow> Err (External ''netip.ParsePrefix'')
      | Some p0 \<Rightarrow>
          let p = (if masking then masked p0 else p0) in
          if prefix_string p \<in> set (map prefix_string acc) then Err (Errorf ''duplicate prefix'' [])
          else Ok (acc @ [p]))"

definition parse_prefixes :: "string \<Rightarrow> bool \<Rightarrow> prefix_t list result" where
  "parse_prefixes s masking =
     bindE (split_list s) (\<lambda>ws.
     bindE (foldE (prefix_step masking) [] ws) (\<lambda>ps.
     Ok (sort_slice (\<lambda>p q. prefix_string p < prefix_string q) ps)))"

definition dns_step :: "addr list \<Rightarrow> string \<Rightarrow> addr list result" where
  "dns_step acc raw =
     (case parse_addr raw of
        None \<Rightarrow> Err (Errorf ''VPN_PROFILE_DNS_UNSUPPORTED'' [])
      | Some a \<Rightarrow> if \<not> is4 a \<or> \<not> usable_address a then Err (Errorf ''VPN_PROFILE_DNS_UNSUPPORTED'' []) else Ok (acc @ [a]))"

section \<open>One field\<close>

definition route_fields :: "string list" where
  "route_fields = [''Interface.PreUp'', ''Interface.PostUp'', ''Interface.PreDown'', ''Interface.PostDown'', ''Interface.SaveConfig'']"

definition profile_err :: "string \<Rightarrow> 'a result" where
  "profile_err code = Err (Errorf code [])"

definition assign_value :: "profile \<Rightarrow> string \<Rightarrow> string \<Rightarrow> bool \<Rightarrow> profile result" where
  "assign_value p field value managed =
     (let peer = pr_peer p in
      if value = [] then profile_err ''VPN_PROFILE_VALUE_EMPTY''
      else if field = ''Interface.PrivateKey'' then Ok (p\<lparr>pr_private_key := value\<rparr>)
      else if field = ''Interface.Address'' then
        (case parse_prefixes value False of
           Inl _ \<Rightarrow> profile_err ''VPN_PROFILE_ADDRESS_INVALID''
         | Inr ps \<Rightarrow> Ok (p\<lparr>pr_addresses := ps\<rparr>))
      else if field = ''Interface.DNS'' then
        (case split_list value of
           Inl _ \<Rightarrow> profile_err ''VPN_PROFILE_DNS_UNSUPPORTED''
         | Inr ws \<Rightarrow> bindE (foldE dns_step (pr_dns p) ws) (\<lambda>as. Ok (p\<lparr>pr_dns := as\<rparr>)))
      else if field = ''Interface.MTU'' then
        (case atoi value of
           None \<Rightarrow> profile_err ''VPN_PROFILE_MTU_INVALID''
         | Some n \<Rightarrow> if n < 576 \<or> 9000 < n then profile_err ''VPN_PROFILE_MTU_INVALID'' else Ok (p\<lparr>pr_mtu := n\<rparr>))
      else if field = ''Peer.PublicKey'' then Ok (p\<lparr>pr_peer := peer\<lparr>pe_public_key := value\<rparr>\<rparr>)
      else if field = ''Peer.PresharedKey'' then Ok (p\<lparr>pr_peer := peer\<lparr>pe_preshared_key := value\<rparr>\<rparr>)
      else if field = ''Peer.AllowedIPs'' then
        (case parse_prefixes value True of
           Inl _ \<Rightarrow> profile_err ''VPN_PROFILE_ALLOWED_IPS_INVALID''
         | Inr ps \<Rightarrow> Ok (p\<lparr>pr_peer := peer\<lparr>pe_allowed_ips := ps\<rparr>\<rparr>))
      else if field = ''Peer.Endpoint'' then
        (case split_host_port value of
           None \<Rightarrow> profile_err ''VPN_PROFILE_ENDPOINT_INVALID''
         | Some (host, portText) \<Rightarrow>
             if host = [] then profile_err ''VPN_PROFILE_ENDPOINT_INVALID''
             else
               (case parse_uint16 portText of
                  None \<Rightarrow> profile_err ''VPN_PROFILE_ENDPOINT_INVALID''
                | Some port \<Rightarrow>
                    if port = 0 \<or> \<not> valid_endpoint_host host then profile_err ''VPN_PROFILE_ENDPOINT_INVALID''
                    else Ok (p\<lparr>pr_peer := peer\<lparr>pe_endpoint_host := host, pe_endpoint_port := port\<rparr>\<rparr>)))
      else if field = ''Peer.PersistentKeepalive'' then
        (case atoi value of
           None \<Rightarrow> profile_err ''VPN_PROFILE_KEEPALIVE_INVALID''
         | Some n \<Rightarrow>
             if n < 0 \<or> 65535 < n then profile_err ''VPN_PROFILE_KEEPALIVE_INVALID''
             else Ok (p\<lparr>pr_peer := peer\<lparr>pe_keepalive := n\<rparr>\<rparr>))
      else if field = ''Interface.Table'' then
        (if managed \<and> value = ''off'' then Ok p else profile_err ''VPN_PROFILE_COMMAND_OR_ROUTE_UNSUPPORTED'')
      else if field \<in> set route_fields then profile_err ''VPN_PROFILE_COMMAND_OR_ROUTE_UNSUPPORTED''
      else profile_err ''VPN_PROFILE_FIELD_UNSUPPORTED'')"

definition assign_field :: "profile \<Rightarrow> string \<Rightarrow> string \<Rightarrow> string \<Rightarrow> bool \<Rightarrow> profile result" where
  "assign_field p section key value managed = assign_value p (section @ ''.'' @ key) value managed"

section \<open>Validation\<close>

definition validate_profile :: "profile \<Rightarrow> goerr option" where
  "validate_profile p =
     (let peer = pr_peer p; code = \<lambda>s. Errorf s [] in first_err [
       refuse (\<not> valid_key (pr_private_key p) \<or> \<not> valid_key (pe_public_key peer) \<or>
           (pe_preshared_key peer \<noteq> [] \<and> \<not> valid_key (pe_preshared_key peer)))
         (code ''VPN_PROFILE_KEY_INVALID''),
       refuse (pr_addresses p = [] \<or> pe_allowed_ips peer = [] \<or> pe_endpoint_host peer = [] \<or> pe_endpoint_port peer = 0)
         (code ''VPN_PROFILE_REQUIRED_FIELD_MISSING''),
       checks (\<lambda>a. refuse (\<not> is4 (paddr a) \<or> pbits a = 0 \<or> \<not> usable_address (paddr a)) (code ''VPN_PROFILE_ADDRESS_UNSUPPORTED''))
         (pr_addresses p),
       refuse (length (pe_allowed_ips peer) \<noteq> 1) (code ''VPN_PROFILE_DEFAULT_ROUTE_REQUIRED''),
       refuse (\<not> is4 (paddr (hd (pe_allowed_ips peer)))) (code ''VPN_PROFILE_IPV6_UNSUPPORTED''),
       refuse (pbits (hd (pe_allowed_ips peer)) \<noteq> 0) (code ''VPN_PROFILE_SPLIT_TUNNEL_UNSUPPORTED'')])"

section \<open>The text\<close>

record parse_state =
  px_profile :: profile
  px_section :: string
  px_sections :: "string list"
  px_keys :: "string list"

definition start_state :: parse_state where
  "start_state = \<lparr>px_profile = empty_profile, px_section = [], px_sections = [], px_keys = []\<rparr>"

definition profile_line :: "bool \<Rightarrow> parse_state \<Rightarrow> string \<Rightarrow> parse_state result" where
  "profile_line managed st raw =
     (let line = trim_space raw in
      if line = [] \<or> has_prefix line ''#'' \<or> has_prefix line '';'' then Ok st
      else if has_prefix line ''['' \<and> has_suffix line '']'' then
        (let name = trim_space (butlast (tl line)) in
         if name \<noteq> ''Interface'' \<and> name \<noteq> ''Peer'' then profile_err ''VPN_PROFILE_SECTION_UNSUPPORTED''
         else if name \<in> set (px_sections st) then profile_err ''VPN_PROFILE_SECTION_DUPLICATE''
         else Ok (st\<lparr>px_sections := name # px_sections st, px_section := name\<rparr>))
      else if px_section st = [] then profile_err ''VPN_PROFILE_SECTION_MISSING''
      else
        (case cut_first (CHR ''='') line of
           None \<Rightarrow> profile_err ''VPN_PROFILE_LINE_INVALID''
         | Some (k, v) \<Rightarrow>
             let key = trim_space k; value = trim_space v; identity = px_section st @ ''.'' @ key in
             if identity \<in> set (px_keys st) then profile_err ''VPN_PROFILE_FIELD_DUPLICATE''
             else
               bindE (assign_field (px_profile st) (px_section st) key value managed) (\<lambda>p.
               Ok (st\<lparr>px_keys := identity # px_keys st, px_profile := p\<rparr>))))"

definition summary_of :: "profile \<Rightarrow> profile_summary" where
  "summary_of p = \<lparr>ps_address_count = length (pr_addresses p), ps_dns_count = length (pr_dns p),
     ps_has_mtu = (pr_mtu p \<noteq> 0), ps_has_preshared_key = (pe_preshared_key (pr_peer p) \<noteq> []),
     ps_has_keepalive = (pe_keepalive (pr_peer p) \<noteq> 0), ps_ipv4_default_route = True\<rparr>"

text \<open>The buffer of the scanner holds \<open>max_profile_bytes\<close>: a text of that length without an end of line does not
  fit, every other line does.\<close>

definition line_too_long :: "string \<Rightarrow> bool" where
  "line_too_long s \<longleftrightarrow> length s = max_profile_bytes \<and> CHR 0x0A \<notin> set s"

definition parse_profile :: "bool \<Rightarrow> string \<Rightarrow> (profile \<times> profile_summary) result" where
  "parse_profile managed s =
     (if s = [] \<or> max_profile_bytes < length s \<or> CHR 0x00 \<in> set s then profile_err ''VPN_PROFILE_SIZE_INVALID''
      else
        bindE (foldE (profile_line managed) start_state (if line_too_long s then [] else scan_lines s)) (\<lambda>st.
        if line_too_long s then profile_err ''VPN_PROFILE_READ_FAILED''
        else if ''Interface'' \<notin> set (px_sections st) \<or> ''Peer'' \<notin> set (px_sections st)
        then profile_err ''VPN_PROFILE_SECTION_MISSING''
        else
          (case validate_profile (px_profile st) of
             Some e \<Rightarrow> Err e
           | None \<Rightarrow> Ok (px_profile st, summary_of (px_profile st)))))"

section \<open>Printing\<close>

definition join_prefixes :: "prefix_t list \<Rightarrow> string" where
  "join_prefixes ps = join_str '', '' (map prefix_string ps)"

definition keepalive_line :: "peer \<Rightarrow> string" where
  "keepalive_line peer =
     (if pe_keepalive peer \<noteq> 0 then ''PersistentKeepalive = '' @ itoa_int (pe_keepalive peer) @ NL else [])"

definition preshared_line :: "peer \<Rightarrow> string" where
  "preshared_line peer =
     (if pe_preshared_key peer \<noteq> [] then ''PresharedKey = '' @ pe_preshared_key peer @ NL else [])"

definition normalized_wg_quick :: "profile \<Rightarrow> string \<Rightarrow> string result" where
  "normalized_wg_quick p name =
     (let peer = pr_peer p in
      if \<not> valid_interface_name name then profile_err ''VPN_INTERFACE_INVALID''
      else
        (case validate_profile p of
           Some e \<Rightarrow> Err e
         | None \<Rightarrow>
             Ok (''[Interface]'' @ NL @ ''PrivateKey = '' @ pr_private_key p @ NL @
                 ''Address = '' @ join_prefixes (pr_addresses p) @ NL @
                 (if pr_dns p \<noteq> [] then ''DNS = '' @ join_str '', '' (map addr_string (pr_dns p)) @ NL else []) @
                 (if pr_mtu p \<noteq> 0 then ''MTU = '' @ itoa_int (pr_mtu p) @ NL else []) @
                 ''Table = off'' @ NL @ NL @ ''[Peer]'' @ NL @ ''PublicKey = '' @ pe_public_key peer @ NL @
                 preshared_line peer @ ''AllowedIPs = 0.0.0.0/0'' @ NL @
                 ''Endpoint = '' @ join_host_port (pe_endpoint_host peer) (itoa (pe_endpoint_port peer)) @ NL @
                 keepalive_line peer)))"

definition wg_set_config :: "profile \<Rightarrow> addr \<Rightarrow> string result" where
  "wg_set_config p endpoint =
     (let peer = pr_peer p in
      if \<not> is4 endpoint \<or> \<not> usable_address endpoint then profile_err ''VPN_ENDPOINT_ADDRESS_INVALID''
      else
        (case validate_profile p of
           Some e \<Rightarrow> Err e
         | None \<Rightarrow>
             Ok (''[Interface]'' @ NL @ ''PrivateKey = '' @ pr_private_key p @ NL @ NL @
                 ''[Peer]'' @ NL @ ''PublicKey = '' @ pe_public_key peer @ NL @ preshared_line peer @
                 ''AllowedIPs = 0.0.0.0/0'' @ NL @
                 ''Endpoint = '' @ join_host_port (addr_string endpoint) (itoa (pe_endpoint_port peer)) @ NL @
                 keepalive_line peer)))"

text \<open>\<^verbatim>\<open>RedactedError\<close> of an error that is not nil, with the text of the error.\<close>

definition redacted_error :: "string \<Rightarrow> string" where
  "redacted_error s = (if has_prefix s ''VPN_'' then s else ''VPN_PROFILE_ERROR'')"

end
