(* ===== verification/Wg_Profile_Props.thy ===== *)
theory Wg_Profile_Props
  imports Wg_Profile
begin

text \<open>
  The round trip of the WireGuard profiles: \<open>profile_read\<close> is what the parser guarantees, \<open>printed_lines\<close> are the lines
  that are printed, and each of them is read back (\<open>profile_key_line\<close>, \<open>reads_keys\<close>).
\<close>

section \<open>The characters of the printed values\<close>

lemma digit_printable: "is_digit c \<Longrightarrow> printable c" and alnum_printable: "is_alnum c \<Longrightarrow> printable c"
  by (auto simp: char_class_defs printable_def)

definition host_char4 :: "char \<Rightarrow> bool" where
  "host_char4 c \<longleftrightarrow> is_alnum c \<or> c = CHR ''-'' \<or> c = CHR ''.''"

lemma host_char4_facts: "host_char4 c \<Longrightarrow> printable c"
  "host_char4 c \<Longrightarrow> c \<notin> {CHR '':'', CHR ''['', CHR '']'', CHR '','', CHR ''/'', CHR ''=''}"
  by (auto simp: host_char4_def char_class_defs printable_def)

lemma join_chars: "c \<in> set (join_str sep ws) \<Longrightarrow> c \<in> set sep \<or> (\<exists>w \<in> set ws. c \<in> set w)"
  by (induction sep ws rule: join_str.induct) auto

lemma string4_chars: "c \<in> set (string4 w) \<Longrightarrow> host_char4 c"
  using itoa_digits by (auto simp: string4_def host_char4_def is_alnum_def dest!: join_chars)

lemma v4_fields_chars: "v4_fields s v dl fs = Some bs \<Longrightarrow> c \<in> set s \<Longrightarrow> is_digit c \<or> c = CHR ''.''"
proof (induction s v dl fs rule: v4_fields.induct)
  case (2 a cs v dl fs)
  then show ?case by (auto split: if_splits)
qed simp

lemma parse_ipv6_not4: "parse_ipv6 s = Some a \<Longrightarrow> \<not> is4 a"
  by (auto simp: parse_ipv6_def Let_def split: option.splits prod.splits if_splits)

lemma parse_addr4_chars: "parse_addr s = Some a \<Longrightarrow> is4 a \<Longrightarrow> c \<in> set s \<Longrightarrow> host_char4 c"
  using parse_ipv6_not4 [of s a] v4_fields_chars [of s 0 0 "[]"]
  by (auto simp: parse_addr_def parse_ipv4_def host_char4_def is_alnum_def split: option.splits if_splits)

lemma split_on_chars: "c \<in> set s \<Longrightarrow> c = sep \<or> (\<exists>w \<in> set (split_on sep s). c \<in> set w)"
  by (induction s) (auto split: list.splits)

lemma endpoint_host_chars:
  assumes "valid_endpoint_host host" "c \<in> set host"
  shows "host_char4 c"
proof (cases "parse_addr host")
  case None
  let ?h = "if has_suffix host ''.'' then butlast host else host"
  from assms(1) None have labels: "\<forall>l \<in> set (split_on (CHR ''.'') ?h). endpoint_label l"
    by (simp add: valid_endpoint_host_def list_all_iff)
  have "c = CHR ''.'' \<or> c \<in> set ?h"
  proof (cases "has_suffix host ''.''")
    case True
    then have "host \<noteq> []" "last host = CHR ''.''" by (auto simp: has_suffix_def prefix_def rev_eq_Cons_iff)
    then have "set host = insert (CHR ''.'') (set (butlast host))"
      using append_butlast_last_id [of host] set_append [of "butlast host" "[last host]"] by simp
    with assms(2) True show ?thesis by auto
  qed (use assms(2) in simp)
  then show ?thesis
    using split_on_chars [of c ?h "CHR ''.''"] labels
    by (auto simp: endpoint_label_def list_all_iff host_char4_def)
next
  case (Some a)
  with assms show ?thesis by (auto simp: valid_endpoint_host_def intro: parse_addr4_chars)
qed

lemma endpoint_host_nonempty: "valid_endpoint_host host \<Longrightarrow> host \<noteq> []"
  by (auto simp: valid_endpoint_host_def parse_addr_def)

lemma b64_alphabet_printable: "list_all printable b64_alphabet" "length b64_alphabet = 64"
  by (simp_all add: b64_alphabet_def printable_def byte_def)

lemma b64_char_printable: "n < 64 \<Longrightarrow> printable (b64_char n)"
  using b64_alphabet_printable by (simp add: list_all_iff b64_char_def)

lemma b64_val_bound: "b64_val c = Some n \<Longrightarrow> n < 64"
  by (auto simp: b64_val_def char_class_defs split: if_splits)

lemma quanta_bytes: "b64_quanta s = Some bs \<Longrightarrow> b \<in> set bs \<Longrightarrow> b < 256"
proof (induction s arbitrary: bs rule: b64_quanta.induct)
  case (2 a b c d s)
  have less: "4 * w + x div 16 < 256" "x mod 16 * 16 + y div 4 < 256" "y mod 4 * 64 + z < 256"
    if "w < 64" "x < 64" "y < 64" "z < 64" for w x y z :: nat
    using that by auto
  from 2 show ?case
    by (auto split: option.splits if_splits dest!: b64_val_bound intro: less less(1) [where y = 0 and z = 0])
qed auto

lemma printable_equals: "printable (CHR ''='')"
  by (simp add: printable_def byte_def)

lemma encode_chars: "\<forall>b \<in> set bs. b < 256 \<Longrightarrow> c \<in> set (b64_encode bs) \<Longrightarrow> printable c"
proof (induction bs rule: b64_encode.induct)
  case (4 a b c' s)
  have less: "a div 4 < 64" "a mod 4 * 16 + b div 16 < 64" "b mod 16 * 4 + c' div 64 < 64" "c' mod 64 < 64"
    using 4(2) by auto
  from 4 show ?case by (auto intro: b64_char_printable less)
qed (auto intro: b64_char_printable simp: printable_equals)

lemma valid_key_chars:
  assumes "valid_key s"
  shows "s \<noteq> []" "c \<in> set s \<Longrightarrow> printable c"
proof -
  from assms obtain bs where bs: "b64_decode s = Some bs" "length bs = 32" "b64_encode bs = s"
    by (auto simp: valid_key_def split: option.splits)
  from bs(2,3) show "s \<noteq> []" by (cases bs rule: b64_encode.cases) auto
  show "c \<in> set s \<Longrightarrow> printable c"
    using bs encode_chars [of bs c] quanta_bytes by (auto simp: b64_decode_def)
qed

section \<open>Lists of values\<close>

lemma split_on_join:
  assumes "ws \<noteq> []" "\<forall>w \<in> set ws. CHR '','' \<notin> set w"
  shows "split_on (CHR '','') (join_str '', '' ws) = hd ws # map (\<lambda>w. CHR '' '' # w) (tl ws)"
  using assms
proof (induction "'', ''" ws rule: join_str.induct)
  case (3 w v ws)
  have "split_on (CHR '','') (CHR '' '' # s) = (case split_on (CHR '','') s of u # us \<Rightarrow> (CHR '' '' # u) # us)" for s
    by (cases "split_on (CHR '','') s") auto
  with 3 show ?case by (simp add: split_on_plain)
qed (simp_all add: split_on_none)

definition item :: "string \<Rightarrow> bool" where
  "item w \<longleftrightarrow> framed w \<and> CHR '','' \<notin> set w"

lemma split_list_join:
  assumes "ws \<noteq> []" "\<forall>w \<in> set ws. item w"
  shows "split_list (join_str '', '' ws) = Inr ws"
proof -
  have "map trim_space (split_on (CHR '','') (join_str '', '' ws)) = map trim_space ws"
    using assms by (cases ws) (simp_all add: split_on_join item_def trim_space_blank_left)
  moreover have "map trim_space ws = ws" using assms(2) by (intro map_idI) (simp add: item_def trim_space_framed)
  moreover have "[] \<notin> set ws" using assms(2) by (auto simp: item_def framed_def)
  ultimately show ?thesis by (simp add: split_list_def)
qed

lemma join_framed:
  assumes "ws \<noteq> []" "\<forall>w \<in> set ws. framed w"
  shows "framed (join_str sep ws)"
  using assms
proof (induction sep ws rule: join_str.induct)
  case (3 sep w v ws)
  then have "framed (join_str sep (v # ws))" "framed w" by auto
  then show ?case by (simp add: framed_append)
qed auto

text \<open>The prefixes of a profile that was read.\<close>

definition address4 :: "prefix_t \<Rightarrow> bool" where
  "address4 p \<longleftrightarrow> prefix_valid p \<and> is4 (paddr p)"

lemma address4_text:
  assumes "address4 p"
  shows "item (prefix_string p)" "parse_prefix (prefix_string p) = Some p" "c \<in> set (prefix_string p) \<Longrightarrow> printable c"
proof -
  from assms obtain w where w: "paddr p = A4 w" by (cases "paddr p") (auto simp: address4_def)
  have printed: "prefix_string p = string4 w @ CHR ''/'' # itoa (nat (pbits p))"
    using assms w by (simp add: prefix_string_def address4_def)
  have all: "printable c \<and> c \<noteq> CHR '',''" if "c \<in> set (prefix_string p)" for c
    using that string4_chars [of c w] host_char4_facts [of c] itoa_digits [of "nat (pbits p)"]
    by (auto simp: printed char_class_defs printable_def)
  have "prefix_string p \<noteq> []" by (simp add: printed)
  with framed_all [OF this] all show "item (prefix_string p)" by (auto simp: item_def)
  show "c \<in> set (prefix_string p) \<Longrightarrow> printable c" using all by simp
  show "parse_prefix (prefix_string p) = Some p"
    using assms w by (intro parse_prefix_string) (simp_all add: address4_def)
qed

lemma prefix_steps:
  assumes "\<forall>p \<in> set ps. address4 p" "distinct (map prefix_string (acc @ ps))"
  shows "foldE (prefix_step False) acc (map prefix_string ps) = Inr (acc @ ps)"
  using assms by (induction ps arbitrary: acc) (auto simp: prefix_step_def address4_text)

definition by_text :: "prefix_t \<Rightarrow> prefix_t \<Rightarrow> bool" where
  "by_text p q \<longleftrightarrow> prefix_string p < prefix_string q"

lemma parse_prefixes_join:
  assumes "ps \<noteq> []" "\<forall>p \<in> set ps. address4 p" "distinct (map prefix_string ps)" "sort_slice by_text ps = ps"
  shows "parse_prefixes (join_prefixes ps) False = Inr ps"
proof -
  have "split_list (join_prefixes ps) = Inr (map prefix_string ps)"
    unfolding join_prefixes_def using assms(1,2) address4_text(1) by (intro split_list_join) auto
  moreover have "by_text = (\<lambda>p q. prefix_string p < prefix_string q)" by (simp add: fun_eq_iff by_text_def)
  ultimately show ?thesis
    using prefix_steps [of ps "[]"] assms by (simp add: parse_prefixes_def)
qed

lemma dns_steps:
  assumes "\<forall>a \<in> set ads. is4 a \<and> usable_address a"
  shows "foldE dns_step acc (map addr_string ads) = Inr (acc @ ads)"
  using assms
proof (induction ads arbitrary: acc)
  case (Cons a ads)
  then obtain w where "a = A4 w" by (cases a) auto
  with Cons show ?case by (simp add: dns_step_def)
qed simp

section \<open>What a profile that was read satisfies\<close>

definition address_list :: "prefix_t list \<Rightarrow> bool" where
  "address_list ps \<longleftrightarrow> (\<forall>p \<in> set ps. prefix_valid p) \<and> distinct (map prefix_string ps) \<and> sort_slice by_text ps = ps"

definition profile_read :: "profile \<Rightarrow> bool" where
  "profile_read p \<longleftrightarrow>
     address_list (pr_addresses p) \<and> (\<forall>a \<in> set (pr_dns p). is4 a \<and> usable_address a) \<and>
     (pr_mtu p = 0 \<or> 576 \<le> pr_mtu p \<and> pr_mtu p \<le> 9000) \<and>
     (\<forall>q \<in> set (pe_allowed_ips (pr_peer p)). \<exists>r. prefix_valid r \<and> q = masked r) \<and>
     (pe_endpoint_host (pr_peer p) \<noteq> [] \<longrightarrow> valid_endpoint_host (pe_endpoint_host (pr_peer p))) \<and>
     pe_endpoint_port (pr_peer p) < 65536 \<and> 0 \<le> pe_keepalive (pr_peer p) \<and> pe_keepalive (pr_peer p) \<le> 65535"

lemma by_text_weak: "weak_order by_text"
  using weak_order_key [of prefix_string] by (simp add: by_text_def [abs_def])

lemma sort_by_text_again:
  assumes "distinct (map prefix_string ps)"
  shows "sort_slice by_text (sort_slice by_text ps) = sort_slice by_text ps"
proof -
  let ?s = "sort_slice by_text ps"
  have "inj_on prefix_string (set ps)" using assms by (simp add: distinct_map)
  then have "?s = sort_slice by_text ?s"
    by (intro sort_slice_unique [OF by_text_weak _ sorted_sort_slice [OF by_text_weak]])
      (auto simp: by_text_def inj_on_def)
  then show ?thesis by simp
qed

lemma sort_by_text_list:
  assumes "\<forall>p \<in> set ps. prefix_valid p" "distinct (map prefix_string ps)"
  shows "address_list (sort_slice by_text ps)"
proof -
  have "distinct (map prefix_string (sort_slice by_text ps))"
    using assms(2) by (simp add: distinct_map)
  then show ?thesis using assms sort_by_text_again by (simp add: address_list_def)
qed

lemma prefix_steps_facts:
  assumes "foldE (prefix_step masking) [] ws = Inr ps"
  shows "distinct (map prefix_string ps) \<and> (\<forall>p \<in> set ps. prefix_valid p) \<and> (masking \<longrightarrow> (\<forall>p \<in> set ps. \<exists>r. prefix_valid r \<and> p = masked r))"
  using assms
  by (rule foldE_invariant)
    (auto simp: prefix_step_def Let_def dest!: parse_prefix_valid split: option.splits if_splits)

lemma parse_prefixes_facts:
  assumes "parse_prefixes s masking = Inr ps"
  shows "address_list ps \<and> (masking \<longrightarrow> (\<forall>p \<in> set ps. \<exists>r. prefix_valid r \<and> p = masked r))"
proof -
  from assms obtain ws qs where "foldE (prefix_step masking) [] ws = Inr qs" "ps = sort_slice by_text qs"
    by (auto simp: parse_prefixes_def bindE_eq_Ok by_text_def [abs_def])
  with prefix_steps_facts [OF this(1)] sort_by_text_list [of qs] show ?thesis by simp
qed

lemma dns_step_facts:
  "foldE dns_step as ws = Inr bs \<Longrightarrow> \<forall>a \<in> set as. is4 a \<and> usable_address a \<Longrightarrow> \<forall>a \<in> set bs. is4 a \<and> usable_address a"
  by (rule foldE_invariant) (auto simp: dns_step_def split: option.splits if_splits)

lemma read_updates:
  assumes "profile_read p"
  shows "profile_read (p\<lparr>pr_private_key := v\<rparr>)" "profile_read (p\<lparr>pr_peer := (pr_peer p)\<lparr>pe_public_key := v\<rparr>\<rparr>)"
    "profile_read (p\<lparr>pr_peer := (pr_peer p)\<lparr>pe_preshared_key := v\<rparr>\<rparr>)"
    "parse_prefixes v False = Inr ps \<Longrightarrow> profile_read (p\<lparr>pr_addresses := ps\<rparr>)"
    "parse_prefixes v True = Inr ps \<Longrightarrow> profile_read (p\<lparr>pr_peer := (pr_peer p)\<lparr>pe_allowed_ips := ps\<rparr>\<rparr>)"
    "foldE dns_step (pr_dns p) ws = Inr as' \<Longrightarrow> profile_read (p\<lparr>pr_dns := as'\<rparr>)"
    "\<not> (n < 576 \<or> 9000 < n) \<Longrightarrow> profile_read (p\<lparr>pr_mtu := n\<rparr>)"
    "parse_uint16 t = Some port \<Longrightarrow> valid_endpoint_host h \<Longrightarrow>
      profile_read (p\<lparr>pr_peer := (pr_peer p)\<lparr>pe_endpoint_host := h, pe_endpoint_port := port\<rparr>\<rparr>)"
    "\<not> (k < 0 \<or> 65535 < k) \<Longrightarrow> profile_read (p\<lparr>pr_peer := (pr_peer p)\<lparr>pe_keepalive := k\<rparr>\<rparr>)"
proof -
  note parts = assms [unfolded profile_read_def]
  note intros = profile_read_def [THEN iffD2]
  show "profile_read (p\<lparr>pr_private_key := v\<rparr>)" "profile_read (p\<lparr>pr_peer := (pr_peer p)\<lparr>pe_public_key := v\<rparr>\<rparr>)"
    "profile_read (p\<lparr>pr_peer := (pr_peer p)\<lparr>pe_preshared_key := v\<rparr>\<rparr>)"
    by (rule intros, insert parts, simp)+
  show "profile_read (p\<lparr>pr_addresses := ps\<rparr>)" if "parse_prefixes v False = Inr ps"
    by (rule intros, insert parts parse_prefixes_facts [OF that], simp)
  show "profile_read (p\<lparr>pr_peer := (pr_peer p)\<lparr>pe_allowed_ips := ps\<rparr>\<rparr>)" if "parse_prefixes v True = Inr ps"
    by (rule intros, insert parts parse_prefixes_facts [OF that], simp)
  show "profile_read (p\<lparr>pr_dns := as'\<rparr>)" if "foldE dns_step (pr_dns p) ws = Inr as'"
  proof -
    from parts have "\<forall>a \<in> set (pr_dns p). is4 a \<and> usable_address a" by blast
    from dns_step_facts [OF that this] parts show ?thesis by (intro intros) simp
  qed
  show "profile_read (p\<lparr>pr_mtu := n\<rparr>)" if "\<not> (n < 576 \<or> 9000 < n)"
    by (rule intros, insert parts that, simp)
  show "profile_read (p\<lparr>pr_peer := (pr_peer p)\<lparr>pe_endpoint_host := h, pe_endpoint_port := port\<rparr>\<rparr>)"
    if "parse_uint16 t = Some port" "valid_endpoint_host h"
  proof -
    from that(1) have "port < 65536" by (auto simp: parse_uint16_def split: option.splits if_splits)
    with parts that(2) show ?thesis by (intro intros) simp
  qed
  show "profile_read (p\<lparr>pr_peer := (pr_peer p)\<lparr>pe_keepalive := k\<rparr>\<rparr>)" if "\<not> (k < 0 \<or> 65535 < k)"
    by (rule intros, insert parts that, simp)
qed

lemma assign_value_read:
  assumes "assign_value p field v managed = Inr q" "profile_read p"
  shows "profile_read q"
proof -
  have err [simp]: "profile_err e \<noteq> Inr r" for e and r :: profile by (simp add: profile_err_def)
  note upd = read_updates [OF assms(2)]
  note body = assms(1) [unfolded assign_value_def Let_def]
  consider "field = ''Interface.PrivateKey'' \<or> field = ''Peer.PublicKey'' \<or> field = ''Peer.PresharedKey'' \<or> field = ''Interface.Table''"
    | "field = ''Interface.Address''" | "field = ''Interface.DNS''" | "field = ''Interface.MTU''"
    | "field = ''Peer.AllowedIPs''" | "field = ''Peer.Endpoint''" | "field = ''Peer.PersistentKeepalive''"
    | "field \<noteq> ''Interface.PrivateKey'' \<and> field \<noteq> ''Peer.PublicKey'' \<and> field \<noteq> ''Peer.PresharedKey'' \<and>
        field \<noteq> ''Interface.Table'' \<and> field \<noteq> ''Interface.Address'' \<and> field \<noteq> ''Interface.DNS'' \<and> field \<noteq> ''Interface.MTU'' \<and>
        field \<noteq> ''Peer.AllowedIPs'' \<and> field \<noteq> ''Peer.Endpoint'' \<and> field \<noteq> ''Peer.PersistentKeepalive''"
    by argo
  then show ?thesis
  proof cases
    case 1
    with body upd(1-3) assms(2) show ?thesis by (auto split: if_split_asm)
  next
    case 2
    with body upd(4) show ?thesis by (auto split: if_split_asm sum.split_asm)
  next
    case 3
    with body upd(6) show ?thesis by (auto simp: bindE_eq_Ok split: if_split_asm sum.split_asm)
  next
    case 4
    with body upd(7) show ?thesis by (auto split: if_split_asm option.split_asm)
  next
    case 5
    with body upd(5) show ?thesis by (auto split: if_split_asm sum.split_asm)
  next
    case 6
    with body upd(8) show ?thesis by (auto split: if_split_asm option.split_asm prod.split_asm)
  next
    case 7
    with body upd(9) show ?thesis by (auto split: if_split_asm option.split_asm)
  next
    case 8
    with body show ?thesis by (simp split: if_split_asm)
  qed
qed

lemma parsed_profile_read:
  assumes "parse_profile managed s = Inr (p, ps)"
  shows "profile_read p \<and> validate_profile p = None \<and> ps = summary_of p"
proof -
  from assms obtain st where fold: "foldE (profile_line managed) start_state (if line_too_long s then [] else scan_lines s) = Inr st"
    and p: "px_profile st = p" "validate_profile p = None" "ps = summary_of p"
    by (auto simp: parse_profile_def profile_err_def bindE_eq_Ok split: if_splits option.splits)
  have "profile_read (px_profile st)"
  proof (rule foldE_invariant [OF fold])
    show "profile_read (px_profile start_state)"
      by (simp add: start_state_def empty_profile_def profile_read_def address_list_def sort_slice_def)
    fix st l st'
    assume read: "profile_read (px_profile st)" and step: "profile_line managed st l = Inr st'"
    have "px_profile st' = px_profile st \<or> (\<exists>f v. assign_value (px_profile st) f v managed = Inr (px_profile st'))"
      using step by (auto simp: profile_line_def Let_def profile_err_def bindE_eq_Ok assign_field_def split: if_splits option.splits)
    with read assign_value_read show "profile_read (px_profile st')" by metis
  qed
  with p show ?thesis by simp
qed

section \<open>Reading a line that was printed\<close>

definition key_word :: "string \<Rightarrow> bool" where
  "key_word k \<longleftrightarrow> k \<noteq> [] \<and> list_all is_alnum k"

lemma profile_key_line:
  assumes "px_section st \<noteq> []" "key_word k" "framed v" "px_section st @ ''.'' @ k \<notin> set (px_keys st)"
    and "assign_field (px_profile st) (px_section st) k v managed = Inr p"
  shows "profile_line managed st (k @ '' = '' @ v) = Inr (st\<lparr>px_keys := (px_section st @ ''.'' @ k) # px_keys st, px_profile := p\<rparr>)"
proof -
  have k: "framed k" using assms(2) by (intro framed_all) (auto simp: key_word_def list_all_iff alnum_printable)
  obtain c cs where c: "k = c # cs" "is_alnum c" using assms(2) by (cases k) (auto simp: key_word_def)
  then have start: "c \<noteq> CHR ''#''" "c \<noteq> CHR '';''" "c \<noteq> CHR ''[''" by (auto simp: char_class_defs)
  have no_eq: "CHR ''='' \<notin> set k" using assms(2) by (auto simp: key_word_def list_all_iff char_class_defs)
  have line: "trim_space (k @ '' = '' @ v) = k @ '' = '' @ v"
    using framed_append [OF k assms(3)] by (rule trim_space_framed)
  have "takeWhile (\<lambda>x. x \<noteq> CHR ''='') (k @ '' = '' @ v) = k @ '' ''" "dropWhile (\<lambda>x. x \<noteq> CHR ''='') (k @ '' = '' @ v) = ''= '' @ v"
    using no_eq by (auto simp: takeWhile_append dropWhile_append)
  then have "cut_first (CHR ''='') (k @ '' = '' @ v) = Some (k @ '' '', CHR '' '' # v)"
    by (simp add: cut_first_def)
  moreover have "trim_space (k @ '' '') = k" by (rule trim_space_blank_right [OF k])
  moreover have "trim_space (CHR '' '' # v) = v" by (simp add: trim_space_blank_left trim_space_framed assms(3))
  ultimately show ?thesis
    using assms start line c(1) by (simp add: profile_line_def has_prefix_def)
qed

lemma profile_section_line:
  assumes "name = ''Interface'' \<or> name = ''Peer''" "name \<notin> set (px_sections st)"
  shows "profile_line managed st (''['' @ name @ '']'') = Inr (st\<lparr>px_sections := name # px_sections st, px_section := name\<rparr>)"
proof -
  have "framed (''['' @ name @ '']'')" by (simp add: framed_def printable_def byte_def)
  then have line: "trim_space (''['' @ name @ '']'') = ''['' @ name @ '']''" by (rule trim_space_framed)
  have "framed name" using assms(1) by (auto simp: framed_def printable_def byte_def)
  then have "trim_space name = name" by (rule trim_space_framed)
  then show ?thesis
    using assms line by (auto simp: profile_line_def has_prefix_def has_suffix_def butlast_append)
qed

lemma profile_blank_line: "profile_line managed st [] = Inr st"
proof -
  have "trim_space [] = []"
    by (simp add: trim_space_def trim_left_id [OF space_seqs_facts(1)] trim_left_id [OF space_seqs_facts(2)])
  then show ?thesis by (simp add: profile_line_def)
qed

text \<open>A run of lines takes one state to another.\<close>

definition reads_to :: "parse_state \<Rightarrow> string list \<Rightarrow> parse_state \<Rightarrow> bool" where
  "reads_to st ls st' \<longleftrightarrow> foldE (profile_line True) st ls = Inr st'"

lemma reads_to_Nil: "reads_to st [] st" by (simp add: reads_to_def)

lemma reads_to_append: "reads_to st ls st' \<Longrightarrow> reads_to st' ls' st'' \<Longrightarrow> reads_to st (ls @ ls') st''"
  unfolding reads_to_def by (induction ls arbitrary: st) (auto split: sum.splits)

lemma reads_to_line: "profile_line True st l = Inr st' \<Longrightarrow> reads_to st [l] st'"
  by (simp add: reads_to_def)

section \<open>Reading what was printed\<close>

definition key_line :: "string \<times> string \<Rightarrow> string" where
  "key_line kv = fst kv @ '' = '' @ snd kv"

lemma key_line_pair [simp]: "key_line (k, v) = k @ '' = '' @ v"
  by (simp add: key_line_def)

definition assign_all :: "string \<Rightarrow> profile \<Rightarrow> (string \<times> string) list \<Rightarrow> profile result" where
  "assign_all section p kvs = foldE (\<lambda>q (k, v). assign_field q section k v True) p kvs"

lemma assign_all_append: "assign_all s p (xs @ ys) = bindE (assign_all s p xs) (\<lambda>q. assign_all s q ys)"
  unfolding assign_all_def by (induction xs arbitrary: p) (auto split: sum.splits)

lemma reads_keys:
  assumes "px_section st = section" "section \<noteq> []" "\<forall>kv \<in> set kvs. key_word (fst kv) \<and> framed (snd kv)"
    and "distinct (map fst kvs)" "\<forall>kv \<in> set kvs. section @ ''.'' @ fst kv \<notin> set (px_keys st)"
    and "assign_all section (px_profile st) kvs = Inr p"
  shows "reads_to st (map key_line kvs)
    (st\<lparr>px_keys := rev (map (\<lambda>kv. section @ ''.'' @ fst kv) kvs) @ px_keys st, px_profile := p\<rparr>)"
  using assms
proof (induction kvs arbitrary: st)
  case Nil
  then show ?case by (simp add: reads_to_def assign_all_def)
next
  case (Cons kv kvs)
  obtain k v where kv: "kv = (k, v)" by (cases kv)
  from Cons.prems(6) obtain q where q: "assign_field (px_profile st) section k v True = Inr q" "assign_all section q kvs = Inr p"
    by (auto simp: assign_all_def kv split: sum.splits)
  let ?st = "st\<lparr>px_keys := (section @ ''.'' @ k) # px_keys st, px_profile := q\<rparr>"
  have "profile_line True st (k @ '' = '' @ v) = Inr ?st"
    using profile_key_line [of st k v True q] Cons.prems q(1) by (simp add: kv)
  moreover have "reads_to ?st (map key_line kvs)
      (?st\<lparr>px_keys := rev (map (\<lambda>kv. section @ ''.'' @ fst kv) kvs) @ px_keys ?st, px_profile := p\<rparr>)"
    by (rule Cons.IH) (use Cons.prems q(2) in \<open>auto simp: kv\<close>)
  ultimately show ?case by (simp add: reads_to_def kv)
qed

definition interface_fields :: "profile \<Rightarrow> (string \<times> string) list" where
  "interface_fields p =
     [(''PrivateKey'', pr_private_key p), (''Address'', join_prefixes (pr_addresses p))] @
     (if pr_dns p \<noteq> [] then [(''DNS'', join_str '', '' (map addr_string (pr_dns p)))] else []) @
     (if pr_mtu p \<noteq> 0 then [(''MTU'', itoa_int (pr_mtu p))] else []) @ [(''Table'', ''off'')]"

definition peer_fields :: "peer \<Rightarrow> (string \<times> string) list" where
  "peer_fields e =
     (''PublicKey'', pe_public_key e) #
     (if pe_preshared_key e \<noteq> [] then [(''PresharedKey'', pe_preshared_key e)] else []) @
     [(''AllowedIPs'', ''0.0.0.0/0''), (''Endpoint'', join_host_port (pe_endpoint_host e) (itoa (pe_endpoint_port e)))] @
     (if pe_keepalive e \<noteq> 0 then [(''PersistentKeepalive'', itoa_int (pe_keepalive e))] else [])"

definition printed_lines :: "profile \<Rightarrow> string list" where
  "printed_lines p = ''[Interface]'' # map key_line (interface_fields p) @ [[], ''[Peer]''] @ map key_line (peer_fields (pr_peer p))"

lemma printed_lines_text:
  assumes "normalized_wg_quick p name = Inr out"
  shows "out = concat (map (\<lambda>l. l @ NL) (printed_lines p))"
  using assms
  by (auto simp: normalized_wg_quick_def printed_lines_def interface_fields_def peer_fields_def key_line_def profile_err_def
      preshared_line_def keepalive_line_def Let_def split: if_splits option.splits)

section \<open>The values of a profile\<close>

definition good_profile :: "profile \<Rightarrow> bool" where
  "good_profile p \<longleftrightarrow> profile_read p \<and> validate_profile p = None"

lemma good_read: "good_profile p \<Longrightarrow> profile_read p" and good_valid: "good_profile p \<Longrightarrow> validate_profile p = None"
  by (simp_all add: good_profile_def)

lemma good_keys:
  assumes good: "good_profile p"
  shows "valid_key (pr_private_key p)" "valid_key (pe_public_key (pr_peer p))"
  "pe_preshared_key (pr_peer p) \<noteq> [] \<Longrightarrow> valid_key (pe_preshared_key (pr_peer p))"
  using good_valid [OF good] by (simp_all add: validate_profile_def Let_def)

lemma good_required:
  assumes good: "good_profile p"
  shows "pr_addresses p \<noteq> []" "pe_endpoint_host (pr_peer p) \<noteq> []" "pe_endpoint_port (pr_peer p) \<noteq> 0"
  using good_valid [OF good] by (simp_all add: validate_profile_def Let_def)

lemma good_addresses:
  assumes good: "good_profile p"
  shows "\<forall>q \<in> set (pr_addresses p). address4 q"
  using good_valid [OF good] good_read [OF good] by (simp add: validate_profile_def Let_def profile_read_def address_list_def address4_def)

lemma good_read_addresses:
  assumes good: "good_profile p"
  shows "parse_prefixes (join_prefixes (pr_addresses p)) False = Inr (pr_addresses p)"
  using good_read [OF good] by (intro parse_prefixes_join good_required [OF good] good_addresses [OF good]) (simp_all add: profile_read_def address_list_def)

lemma good_dns:
  assumes good: "good_profile p"
  shows "\<forall>a \<in> set (pr_dns p). is4 a \<and> usable_address a"
  using good_read [OF good] by (simp add: profile_read_def)

lemma good_dns_items:
  assumes good: "good_profile p"
  shows "w \<in> set (map addr_string (pr_dns p)) \<Longrightarrow> item w \<and> (\<forall>c \<in> set w. printable c)"
proof -
  assume "w \<in> set (map addr_string (pr_dns p))"
  with good_dns [OF good] obtain v where w: "w = string4 v" by (auto; metis addr_string.simps(2) is4.elims(2))
  have "printable c \<and> c \<noteq> CHR '',''" if "c \<in> set w" for c
    using that string4_chars [of c v] host_char4_facts [of c] by (auto simp: w)
  moreover have "w \<noteq> []" by (simp add: w string4_def octets_def)
  ultimately show ?thesis by (auto simp: item_def intro: framed_all)
qed

lemma good_read_dns:
  assumes good: "good_profile p" and "pr_dns p \<noteq> []"
  shows "split_list (join_str '', '' (map addr_string (pr_dns p))) = Inr (map addr_string (pr_dns p))"
    "foldE dns_step [] (map addr_string (pr_dns p)) = Inr (pr_dns p)"
  using assms good_dns_items [OF good] dns_steps [OF good_dns [OF good], of "[]"] by (simp_all add: split_list_join)

lemma good_read_mtu:
  assumes good: "good_profile p"
  shows "pr_mtu p \<noteq> 0 \<Longrightarrow> atoi (itoa_int (pr_mtu p)) = Some (pr_mtu p) \<and> 576 \<le> pr_mtu p \<and> pr_mtu p \<le> 9000"
  using good_read [OF good] by (auto simp: profile_read_def itoa_int_def atoi_itoa)

lemma good_read_keepalive:
  assumes good: "good_profile p"
  shows "atoi (itoa_int (pe_keepalive (pr_peer p))) = Some (pe_keepalive (pr_peer p))"
  "0 \<le> pe_keepalive (pr_peer p)" "pe_keepalive (pr_peer p) \<le> 65535"
  using good_read [OF good] by (auto simp: profile_read_def itoa_int_def atoi_itoa)

lemma good_read_allowed:
  assumes good: "good_profile p"
  shows "parse_prefixes ''0.0.0.0/0'' True = Inr (pe_allowed_ips (pr_peer p))"
proof -
  have "parse_prefixes ''0.0.0.0/0'' True = Inr [Prefix (A4 0) 0]" by code_simp
  moreover obtain q where q: "pe_allowed_ips (pr_peer p) = [q]" "is4 (paddr q)" "pbits q = 0"
    using good_valid [OF good] by (auto simp: validate_profile_def Let_def length_Suc_conv)
  from q(1) good_read [OF good] obtain r where r: "prefix_valid r" "q = masked r" by (auto simp: profile_read_def)
  from q(2,3) r have "q = Prefix (A4 0) 0"
    by (cases "paddr r") (auto simp: masked_def)
  ultimately show ?thesis using q(1) by simp
qed

lemma good_endpoint:
  assumes good: "good_profile p"
  shows "valid_endpoint_host (pe_endpoint_host (pr_peer p))" "pe_endpoint_port (pr_peer p) < 65536"
  using good_read [OF good] good_required [OF good] by (auto simp: profile_read_def)

lemma good_read_endpoint:
  assumes good: "good_profile p"
  shows "split_host_port (join_host_port (pe_endpoint_host (pr_peer p)) (itoa (pe_endpoint_port (pr_peer p)))) =
     Some (pe_endpoint_host (pr_peer p), itoa (pe_endpoint_port (pr_peer p)))"
  "parse_uint16 (itoa (pe_endpoint_port (pr_peer p))) = Some (pe_endpoint_port (pr_peer p))"
  using endpoint_host_chars [OF good_endpoint(1) [OF good]] host_char4_facts(2) itoa_digits parse_uint16_itoa [OF good_endpoint(2) [OF good]]
  by (auto intro!: split_join_host_port)

lemma good_endpoint_plain:
  assumes good: "good_profile p"
  shows "c \<in> set (join_host_port (pe_endpoint_host (pr_peer p)) (itoa (pe_endpoint_port (pr_peer p)))) \<Longrightarrow> printable c"
proof -
  assume "c \<in> set (join_host_port (pe_endpoint_host (pr_peer p)) (itoa (pe_endpoint_port (pr_peer p))))"
  then consider "c \<in> set (pe_endpoint_host (pr_peer p))" | "c \<in> set (itoa (pe_endpoint_port (pr_peer p)))"
    | "c = CHR '':'' \<or> c = CHR ''['' \<or> c = CHR '']''"
    by (auto simp: join_host_port_def split: if_splits)
  then show "printable c"
  proof cases
    case 1
    with endpoint_host_chars [OF good_endpoint(1) [OF good]] show ?thesis by (blast intro: host_char4_facts(1))
  next
    case 2
    with itoa_digits show ?thesis by (blast intro: digit_printable)
  qed (auto simp: printable_def byte_def)
qed

definition plain_value :: "string \<Rightarrow> bool" where
  "plain_value v \<longleftrightarrow> framed v \<and> (\<forall>c \<in> set v. printable c \<or> c = CHR '' '')"

lemma plain_value: "v \<noteq> [] \<Longrightarrow> (\<And>c. c \<in> set v \<Longrightarrow> printable c) \<Longrightarrow> plain_value v"
  by (simp add: plain_value_def framed_all)

lemma plain_joined:
  assumes "ws \<noteq> []" "\<And>w. w \<in> set ws \<Longrightarrow> item w \<and> (\<forall>c \<in> set w. printable c)"
  shows "plain_value (join_str '', '' ws)"
proof -
  have "printable c \<or> c = CHR '' ''" if "c \<in> set (join_str '', '' ws)" for c
    using join_chars [OF that] assms(2) by (auto simp: printable_def byte_def)
  with join_framed [of ws "'', ''"] assms show ?thesis by (auto simp: plain_value_def item_def)
qed

lemma plain_number: "0 \<le> n \<Longrightarrow> plain_value (itoa_int n)"
  using itoa_digits by (intro plain_value) (auto simp: itoa_int_def intro: digit_printable)

lemma plain_key: "valid_key v \<Longrightarrow> plain_value v"
  using valid_key_chars by (intro plain_value) auto

lemma field_names: "key_word ''PrivateKey''" "key_word ''Address''" "key_word ''DNS''" "key_word ''MTU''" "key_word ''Table''"
    "key_word ''PublicKey''" "key_word ''PresharedKey''" "key_word ''AllowedIPs''" "key_word ''Endpoint''"
    "key_word ''PersistentKeepalive''"
  by (simp_all add: key_word_def char_class_defs)

lemma good_values:
  assumes good: "good_profile p"
  shows "plain_value (pr_private_key p)" "plain_value (join_prefixes (pr_addresses p))"
    "pr_dns p \<noteq> [] \<Longrightarrow> plain_value (join_str '', '' (map addr_string (pr_dns p)))"
    "pr_mtu p \<noteq> 0 \<Longrightarrow> plain_value (itoa_int (pr_mtu p))" "plain_value ''off''"
    "plain_value (pe_public_key (pr_peer p))"
    "pe_preshared_key (pr_peer p) \<noteq> [] \<Longrightarrow> plain_value (pe_preshared_key (pr_peer p))" "plain_value ''0.0.0.0/0''"
    "plain_value (join_host_port (pe_endpoint_host (pr_peer p)) (itoa (pe_endpoint_port (pr_peer p))))"
    "plain_value (itoa_int (pe_keepalive (pr_peer p)))"
proof -
  show "plain_value (join_prefixes (pr_addresses p))"
    unfolding join_prefixes_def using good_required(1) [OF good] good_addresses [OF good] address4_text by (intro plain_joined) auto
  show "plain_value (join_str '', '' (map addr_string (pr_dns p)))" if "pr_dns p \<noteq> []"
    using that good_dns_items [OF good] by (intro plain_joined) auto
  show "plain_value (itoa_int (pr_mtu p))" if "pr_mtu p \<noteq> 0"
    using good_read_mtu [OF good that] by (intro plain_number) simp
  show "plain_value ''off''" "plain_value ''0.0.0.0/0''"
    by (rule plain_value; auto simp: printable_def byte_def)+
  show "plain_value (join_host_port (pe_endpoint_host (pr_peer p)) (itoa (pe_endpoint_port (pr_peer p))))"
    using good_endpoint_plain [OF good] by (intro plain_value) (auto simp: join_host_port_def)
qed (use good_keys [OF good] good_read_keepalive(2) [OF good] in \<open>auto intro: plain_key plain_number\<close>)

lemma good_values_plain:
  assumes good: "good_profile p" and "kv \<in> set (interface_fields p @ peer_fields (pr_peer p))"
  shows "key_word (fst kv) \<and> plain_value (snd kv)"
proof -
  have "key_word (fst kv) \<and> plain_value (snd kv)" if "kv \<in> set (interface_fields p)"
    using that good_values(1-5) [OF good] field_names by (auto simp: interface_fields_def split: if_splits)
  moreover have "key_word (fst kv) \<and> plain_value (snd kv)" if "kv \<in> set (peer_fields (pr_peer p))"
    using that good_values(6-10) [OF good] field_names by (auto simp: peer_fields_def split: if_splits)
  ultimately show ?thesis using assms(2) by auto
qed

lemma plain_nonempty: "plain_value v \<Longrightarrow> v \<noteq> []"
  by (simp add: plain_value_def framed_def)

text \<open>What each field does to a profile.\<close>

lemma assign_interface_fields:
  "v \<noteq> [] \<Longrightarrow> assign_field q ''Interface'' ''PrivateKey'' v True = Inr (q\<lparr>pr_private_key := v\<rparr>)"
  "v \<noteq> [] \<Longrightarrow> parse_prefixes v False = Inr ps \<Longrightarrow> assign_field q ''Interface'' ''Address'' v True = Inr (q\<lparr>pr_addresses := ps\<rparr>)"
  "v \<noteq> [] \<Longrightarrow> split_list v = Inr ws \<Longrightarrow> foldE dns_step (pr_dns q) ws = Inr ads \<Longrightarrow>
    assign_field q ''Interface'' ''DNS'' v True = Inr (q\<lparr>pr_dns := ads\<rparr>)"
  "v \<noteq> [] \<Longrightarrow> atoi v = Some n \<Longrightarrow> 576 \<le> n \<Longrightarrow> n \<le> 9000 \<Longrightarrow> assign_field q ''Interface'' ''MTU'' v True = Inr (q\<lparr>pr_mtu := n\<rparr>)"
  "assign_field q ''Interface'' ''Table'' ''off'' True = Inr q"
  by (simp_all add: assign_field_def assign_value_def)

lemma assign_peer_fields:
  "v \<noteq> [] \<Longrightarrow> assign_field q ''Peer'' ''PublicKey'' v True = Inr (q\<lparr>pr_peer := (pr_peer q)\<lparr>pe_public_key := v\<rparr>\<rparr>)"
  "v \<noteq> [] \<Longrightarrow> assign_field q ''Peer'' ''PresharedKey'' v True = Inr (q\<lparr>pr_peer := (pr_peer q)\<lparr>pe_preshared_key := v\<rparr>\<rparr>)"
  "v \<noteq> [] \<Longrightarrow> parse_prefixes v True = Inr ps \<Longrightarrow>
    assign_field q ''Peer'' ''AllowedIPs'' v True = Inr (q\<lparr>pr_peer := (pr_peer q)\<lparr>pe_allowed_ips := ps\<rparr>\<rparr>)"
  "v \<noteq> [] \<Longrightarrow> split_host_port v = Some (h, t) \<Longrightarrow> h \<noteq> [] \<Longrightarrow> parse_uint16 t = Some n \<Longrightarrow> n \<noteq> 0 \<Longrightarrow> valid_endpoint_host h \<Longrightarrow>
    assign_field q ''Peer'' ''Endpoint'' v True = Inr (q\<lparr>pr_peer := (pr_peer q)\<lparr>pe_endpoint_host := h, pe_endpoint_port := n\<rparr>\<rparr>)"
  "v \<noteq> [] \<Longrightarrow> atoi v = Some k \<Longrightarrow> 0 \<le> k \<Longrightarrow> k \<le> 65535 \<Longrightarrow>
    assign_field q ''Peer'' ''PersistentKeepalive'' v True = Inr (q\<lparr>pr_peer := (pr_peer q)\<lparr>pe_keepalive := k\<rparr>\<rparr>)"
  by (simp_all add: assign_field_def assign_value_def)

lemma assign_all_simps [simp]:
  "assign_all s q [] = Inr q"
  "assign_field q s k v True = Inr q' \<Longrightarrow> assign_all s q ((k, v) # kvs) = assign_all s q' kvs"
  by (simp_all add: assign_all_def)

lemma good_assign_interface:
  assumes good: "good_profile p"
  shows "assign_all ''Interface'' empty_profile (interface_fields p) =
    Inr (empty_profile\<lparr>pr_private_key := pr_private_key p, pr_addresses := pr_addresses p, pr_dns := pr_dns p, pr_mtu := pr_mtu p\<rparr>)"
proof -
  note filled = good_values(1-5) [OF good, THEN plain_nonempty]
  note step = assign_interface_fields(1) [OF filled(1)] assign_interface_fields(2) [OF filled(2) good_read_addresses [OF good]]
    assign_interface_fields(5)
  have dns: "assign_field q ''Interface'' ''DNS'' (join_str '', '' (map addr_string (pr_dns p))) True = Inr (q\<lparr>pr_dns := pr_dns p\<rparr>)"
    if "pr_dns p \<noteq> []" "pr_dns q = []" for q
    using that filled(3) good_read_dns [OF good] by (intro assign_interface_fields(3)) auto
  have mtu: "assign_field q ''Interface'' ''MTU'' (itoa_int (pr_mtu p)) True = Inr (q\<lparr>pr_mtu := pr_mtu p\<rparr>)" if "pr_mtu p \<noteq> 0" for q
    using that filled(4) good_read_mtu [OF good] by (intro assign_interface_fields(4)) auto
  show ?thesis
    by (cases "pr_dns p = []"; cases "pr_mtu p = 0") (simp_all add: interface_fields_def step dns mtu empty_profile_def)
qed

lemma good_assign_peer:
  assumes good: "good_profile p"
  shows "assign_all ''Peer'' (empty_profile\<lparr>pr_private_key := pr_private_key p, pr_addresses := pr_addresses p, pr_dns := pr_dns p,
     pr_mtu := pr_mtu p\<rparr>) (peer_fields (pr_peer p)) = Inr p"
proof -
  let ?e = "pr_peer p"
  note filled = good_values(6-10) [OF good, THEN plain_nonempty]
  note step = assign_peer_fields(1) [OF filled(1)] assign_peer_fields(3) [OF filled(3) good_read_allowed [OF good]]
    assign_peer_fields(4) [OF filled(4) good_read_endpoint(1) [OF good] good_required(2) [OF good] good_read_endpoint(2) [OF good]
      good_required(3) [OF good] good_endpoint(1) [OF good]]
    assign_peer_fields(5) [OF filled(5) good_read_keepalive [OF good]]
  have psk: "assign_field q ''Peer'' ''PresharedKey'' (pe_preshared_key ?e) True = Inr (q\<lparr>pr_peer := (pr_peer q)\<lparr>pe_preshared_key := pe_preshared_key ?e\<rparr>\<rparr>)"
    if "pe_preshared_key ?e \<noteq> []" for q
    by (rule assign_peer_fields(2) [OF that])
  show ?thesis
    by (cases "pe_preshared_key ?e = []"; cases "pe_keepalive ?e = 0") (simp_all add: peer_fields_def step psk empty_profile_def)
qed

section \<open>The round trip\<close>

lemma field_names_distinct: "distinct (map fst (interface_fields p))" "distinct (map fst (peer_fields e))"
  by (simp_all add: interface_fields_def peer_fields_def)

lemma good_fields:
  assumes "good_profile p"
  shows "\<forall>kv \<in> set (interface_fields p). key_word (fst kv) \<and> framed (snd kv)"
    "\<forall>kv \<in> set (peer_fields (pr_peer p)). key_word (fst kv) \<and> framed (snd kv)"
  using good_values_plain [OF assms] by (simp_all add: plain_value_def)

lemma good_lines:
  assumes good: "good_profile p"
  shows "\<exists>ks. reads_to start_state (printed_lines p)
    \<lparr>px_profile = p, px_section = ''Peer'', px_sections = [''Peer'', ''Interface''], px_keys = ks\<rparr>"
proof -
  let ?a = "start_state\<lparr>px_sections := [''Interface''], px_section := ''Interface''\<rparr>"
  have first: "reads_to start_state [''[Interface]''] ?a"
    using profile_section_line [of "''Interface''" start_state True] by (intro reads_to_line) (simp add: start_state_def)
  let ?ks = "rev (map (\<lambda>kv. ''Interface'' @ ''.'' @ fst kv) (interface_fields p))"
  let ?p1 = "empty_profile\<lparr>pr_private_key := pr_private_key p, pr_addresses := pr_addresses p, pr_dns := pr_dns p, pr_mtu := pr_mtu p\<rparr>"
  let ?b = "?a\<lparr>px_keys := ?ks, px_profile := ?p1\<rparr>"
  have "reads_to ?a (map key_line (interface_fields p)) (?a\<lparr>px_keys := ?ks @ px_keys ?a, px_profile := ?p1\<rparr>)"
    by (rule reads_keys [OF _ _ good_fields(1) [OF good] field_names_distinct(1)])
      (simp_all add: start_state_def good_assign_interface [OF good])
  then have second: "reads_to ?a (map key_line (interface_fields p)) ?b" by (simp add: start_state_def)
  let ?c = "?b\<lparr>px_sections := [''Peer'', ''Interface''], px_section := ''Peer''\<rparr>"
  have third: "reads_to ?b [[], ''[Peer]''] ?c"
    using profile_section_line [of "''Peer''" ?b True] by (simp add: reads_to_def profile_blank_line)
  let ?ls = "rev (map (\<lambda>kv. ''Peer'' @ ''.'' @ fst kv) (peer_fields (pr_peer p)))"
  have fourth: "reads_to ?c (map key_line (peer_fields (pr_peer p))) (?c\<lparr>px_keys := ?ls @ px_keys ?c, px_profile := p\<rparr>)"
    by (rule reads_keys [OF _ _ good_fields(2) [OF good] field_names_distinct(2)])
      (auto simp: start_state_def good_assign_peer [OF good])
  show ?thesis
    using reads_to_append [OF reads_to_append [OF reads_to_append [OF first second] third] fourth]
    by (auto simp: printed_lines_def start_state_def)
qed

lemma good_line_chars:
  assumes "good_profile p" "l \<in> set (printed_lines p)" "c \<in> set l"
  shows "printable c \<or> c = CHR '' ''"
proof -
  have key: "printable c \<or> c = CHR '' ''" if "kv \<in> set (interface_fields p @ peer_fields (pr_peer p))" "c \<in> set (key_line kv)" for kv
  proof -
    have "\<forall>c \<in> set (fst kv). printable c"
      using good_values_plain [OF assms(1) that(1)] by (auto simp: key_word_def list_all_iff alnum_printable)
    moreover have "\<forall>c \<in> set (snd kv). printable c \<or> c = CHR '' ''"
      using good_values_plain [OF assms(1) that(1)] by (simp add: plain_value_def)
    moreover have "printable (CHR ''='')" by (rule printable_equals)
    ultimately show ?thesis using that(2) by (auto simp: key_line_def)
  qed
  have "printable c" if "c \<in> set ''[Interface]'' \<or> c \<in> set ''[Peer]''"
    using that by (auto simp: printable_def byte_def)
  with assms(2,3) key show ?thesis by (auto simp: printed_lines_def)
qed

lemma not_printable: "\<not> printable (CHR 0x0A)" "\<not> printable (CHR 0x0D)" "\<not> printable (CHR 0x00)"
  by (simp_all add: printable_def byte_def)

lemma parse_printed:
  assumes good: "good_profile p" and size: "length (concat (map (\<lambda>l. l @ NL) (printed_lines p))) \<le> max_profile_bytes"
  shows "parse_profile True (concat (map (\<lambda>l. l @ NL) (printed_lines p))) = Inr (p, summary_of p)"
proof -
  let ?t = "concat (map (\<lambda>l. l @ NL) (printed_lines p))"
  have chars: "c \<notin> set l" if "l \<in> set (printed_lines p)" "c \<in> {CHR 0x0A, CHR 0x0D, CHR 0x00}" for l c
    using good_line_chars [OF good that(1), of c] that(2) not_printable by auto
  have lines: "scan_lines ?t = printed_lines p"
    using chars by (intro scan_lines_concat) blast
  have zero: "CHR 0x00 \<notin> set ?t" using chars by auto
  have first: "?t \<noteq> []" "CHR 0x0A \<in> set ?t" by (simp_all add: printed_lines_def)
  obtain ks where "foldE (profile_line True) start_state (printed_lines p) =
      Inr \<lparr>px_profile = p, px_section = ''Peer'', px_sections = [''Peer'', ''Interface''], px_keys = ks\<rparr>"
    using good_lines [OF good] by (auto simp: reads_to_def)
  moreover have "\<not> line_too_long ?t" using first(2) by (simp add: line_too_long_def)
  ultimately show ?thesis
    using first(1) size zero by (simp add: parse_profile_def lines good_valid [OF good])
qed

text \<open>C36. What the setup writes is read back: a profile that was read, from a provider's file or from a managed one,
  and is printed in normal form parses, as a managed file, to the same profile with the same summary, as long as the
  printed text is within the size limit of a profile.\<close>

theorem profile_round_trip:
  assumes "parse_profile managed s = Inr (p, ps)" "normalized_wg_quick p name = Inr out" "length out \<le> max_profile_bytes"
  shows "parse_profile True out = Inr (p, ps)"
proof -
  from parsed_profile_read [OF assms(1)] have good: "good_profile p" and ps: "ps = summary_of p"
    by (simp_all add: good_profile_def)
  from printed_lines_text [OF assms(2)] parse_printed [OF good] assms(3) ps show ?thesis by simp
qed

section \<open>A profile\<close>

definition sample_profile :: profile where
  "sample_profile = \<lparr>pr_private_key = ''AAAAAAAAAAAAAAAAAAAAAAAAAAAAAAAAAAAAAAAAAAA='', pr_addresses = [Prefix (A4 0x0A020002) 32],
     pr_dns = [A4 0x0A020001], pr_mtu = 0,
     pr_peer = \<lparr>pe_public_key = ''AAECAwQFBgcICQoLDA0ODxAREhMUFRYXGBkaGxwdHh8='', pe_preshared_key = [],
       pe_allowed_ips = [Prefix (A4 0) 0], pe_endpoint_host = ''vpn.example.net'', pe_endpoint_port = 51820, pe_keepalive = 25\<rparr>\<rparr>"


lemma sample_keys: "valid_key ''AAAAAAAAAAAAAAAAAAAAAAAAAAAAAAAAAAAAAAAAAAA=''" "valid_key ''AAECAwQFBgcICQoLDA0ODxAREhMUFRYXGBkaGxwdHh8=''"
  by code_simp+

lemma sample_host: "valid_endpoint_host ''vpn.example.net''"
  by code_simp

lemma sample_usable: "usable_address (A4 0x0A020002)" "usable_address (A4 0x0A020001)"
  by (simp_all add: usable_address_def addr_class_defs is_valid_addr_def is_unspecified_def)

lemma sample_good: "good_profile sample_profile"
proof -
  have "\<exists>r. prefix_valid r \<and> Prefix (A4 0) 0 = masked r"
    by (rule exI [of _ "Prefix (A4 0) 0"]) (simp add: masked_def prefix_valid_def)
  then show ?thesis
    using sample_keys sample_host sample_usable
    by (simp add: good_profile_def profile_read_def validate_profile_def sample_profile_def address_list_def prefix_valid_def
        sort_slice_def Let_def)
qed

definition sample_text :: string where
  "sample_text = concat (map (\<lambda>l. l @ NL) (printed_lines sample_profile))"

lemma sample_prints: "normalized_wg_quick sample_profile ''nftfw0'' = Inr sample_text"
proof -
  have "valid_interface_name ''nftfw0''" by code_simp
  with good_valid [OF sample_good] have "\<exists>out. normalized_wg_quick sample_profile ''nftfw0'' = Inr out"
    by (simp add: normalized_wg_quick_def Let_def)
  then show ?thesis using printed_lines_text by (auto simp: sample_text_def)
qed

lemma sample_size: "length sample_text \<le> max_profile_bytes"
  by (simp add: sample_text_def printed_lines_def interface_fields_def peer_fields_def sample_profile_def join_host_port_def
      join_prefixes_def prefix_string_def prefix_valid_def string4_def octets_def itoa_int_def itoa.simps max_profile_bytes_def)

theorem profile_round_trip_witness:
  "parse_profile True sample_text = Inr (sample_profile, summary_of sample_profile)"
proof (rule profile_round_trip [OF _ sample_prints sample_size])
  show "parse_profile True sample_text = Inr (sample_profile, summary_of sample_profile)"
    using parse_printed [OF sample_good] sample_size by (simp add: sample_text_def)
qed

end
