(* ===== verification/Intent.thy ===== *)
theory Intent
  imports Policy Wg_Profile
begin

text \<open>
  The managed intent, \<^verbatim>\<open>src/internal/intent/intent.go\<close>: the small document of a managed setup, its validation, its
  canonical form, the commands that change it, and its expansion into the configuration of \<^verbatim>\<open>Config\<close>. Of
  \<^verbatim>\<open>discovery.Snapshot\<close> the fields and \<^verbatim>\<open>ValidateCleanHost\<close> are here too. The TOML text and the checks of the file are
  not modelled.

  The methods with a value receiver canonicalise slices that they share with the caller; the model returns the new
  value, and the caller's copy, which holds the same elements in another order, is not used by the program
  afterwards. The sorts are by name and by subnet; two networks with one name, or two equal subnets, are refused by
  \<^verbatim>\<open>config.Validate\<close>, so that the order of what is accepted is the only one.
\<close>

section \<open>The host\<close>

record snapshot =
  sn_os_id :: string
  sn_os_version :: string
  sn_architecture :: string
  sn_uplink :: string
  sn_gateway :: addr
  sn_interfaces :: "string list"
  sn_lan_networks :: "prefix_t list"
  sn_management_tcp :: "int list"
  sn_ipv6_default_route :: bool
  sn_competing :: "string list"
  sn_owned_nftables :: bool
  sn_foreign_nftables :: bool
  sn_existing_state :: bool
  sn_docker_present :: bool
  sn_docker_clean :: bool
  sn_docker_networks :: "docker_network list"

definition code :: "string \<Rightarrow> goerr" where "code s = Errorf s []"

definition validate_clean_host :: "snapshot \<Rightarrow> goerr option" where
  "validate_clean_host s = first_err [
     refuse (sn_os_id s \<noteq> ''debian'' \<or> sn_os_version s \<noteq> ''13'') (code ''UNSUPPORTED_OS_REQUIRES_DEBIAN_13''),
     refuse (sn_architecture s \<noteq> ''amd64'' \<and> sn_architecture s \<noteq> ''arm64'') (code ''UNSUPPORTED_ARCHITECTURE''),
     refuse (sn_uplink s = [] \<or> \<not> is4 (sn_gateway s) \<or> sn_lan_networks s = []) (code ''DISCOVERY_NETWORK_AMBIGUOUS''),
     refuse (sn_interfaces s \<noteq> [] \<and> sn_uplink s \<notin> set (sn_interfaces s)) (code ''DISCOVERY_NETWORK_AMBIGUOUS''),
     refuse (sn_competing s \<noteq> [] \<or> sn_foreign_nftables s) (code ''DISCOVERY_COMPETING_FIREWALL''),
     refuse (sn_owned_nftables s \<or> sn_existing_state s) (code ''DISCOVERY_EXISTING_NFTFW_REQUIRES_ADOPT''),
     refuse (sn_docker_present s \<and> \<not> sn_docker_clean s) (code ''DISCOVERY_DOCKER_WORKLOADS_REQUIRE_ADOPT'')]"

section \<open>The document\<close>

definition intent_schema :: string where "intent_schema = ''nftfw.intent.v1''"
definition vpn_interface :: string where "vpn_interface = ''nftfw0''"
definition vpn_fwmark :: string where "vpn_fwmark = ''0xca6c''"
definition vpn_config :: string where "vpn_config = ''/etc/wireguard/nftfw0.conf''"

record intent =
  in_schema :: string
  in_managed :: bool
  in_uplink :: string
  in_vpn_interface :: string
  in_lan_networks :: "string list"
  in_management_tcp :: "int list"
  in_lan_tcp :: "int list"
  in_lan_udp :: "int list"
  in_public_tcp :: "int list"
  in_public_udp :: "int list"
  in_vpn_addresses :: "string list"
  in_endpoint_host :: string
  in_endpoint_port :: int
  in_bootstrap :: "string list"
  in_dns :: "string list"
  in_mtu :: int
  in_resolver_mode :: string
  in_disable_ipv6 :: bool
  in_docker_enabled :: bool
  in_docker_networks :: "docker_network list"

section \<open>Ports and strings\<close>

definition port_ok :: "int \<Rightarrow> bool" where "port_ok p \<longleftrightarrow> 1 \<le> p \<and> p \<le> 65535"

definition valid_ports :: "int list \<Rightarrow> bool" where
  "valid_ports ps \<longleftrightarrow> list_all port_ok ps \<and> distinct ps"

definition port_add :: "int list \<Rightarrow> int \<Rightarrow> int list" where
  "port_add acc p = (if port_ok p \<and> p \<notin> set acc then acc @ [p] else acc)"

definition unique_ports :: "int list \<Rightarrow> int list" where
  "unique_ports ps = sort (foldl port_add [] ps)"

definition remove_ports :: "int list \<Rightarrow> int list \<Rightarrow> int list" where
  "remove_ports current gone = unique_ports (filter (\<lambda>p. p \<notin> set gone) current)"

definition string_add :: "string list \<Rightarrow> string \<Rightarrow> string list" where
  "string_add acc raw =
     (let v = trim_space raw in if v \<noteq> [] \<and> (acc = [] \<or> last acc \<noteq> v) then acc @ [v] else acc)"

definition unique_trimmed :: "string list \<Rightarrow> string list" where
  "unique_trimmed ss = foldl string_add [] (sort ss)"

definition tcp_mss :: "int \<Rightarrow> int" where
  "tcp_mss mtu =
     (if mtu = 0 then 1360 else let v = mtu - 60 in if v < 536 then 536 else if 8960 < v then 8960 else v)"

section \<open>Canonical form\<close>

definition canonicalize_ipam :: "docker_network \<Rightarrow> docker_network" where
  "canonicalize_ipam d =
     (if length (d_subnets d) \<noteq> length (d_gateways d) then d
      else
        let pairs = sort_slice (\<lambda>a b. fst a < fst b)
              (zip (map trim_space (d_subnets d)) (map trim_space (d_gateways d))) in
        d\<lparr>d_subnets := map fst pairs, d_gateways := map snd pairs\<rparr>)"

definition canonicalize :: "intent \<Rightarrow> intent" where
  "canonicalize i = i\<lparr>
     in_lan_networks := unique_trimmed (in_lan_networks i), in_vpn_addresses := unique_trimmed (in_vpn_addresses i),
     in_bootstrap := unique_trimmed (in_bootstrap i), in_dns := unique_trimmed (in_dns i),
     in_management_tcp := unique_ports (in_management_tcp i), in_lan_tcp := unique_ports (in_lan_tcp i),
     in_lan_udp := unique_ports (in_lan_udp i), in_public_tcp := unique_ports (in_public_tcp i),
     in_public_udp := unique_ports (in_public_udp i),
     in_docker_networks := map canonicalize_ipam (sort_slice (\<lambda>a b. d_name a < d_name b) (in_docker_networks i))\<rparr>"

section \<open>Validation\<close>

definition reserved_ipv4 :: "prefix_t list" where
  "reserved_ipv4 = [Prefix (A4 0) 8, Prefix (A4 0x7F000000) 8, Prefix (A4 0xA9FE0000) 16, Prefix (A4 0xE0000000) 4,
     Prefix (A4 0xF0000000) 4]"

definition upper_char :: "char \<Rightarrow> char" where
  "upper_char c = (if is_lower c then char_of (byte c - 32) else c)"

text \<open>Only names of Docker networks are printed with it; of other texts the characters outside ASCII would be counted
  as characters, here as bytes.\<close>

definition sanitize_code :: "string \<Rightarrow> string" where
  "sanitize_code s =
     (let t = take 32 (map (\<lambda>c. let u = upper_char c in if is_upper u \<or> is_digit u then u else CHR ''_'') s) in
      if t = [] then ''UNKNOWN'' else t)"

definition masked_all :: "string list \<Rightarrow> prefix_t list" where
  "masked_all ss = map (\<lambda>s. masked (parse_prefix_or_zero s)) ss"

definition isolation_subnet ::
  "intent \<Rightarrow> string \<Rightarrow> (string \<times> prefix_t) list \<Rightarrow> string \<Rightarrow> (string \<times> prefix_t) list result" where
  "isolation_subnet i name owned raw =
     (let p0 = parse_prefix_or_zero (trim_space raw) in
      case first_err [
        refuse (parse_prefix (trim_space raw) = None \<or> \<not> is4 (paddr p0) \<or> pbits p0 = 0 \<or>
            prefix_string p0 \<noteq> prefix_string (masked p0)) (code ''INTENT_DOCKER_SUBNET_INVALID''),
        refuse (list_ex (overlaps (masked p0)) reserved_ipv4) (code ''INTENT_DOCKER_SUBNET_OVERLAPS_RESERVED''),
        refuse (list_ex (overlaps (masked p0)) (masked_all (in_lan_networks i))) (code ''INTENT_DOCKER_SUBNET_OVERLAPS_LAN''),
        refuse (list_ex (overlaps (masked p0)) (masked_all (in_vpn_addresses i))) (code ''INTENT_DOCKER_SUBNET_OVERLAPS_VPN''),
        refuse (list_ex (overlaps (masked p0)) (masked_all (in_bootstrap i))) (code ''INTENT_DOCKER_SUBNET_OVERLAPS_BOOTSTRAP''),
        map_option (\<lambda>(other, _). Errorf ''INTENT_DOCKER_SUBNET_OVERLAP_%s_%s'' [sanitize_code other, sanitize_code name])
          (find (\<lambda>(_, q). overlaps (masked p0) q) owned)]
      of Some e \<Rightarrow> Err e | None \<Rightarrow> Ok (owned @ [(name, masked p0)]))"

definition isolation_network :: "intent \<Rightarrow> (string \<times> prefix_t) list \<Rightarrow> docker_network \<Rightarrow> (string \<times> prefix_t) list result" where
  "isolation_network i owned d = foldE (isolation_subnet i (d_name d)) owned (d_subnets d)"

definition validate_isolation :: "intent \<Rightarrow> goerr option" where
  "validate_isolation i = err_of (foldE (isolation_network i) [] (in_docker_networks i))"

definition lan_network_ok :: "string \<Rightarrow> bool" where
  "lan_network_ok raw \<longleftrightarrow>
     (case parse_prefix raw of
        None \<Rightarrow> False
      | Some p \<Rightarrow> is4 (paddr p) \<and> is_private (paddr p) \<and> prefix_string p = prefix_string (masked p))"

definition vpn_address_ok :: "string \<Rightarrow> bool" where
  "vpn_address_ok raw \<longleftrightarrow> (case parse_prefix raw of None \<Rightarrow> False | Some p \<Rightarrow> is4 (paddr p) \<and> pbits p \<noteq> 0)"

definition bootstrap_ok :: "string \<Rightarrow> bool" where
  "bootstrap_ok raw \<longleftrightarrow> (case parse_prefix raw of None \<Rightarrow> False | Some p \<Rightarrow> is4 (paddr p) \<and> pbits p = 32)"

definition validate_intent :: "intent \<Rightarrow> goerr option" where
  "validate_intent i = first_err [
     refuse (in_schema i \<noteq> intent_schema \<or> \<not> in_managed i) (code ''INTENT_SCHEMA_INVALID''),
     refuse (in_uplink i = [] \<or> in_vpn_interface i \<noteq> vpn_interface \<or> in_uplink i = in_vpn_interface i)
       (code ''INTENT_INTERFACE_INVALID''),
     refuse (in_lan_networks i = [] \<or> in_vpn_addresses i = [] \<or> in_bootstrap i = [] \<or> in_endpoint_host i = [] \<or>
         \<not> port_ok (in_endpoint_port i)) (code ''INTENT_REQUIRED_FIELD_MISSING''),
     refuse (\<not> list_all lan_network_ok (in_lan_networks i)) (code ''INTENT_LAN_NETWORK_INVALID''),
     refuse (\<not> list_all vpn_address_ok (in_vpn_addresses i)) (code ''INTENT_VPN_ADDRESS_INVALID''),
     refuse (\<not> list_all bootstrap_ok (in_bootstrap i)) (code ''INTENT_BOOTSTRAP_INVALID''),
     refuse (\<not> list_all valid_ports [in_management_tcp i, in_lan_tcp i, in_lan_udp i, in_public_tcp i, in_public_udp i])
       (code ''INTENT_PORT_INVALID''),
     refuse (\<not> in_disable_ipv6 i) (code ''INTENT_IPV6_MODE_UNSUPPORTED''),
     refuse (in_resolver_mode i \<noteq> [] \<and> in_resolver_mode i \<noteq> ''none'' \<and> in_resolver_mode i \<noteq> ''resolvectl'' \<and>
         in_resolver_mode i \<noteq> ''resolvconf'') (code ''INTENT_RESOLVER_INVALID''),
     refuse (in_docker_enabled i \<noteq> (in_docker_networks i \<noteq> [])) (code ''INTENT_DOCKER_STATE_INVALID''),
     validate_isolation i]"

section \<open>A new intent\<close>

definition bootstrap_step :: "string list \<Rightarrow> addr \<Rightarrow> string list result" where
  "bootstrap_step acc a =
     (if \<not> is4 a \<or> \<not> usable_address a then Err (code ''INTENT_VPN_ENDPOINT_SET_INVALID'')
      else let v = prefix_string (prefix_from a 32) in Ok (if v \<in> set acc then acc else acc @ [v]))"

definition new_intent :: "snapshot \<Rightarrow> profile \<Rightarrow> addr list \<Rightarrow> intent result" where
  "new_intent s p bootstrap =
     (case validate_clean_host s of
        Some e \<Rightarrow> Err e
      | None \<Rightarrow>
          if bootstrap = [] \<or> 16 < length bootstrap then Err (code ''INTENT_VPN_ENDPOINT_SET_INVALID'')
          else
            bindE (foldE bootstrap_step [] bootstrap) (\<lambda>bs.
            let i = canonicalize \<lparr>in_schema = intent_schema, in_managed = True, in_uplink = sn_uplink s,
                  in_vpn_interface = vpn_interface,
                  in_lan_networks = map (\<lambda>q. prefix_string (masked q)) (sn_lan_networks s),
                  in_management_tcp = unique_ports (sn_management_tcp s), in_lan_tcp = [], in_lan_udp = [],
                  in_public_tcp = [], in_public_udp = [], in_vpn_addresses = map prefix_string (pr_addresses p),
                  in_endpoint_host = pe_endpoint_host (pr_peer p), in_endpoint_port = int (pe_endpoint_port (pr_peer p)),
                  in_bootstrap = bs, in_dns = map addr_string (pr_dns p), in_mtu = pr_mtu p, in_resolver_mode = [],
                  in_disable_ipv6 = True, in_docker_enabled = (sn_docker_present s \<and> sn_docker_networks s \<noteq> []),
                  in_docker_networks = sn_docker_networks s\<rparr> in
            case validate_intent i of Some e \<Rightarrow> Err e | None \<Rightarrow> Ok i))"

section \<open>The configuration\<close>

definition add_service_policy :: "string \<Rightarrow> string \<Rightarrow> int list \<Rightarrow> string \<Rightarrow> string \<Rightarrow> string \<Rightarrow> config \<Rightarrow> config" where
  "add_service_policy name protocol ports src dst policyName c =
     (if ports = [] then c
      else c\<lparr>c_services := c_services c @ [\<lparr>s_name = name, s_protocol = protocol, s_ports = ports\<rparr>],
             c_policies := c_policies c @ [\<lparr>p_name = policyName, p_from = src, p_to = dst, p_service = name, p_action = ''allow''\<rparr>]\<rparr>)"

definition managed_interface :: "string \<Rightarrow> string \<Rightarrow> string \<Rightarrow> string list \<Rightarrow> string \<Rightarrow> nat \<Rightarrow> iface" where
  "managed_interface name role zn cidrs prov k =
     \<lparr>if_name = name, if_role = role, if_zone = zn, if_cidrs = cidrs, if_provname = prov, if_provid = of_nat k\<rparr>"

text \<open>The sections that do not depend on Docker.\<close>

definition base_config :: "intent \<Rightarrow> config" where
  "base_config i =
     (let c0 = defaults\<lparr>
            c_system := \<lparr>sys_ipv6_mode = ''disabled'', sys_strict_vpn = True\<rparr>,
            c_interfaces := [managed_interface (in_uplink i) ''uplink'' ''uplink'' [] [] 1,
                             managed_interface (in_vpn_interface i) ''vpn'' ''public-vpn'' (in_vpn_addresses i) [] 2],
            c_zones := [\<lparr>z_name = ''uplink'', z_networks = [], z_interfaces = [in_uplink i]\<rparr>,
                        \<lparr>z_name = ''lan'', z_networks = in_lan_networks i, z_interfaces = []\<rparr>,
                        \<lparr>z_name = ''public-vpn'', z_networks = [], z_interfaces = [in_vpn_interface i]\<rparr>],
            c_services := [\<lparr>s_name = ''all-outbound'', s_protocol = ''any'', s_ports = []\<rparr>],
            c_policies := [\<lparr>p_name = ''host-all-outbound'', p_from = ''host'', p_to = ''any'', p_service = ''all-outbound'',
                            p_action = ''allow''\<rparr>]\<rparr>;
          c1 = add_service_policy ''public-udp'' ''udp'' (in_public_udp i) ''public-vpn'' ''host'' ''public-udp''
                (add_service_policy ''public-tcp'' ''tcp'' (in_public_tcp i) ''public-vpn'' ''host'' ''public-tcp''
                (add_service_policy ''lan-allow-udp'' ''udp'' (in_lan_udp i) ''lan'' ''host'' ''lan-allow-udp''
                (add_service_policy ''lan-allow-tcp'' ''tcp'' (in_lan_tcp i) ''lan'' ''host'' ''lan-allow-tcp''
                (add_service_policy ''management-tcp'' ''tcp'' (in_management_tcp i) ''lan'' ''host'' ''lan-management'' c0))))
      in c1\<lparr>
        c_runtime := (c_runtime c1)\<lparr>rt_trusted_services := if in_management_tcp i \<noteq> [] then [''management-tcp''] else []\<rparr>,
        c_wireguard := (c_wireguard c1)\<lparr>wg_interface := in_vpn_interface i, wg_endpoint_host := in_endpoint_host i,
          wg_endpoint_port := in_endpoint_port i, wg_fwmark := vpn_fwmark, wg_bootstrap_ips := in_bootstrap i,
          wg_bootstrap_ips6 := [], wg_bootstrap_hosts := [], wg_config_path := vpn_config, wg_tcp_mss := tcp_mss (in_mtu i)\<rparr>\<rparr>)"

text \<open>The interfaces of the Docker networks get the identifiers from 3 on; \<open>k\<close> is the next one.\<close>

fun docker_interfaces :: "nat \<Rightarrow> docker_network list \<Rightarrow> iface list result" where
  "docker_interfaces k [] = Ok []"
| "docker_interfaces k (d # ds) =
     (if 254 < k then Err (code ''INTENT_DOCKER_NETWORK_LIMIT'')
      else bindE (docker_interfaces (Suc k) ds) (\<lambda>is.
        Ok (managed_interface (d_bridge_interface d) ''container'' ''containers'' (d_subnets d) (''docker:'' @ d_name d) k # is)))"

definition with_docker :: "intent \<Rightarrow> config \<Rightarrow> config result" where
  "with_docker i c =
     (if \<not> in_docker_enabled i then Ok c
      else
        bindE (docker_interfaces 3 (in_docker_networks i)) (\<lambda>ifs.
        Ok (c\<lparr>c_interfaces := c_interfaces c @ ifs,
              c_zones := c_zones c @ [\<lparr>z_name = ''containers'',
                z_networks = unique_trimmed (concat (map d_subnets (in_docker_networks i))),
                z_interfaces = unique_trimmed (map d_bridge_interface (in_docker_networks i))\<rparr>],
              c_policies := c_policies c @ [\<lparr>p_name = ''containers-all-outbound'', p_from = ''containers'', p_to = ''any'',
                p_service = ''all-outbound'', p_action = ''allow''\<rparr>],
              c_integrations := (c_integrations c)\<lparr>ic_docker_enabled := True\<rparr>,
              c_docker_networks := in_docker_networks i\<rparr>)))"

definition intent_config :: "intent \<Rightarrow> config result" where
  "intent_config i0 =
     (let i = canonicalize i0 in
      case validate_intent i of
        Some e \<Rightarrow> Err e
      | None \<Rightarrow>
          bindE (with_docker i (base_config i)) (\<lambda>c.
          case validate c of
            Some e \<Rightarrow> Err (Wrapf ''generated managed configuration: %w'' [] e)
          | None \<Rightarrow> Ok c))"

section \<open>The commands\<close>

text \<open>The commands change the intent and then validate it; the intent is changed whatever the validation says.\<close>

definition changed :: "intent \<Rightarrow> goerr option \<times> intent" where
  "changed i = (validate_intent i, i)"

definition add_exposure :: "string \<Rightarrow> int list \<Rightarrow> intent \<Rightarrow> goerr option \<times> intent" where
  "add_exposure protocol ports i =
     (if protocol \<noteq> ''tcp'' \<and> protocol \<noteq> ''udp'' then (Some (code ''INTENT_PROTOCOL_INVALID''), i)
      else if \<not> valid_ports ports then (Some (code ''INTENT_PORT_INVALID''), i)
      else if protocol = ''tcp'' then changed (i\<lparr>in_public_tcp := unique_ports (in_public_tcp i @ ports)\<rparr>)
      else changed (i\<lparr>in_public_udp := unique_ports (in_public_udp i @ ports)\<rparr>))"

definition remove_exposure :: "string \<Rightarrow> int list \<Rightarrow> intent \<Rightarrow> goerr option \<times> intent" where
  "remove_exposure protocol ports i =
     (if (protocol \<noteq> ''tcp'' \<and> protocol \<noteq> ''udp'') \<or> \<not> valid_ports ports then (Some (code ''INTENT_PORT_INVALID''), i)
      else if protocol = ''tcp'' then changed (i\<lparr>in_public_tcp := remove_ports (in_public_tcp i) ports\<rparr>)
      else changed (i\<lparr>in_public_udp := remove_ports (in_public_udp i) ports\<rparr>))"

definition add_lan :: "string \<Rightarrow> int list \<Rightarrow> intent \<Rightarrow> goerr option \<times> intent" where
  "add_lan protocol ports i =
     (if (protocol \<noteq> ''tcp'' \<and> protocol \<noteq> ''udp'') \<or> \<not> valid_ports ports then (Some (code ''INTENT_PORT_INVALID''), i)
      else if protocol = ''tcp'' then changed (i\<lparr>in_lan_tcp := unique_ports (in_lan_tcp i @ ports)\<rparr>)
      else changed (i\<lparr>in_lan_udp := unique_ports (in_lan_udp i @ ports)\<rparr>))"

definition remove_lan :: "string \<Rightarrow> int list \<Rightarrow> intent \<Rightarrow> goerr option \<times> intent" where
  "remove_lan protocol ports i =
     (if (protocol \<noteq> ''tcp'' \<and> protocol \<noteq> ''udp'') \<or> \<not> valid_ports ports then (Some (code ''INTENT_PORT_INVALID''), i)
      else if protocol = ''tcp'' then changed (i\<lparr>in_lan_tcp := remove_ports (in_lan_tcp i) ports\<rparr>)
      else changed (i\<lparr>in_lan_udp := remove_ports (in_lan_udp i) ports\<rparr>))"

end
