(* ===== verification/Intent_Props.thy ===== *)
theory Intent_Props
  imports Intent Enforcement Wg_Profile_Props
begin

text \<open>
  What a managed intent promises of the host. The first section is about the canonical form of an intent and the
  policies of its expansion; the second follows a packet through the input chain that is compiled from the expansion;
  the third is about the networks of Docker. The last one is a managed host.
\<close>

section \<open>Ports and networks of the canonical form\<close>

lemma set_port_add: "set (foldl port_add acc ps) = set acc \<union> {p \<in> set ps. port_ok p}"
  by (induction ps arbitrary: acc) (auto simp: port_add_def)

lemma distinct_port_add: "distinct acc \<Longrightarrow> distinct (foldl port_add acc ps)"
  by (induction ps arbitrary: acc) (auto simp: port_add_def)

lemma set_unique_ports [simp]: "set (unique_ports ps) = {p \<in> set ps. port_ok p}"
  by (simp add: unique_ports_def set_port_add)

lemma unique_ports_valid: "valid_ports (unique_ports ps)" and unique_ports_sorted: "sorted (unique_ports ps)"
  by (simp_all add: valid_ports_def list_all_iff unique_ports_def set_port_add distinct_port_add)

lemma unique_ports_idem: "unique_ports (unique_ports ps) = unique_ports ps"
proof -
  have "foldl port_add acc qs = acc @ qs" if "valid_ports qs" "set acc \<inter> set qs = {}" for acc qs
    using that by (induction qs arbitrary: acc) (auto simp: port_add_def valid_ports_def)
  from this [of "unique_ports ps" "[]"] unique_ports_valid [of ps] unique_ports_sorted [of ps] show ?thesis
    by (simp add: unique_ports_def [of "unique_ports ps"] sorted_sort_id)
qed

section \<open>The policies of the expansion\<close>

definition lan_tcp_service :: "intent \<Rightarrow> service set" where
  "lan_tcp_service i =
     {\<lparr>s_name = ''management-tcp'', s_protocol = ''tcp'', s_ports = in_management_tcp i\<rparr>,
      \<lparr>s_name = ''lan-allow-tcp'', s_protocol = ''tcp'', s_ports = in_lan_tcp i\<rparr>,
      \<lparr>s_name = ''lan-allow-udp'', s_protocol = ''udp'', s_ports = in_lan_udp i\<rparr>}"

definition tunnel_service :: "intent \<Rightarrow> service set" where
  "tunnel_service i =
     {\<lparr>s_name = ''public-tcp'', s_protocol = ''tcp'', s_ports = in_public_tcp i\<rparr>,
      \<lparr>s_name = ''public-udp'', s_protocol = ''udp'', s_ports = in_public_udp i\<rparr>}"

definition outbound_service :: service where
  "outbound_service = \<lparr>s_name = ''all-outbound'', s_protocol = ''any'', s_ports = []\<rparr>"

lemma base_services: "set (c_services (base_config i)) \<subseteq> insert outbound_service (lan_tcp_service i \<union> tunnel_service i)"
  by (auto simp: base_config_def add_service_policy_def outbound_service_def lan_tcp_service_def tunnel_service_def Let_def)

definition allow :: "string \<Rightarrow> string \<Rightarrow> string \<Rightarrow> string \<Rightarrow> policy" where
  "allow name src dst svc = \<lparr>p_name = name, p_from = src, p_to = dst, p_service = svc, p_action = ''allow''\<rparr>"

lemma add_policy_set:
  "set (c_policies (add_service_policy n proto ports s d pn c)) \<subseteq> insert (allow pn s d n) (set (c_policies c))"
  by (auto simp: add_service_policy_def allow_def)

lemma in_policies:
  "set (c_policies c) \<subseteq> B \<Longrightarrow> allow pn s d n \<in> B \<Longrightarrow> set (c_policies (add_service_policy n proto ports s d pn c)) \<subseteq> B"
  using add_policy_set by blast

lemma base_policies_set:
  "set (c_policies (base_config i)) \<subseteq>
    {allow ''host-all-outbound'' ''host'' ''any'' ''all-outbound'', allow ''lan-management'' ''lan'' ''host'' ''management-tcp'',
     allow ''lan-allow-tcp'' ''lan'' ''host'' ''lan-allow-tcp'', allow ''lan-allow-udp'' ''lan'' ''host'' ''lan-allow-udp'',
     allow ''public-tcp'' ''public-vpn'' ''host'' ''public-tcp'', allow ''public-udp'' ''public-vpn'' ''host'' ''public-udp''}"
  unfolding base_config_def Let_def
  by (simp add: allow_def [symmetric]; intro in_policies; simp add: allow_def [symmetric])

lemma lan_names: "s_name ` lan_tcp_service i = {''management-tcp'', ''lan-allow-tcp'', ''lan-allow-udp''}"
  and tunnel_names: "s_name ` tunnel_service i = {''public-tcp'', ''public-udp''}"
  by (simp_all add: lan_tcp_service_def tunnel_service_def)

lemma base_policies:
  assumes "p \<in> set (c_policies (base_config i))" "p_to p = ''host''"
  shows "(p_from p = ''lan'' \<and> p_service p \<in> s_name ` lan_tcp_service i) \<or>
    (p_from p = ''public-vpn'' \<and> p_service p \<in> s_name ` tunnel_service i)"
proof -
  have allow_sel: "p_to (allow n s d v) = d" "p_from (allow n s d v) = s" "p_service (allow n s d v) = v" for n s d v
    by (simp_all add: allow_def)
  from subsetD [OF base_policies_set assms(1)] consider
      "p = allow ''host-all-outbound'' ''host'' ''any'' ''all-outbound''" | "p = allow ''lan-management'' ''lan'' ''host'' ''management-tcp''"
    | "p = allow ''lan-allow-tcp'' ''lan'' ''host'' ''lan-allow-tcp''" | "p = allow ''lan-allow-udp'' ''lan'' ''host'' ''lan-allow-udp''"
    | "p = allow ''public-tcp'' ''public-vpn'' ''host'' ''public-tcp''" | "p = allow ''public-udp'' ''public-vpn'' ''host'' ''public-udp''"
    by (simp only: insert_iff empty_iff) argo
  then show ?thesis
    by cases (use assms(2) in \<open>simp_all add: allow_sel lan_names tunnel_names\<close>)
qed

lemma base_zones:
  "c_zones (base_config i) =
    [\<lparr>z_name = ''uplink'', z_networks = [], z_interfaces = [in_uplink i]\<rparr>,
     \<lparr>z_name = ''lan'', z_networks = in_lan_networks i, z_interfaces = []\<rparr>,
     \<lparr>z_name = ''public-vpn'', z_networks = [], z_interfaces = [in_vpn_interface i]\<rparr>]"
  and base_interfaces:
  "c_interfaces (base_config i) =
    [managed_interface (in_uplink i) ''uplink'' ''uplink'' [] [] 1,
     managed_interface (in_vpn_interface i) ''vpn'' ''public-vpn'' (in_vpn_addresses i) [] 2]"
  by (simp_all add: base_config_def add_service_policy_def Let_def)

lemma docker_interface_zone: "docker_interfaces k ds = Inr ifs \<Longrightarrow> x \<in> set ifs \<Longrightarrow> if_zone x = ''containers''"
  by (induction k ds arbitrary: ifs rule: docker_interfaces.induct) (auto simp: bindE_eq_Ok managed_interface_def split: if_splits)

lemma docker_parts:
  assumes "with_docker i c = Inr c'"
  shows "c_services c' = c_services c"
    "p \<in> set (c_policies c') \<Longrightarrow> p_to p = ''host'' \<Longrightarrow> p \<in> set (c_policies c)"
    "\<exists>zs. c_zones c' = c_zones c @ zs \<and> (\<forall>z \<in> set zs. z_name z = ''containers'')"
    "\<exists>xs. c_interfaces c' = c_interfaces c @ xs \<and> (\<forall>x \<in> set xs. if_zone x = ''containers'')"
  using assms by (auto simp: with_docker_def bindE_eq_Ok dest: docker_interface_zone split: if_splits)

section \<open>What the input chain accepts\<close>

lemma input_selector:
  assumes "(ms, f, v) \<in> set (selectors name ''source'' e)" "name \<noteq> ''any''"
  shows "\<exists>z. ef_zones e name = Some z \<and>
    (z_networks z = [] \<longrightarrow> (\<exists>n. Iif n \<in> set ms \<and> (n \<in> set (z_interfaces z) \<or> (\<exists>x \<in> set (c_interfaces (ef_config e)). if_zone x = name \<and> if_name x = n)))) \<and>
    (z_networks z \<noteq> [] \<longrightarrow> (\<exists>n \<in> set (z_networks z). InNet (family_expr n) ''saddr'' n \<in> set ms))"
proof -
  have "ef_zones e name \<noteq> None"
  proof
    assume "ef_zones e name = None"
    with assms show False by (simp add: selectors_def Let_def split: if_splits)
  qed
  then obtain z where z: "ef_zones e name = Some z" by blast
  with assms have "(z_networks z = [] \<longrightarrow> (\<exists>n. Iif n \<in> set ms \<and> (n \<in> set (z_interfaces z) \<or> n \<in> if_name ` {x \<in> set (c_interfaces (ef_config e)). if_zone x = name}))) \<and>
    (z_networks z \<noteq> [] \<longrightarrow> (\<exists>n \<in> set (z_networks z). InNet (family_expr n) ''saddr'' n \<in> set ms))"
    by (auto simp: selectors_def Let_def split: if_splits)
  with z show ?thesis by blast
qed

lemma input_policy_rule:
  assumes "r \<in> set (policy_rules p svc e ''input'')" "p_to p = ''host''"
  obtains ms f v where "(ms, f, v) \<in> set (selectors (p_from p) ''source'' e)" "set ms \<subseteq> set (r_matches r)"
    "service_match svc f \<in> set (r_matches r)"
proof -
  from assms obtain ms f v where r: "(ms, f, v) \<in> set (selectors (p_from p) ''source'' e)"
    "r = NRule (ms @ [service_match svc f]) (policy_stmt p) (''nftfw-policy:'' @ p_name p)"
    by (auto simp: policy_rules_def Let_def)
  show ?thesis by (rule that [OF r(1)]) (auto simp: r(2))
qed

lemma effective_zone_of: "ef_zones (effective_of c) n = map_of (rev (map (\<lambda>z. (z_name z, z)) (c_zones c))) n"
  and effective_service_of: "ef_svcs (effective_of c) n = map_of (rev (map (\<lambda>s. (s_name s, s)) (c_services c))) n"
  by (simp_all add: effective_of_def)

lemma map_of_rev_member: "map_of (rev (map (\<lambda>s. (f s, s)) xs)) n = Some s \<Longrightarrow> s \<in> set xs \<and> f s = n"
  by (drule map_of_SomeD) auto

text \<open>The expansion of an intent.\<close>

lemma intent_config_parts:
  assumes "intent_config i0 = Inr c"
  shows "validate_intent (canonicalize i0) = None" "with_docker (canonicalize i0) (base_config (canonicalize i0)) = Inr c" "validate c = None"
  using assms by (auto simp: intent_config_def Let_def bindE_eq_Ok split: option.splits)

lemma managed_zone:
  assumes "with_docker i (base_config i) = Inr c" "ef_zones (effective_of c) n = Some z" "n = ''lan'' \<or> n = ''public-vpn''"
  shows "z = (if n = ''lan'' then \<lparr>z_name = ''lan'', z_networks = in_lan_networks i, z_interfaces = []\<rparr>
              else \<lparr>z_name = ''public-vpn'', z_networks = [], z_interfaces = [in_vpn_interface i]\<rparr>)"
proof -
  from docker_parts(3) [OF assms(1)] obtain zs where zs: "c_zones c = c_zones (base_config i) @ zs" "\<forall>z \<in> set zs. z_name z = ''containers''"
    by blast
  from assms(2) have "z \<in> set (c_zones c)" "z_name z = n"
    using map_of_rev_member by (fastforce simp: effective_zone_of)+
  with zs assms(3) have "z \<in> set (c_zones (base_config i))" by auto
  with \<open>z_name z = n\<close> assms(3) show ?thesis by (auto simp: base_zones)
qed

lemma managed_service:
  assumes "with_docker i (base_config i) = Inr c" "ef_svcs (effective_of c) n = Some svc"
    and "n \<in> s_name ` lan_tcp_service i \<or> n \<in> s_name ` tunnel_service i"
  shows "(n \<in> s_name ` lan_tcp_service i \<longrightarrow> svc \<in> lan_tcp_service i) \<and> (n \<in> s_name ` tunnel_service i \<longrightarrow> svc \<in> tunnel_service i)"
proof -
  from assms(2) have svc: "svc \<in> set (c_services c)" "s_name svc = n"
    using map_of_rev_member by (fastforce simp: effective_service_of)+
  from svc(1) docker_parts(1) [OF assms(1)] base_services [of i]
  have "svc \<in> insert outbound_service (lan_tcp_service i \<union> tunnel_service i)" by auto
  moreover have "svc \<noteq> outbound_service"
    using svc(2) assms(3) by (auto simp: lan_names tunnel_names outbound_service_def)
  moreover have "svc \<in> lan_tcp_service i \<Longrightarrow> n \<in> s_name ` lan_tcp_service i" "svc \<in> tunnel_service i \<Longrightarrow> n \<in> s_name ` tunnel_service i"
    using svc(2) by auto
  moreover have "s_name ` lan_tcp_service i \<inter> s_name ` tunnel_service i = {}" by (simp add: lan_names tunnel_names)
  ultimately show ?thesis by blast
qed

lemma cut_last_Some: "cut_last c s = Some (a, b) \<Longrightarrow> s = a @ c # b"
proof -
  assume *: "cut_last c s = Some (a, b)"
  then have c: "c \<in> set (rev s)" and ab: "a = rev (tl (dropWhile (\<lambda>x. x \<noteq> c) (rev s)))" "b = rev (takeWhile (\<lambda>x. x \<noteq> c) (rev s))"
    by (auto simp: cut_last_def split: if_splits)
  from c have "dropWhile (\<lambda>x. x \<noteq> c) (rev s) = c # tl (dropWhile (\<lambda>x. x \<noteq> c) (rev s))"
    by (metis (mono_tags, lifting) dropWhile_eq_Nil_conv hd_dropWhile list.collapse)
  then have "rev s = rev b @ c # rev a"
    using takeWhile_dropWhile_id [of "\<lambda>x. x \<noteq> c" "rev s"] ab by simp
  then show ?thesis by (metis append.assoc append_Cons append_Nil rev.simps(2) rev_append rev_rev_ident)
qed

lemma dec_digits_chars: "dec_digits n s = Some k \<Longrightarrow> c \<in> set s \<Longrightarrow> is_digit c"
  by (induction n s rule: dec_digits.induct) (auto split: if_splits)

lemma lan_family:
  assumes "lan_network_ok n"
  shows "family_expr n = ''ip''"
proof -
  from assms obtain p where p: "parse_prefix n = Some p" "is4 (paddr p)"
    by (auto simp: lan_network_ok_def split: option.splits)
  from p(1) obtain a bits ip k where n: "cut_last (CHR ''/'') n = Some (a, bits)" "parse_addr a = Some ip" "dec_value bits = Some k" "paddr p = ip"
    by (auto simp: parse_prefix_def split: option.splits if_splits)
  have digits: "is_digit c" if "c \<in> set bits" for c
    using n(3) that by (auto simp: dec_value_def dest: dec_digits_chars split: if_splits)
  have host: "host_char4 c" if "c \<in> set a" for c
    using parse_addr4_chars [OF n(2)] n(4) p(2) that by simp
  have "CHR '':'' \<notin> set n"
    using cut_last_Some [OF n(1)] digits [of "CHR '':''"] host [of "CHR '':''"] host_char4_facts(2) by (auto simp: char_class_defs)
  then show ?thesis by (auto simp: family_expr_def contains_str_iff_sublist sublist_def)
qed

text \<open>The exceptions in front of the policies. In a managed configuration IPv6 is off and the only trusted service is
  the one of the management ports.\<close>

lemma add_service_frame [simp]:
  "c_system (add_service_policy n proto ports s d pn c) = c_system c"
  "c_runtime (add_service_policy n proto ports s d pn c) = c_runtime c"
  by (simp_all add: add_service_policy_def)

lemma base_frame:
  "sys_ipv6_mode (c_system (base_config i)) = ''disabled''"
  "rt_trusted_services (c_runtime (base_config i)) = (if in_management_tcp i = [] then [] else [''management-tcp''])"
  unfolding base_config_def Let_def by simp_all

lemma docker_frame: "with_docker i c = Inr c' \<Longrightarrow> c_system c' = c_system c \<and> c_runtime c' = c_runtime c"
  by (cases "in_docker_enabled i") (auto simp: with_docker_def bindE_eq_Ok)

lemma trusted_of_one:
  assumes "rt_trusted_services (c_runtime c) = (if b then [] else [n])" "trusted_port_list (effective_of c) proto \<noteq> []"
  shows "\<exists>svc. ef_svcs (effective_of c) n = Some svc \<and> s_protocol svc = proto \<and>
    trusted_port_list (effective_of c) proto = sort (remdups (s_ports svc))"
  using assms by (cases b; cases "ef_svcs (effective_of c) n") (auto simp: trusted_port_list_def effective_sel split: if_splits)

lemma managed_trusted:
  assumes "with_docker i (base_config i) = Inr c" "trusted_port_list (effective_of c) proto \<noteq> []"
  shows "proto = ''tcp'' \<and> trusted_port_list (effective_of c) proto = sort (remdups (in_management_tcp i))"
proof -
  have "rt_trusted_services (c_runtime c) = (if in_management_tcp i = [] then [] else [''management-tcp''])"
    by (simp only: docker_frame [OF assms(1)] base_frame)
  from trusted_of_one [OF this assms(2)] obtain svc where svc: "ef_svcs (effective_of c) ''management-tcp'' = Some svc"
      "s_protocol svc = proto" "trusted_port_list (effective_of c) proto = sort (remdups (s_ports svc))"
    by blast
  have "''management-tcp'' \<in> s_name ` lan_tcp_service i" by (simp add: lan_names)
  with managed_service [OF assms(1) svc(1)] have "svc \<in> lan_tcp_service i" by blast
  moreover have "s_name svc = ''management-tcp''"
    using map_of_rev_member [OF svc(1) [unfolded effective_service_of]] by blast
  ultimately have "svc = \<lparr>s_name = ''management-tcp'', s_protocol = ''tcp'', s_ports = in_management_tcp i\<rparr>"
    by (simp add: lan_tcp_service_def) (elim disjE; simp)
  with svc(2,3) show ?thesis by simp
qed

lemma managed_early_input:
  assumes "with_docker (canonicalize i) (base_config (canonicalize i)) = Inr c" "early_input m c p"
  shows "m (Iif ''lo'') p \<or>
    (m (Dports ''tcp'' (unique_ports (in_management_tcp i))) p \<and>
      (m (InSet ''ip'' ''saddr'' ''trusted_v4'') p \<or> m (InSet ''ip6'' ''saddr'' ''trusted_v6'') p))"
proof -
  have ports: "sort (remdups (in_management_tcp (canonicalize i))) = unique_ports (in_management_tcp i)"
    using unique_ports_valid [of "in_management_tcp i"]
    by (simp add: canonicalize_def valid_ports_def distinct_remdups_id sorted_sort_id unique_ports_sorted)
  have off: "sys_ipv6_mode (c_system c) = ''disabled''"
    by (simp only: docker_frame [OF assms(1)] base_frame)
  from assms(2) consider "m (Iif ''lo'') p"
    | (lease) proto where "trusted_port_list (effective_of c) proto \<noteq> []" "m (Dports proto (trusted_port_list (effective_of c) proto)) p"
        "m (InSet ''ip'' ''saddr'' ''trusted_v4'') p \<or> m (InSet ''ip6'' ''saddr'' ''trusted_v6'') p"
    unfolding early_input_def off by blast
  then show ?thesis
  proof cases
    case lease
    from managed_trusted [OF assms(1) lease(1)]
    have "proto = ''tcp''" "trusted_port_list (effective_of c) proto = unique_ports (in_management_tcp i)"
      unfolding ports by (rule conjunct1, rule conjunct2)
    with lease(2) have "m (Dports ''tcp'' (unique_ports (in_management_tcp i))) p" by simp
    from disjI2 [OF conjI [OF this lease(3)]] show ?thesis .
  qed blast
qed

text \<open>C34. What a managed configuration lets in. Whatever intent a configuration was expanded from, the input
  chain that the compiler makes of it accepts a packet only if it is loopback traffic, a reply of an established
  connection on an interface of the configuration, a packet of a source that holds a lease to a management port
  (on any interface, the uplink included: the rule names none), a packet from the tunnel interface to a port that
  the intent publishes, or a packet from a LAN network of the intent to a management port or to a port it opens to
  the LAN.\<close>

theorem managed_exposure:
  assumes "nft_kernel m act" "intent_config i = Inr c" "ci_policy inp = effective_of c" "accepts m act (input_rules inp) p"
  shows "m (Iif ''lo'') p \<or>
    (m CtReply p \<and> m CtEstablished p \<and> (\<exists>x \<in> set (c_interfaces c). m (Iif (if_name x)) p)) \<or>
    (m (Dports ''tcp'' (unique_ports (in_management_tcp i))) p \<and>
      (m (InSet ''ip'' ''saddr'' ''trusted_v4'') p \<or> m (InSet ''ip6'' ''saddr'' ''trusted_v6'') p)) \<or>
    (m (Iif vpn_interface) p \<and>
      (m (Dports ''tcp'' (unique_ports (in_public_tcp i))) p \<or> m (Dports ''udp'' (unique_ports (in_public_udp i))) p)) \<or>
    (\<exists>n \<in> set (unique_trimmed (in_lan_networks i)). m (InNet ''ip'' ''saddr'' n) p \<and>
      (m (Dports ''tcp'' (unique_ports (in_management_tcp i))) p \<or> m (Dports ''tcp'' (unique_ports (in_lan_tcp i))) p \<or>
       m (Dports ''udp'' (unique_ports (in_lan_udp i))) p))"
proof (cases "early_input m c p \<or> reply_in m c p")
  case False
  let ?j = "canonicalize i"
  note parts = intent_config_parts [OF assms(2)]
  have vpn: "in_vpn_interface ?j = vpn_interface" and lan: "in_lan_networks ?j \<noteq> []" "\<forall>n \<in> set (in_lan_networks ?j). lan_network_ok n"
    using parts(1) by (auto simp: validate_intent_def list_all_iff)
  from False nft_kernel.input_accept [OF assms(1,3,4)] obtain r where
    r: "r \<in> set (rules_of_policies (effective_of c) ''input'' ''allow'')" "\<forall>x \<in> set (r_matches r). m x p"
    by (auto simp: policy_fits_def)
  from r(1) obtain q svc where q: "q \<in> set (c_policies c)" "policy_applies_to_chain q ''input''"
    "r \<in> set (policy_rules q svc (effective_of c) ''input'')" "ef_svcs (effective_of c) (p_service q) = Some svc"
    using policies_rule by (metis effective_sel)
  from q(2) have host: "p_to q = ''host''" by (simp add: policy_applies_to_chain_def)
  from docker_parts(2) [OF parts(2) q(1) host] have "q \<in> set (c_policies (base_config ?j))" .
  note from_zone = base_policies [OF this host]
  from q(3) host obtain ms f v where sel: "(ms, f, v) \<in> set (selectors (p_from q) ''source'' (effective_of c))"
    and ms: "set ms \<subseteq> set (r_matches r)" and svc: "service_match svc f \<in> set (r_matches r)"
    using input_policy_rule by metis
  have m_svc: "m (service_match svc f) p" and m_ms: "\<forall>x \<in> set ms. m x p" using r(2) svc ms by auto
  from from_zone have zn: "p_from q = ''lan'' \<or> p_from q = ''public-vpn''" by blast
  then have "p_from q \<noteq> ''any''" by auto
  from input_selector [OF sel this] obtain z where z: "ef_zones (effective_of c) (p_from q) = Some z"
    and ifs: "z_networks z = [] \<Longrightarrow> \<exists>n. Iif n \<in> set ms \<and> (n \<in> set (z_interfaces z) \<or> (\<exists>x \<in> set (c_interfaces c). if_zone x = p_from q \<and> if_name x = n))"
    and nets: "z_networks z \<noteq> [] \<Longrightarrow> \<exists>n \<in> set (z_networks z). InNet (family_expr n) ''saddr'' n \<in> set ms"
    by auto
  note zone = managed_zone [OF parts(2) z zn]
  show ?thesis
  proof (cases "p_from q = ''lan''")
    case True
    with zone lan nets obtain n where n: "n \<in> set (in_lan_networks ?j)" "InNet (family_expr n) ''saddr'' n \<in> set ms" by auto
    with lan(2) lan_family m_ms have "m (InNet ''ip'' ''saddr'' n) p" by metis
    moreover have "svc \<in> lan_tcp_service ?j"
      using managed_service [OF parts(2) q(4)] from_zone True by auto
    then have "m (Dports ''tcp'' (unique_ports (in_management_tcp i))) p \<or> m (Dports ''tcp'' (unique_ports (in_lan_tcp i))) p \<or>
        m (Dports ''udp'' (unique_ports (in_lan_udp i))) p"
      using m_svc by (auto simp: lan_tcp_service_def service_match_def canonicalize_def sorted_sort_id unique_ports_sorted)
    moreover have "n \<in> set (unique_trimmed (in_lan_networks i))" using n(1) by (simp add: canonicalize_def)
    ultimately show ?thesis by blast
  next
    case False
    with zn have pub: "p_from q = ''public-vpn''" by simp
    from docker_parts(4) [OF parts(2)] obtain xs where xs: "c_interfaces c = c_interfaces (base_config ?j) @ xs" "\<forall>x \<in> set xs. if_zone x = ''containers''"
      by blast
    from zone pub ifs obtain n where n: "Iif n \<in> set ms"
      "n = in_vpn_interface ?j \<or> (\<exists>x \<in> set (c_interfaces c). if_zone x = ''public-vpn'' \<and> if_name x = n)" by auto
    have "n = vpn_interface"
      using n(2) xs vpn by (auto simp: base_interfaces managed_interface_def)
    with n(1) m_ms have "m (Iif vpn_interface) p" by blast
    moreover have "svc \<in> tunnel_service ?j"
      using managed_service [OF parts(2) q(4)] from_zone pub by auto
    then have "m (Dports ''tcp'' (unique_ports (in_public_tcp i))) p \<or> m (Dports ''udp'' (unique_ports (in_public_udp i))) p"
      using m_svc by (auto simp: tunnel_service_def service_match_def canonicalize_def sorted_sort_id unique_ports_sorted)
    ultimately show ?thesis by blast
  qed
next
  case True
  then show ?thesis
  proof
    assume "early_input m c p"
    from managed_early_input [OF intent_config_parts(2) [OF assms(2)] this] show ?thesis
      by (rule disjE) (erule disjI1, rule disjI2, rule disjI2, erule disjI1)
  next
    assume "reply_in m c p"
    then show ?thesis unfolding reply_in_def by (rule disjI2 [OF disjI1])
  qed
qed

section \<open>Docker networks of an accepted intent\<close>

definition subnet_of :: "string \<Rightarrow> prefix_t" where
  "subnet_of raw = masked (parse_prefix_or_zero (trim_space raw))"

definition docker_subnets :: "docker_network list \<Rightarrow> string list" where
  "docker_subnets ds = concat (map d_subnets ds)"

text \<open>The address ranges a container network must keep out of.\<close>

definition taken_ranges :: "intent \<Rightarrow> prefix_t list" where
  "taken_ranges i = reserved_ipv4 @ masked_all (in_lan_networks i) @ masked_all (in_vpn_addresses i) @ masked_all (in_bootstrap i)"

definition clear_of :: "intent \<Rightarrow> prefix_t \<Rightarrow> bool" where
  "clear_of i p \<longleftrightarrow> prefix_valid p \<and> is4 (paddr p) \<and> pbits p \<noteq> 0 \<and> \<not> list_ex (overlaps p) (taken_ranges i)"

lemma isolation_subnet_Ok:
  assumes "isolation_subnet i name owned raw = Inr owned'"
  shows "owned' = owned @ [(name, subnet_of raw)] \<and> clear_of i (subnet_of raw) \<and> (\<forall>q \<in> set owned. \<not> overlaps (subnet_of raw) (snd q))"
proof -
  let ?p = "parse_prefix_or_zero (trim_space raw)"
  from assms have ok: "parse_prefix (trim_space raw) \<noteq> None" "is4 (paddr ?p)" "pbits ?p \<noteq> 0"
      "\<not> list_ex (overlaps (masked ?p)) (taken_ranges i)" "find (\<lambda>(_, q). overlaps (masked ?p) q) owned = None"
      "owned' = owned @ [(name, masked ?p)]"
    by (auto simp: isolation_subnet_def Let_def taken_ranges_def split: option.splits)
  from ok(1) have valid: "prefix_valid ?p" by (auto simp: parse_prefix_or_zero_def dest: parse_prefix_valid)
  with ok(2) have "is4 (paddr (masked ?p))" "pbits (masked ?p) = pbits ?p"
    by (cases "paddr ?p"; simp add: masked_def)+
  with ok valid show ?thesis by (auto simp: clear_of_def subnet_of_def find_None_iff split: prod.splits)
qed

text \<open>The loop over the subnets of all networks is one loop.\<close>

definition owned_ok :: "intent \<Rightarrow> prefix_t list \<Rightarrow> bool" where
  "owned_ok i ps \<longleftrightarrow> (\<forall>p \<in> set ps. clear_of i p) \<and> sorted_wrt (\<lambda>p q. \<not> overlaps q p) ps"

lemma owned_ok_Nil [simp]: "owned_ok i []"
  by (simp add: owned_ok_def)

lemma isolation_network_Ok:
  assumes "foldE (isolation_subnet i name) owned raws = Inr owned'" "owned_ok i (map snd owned)"
  shows "map snd owned' = map snd owned @ map subnet_of raws \<and> owned_ok i (map snd owned')"
  using assms
proof (induction raws arbitrary: owned)
  case (Cons raw raws)
  from Cons.prems(1) obtain o1 where o1: "isolation_subnet i name owned raw = Inr o1" "foldE (isolation_subnet i name) o1 raws = Inr owned'"
    by (auto split: sum.splits)
  from isolation_subnet_Ok [OF o1(1)] Cons.prems(2) have "owned_ok i (map snd o1)" "map snd o1 = map snd owned @ [subnet_of raw]"
    by (auto simp: owned_ok_def sorted_wrt_append)
  with Cons.IH [OF o1(2)] show ?case by auto
qed simp

lemma isolation_Ok:
  assumes "foldE (isolation_network i) owned ds = Inr owned'" "owned_ok i (map snd owned)"
  shows "map snd owned' = map snd owned @ map subnet_of (docker_subnets ds) \<and> owned_ok i (map snd owned')"
  using assms
proof (induction ds arbitrary: owned)
  case (Cons d ds)
  from Cons.prems(1) obtain o1 where o1: "isolation_network i owned d = Inr o1" "foldE (isolation_network i) o1 ds = Inr owned'"
    by (auto split: sum.splits)
  from isolation_network_Ok [OF o1(1) [unfolded isolation_network_def] Cons.prems(2)]
  have m: "map snd o1 = map snd owned @ map subnet_of (d_subnets d)" and ok: "owned_ok i (map snd o1)" by blast+
  from Cons.IH [OF o1(2) ok] show ?case by (auto simp: m docker_subnets_def)
qed (simp add: docker_subnets_def)

text \<open>C35. Container networks of an accepted intent are isolated: every subnet is a proper IPv4 prefix, none of its addresses is
  in a reserved range, in a LAN network, in the network of a tunnel address or a bootstrap address, and no address is in
  two of the subnets, of the same network or of different ones.\<close>

theorem docker_networks_isolated:
  assumes "validate_intent i = None"
  shows "(\<forall>p \<in> set (map subnet_of (docker_subnets (in_docker_networks i))).
      prefix_valid p \<and> is4 (paddr p) \<and> 0 < pbits p \<and>
      (\<forall>a. prefix_contains p a \<longrightarrow> (\<forall>r \<in> set (taken_ranges i). \<not> prefix_contains r a))) \<and>
    sorted_wrt (\<lambda>p q. \<not> (\<exists>a. prefix_contains p a \<and> prefix_contains q a)) (map subnet_of (docker_subnets (in_docker_networks i)))"
proof -
  from assms obtain owned where "foldE (isolation_network i) [] (in_docker_networks i) = Inr owned"
    by (auto simp: validate_intent_def validate_isolation_def)
  from isolation_Ok [OF this] have ok: "owned_ok i (map subnet_of (docker_subnets (in_docker_networks i)))"
    by auto
  have apart: "\<not> (prefix_contains p a \<and> prefix_contains q a)" if "prefix_valid p" "\<not> overlaps p q" for p q a
    using that overlaps_iff_common [of p q] by (auto simp: prefix_contains_def)
  have "sorted_wrt (\<lambda>p q. \<not> (\<exists>a. prefix_contains p a \<and> prefix_contains q a)) (map subnet_of (docker_subnets (in_docker_networks i)))"
    by (rule sorted_wrt_mono_rel [of _ "\<lambda>p q. \<not> overlaps q p"]) (use ok apart in \<open>auto simp: owned_ok_def clear_of_def\<close>)
  moreover have "prefix_valid p \<and> is4 (paddr p) \<and> 0 < pbits p \<and>
      (\<forall>a. prefix_contains p a \<longrightarrow> (\<forall>r \<in> set (taken_ranges i). \<not> prefix_contains r a))"
    if "p \<in> set (map subnet_of (docker_subnets (in_docker_networks i)))" for p
  proof -
    have c: "clear_of i p" using ok that by (auto simp: owned_ok_def)
    then have "0 \<le> pbits p" by (simp add: clear_of_def prefix_valid_def)
    with c apart [of p] show ?thesis by (auto simp: clear_of_def list_ex_iff)
  qed
  ultimately show ?thesis by blast
qed

section \<open>A managed host\<close>

definition site_intent :: intent where
  "site_intent = \<lparr>in_schema = intent_schema, in_managed = True, in_uplink = ''eth0'', in_vpn_interface = vpn_interface,
     in_lan_networks = [''192.168.1.0/24''], in_management_tcp = [22], in_lan_tcp = [], in_lan_udp = [],
     in_public_tcp = [443], in_public_udp = [], in_vpn_addresses = [''10.2.0.2/32''], in_endpoint_host = ''203.0.113.9'',
     in_endpoint_port = 51820, in_bootstrap = [''203.0.113.9/32''], in_dns = [], in_mtu = 0, in_resolver_mode = [],
     in_disable_ipv6 = True, in_docker_enabled = True,
     in_docker_networks = [\<lparr>d_name = ''bridge'', d_driver = ''bridge'', d_bridge_interface = ''docker0'', d_dynamic_bridge = False,
       d_subnets = [''172.17.0.0/16''], d_gateways = [''172.17.0.1'']\<rparr>]\<rparr>"

lemmas intent_eval = site_intent_def intent_schema_def vpn_interface_def vpn_fwmark_def vpn_config_def valid_ports_def port_ok_def
  port_add_def unique_ports_def string_add_def unique_trimmed_def tcp_mss_def canonicalize_ipam_def canonicalize_def reserved_ipv4_def
  masked_all_def isolation_subnet_def isolation_network_def validate_isolation_def lan_network_ok_def vpn_address_ok_def
  bootstrap_ok_def validate_intent_def sort_slice_def

lemma site_canonical: "canonicalize site_intent = site_intent"
  by (simp add: intent_eval string_eval)

lemma site_intent_valid: "validate_intent site_intent = None"
  by (simp add: intent_eval go_eval string_eval)

lemma site_subnet_contains: "prefix_contains (subnet_of ''172.17.0.0/16'') (A4 0xAC110002)"
  by (simp add: subnet_of_def prefix_contains_def go_eval string_eval)

theorem docker_networks_isolated_witness:
  "\<not> prefix_contains (masked (parse_prefix_or_zero ''192.168.1.0/24'')) (A4 0xAC110002)"
  using docker_networks_isolated [OF site_intent_valid] site_subnet_contains
  by (auto simp: site_intent_def docker_subnets_def taken_ranges_def masked_all_def)

text \<open>The same host without Docker, and a packet that its public port lets in.\<close>

definition plain_site :: intent where
  "plain_site = site_intent\<lparr>in_docker_enabled := False, in_docker_networks := []\<rparr>"

lemma plain_canonical: "canonicalize plain_site = plain_site"
  by (simp add: plain_site_def intent_eval string_eval)

lemma plain_valid: "validate_intent plain_site = None"
  by (simp add: plain_site_def intent_eval go_eval string_eval)

lemmas plain_site_eval = plain_site_def site_intent_def base_config_def managed_interface_def defaults_def add_service_policy_def
  vpn_interface_def vpn_fwmark_def vpn_config_def tcp_mss_def unique_ports_def port_add_def port_ok_def

lemma plain_config_valid: "validate (base_config plain_site) = None"
  by (simp add: plain_site_eval go_eval string_eval Let_def)

lemma plain_config: "intent_config plain_site = Inr (base_config plain_site)"
  by (simp add: intent_config_def plain_canonical plain_valid with_docker_def plain_config_valid) (simp add: plain_site_def)


definition https_packet :: packet where
  "https_packet = mk_packet ''nftfw0'' [] (A4 0xC6336401) (A4 0x0A020002) ''tcp'' 40000 443"

lemma https_accepted: "accepts (ref_match (sets_of (home_input (base_config plain_site)))) ref_act
    (input_rules (home_input (base_config plain_site))) https_packet"
  by (simp add: https_packet_def run_eval plain_site_eval go_eval string_eval)

theorem managed_exposure_witness:
  "ref_match (sets_of (home_input (base_config plain_site))) (Iif vpn_interface) https_packet"
  using managed_exposure [OF ref_kernel.nft_kernel_axioms plain_config home_input_sel https_accepted]
  by (simp add: https_packet_def run_eval plain_site_eval early_input_def reply_in_def go_eval string_eval)

end
