(* ===== verification/Commands.thy ===== *)
theory Commands
  imports Wg_Profile Json Effects Config
begin

text \<open>
  What the packages that drive other programs share: running a command, and reading its output.
  \<^item> A \<open>runner\<close> takes the input and the argument vector of a command and returns its output or an error, and the
    host after it. It stands for the \<^verbatim>\<open>Runner\<close> interfaces of the packages \<^verbatim>\<open>routing\<close> and \<^verbatim>\<open>discovery\<close>; the time
    limits and the limit of the output are among its errors.
  \<^item> \<open>coded\<close> replaces an error by a code, as in \<^verbatim>\<open>errors.New("...")\<close>. \<open>failing\<close> is a deferred clean-up of a function
    that fails.
  \<^item> The rest of \<^verbatim>\<open>encoding/json\<close> and \<^verbatim>\<open>strconv\<close> that they use: slices, booleans, signed integers, raw values, and
    \<^verbatim>\<open>strconv.ParseUint\<close> with base 0 and 10.
\<close>

section \<open>Commands\<close>

type_synonym 'h runner = "string option \<Rightarrow> string list \<Rightarrow> ('h, string) prog"

definition code_err :: "string \<Rightarrow> goerr" where "code_err s = Errorf s []"

definition coded :: "string \<Rightarrow> ('h, 'a) prog \<Rightarrow> ('h, 'a) prog" where
  "coded s m = wrapP (\<lambda>_. code_err s) m"

definition coded_step :: "string \<Rightarrow> ('h, 'a) prog \<Rightarrow> ('h, unit) prog" where
  "coded_step s m = bindP (coded s m) (\<lambda>_. ret ())"

definition failing :: "('h, unit) prog \<Rightarrow> ('h, 'a) prog \<Rightarrow> ('h, 'a) prog" where
  "failing c m w = (case m w of (Inl e, w') \<Rightarrow> (Err e, snd (c w')) | (Inr x, w') \<Rightarrow> (Ok x, w'))"

lemmas command_run [prog_run, go_eval] = coded_def coded_step_def failing_def

lemma wp_coded [simp]: "wp (coded s m) Q E = wp m Q (\<lambda>_. E (code_err s))"
  by (simp add: coded_def)

lemma wp_step [simp]: "wp (coded_step s m) Q E = wp m (\<lambda>_. Q ()) (\<lambda>_. E (code_err s))"
  by (simp add: coded_step_def)

lemma wp_failing: "wp (failing c m) Q E = wp m Q (\<lambda>e. wp c (\<lambda>_. E e) (\<lambda>_. E e))"
  by (rule ext) (auto simp: wp_def failing_def split: prod.splits sum.splits)

text \<open>The text of an error that is a code.\<close>

fun code_text :: "goerr \<Rightarrow> string" where
  "code_text (Errorf s _) = s"
| "code_text _ = []"

section \<open>Values of JSON\<close>

definition get_bool :: "(bool \<Rightarrow> 's \<Rightarrow> 's) \<Rightarrow> json \<Rightarrow> 's \<Rightarrow> 's result" where
  "get_bool put v s = (case v of JNull \<Rightarrow> Ok s | JBool b \<Rightarrow> Ok (put b s) | _ \<Rightarrow> Err type_error)"

text \<open>A field of type \<^verbatim>\<open>*bool\<close>.\<close>

definition get_bool_ptr :: "(bool option \<Rightarrow> 's \<Rightarrow> 's) \<Rightarrow> json \<Rightarrow> 's \<Rightarrow> 's result" where
  "get_bool_ptr put v s =
     (case v of JNull \<Rightarrow> Ok (put None s) | JBool b \<Rightarrow> Ok (put (Some b) s) | _ \<Rightarrow> Err type_error)"

definition get_int :: "(int \<Rightarrow> 's \<Rightarrow> 's) \<Rightarrow> json \<Rightarrow> 's \<Rightarrow> 's result" where
  "get_int put v s =
     (case v of
        JNull \<Rightarrow> Ok s
      | JNum lit \<Rightarrow> (case atoi lit of None \<Rightarrow> Err type_error | Some n \<Rightarrow> Ok (put n s))
      | _ \<Rightarrow> Err type_error)"

text \<open>A field of type \<^verbatim>\<open>json.RawMessage\<close>, which also keeps a \<^verbatim>\<open>null\<close>.\<close>

definition get_raw :: "(json option \<Rightarrow> 's \<Rightarrow> 's) \<Rightarrow> json \<Rightarrow> 's \<Rightarrow> 's result" where
  "get_raw put v s = Ok (put (Some v) s)"

fun mapE :: "('a \<Rightarrow> 'b result) \<Rightarrow> 'a list \<Rightarrow> 'b list result" where
  "mapE f [] = Ok []"
| "mapE f (x # xs) = bindE (f x) (\<lambda>y. bindE (mapE f xs) (\<lambda>ys. Ok (y # ys)))"

lemma mapE_Ok: "mapE f xs = Inr ys \<longleftrightarrow> list_all2 (\<lambda>x y. f x = Inr y) xs ys"
proof (induction xs arbitrary: ys)
  case (Cons x xs)
  then show ?case by (cases ys) (auto simp: bindE_eq_Ok)
qed auto

text \<open>A slice, and the fields of a new element of it. \<^verbatim>\<open>null\<close> gives no elements.\<close>

definition slice_of :: "(json \<Rightarrow> 'a result) \<Rightarrow> json \<Rightarrow> 'a list result" where
  "slice_of f v = (case v of JNull \<Rightarrow> Ok [] | JArr vs \<Rightarrow> mapE f vs | _ \<Rightarrow> Err type_error)"

text \<open>\<^verbatim>\<open>json.Unmarshal\<close> into a string and into a \<^verbatim>\<open>uint64\<close>.\<close>

definition text_value :: "json \<Rightarrow> string option" where
  "text_value v = (case v of JStr t \<Rightarrow> Some t | JNull \<Rightarrow> Some [] | _ \<Rightarrow> None)"

definition uint_value :: "json \<Rightarrow> nat option" where
  "uint_value v = (case v of JNum lit \<Rightarrow> uint_of 64 lit | JNull \<Rightarrow> Some 0 | _ \<Rightarrow> None)"

text \<open>The output of a command, at most \<open>limit\<close> bytes of it.\<close>

definition decode_output :: "nat \<Rightarrow> (json \<Rightarrow> 'a result) \<Rightarrow> string \<Rightarrow> 'a result" where
  "decode_output limit f out =
     (if out = [] \<or> limit < length out then Err type_error
      else case json_decode out of None \<Rightarrow> Err type_error | Some v \<Rightarrow> f v)"

section \<open>Numbers\<close>

definition based_digit :: "nat \<Rightarrow> char \<Rightarrow> nat option" where
  "based_digit b c =
     (case hex_val (lower_char c) of None \<Rightarrow> None | Some d \<Rightarrow> if d < b then Some d else None)"

text \<open>Digits with underscores between them.\<close>

fun based_value :: "nat \<Rightarrow> nat \<Rightarrow> string \<Rightarrow> nat option" where
  "based_value b n [] = Some n"
| "based_value b n (c # s) =
     (if c = CHR ''_'' then based_value b n s
      else case based_digit b c of None \<Rightarrow> None | Some d \<Rightarrow> based_value b (n * b + d) s)"

fun underscores_ok :: "bool \<Rightarrow> string \<Rightarrow> bool" where
  "underscores_ok digit [] = True"
| "underscores_ok digit (c # s) =
     (if c = CHR ''_'' then digit \<and> s \<noteq> [] \<and> underscores_ok False s else underscores_ok True s)"

text \<open>\<^verbatim>\<open>strconv.ParseUint(s, 0, w)\<close>. In a number in octal, decimal or binary a digit before an underscore is one of them.\<close>

definition parse_uint0 :: "nat \<Rightarrow> string \<Rightarrow> nat option" where
  "parse_uint0 w s =
     (let (b, body, digit) =
        (case s of
           a # p # rest \<Rightarrow>
             if a = CHR ''0'' \<and> rest \<noteq> [] \<and> lower_char p = CHR ''x'' then (16, rest, True)
             else if a = CHR ''0'' \<and> rest \<noteq> [] \<and> lower_char p = CHR ''o'' then (8, rest, True)
             else if a = CHR ''0'' \<and> rest \<noteq> [] \<and> lower_char p = CHR ''b'' then (2, rest, True)
             else if a = CHR ''0'' then (8, p # rest, True)
             else (10, s, False)
         | _ \<Rightarrow> (10, s, False)) in
      if s = [] \<or> \<not> underscores_ok digit body then None
      else case based_value b 0 body of None \<Rightarrow> None | Some n \<Rightarrow> if int n < 2 ^ w then Some n else None)"

definition parse_uint10 :: "nat \<Rightarrow> string \<Rightarrow> nat option" where
  "parse_uint10 w s = uint_of w s"

text \<open>\<^verbatim>\<open>v, _ := strconv.ParseInt(s, 10, 64)\<close>: a number out of range gives the nearest one, no number gives 0.\<close>

definition parse_int_or :: "string \<Rightarrow> int" where
  "parse_int_or s =
     (let negative = has_prefix s ''-'';
          ds = (if negative \<or> has_prefix s ''+'' then tl s else s) in
      case dec_value ds of
        None \<Rightarrow> 0
      | Some n \<Rightarrow> if negative then max (- (2 ^ 63)) (- int n) else min (2 ^ 63 - 1) (int n))"

end
