(* ===== verification/Routing.thy ===== *)
theory Routing
  imports Commands Config
begin

text \<open>
  The tunnel and its policy routing, \<^verbatim>\<open>src/internal/routing/manager.go\<close>: \<^verbatim>\<open>PreflightClean\<close>, \<^verbatim>\<open>Up\<close>, \<^verbatim>\<open>Down\<close>, \<^verbatim>\<open>Status\<close>,
  the resolver, and what they read of the output of iproute2. \<open>tunnel_env\<close> is the outside: the runner of commands and
  the calls of the file system that stage the secrets; both are programs over a host of any type. The contexts and
  the file descriptors are not modelled; the descriptor of the staged file stands for its path.
\<close>

section \<open>Data\<close>

definition default_table :: int where "default_table = 51820"
definition main_rule_priority :: int where "main_rule_priority = 32764"
definition vpn_rule_priority :: int where "vpn_rule_priority = 32765"
definition default_command_output :: nat where "default_command_output = 1048576"

definition resolver_none :: string where "resolver_none = ''none''"
definition resolver_resolvectl :: string where "resolver_resolvectl = ''resolvectl''"
definition resolver_resolvconf :: string where "resolver_resolvconf = ''resolvconf''"

record tunnel_config =
  tc_interface :: string
  tc_uplink :: string
  tc_fwmark :: string
  tc_table :: int
  tc_addresses :: "prefix_t list"
  tc_endpoint :: addr
  tc_dns :: "addr list"
  tc_mtu :: int
  tc_profile :: profile
  tc_resolver :: string
  tc_runtime_dir :: string

datatype file_call =
    Mkdir_all string
  | Chmod_dir string
  | Create_temp string
  | File_chmod string
  | File_write string string
  | File_sync string
  | File_close string
  | Remove_file string

record 'h tunnel_env =
  tv_run :: "'h runner"
  tv_file :: "file_call \<Rightarrow> ('h, string) prog"

abbreviation cmd :: "'h tunnel_env \<Rightarrow> string list \<Rightarrow> ('h, string) prog" where
  "cmd env args \<equiv> tv_run env None args"

definition validate_tunnel :: "tunnel_config \<Rightarrow> goerr option" where
  "validate_tunnel c = first_err [
     refuse (tc_interface c = [] \<or> tc_uplink c = [] \<or> tc_interface c = tc_uplink c \<or> tc_table c < 1 \<or>
         0x7fffffff < tc_table c \<or> tc_runtime_dir c = [])
       (code_err ''TUNNEL_CONFIG_INVALID''),
     refuse (tc_fwmark c = [] \<or> \<not> is4 (tc_endpoint c) \<or> is_unspecified (tc_endpoint c) \<or> is_loopback (tc_endpoint c) \<or>
         is_multicast (tc_endpoint c) \<or> tc_addresses c = [])
       (code_err ''TUNNEL_CONFIG_INVALID''),
     refuse (\<not> list_all (\<lambda>p. is4 (paddr p) \<and> pbits p \<noteq> 0) (tc_addresses c)) (code_err ''TUNNEL_CONFIG_INVALID''),
     refuse (\<not> list_all (\<lambda>a. is4 a \<and> \<not> is_unspecified a \<and> \<not> is_loopback a \<and> \<not> is_multicast a) (tc_dns c))
       (code_err ''TUNNEL_DNS_INVALID''),
     refuse (tc_dns c \<noteq> [] \<and> tc_resolver c \<noteq> resolver_resolvectl \<and> tc_resolver c \<noteq> resolver_resolvconf)
       (code_err ''TUNNEL_RESOLVER_UNSUPPORTED''),
     refuse (tc_resolver c \<noteq> resolver_none \<and> tc_resolver c \<noteq> resolver_resolvectl \<and> tc_resolver c \<noteq> resolver_resolvconf)
       (code_err ''TUNNEL_RESOLVER_UNSUPPORTED''),
     (case parse_uint0 32 (tc_fwmark c) of
        None \<Rightarrow> Some (code_err ''TUNNEL_CONFIG_INVALID'')
      | Some n \<Rightarrow> refuse (n = 0) (code_err ''TUNNEL_CONFIG_INVALID''))]"

section \<open>Rules and routes of the host\<close>

record policy_rule =
  ru_priority :: int
  ru_table :: "json option"
  ru_fwmark :: "json option"
  ru_not :: bool
  ru_suppress :: "json option"

definition empty_rule :: policy_rule where
  "empty_rule = \<lparr>ru_priority = 0, ru_table = None, ru_fwmark = None, ru_not = False, ru_suppress = None\<rparr>"

definition policy_rule_fields :: "policy_rule decoder" where
  "policy_rule_fields =
     [(''priority'', get_int (\<lambda>v. ru_priority_update (\<lambda>_. v))), (''table'', get_raw (\<lambda>v. ru_table_update (\<lambda>_. v))),
      (''fwmark'', get_raw (\<lambda>v. ru_fwmark_update (\<lambda>_. v))), (''not'', get_bool (\<lambda>v. ru_not_update (\<lambda>_. v))),
      (''suppress_prefixlength'', get_raw (\<lambda>v. ru_suppress_update (\<lambda>_. v)))]"

definition decode_rules :: "string \<Rightarrow> policy_rule list result" where
  "decode_rules = decode_output default_command_output (slice_of (\<lambda>v. decode_fields False policy_rule_fields v empty_rule))"

definition raw_number_or_name :: "json option \<Rightarrow> string \<Rightarrow> nat \<Rightarrow> bool" where
  "raw_number_or_name raw name number \<longleftrightarrow>
     (case raw of
        None \<Rightarrow> False
      | Some v \<Rightarrow>
          (case text_value v of
             Some t \<Rightarrow> (name \<noteq> [] \<and> t = name) \<or> parse_uint0 64 t = Some number
           | None \<Rightarrow> uint_value v = Some number))"

definition is_managed_main :: "policy_rule \<Rightarrow> bool" where
  "is_managed_main r \<longleftrightarrow> ru_priority r = main_rule_priority \<and> raw_number_or_name (ru_table r) ''main'' 254 \<and>
     raw_number_or_name (ru_suppress r) [] 0 \<and> ru_fwmark r = None"

definition is_managed_vpn :: "nat \<Rightarrow> nat \<Rightarrow> policy_rule \<Rightarrow> bool" where
  "is_managed_vpn table fwmark r \<longleftrightarrow> ru_priority r = vpn_rule_priority \<and> raw_number_or_name (ru_table r) [] table \<and>
     raw_number_or_name (ru_fwmark r) [] fwmark \<and> ru_not r"

definition table_number :: "int \<Rightarrow> nat result" where
  "table_number t =
     (if t < 1 \<or> 0x7fffffff < t then Err (Errorf ''invalid route table'' [])
      else case parse_uint10 32 (itoa_int t) of None \<Rightarrow> Err (External ''strconv.ParseUint'') | Some n \<Rightarrow> Ok n)"

record route_observation =
  ro_table :: "json option"
  ro_destination :: string
  ro_device :: string

text \<open>The decoder of a route: names match exactly, a field that is read may not occur twice.\<close>

definition route_member :: "string list \<times> route_observation \<Rightarrow> string \<times> json \<Rightarrow> (string list \<times> route_observation) result" where
  "route_member st kv =
     (case (st, kv) of ((seen, r), (k, v)) \<Rightarrow>
        if k \<in> {''table'', ''dst'', ''dev''} \<and> k \<in> set seen then Err (Errorf ''duplicate route field'' [])
        else if k = ''table'' then Ok (k # seen, r\<lparr>ro_table := Some v\<rparr>)
        else if k = ''dst'' \<or> k = ''dev'' then
          (case v of
             JNull \<Rightarrow> Ok (k # seen, r)
           | JStr t \<Rightarrow> Ok (k # seen, if k = ''dst'' then r\<lparr>ro_destination := t\<rparr> else r\<lparr>ro_device := t\<rparr>)
           | _ \<Rightarrow> Err (Errorf (if k = ''dst'' then ''invalid route destination'' else ''invalid route device'') []))
        else Ok (seen, r))"

definition decode_route :: "json \<Rightarrow> route_observation result" where
  "decode_route v =
     (case v of
        JObj ms \<Rightarrow>
          bindE (foldE route_member ([], \<lparr>ro_table = None, ro_destination = [], ro_device = []\<rparr>) ms) (\<lambda>st. Ok (snd st))
      | _ \<Rightarrow> Err (Errorf ''route is not an object'' []))"

definition numeric_route_table :: "json \<Rightarrow> nat result" where
  "numeric_route_table v =
     (case text_value v of
        Some t \<Rightarrow> (case parse_uint10 32 t of None \<Rightarrow> Err (External ''strconv.ParseUint'') | Some n \<Rightarrow> Ok n)
      | None \<Rightarrow>
          (case uint_value v of
             None \<Rightarrow> Err (Errorf ''invalid route table'' [])
           | Some n \<Rightarrow> if 0xffffffff < n then Err (Errorf ''invalid route table'' []) else Ok n))"

fun routes_of_table :: "nat \<Rightarrow> route_observation list \<Rightarrow> route_observation list result" where
  "routes_of_table table [] = Ok []"
| "routes_of_table table (r # rs) =
     (case ro_table r of
        None \<Rightarrow> routes_of_table table rs
      | Some raw \<Rightarrow>
          (case numeric_route_table raw of
             Inl _ \<Rightarrow> Err (Errorf ''invalid route table'' [])
           | Inr n \<Rightarrow>
               bindE (routes_of_table table rs) (\<lambda>found.
               Ok (if n = table then r # found else found))))"

definition decode_managed_routes :: "string \<Rightarrow> int \<Rightarrow> route_observation list result" where
  "decode_managed_routes out table =
     bindE (table_number table) (\<lambda>t.
     bindE (decode_output default_command_output
        (\<lambda>v. if v = JNull then Err (Errorf ''invalid route output'' []) else slice_of decode_route v) out) (\<lambda>rs.
     routes_of_table t rs))"

definition show_rules :: "string list" where "show_rules = [''ip'', ''-j'', ''-4'', ''rule'', ''show'']"
definition show_routes :: "string list" where
  "show_routes = [''ip'', ''-j'', ''-N'', ''-4'', ''route'', ''show'', ''table'', ''all'']"
definition show_links :: "string list" where "show_links = [''ip'', ''-j'', ''-d'', ''link'', ''show'']"
definition show_link :: "string \<Rightarrow> string list" where "show_link i = [''ip'', ''link'', ''show'', ''dev'', i]"

definition inspect_managed_routes :: "'h tunnel_env \<Rightarrow> int \<Rightarrow> ('h, route_observation list) prog" where
  "inspect_managed_routes env table =
     bindP (of_result (table_number table)) (\<lambda>_.
     bindP (cmd env show_routes) (\<lambda>out.
     of_result (decode_managed_routes out table)))"

definition read_rules :: "'h tunnel_env \<Rightarrow> ('h, policy_rule list) prog" where
  "read_rules env = coded ''TUNNEL_RULE_VERIFY_FAILED'' (bindP (cmd env show_rules) (\<lambda>out. of_result (decode_rules out)))"

definition uses_priority :: "policy_rule \<Rightarrow> bool" where
  "uses_priority r \<longleftrightarrow> ru_priority r = main_rule_priority \<or> ru_priority r = vpn_rule_priority"

definition ensure_priorities_available :: "'h tunnel_env \<Rightarrow> ('h, unit) prog" where
  "ensure_priorities_available env =
     bindP (read_rules env) (\<lambda>rs. refuseP (list_ex uses_priority rs) (code_err ''TUNNEL_RULE_PRIORITY_CONFLICT''))"

definition owned_route :: "tunnel_config \<Rightarrow> route_observation \<Rightarrow> bool" where
  "owned_route c r \<longleftrightarrow> (ro_destination r = ''default'' \<or> ro_destination r = ''0.0.0.0/0'') \<and> ro_device r = tc_interface c"

text \<open>The number and the mark are those of a configuration that was validated; the errors of their parsers are dropped.\<close>

definition mark_of :: "tunnel_config \<Rightarrow> nat" where
  "mark_of c = (case parse_uint0 32 (tc_fwmark c) of None \<Rightarrow> 0 | Some n \<Rightarrow> n)"

definition table_of :: "tunnel_config \<Rightarrow> nat" where
  "table_of c = (case table_number (tc_table c) of Inl _ \<Rightarrow> 0 | Inr n \<Rightarrow> n)"

definition check_ownership_conflicts :: "'h tunnel_env \<Rightarrow> tunnel_config \<Rightarrow> ('h, unit) prog" where
  "check_ownership_conflicts env c =
     bindP (read_rules env) (\<lambda>rs.
     thenP (refuseP (list_ex (\<lambda>r. uses_priority r \<and> \<not> is_managed_main r \<and> \<not> is_managed_vpn (table_of c) (mark_of c) r) rs)
       (code_err ''TUNNEL_RULE_PRIORITY_CONFLICT''))
     (bindP (coded ''TUNNEL_ROUTE_TABLE_INSPECTION_FAILED'' (inspect_managed_routes env (tc_table c))) (\<lambda>routes.
     refuseP (\<not> list_all (owned_route c) routes) (code_err ''TUNNEL_ROUTE_TABLE_CONFLICT''))))"

record link_name =
  ln_name :: string

definition decode_links :: "string \<Rightarrow> link_name list result" where
  "decode_links = decode_output default_command_output
     (slice_of (\<lambda>v. decode_fields False [(''ifname'', get_string (\<lambda>v. ln_name_update (\<lambda>_. v)))] v \<lparr>ln_name = []\<rparr>))"

definition preflight_clean :: "'h tunnel_env \<Rightarrow> tunnel_config \<Rightarrow> ('h, unit) prog" where
  "preflight_clean env c =
     thenP (check (validate_tunnel c))
     (thenP (ensure_priorities_available env)
     (bindP (coded ''TUNNEL_ROUTE_TABLE_INSPECTION_FAILED'' (inspect_managed_routes env (tc_table c))) (\<lambda>routes.
     thenP (refuseP (routes \<noteq> []) (code_err ''TUNNEL_ROUTE_TABLE_CONFLICT''))
     (bindP (coded ''TUNNEL_LINK_INSPECTION_FAILED'' (bindP (cmd env show_links) (\<lambda>out. of_result (decode_links out)))) (\<lambda>links.
     refuseP (tc_interface c \<in> set (map ln_name links)) (code_err ''TUNNEL_INTERFACE_CONFLICT''))))))"

section \<open>The resolver\<close>

definition detect_resolver :: "'h tunnel_env \<Rightarrow> bool \<Rightarrow> ('h, string) prog" where
  "detect_resolver env hasDNS =
     (if \<not> hasDNS then ret resolver_none
      else
        elseP (cmd env [''resolvectl'', ''status''])
          (\<lambda>_. elseP (cmd env [''resolvconf'', ''--version''])
            (\<lambda>_. failp (code_err ''TUNNEL_RESOLVER_UNSUPPORTED'')) (\<lambda>_. ret resolver_resolvconf))
          (\<lambda>_. ret resolver_resolvectl))"

definition nameservers :: "addr list \<Rightarrow> string" where
  "nameservers as = concat (map (\<lambda>a. ''nameserver '' @ addr_string a @ NL) as)"

definition configure_dns :: "'h tunnel_env \<Rightarrow> tunnel_config \<Rightarrow> ('h, unit) prog" where
  "configure_dns env c =
     (let i = tc_interface c; failed = coded_step ''TUNNEL_DNS_CONFIG_FAILED'' in
      if tc_dns c = [] \<or> tc_resolver c = resolver_none then ret ()
      else if tc_resolver c = resolver_resolvectl then
        thenP (failed (cmd env ([''resolvectl'', ''dns'', i] @ map addr_string (tc_dns c))))
        (thenP (failed (cmd env [''resolvectl'', ''domain'', i, ''~.'']))
        (failed (cmd env [''resolvectl'', ''default-route'', i, ''yes''])))
      else if tc_resolver c = resolver_resolvconf then
        failed (tv_run env (Some (nameservers (tc_dns c))) [''resolvconf'', ''-a'', i, ''-m'', ''0'', ''-x''])
      else failp (code_err ''TUNNEL_RESOLVER_UNSUPPORTED''))"

definition clear_dns :: "'h tunnel_env \<Rightarrow> tunnel_config \<Rightarrow> ('h, unit) prog" where
  "clear_dns env c =
     (let i = tc_interface c; failed = coded_step ''TUNNEL_DNS_ROLLBACK_FAILED'' in
      if tc_resolver c = resolver_none \<or> tc_resolver c = [] then ret ()
      else if tc_resolver c = resolver_resolvectl then failed (cmd env [''resolvectl'', ''revert'', i])
      else if tc_resolver c = resolver_resolvconf then failed (cmd env [''resolvconf'', ''-d'', i, ''-f''])
      else failp (code_err ''TUNNEL_RESOLVER_UNSUPPORTED''))"

section \<open>The tunnel\<close>

definition delete_vpn_rule :: "tunnel_config \<Rightarrow> string list" where
  "delete_vpn_rule c = [''ip'', ''-4'', ''rule'', ''del'', ''pref'', itoa_int vpn_rule_priority, ''not'', ''fwmark'', tc_fwmark c,
     ''table'', itoa_int (tc_table c)]"

definition delete_main_rule :: "string list" where
  "delete_main_rule = [''ip'', ''-4'', ''rule'', ''del'', ''pref'', itoa_int main_rule_priority, ''table'', ''main'',
     ''suppress_prefixlength'', ''0'']"

definition add_vpn_rule :: "tunnel_config \<Rightarrow> string list" where
  "add_vpn_rule c = [''ip'', ''-4'', ''rule'', ''add'', ''pref'', itoa_int vpn_rule_priority, ''not'', ''fwmark'', tc_fwmark c,
     ''table'', itoa_int (tc_table c)]"

definition add_main_rule :: "string list" where
  "add_main_rule = [''ip'', ''-4'', ''rule'', ''add'', ''pref'', itoa_int main_rule_priority, ''table'', ''main'',
     ''suppress_prefixlength'', ''0'']"

definition delete_rules :: "'h tunnel_env \<Rightarrow> tunnel_config \<Rightarrow> ('h, unit) prog" where
  "delete_rules env c =
     thenP (ignoreP (cmd env (delete_vpn_rule c)))
     (thenP (ignoreP (cmd env delete_main_rule))
     (bindP (read_rules env) (\<lambda>rs.
     (case (parse_uint0 32 (tc_fwmark c), table_number (tc_table c)) of
        (Some mark, Inr table) \<Rightarrow>
          refuseP (list_ex (\<lambda>r. is_managed_main r \<or> is_managed_vpn table mark r) rs) (code_err ''TUNNEL_RULE_DELETE_FAILED'')
      | _ \<Rightarrow> failp (code_err ''TUNNEL_CONFIG_INVALID'')))))"

definition collect :: "('h, unit) prog \<Rightarrow> (string list \<Rightarrow> ('h, 'a) prog) \<Rightarrow> string list \<Rightarrow> ('h, 'a) prog" where
  "collect m k failures = elseP m (\<lambda>e. k (failures @ [code_text e])) (\<lambda>_. k failures)"

definition delete_link :: "'h tunnel_env \<Rightarrow> string \<Rightarrow> ('h, unit) prog" where
  "delete_link env i =
     elseP (cmd env [''ip'', ''link'', ''delete'', ''dev'', i])
       (\<lambda>_. elseP (cmd env (show_link i)) (\<lambda>_. ret ()) (\<lambda>_. failp (code_err ''TUNNEL_LINK_DELETE_FAILED'')))
       (\<lambda>_. ret ())"

definition tunnel_down :: "'h tunnel_env \<Rightarrow> tunnel_config \<Rightarrow> ('h, unit) prog" where
  "tunnel_down env c =
     thenP (refuseP (tc_interface c = [] \<or> tc_table c < 1 \<or> 0x7fffffff < tc_table c) (code_err ''TUNNEL_CONFIG_INVALID''))
     (collect (clear_dns env c)
     (collect (delete_rules env c) (\<lambda>failures.
      thenP (ignoreP (cmd env [''ip'', ''-4'', ''route'', ''flush'', ''table'', itoa_int (tc_table c)]))
     (collect (delete_link env (tc_interface c)) (\<lambda>fs.
      refuseP (fs \<noteq> []) (code_err (join_str '','' (sort fs)))) failures))) [])"

definition secure_temporary :: "'h tunnel_env \<Rightarrow> string \<Rightarrow> string \<Rightarrow> ('h, string) prog" where
  "secure_temporary env dir text_data =
     (let file = \<lambda>f. coded_step ''TUNNEL_SECRET_STAGE_FAILED'' (tv_file env f) in
      thenP (refuseP (dir = [] \<or> \<not> is_abs dir) (code_err ''TUNNEL_RUNTIME_DIR_INVALID''))
      (thenP (coded_step ''TUNNEL_RUNTIME_DIR_FAILED'' (tv_file env (Mkdir_all dir)))
      (thenP (coded_step ''TUNNEL_RUNTIME_DIR_FAILED'' (tv_file env (Chmod_dir dir)))
      (bindP (coded ''TUNNEL_SECRET_STAGE_FAILED'' (tv_file env (Create_temp dir))) (\<lambda>path.
       failing (ignoreP (tv_file env (Remove_file path)))
       (deferP (ignoreP (tv_file env (File_close path)))
         (thenP (file (File_chmod path))
         (thenP (file (File_write path text_data))
         (thenP (file (File_sync path))
         (thenP (file (File_close path))
         (ret path)))))))))))"

text \<open>The statements of \<^verbatim>\<open>Up\<close> after the secrets are staged.\<close>

definition configure_tunnel :: "'h tunnel_env \<Rightarrow> tunnel_config \<Rightarrow> string \<Rightarrow> ('h, unit) prog" where
  "configure_tunnel env c path =
     (let i = tc_interface c in
      thenP (coded_step ''TUNNEL_WIREGUARD_CONFIG_FAILED'' (cmd env [''wg'', ''setconf'', i, path]))
      (thenP (forP (\<lambda>p. coded_step ''TUNNEL_ADDRESS_FAILED'' (cmd env [''ip'', ''-4'', ''address'', ''replace'', prefix_string p, ''dev'', i]))
        (tc_addresses c))
      (thenP (if tc_mtu c \<noteq> 0
          then coded_step ''TUNNEL_MTU_FAILED'' (cmd env [''ip'', ''link'', ''set'', ''dev'', i, ''mtu'', itoa_int (tc_mtu c)]) else ret ())
      (thenP (coded_step ''TUNNEL_FWMARK_FAILED'' (cmd env [''wg'', ''set'', i, ''fwmark'', tc_fwmark c]))
      (thenP (coded_step ''TUNNEL_LINK_UP_FAILED'' (cmd env [''ip'', ''link'', ''set'', ''dev'', i, ''up'']))
      (thenP (delete_rules env c)
      (thenP (ensure_priorities_available env)
      (thenP (coded_step ''TUNNEL_ROUTE_FAILED''
        (cmd env [''ip'', ''-4'', ''route'', ''replace'', ''default'', ''dev'', i, ''table'', itoa_int (tc_table c)]))
      (thenP (coded_step ''TUNNEL_MAIN_RULE_FAILED'' (cmd env add_main_rule))
      (thenP (coded_step ''TUNNEL_VPN_RULE_FAILED'' (cmd env (add_vpn_rule c)))
      (configure_dns env c)))))))))))"

definition ensure_link :: "'h tunnel_env \<Rightarrow> string \<Rightarrow> ('h, unit) prog" where
  "ensure_link env i =
     elseP (cmd env (show_link i))
       (\<lambda>_. coded_step ''TUNNEL_LINK_CREATE_FAILED'' (cmd env [''ip'', ''link'', ''add'', ''dev'', i, ''type'', ''wireguard'']))
       (\<lambda>_. ret ())"

definition tunnel_up :: "'h tunnel_env \<Rightarrow> tunnel_config \<Rightarrow> ('h, unit) prog" where
  "tunnel_up env c =
     thenP (check (validate_tunnel c))
     (thenP (check_ownership_conflicts env c)
     (thenP (ensure_link env (tc_interface c))
     (failing (tunnel_down env c)
       (bindP (of_result (wg_set_config (tc_profile c) (tc_endpoint c))) (\<lambda>text_data.
        bindP (secure_temporary env (tc_runtime_dir c) text_data) (\<lambda>path.
        deferP (ignoreP (tv_file env (Remove_file path))) (configure_tunnel env c path)))))))"

section \<open>Status\<close>

record tunnel_view =
  ts_interface :: string
  ts_active :: bool
  ts_healthy :: bool
  ts_latest :: int

text \<open>\<^verbatim>\<open>time.Unix\<close> counts from the year 1 in 64 bits, so that a count of seconds far in the future wraps.\<close>

definition unix_seconds :: "int \<Rightarrow> int" where
  "unix_seconds s = sint (word_of_int (s + 62135596800) :: 64 word) - 62135596800"

definition latest_handshake :: "string \<Rightarrow> int" where
  "latest_handshake out =
     foldl (\<lambda>latest line. case Go_Base.fields line of [_, t] \<Rightarrow> max latest (parse_int_or t) | _ \<Rightarrow> latest) 0 (split_on (CHR 0x0A) out)"

text \<open>\<open>now\<close> is the clock, in nanoseconds.\<close>

definition tunnel_status :: "'h tunnel_env \<Rightarrow> int \<Rightarrow> tunnel_config \<Rightarrow> ('h, tunnel_view) prog" where
  "tunnel_status env now c =
     thenP (check (validate_tunnel c))
     (elseP (cmd env [''wg'', ''show'', tc_interface c, ''latest-handshakes''])
       (\<lambda>_. ret \<lparr>ts_interface = tc_interface c, ts_active = False, ts_healthy = False, ts_latest = 0\<rparr>)
       (\<lambda>out. let latest = latest_handshake out in
         ret \<lparr>ts_interface = tc_interface c, ts_active = True,
               ts_healthy = (0 < latest \<and> now - unix_seconds latest * 1000000000 \<le> 180000000000), ts_latest = latest\<rparr>))"

end
