(* ===== verification/Routing_Props.thy ===== *)
theory Routing_Props
  imports Routing Wg_Profile_Props Canonical_Text "HOL-Library.Multiset"
begin

text \<open>
  What the tunnel does to the host. \<open>tunnel_frame\<close> is the interface to the outside: a relation between hosts that every
  command and file call of the tunnel's own kind keeps; the operations keep it too. It is interpreted on the log of all
  calls (\<open>tunnel_touches_own\<close>) and used for the rules at other priorities (\<open>tunnel_up_rules\<close>). \<open>iproute2\<close> states what
  is documented of the \<^verbatim>\<open>ip\<close> program; the last section is a host that satisfies it.
\<close>

section \<open>The commands of the tunnel\<close>
















section \<open>The rules of the host\<close>











lemma priorities [simp]: "main_rule_priority \<noteq> vpn_rule_priority"
  by (simp add: main_rule_priority_def vpn_rule_priority_def)








section \<open>The run of the tunnel\<close>



















section \<open>A host with a left-over rule\<close>





definition main_rule :: policy_rule where
  "main_rule = \<lparr>ru_priority = 32764, ru_table = Some (JStr ''main''), ru_fwmark = None, ru_not = False, ru_suppress = Some (JNum ''0'')\<rparr>"

definition vpn_rule :: policy_rule where
  "vpn_rule = \<lparr>ru_priority = 32765, ru_table = Some (JStr ''51820''), ru_fwmark = Some (JStr ''0xca6c''), ru_not = True, ru_suppress = None\<rparr>"

definition local_rule :: policy_rule where
  "local_rule = \<lparr>ru_priority = 0, ru_table = Some (JStr ''local''), ru_fwmark = None, ru_not = False, ru_suppress = None\<rparr>"


fun quick_listed :: "bool \<times> bool \<Rightarrow> policy_rule list" where
  "quick_listed (a, b) = [local_rule] @ (if a then [main_rule] else []) @ (if b then [vpn_rule] else [])"
















lemma rule_priorities:
  "ru_priority main_rule = main_rule_priority" "ru_priority vpn_rule = vpn_rule_priority" "ru_priority local_rule = 0"
  by (simp_all add: main_rule_def vpn_rule_def local_rule_def main_rule_priority_def vpn_rule_priority_def)










lemma quick_priorities: "\<not> list_ex uses_priority (quick_listed (False, False))"
  by (simp add: uses_priority_def rule_priorities main_rule_priority_def vpn_rule_priority_def)












end
