(* ===== verification/Spec2Isabelle.thy ===== *)
theory Spec2Isabelle
  imports Divergences Claims_Props Backend_Props Collision_Props Manager_Protocol
    Row_Types Canonical_Text Boot_Props Fail_Closed Setup_Props Wg_Profile_Props Intent_Props Routing_Props
begin

text \<open>
  A verification development of nft-firewall-V2, a firewall controller for Linux hosts whose traffic has to leave
  through a WireGuard tunnel. The program turns a declarative configuration into an nftables script, puts it into
  force in a transaction that is rolled back unless it is confirmed, keeps what is in force over reboots, and sets
  a host up for all this.

  \<^bold>\<open>The program and its theories.\<close> Paths are under \<^verbatim>\<open>src/internal/\<close>.
  \<^item> Go itself: \<open>Go_Base\<close> (errors, loops, strings, sorting), \<open>Netip\<close>, \<open>Netip_Text\<close> and \<open>Go_Net\<close> (addresses and
    prefixes, their texts, lines, numbers), \<open>Json\<close> and \<open>Json_Fuel\<close> (\<^verbatim>\<open>encoding/json\<close>), \<open>Effects\<close> (functions that
    read and change a world and return an error; \<open>wp\<close> and the locale \<open>frame_order\<close>), \<open>Commands\<close> (driving other
    programs).
  \<^item> Configuration and policy: \<open>Config\<close> is \<^verbatim>\<open>config/config.go\<close>, the documents and \<^verbatim>\<open>Validate\<close>; \<open>Policy\<close> is
    \<^verbatim>\<open>policy/model.go\<close>, the decision function of the operator; \<open>Intent\<close> is \<^verbatim>\<open>intent/intent.go\<close>, the small document of
    a managed host and its expansion into a configuration; \<open>Wg_Profile\<close> is \<^verbatim>\<open>wgconfig/profile.go\<close>.
  \<^item> The compiler, \<^verbatim>\<open>compiler/compiler.go\<close>: \<open>Compiler\<close> has the functions that emit text, \<open>Ruleset\<close> the same chains as
    structured rules, and \<open>Enforcement\<close> says what the chains accept.
  \<^item> The registry of ingress identities, \<^verbatim>\<open>provenance/ledger.go\<close>: \<open>Provenance\<close>.
  \<^item> The store, \<^verbatim>\<open>state/store.go\<close>: \<open>World\<close> has its tables and files, \<open>Claims\<close> the block and allow claims, \<open>Generations\<close>
    the generations; \<open>Active\<close> is \<^verbatim>\<open>state/active.go\<close> and \<^verbatim>\<open>boot.go\<close>, the immutable snapshots and the enforcement pointer.
  \<^item> The kernel, \<^verbatim>\<open>nft/\<close>: \<open>Backend\<close> validates and runs scripts, \<open>Inspect\<close> reads the tables back (integrity,
    fingerprint), \<open>Collision\<close> audits the rules of other programs and inspects the status.
  \<^item> The controller: \<open>Reconcile\<close> is \<^verbatim>\<open>reconcile/manager.go\<close> and \<^verbatim>\<open>recovery.go\<close>: a generation is applied, confirmed or
    rolled back, and restored at boot.
  \<^item> The setup of a host: \<open>Setup\<close> is \<^verbatim>\<open>setup/engine.go\<close> and \<^verbatim>\<open>journal.go\<close>, \<open>Routing\<close> is \<^verbatim>\<open>routing/manager.go\<close>, the
    tunnel and its policy routing.

  The state of a component is a record with the fields of the source, a table a list of row records, a file its bytes or
  absent. A function with an error result is \<open>goerr + 'a\<close>, a method that reads and changes state a program of \<open>Effects\<close>;
  every early return is a branch. A loop is a fold or a recursion of its own; a handler keeps the order of its statements.

  \<^bold>\<open>What is shown.\<close>
  \<^item> \<open>Protocol\<close>, \<open>Store_Protocol\<close>, \<open>Manager_Protocol\<close>: the controller refines an abstract protocol of generations; from
    that follow the invariant of every store it produces and that a final status is kept. \<open>Row_Types\<close>: the columns stay
    of their type. \<open>Boot_Props\<close>: readiness is reported of a committed generation that the pointer names, and the pointer
    read is the one published. \<open>Fail_Closed\<close>: nothing is installed while the audit of foreign rules does not pass.
  \<^item> \<open>Backend_Props\<close>: which scripts an operation may run, described independently of the code that builds them, and what
    an error of \<^verbatim>\<open>Apply\<close> says. \<open>Collision_Props\<close>: audited foreign rules cannot see or change the reserved byte of the
    conntrack mark, over a semantics of expressions that is independent of the scanner. \<open>Canonical_Text\<close>: canonical JSON is
    read back as it was printed.
  \<^item> \<open>Enforcement\<close>: default deny, the kill switch on the uplink, blocked addresses, forwarding, and that the text of the
    script is the printed structured ruleset. \<open>Policy\<close>: disjoint zones, deny before allow, the shape of an accepted
    configuration. \<open>Intent_Props\<close>: what a managed host exposes, and that the networks of Docker are apart.
  \<^item> \<open>Claims_Inv\<close>, \<open>Claims_Props\<close>: the invariant of the tables, the publication protocol, limits, replacement and
    atomicity. \<open>Provenance\<close>: identifiers are permanent, and what a reservation and a merge leave.
  \<^item> \<open>Setup_Props\<close>: every change of the host is announced in the journal first, a committed generation is not rolled
    back, a success is a complete run, and no journal is lost. \<open>Routing_Props\<close>: the tunnel runs its own commands only, and
    the rules after \<^verbatim>\<open>Up\<close> are exact. \<open>Wg_Profile_Props\<close>: the round trip of profiles.
  \<^item> \<open>Divergences\<close> and \<open>expiry_text_order\<close> of \<open>Claims_Props\<close>: inputs on which parts of the program disagree with each
    other or with what their messages promise. The theorems above state the exceptions that these show: addresses of
    a zone that is wider than its private base address, networks that \<^verbatim>\<open>netip.ParsePrefix\<close> does not read.

  \<^bold>\<open>The outside.\<close> Code that is not in the repository is a parameter of the environment records: the \<^verbatim>\<open>nft\<close> process, SQLite
  and the file system (every call may fail where \<open>fault\<close> says so, which covers a crash between any two calls), the clock, the
  boot id, SHA-256, the JSON text of snapshots and journals, the order in which Go iterates over a map, the executor of
  the setup, and the \<^verbatim>\<open>ip\<close>, \<^verbatim>\<open>wg\<close> and \<^verbatim>\<open>resolvectl\<close> programs. Theorems that need more name it:
  \<open>reads_only\<close> (only \<^verbatim>\<open>nft --file\<close> changes the ruleset), \<open>honest_sql\<close> (a failing call of SQLite is not the
  error of an empty result), \<open>calm\<close> (the callbacks of the controller leave generations and state files alone),
  \<open>nft_kernel\<close> (the documented meaning of the matches that the compiler emits),
  \<open>iproute2\<close> (what adding, deleting and listing a rule does). Each has a concrete instance in a witness.

  \<^bold>\<open>Fuel and bounds.\<close> The parser of JSON takes as fuel one more than the length of the text; \<open>Json_Fuel\<close> shows that this is
  enough. The scanner of foreign expressions stops at the node and depth limits of the source. Addresses are words of 32 and 128 bits,
  provenance identifiers words of 8, marks of 32; row ids and revisions are numbers without bound where SQLite holds 63 bits.

  \<^bold>\<open>Limits.\<close> A transaction of SQLite that is not committed leaves its tables as they were, and a \<^verbatim>\<open>COMMIT\<close> that reports an
  error is a rollback; this is in the definitions. Packets are judged by the structured rules; that their text is the script is
  proved, but a zone network with a line break splits its rule in two (\<open>newline_splits_rule\<close>). Calls of one process are ordered
  by its mutex, so concurrency is the interleaving of whole operations, or of calls in the publication protocol.

  \<^bold>\<open>Not modelled.\<close> Code that is input and output with no decision of its own, or whose decisions are those of the components
  above: the daemon and its loops, the control API and the commands, TOML, the checks of owners and modes of files, the executor of
  the setup with its units and boot files, Docker and the downloads of feeds, discovery, backups of the host, the
  migration of an old store. The manifest lists them one by one.
\<close>

end
